(* ===== verification/Prelude.thy ===== *)
theory Prelude
  imports Main "HOL-Library.Monad_Syntax"
begin

text \<open>
  Shared vocabulary of the development.

  A C++ function that can abort (a failed \<open>assert\<close>) or run into undefined behaviour (an
  index past the end of a \<open>vector\<close>, a null dereference, \<open>pop_back\<close> on an empty
  \<open>vector\<close>) is modelled with result type \<open>'a option\<close>; \<open>None\<close> is that failure and
  nothing else.  Functions that cannot fail are modelled by total functions.  The
  \<open>do\<close>-notation of the library strings such calls together.

  \<open>std::vector\<close> is \<open>list\<close>; \<open>push_back\<close> appends on the right, \<open>erase(begin()+i)\<close> is
  \<open>erase_at i\<close>, \<open>v[i]\<close> with its bounds obligation is \<open>vec_get\<close>.
\<close>

named_theorems aborts \<open>rules about functions with result \<open>'a option\<close>\<close>

section \<open>Assertions and vector accesses\<close>

definition assert_opt :: "bool \<Rightarrow> unit option" where
  "assert_opt b = (if b then Some () else None)"

lemma assert_opt_True [simp]: "assert_opt True = Some ()"
  by (simp add: assert_opt_def)

lemma assert_opt_False [simp]: "assert_opt False = None"
  by (simp add: assert_opt_def)

lemma assert_opt_eq_Some [simp, aborts]: "assert_opt b = Some u \<longleftrightarrow> b"
  by (simp add: assert_opt_def)

lemma assert_opt_bind_Some [simp, aborts]:
  "assert_opt b \<bind> f = Some y \<longleftrightarrow> b \<and> f () = Some y"
  by (simp add: assert_opt_def)

definition vec_get :: "'a list \<Rightarrow> nat \<Rightarrow> 'a option" where
  "vec_get xs i = (if i < length xs then Some (xs ! i) else None)"

lemma vec_get_Some [simp, aborts]: "vec_get xs i = Some x \<longleftrightarrow> i < length xs \<and> xs ! i = x"
  by (auto simp: vec_get_def)

lemma vec_get_inside [simp]: "i < length xs \<Longrightarrow> vec_get xs i = Some (xs ! i)"
  by (simp add: vec_get_def)

definition vec_set :: "'a list \<Rightarrow> nat \<Rightarrow> 'a \<Rightarrow> 'a list option" where
  "vec_set xs i x = (if i < length xs then Some (xs[i := x]) else None)"

lemma vec_set_Some [simp, aborts]: "vec_set xs i x = Some ys \<longleftrightarrow> i < length xs \<and> ys = xs[i := x]"
  by (auto simp: vec_set_def)

lemma vec_set_inside [simp]: "i < length xs \<Longrightarrow> vec_set xs i x = Some (xs[i := x])"
  by (simp add: vec_set_def)

definition erase_at :: "nat \<Rightarrow> 'a list \<Rightarrow> 'a list" where
  "erase_at i xs = take i xs @ drop (Suc i) xs"

lemma set_erase_at_subset: "set (erase_at i xs) \<subseteq> set xs"
  by (auto simp: erase_at_def dest: in_set_takeD in_set_dropD)

lemma length_erase_at: "i < length xs \<Longrightarrow> length (erase_at i xs) = length xs - 1"
  by (auto simp: erase_at_def)

lemma bind_eq_SomeD [aborts]: "m \<bind> f = Some y \<Longrightarrow> \<exists>x. m = Some x \<and> f x = Some y"
  by (cases m) auto

section \<open>Loops that search a vector\<close>

text \<open>
  The recurring loop \<open>for (i = 0; i < v.size(); i++) if (p(v[i])) return i; return -1;\<close>.
\<close>

fun find_pos_from :: "('a \<Rightarrow> bool) \<Rightarrow> 'a list \<Rightarrow> int \<Rightarrow> int" where
  "find_pos_from p [] i = - 1"
| "find_pos_from p (x # xs) i = (if p x then i else find_pos_from p xs (i + 1))"

abbreviation find_pos :: "('a \<Rightarrow> bool) \<Rightarrow> 'a list \<Rightarrow> int" where
  "find_pos p xs \<equiv> find_pos_from p xs 0"

lemma find_pos_from_absent: "0 \<le> i \<Longrightarrow> find_pos_from p xs i = - 1 \<longleftrightarrow> (\<forall>x \<in> set xs. \<not> p x)"
  by (induction xs arbitrary: i) auto

lemma find_pos_from_bounds:
  "0 \<le> i \<Longrightarrow> find_pos_from p xs i = - 1 \<or>
     i \<le> find_pos_from p xs i \<and> find_pos_from p xs i < i + int (length xs)"
proof (induction xs arbitrary: i)
  case (Cons x xs)
  from Cons.prems have "find_pos_from p xs (i + 1) = - 1 \<or>
      i + 1 \<le> find_pos_from p xs (i + 1) \<and>
      find_pos_from p xs (i + 1) < i + 1 + int (length xs)"
    by (intro Cons.IH) simp
  then show ?case by (simp add: algebra_simps) linarith
qed simp

lemma find_pos_from_found:
  "0 \<le> i \<Longrightarrow> find_pos_from p xs i \<noteq> - 1 \<Longrightarrow>
     nat (find_pos_from p xs i - i) < length xs \<and> p (xs ! nat (find_pos_from p xs i - i))"
proof (induction xs arbitrary: i)
  case (Cons x xs)
  show ?case
  proof (cases "p x")
    case False
    let ?r = "find_pos_from p xs (i + 1)"
    from False Cons.prems have ne: "?r \<noteq> - 1" by simp
    with Cons.prems Cons.IH [of "i + 1"]
    have ih: "nat (?r - (i + 1)) < length xs \<and> p (xs ! nat (?r - (i + 1)))" by simp
    from ne Cons.prems find_pos_from_bounds [of "i + 1" p xs] have "i + 1 \<le> ?r" by auto
    then have "nat (?r - i) = Suc (nat (?r - (i + 1)))" by simp
    with ih False show ?thesis by simp
  qed simp
qed simp

lemma find_pos_absent [simp]: "find_pos p xs = - 1 \<longleftrightarrow> (\<forall>x \<in> set xs. \<not> p x)"
  by (simp add: find_pos_from_absent)

lemma find_pos_found:
  "find_pos p xs \<noteq> - 1 \<Longrightarrow> nat (find_pos p xs) < length xs \<and> p (xs ! nat (find_pos p xs))"
  using find_pos_from_found [of 0 p xs] by simp

lemma find_pos_nonneg: "find_pos p xs \<noteq> - 1 \<Longrightarrow> 0 \<le> find_pos p xs"
  using find_pos_from_bounds [of 0 p xs] by auto

section \<open>Appending without repetition\<close>

text \<open>The shape of \<open>add_variable_to_set\<close>, \<open>Effect::read_var\<close>, \<open>VectorFilter::add\<close>.\<close>

definition add_new :: "'a \<Rightarrow> 'a list \<Rightarrow> 'a list" where
  "add_new x xs = (if x \<in> set xs then xs else xs @ [x])"

lemma set_add_new [simp]: "set (add_new x xs) = insert x (set xs)"
  by (auto simp: add_new_def)

lemma distinct_add_new [simp]: "distinct (add_new x xs) \<longleftrightarrow> distinct xs"
  by (auto simp: add_new_def)

lemma add_new_member [simp]: "x \<in> set xs \<Longrightarrow> add_new x xs = xs"
  by (simp add: add_new_def)

section \<open>\<open>std::map\<close> as a sorted association list\<close>

fun map_put :: "'k :: linorder \<Rightarrow> 'v \<Rightarrow> ('k \<times> 'v) list \<Rightarrow> ('k \<times> 'v) list" where
  "map_put k v [] = [(k, v)]"
| "map_put k v ((k1, v1) # m) =
     (if k < k1 then (k, v) # (k1, v1) # m
      else if k = k1 then (k, v) # m else (k1, v1) # map_put k v m)"

definition map_of_pairs :: "('k :: linorder \<times> 'v) list \<Rightarrow> ('k \<times> 'v) list" where
  "map_of_pairs kvs = foldl (\<lambda>m (k, v). map_put k v m) [] kvs"

lemma map_of_map_put [simp]: "map_of (map_put k v m) = (map_of m)(k \<mapsto> v)"
  by (induction k v m rule: map_put.induct) (auto simp: fun_eq_iff)

lemma keys_map_put [simp]: "fst ` set (map_put k v m) = insert k (fst ` set m)"
  by (induction k v m rule: map_put.induct) auto

lemma map_put_sorted:
  "sorted (map fst m) \<Longrightarrow> distinct (map fst m) \<Longrightarrow>
     sorted (map fst (map_put k v m)) \<and> distinct (map fst (map_put k v m))"
proof (induction k v m rule: map_put.induct)
  case (2 k v k1 v1 m)
  then have ih: "k1 < k \<Longrightarrow> sorted (map fst (map_put k v m)) \<and> distinct (map fst (map_put k v m))"
    by auto
  from 2(2) have le: "\<forall>x \<in> fst ` set m. k1 \<le> x" by auto
  from 2(3) have ne: "k1 \<notin> fst ` set m" by auto
  consider "k < k1" | "k = k1" | "k1 < k" by fastforce
  then show ?case
  proof cases
    case 1
    then have "\<forall>x \<in> fst ` set m. k < x" using le by fastforce
    with 1 2(2,3) show ?thesis by auto
  next
    case 2
    with \<open>sorted (map fst ((k1, v1) # m))\<close> \<open>distinct (map fst ((k1, v1) # m))\<close> show ?thesis by simp
  next
    case 3
    have "set (map fst (map_put k v m)) = insert k (fst ` set m)"
      using keys_map_put [of k v m] by simp
    with 3 ih [OF 3] le ne show ?thesis by auto
  qed
qed simp

lemma map_put_values: "snd ` set (map_put k v m) \<subseteq> insert v (snd ` set m)"
  by (induction k v m rule: map_put.induct) auto

section \<open>Loops with an early return\<close>

text \<open>\<open>for (x : xs) if (p(x)) return true; return false;\<close> and its dual, where \<open>p\<close> may abort.\<close>

fun any_opt :: "('a \<Rightarrow> bool option) \<Rightarrow> 'a list \<Rightarrow> bool option" where
  "any_opt p [] = Some False"
| "any_opt p (x # xs) = do { b \<leftarrow> p x; if b then Some True else any_opt p xs }"

fun every_opt :: "('a \<Rightarrow> bool option) \<Rightarrow> 'a list \<Rightarrow> bool option" where
  "every_opt p [] = Some True"
| "every_opt p (x # xs) = do { b \<leftarrow> p x; if b then every_opt p xs else Some False }"

text \<open>A loop that appends to its result, and one that threads a state.\<close>

fun map_opt :: "('a \<Rightarrow> 'b option) \<Rightarrow> 'a list \<Rightarrow> 'b list option" where
  "map_opt f [] = Some []"
| "map_opt f (x # xs) = do { y \<leftarrow> f x; ys \<leftarrow> map_opt f xs; Some (y # ys) }"

fun fold_opt :: "('a \<Rightarrow> 's \<Rightarrow> 's option) \<Rightarrow> 'a list \<Rightarrow> 's \<Rightarrow> 's option" where
  "fold_opt f [] s = Some s"
| "fold_opt f (x # xs) s = do { s1 \<leftarrow> f x s; fold_opt f xs s1 }"

lemma any_opt_cong [fundef_cong]:
  "xs = ys \<Longrightarrow> (\<And>x. x \<in> set ys \<Longrightarrow> p x = q x) \<Longrightarrow> any_opt p xs = any_opt q ys"
proof (induction xs arbitrary: ys)
  case (Cons x xs)
  then show ?case by (cases "q x") auto
qed simp

lemma every_opt_cong [fundef_cong]:
  "xs = ys \<Longrightarrow> (\<And>x. x \<in> set ys \<Longrightarrow> p x = q x) \<Longrightarrow> every_opt p xs = every_opt q ys"
proof (induction xs arbitrary: ys)
  case (Cons x xs)
  then show ?case by (cases "q x") auto
qed simp

lemma map_opt_cong [fundef_cong]:
  "xs = ys \<Longrightarrow> (\<And>x. x \<in> set ys \<Longrightarrow> f x = g x) \<Longrightarrow> map_opt f xs = map_opt g ys"
  by (induction xs arbitrary: ys) auto

lemma fold_opt_cong [fundef_cong]:
  "xs = ys \<Longrightarrow> s = t \<Longrightarrow> (\<And>x u. x \<in> set ys \<Longrightarrow> f x u = g x u) \<Longrightarrow> fold_opt f xs s = fold_opt g ys t"
proof (induction xs arbitrary: ys s t)
  case (Cons x xs)
  then show ?case by (cases "g x t") auto
qed auto

lemma any_opt_total: "(\<And>x. x \<in> set xs \<Longrightarrow> p x \<noteq> None) \<Longrightarrow> any_opt p xs \<noteq> None"
proof (induction xs)
  case (Cons x xs)
  from Cons.prems [of x] obtain y where "p x = Some y" by auto
  with Cons show ?case by auto
qed simp

lemma any_opt_pure [simp]: "any_opt (\<lambda>x. Some (p x)) xs = Some (\<exists>x \<in> set xs. p x)"
  by (induction xs) auto

lemma any_opt_Some_True: "any_opt p xs = Some True \<Longrightarrow> \<exists>x \<in> set xs. p x = Some True"
  by (induction xs) (auto simp: bind_eq_Some_conv split: if_splits)

lemma any_opt_Some_False: "any_opt p xs = Some False \<longleftrightarrow> (\<forall>x \<in> set xs. p x = Some False)"
  by (induction xs) (auto simp: bind_eq_Some_conv split: if_splits)

lemma every_opt_Some_True: "every_opt p xs = Some True \<longleftrightarrow> (\<forall>x \<in> set xs. p x = Some True)"
  by (induction xs) (auto simp: bind_eq_Some_conv split: if_splits)

lemma map_opt_Some: "map_opt f xs = Some ys \<longleftrightarrow> list_all2 (\<lambda>x y. f x = Some y) xs ys"
  by (induction xs arbitrary: ys) (auto simp: bind_eq_Some_conv list_all2_Cons1)

lemma map_opt_total: "(\<And>x. x \<in> set xs \<Longrightarrow> f x \<noteq> None) \<Longrightarrow> map_opt f xs \<noteq> None"
proof (induction xs)
  case (Cons x xs)
  from Cons.prems [of x] obtain y where "f x = Some y" by auto
  with Cons show ?case by auto
qed simp

lemma fold_opt_append: "fold_opt f (xs @ ys) s = fold_opt f xs s \<bind> fold_opt f ys"
  by (induction xs arbitrary: s) (auto split: Option.bind_splits)

text \<open>The invariant rule of such a loop.\<close>

lemma fold_opt_invariant:
  assumes "fold_opt f xs s = Some t" "I s"
    and "\<And>x s t. x \<in> set xs \<Longrightarrow> I s \<Longrightarrow> f x s = Some t \<Longrightarrow> I t"
  shows "I t"
  using assms
proof (induction xs arbitrary: s)
  case (Cons x xs)
  then obtain s1 where s1: "f x s = Some s1" "fold_opt f xs s1 = Some t"
    by (auto simp: bind_eq_Some_conv)
  have "I s1" by (rule Cons.prems(3) [OF _ Cons.prems(2) s1(1)]) simp
  with Cons.IH [OF s1(2)] Cons.prems(3) show ?case by (metis list.set_intros(2))
qed simp

section \<open>Calls that do not abort\<close>

definition runs :: "'a option \<Rightarrow> bool" where
  "runs m \<longleftrightarrow> m \<noteq> None"

named_theorems defined \<open>rules that show that a call does not abort\<close>

lemma runs_Some [defined, simp]: "runs (Some x)"
  by (simp add: runs_def)

lemma runs_None [simp]: "\<not> runs None"
  by (simp add: runs_def)

lemma runsI: "m = Some x \<Longrightarrow> runs m"
  by simp

lemma runsE: "runs m \<Longrightarrow> (\<And>x. m = Some x \<Longrightarrow> thesis) \<Longrightarrow> thesis"
  by (auto simp: runs_def)

lemma runs_bind [defined]: "runs m \<Longrightarrow> (\<And>x. m = Some x \<Longrightarrow> runs (f x)) \<Longrightarrow> runs (m \<bind> f)"
  by (auto elim: runsE)

lemma runs_map_option [defined]: "runs m \<Longrightarrow> runs (map_option f m)"
  by (simp add: runs_def)

lemma runs_if [defined]: "(b \<Longrightarrow> runs x) \<Longrightarrow> (\<not> b \<Longrightarrow> runs y) \<Longrightarrow> runs (if b then x else y)"
  by simp

lemma runs_Let [defined]: "runs (f x) \<Longrightarrow> runs (Let x f)"
  by simp

lemma runs_prod [defined]: "runs (f (fst x) (snd x)) \<Longrightarrow> runs (case x of (a, b) \<Rightarrow> f a b)"
  by (simp add: split_beta)

lemma runs_assert [defined]: "b \<Longrightarrow> runs (assert_opt b)"
  by simp

lemma runs_vec_get [defined]: "i < length xs \<Longrightarrow> runs (vec_get xs i)"
  by simp

lemma runs_any_opt [defined]: "(\<And>x. x \<in> set xs \<Longrightarrow> runs (p x)) \<Longrightarrow> runs (any_opt p xs)"
  by (simp add: runs_def any_opt_total)

lemma runs_every_opt [defined]: "(\<And>x. x \<in> set xs \<Longrightarrow> runs (p x)) \<Longrightarrow> runs (every_opt p xs)"
proof (induction xs)
  case (Cons x xs)
  then show ?case by (auto intro!: defined)
qed simp

lemma runs_map_opt [defined]: "(\<And>x. x \<in> set xs \<Longrightarrow> runs (f x)) \<Longrightarrow> runs (map_opt f xs)"
  by (simp add: runs_def map_opt_total)

lemma runs_fold_opt [defined]:
  assumes "\<And>x s. x \<in> set xs \<Longrightarrow> runs (f x s)"
  shows "runs (fold_opt f xs s)"
  using assms by (induction xs arbitrary: s) (auto intro!: runs_bind)

end
