(* ===== verification/Rand48.thy ===== *)
theory Rand48
  imports Prelude "HOL-Library.Word"
begin

text \<open>
  The bundled linear congruential generator (\<open>rand48/_rand48.c\<close>, \<open>lrand48.c\<close>,
  \<open>srand48.c\<close>) and the base class \<open>AbsRndNumGenerator\<close> on top of it.

  The state is three 16-bit limbs.  \<open>unsigned long\<close> is 64 bits wide and \<open>int\<close> 32 bits; the
  last accumulation adds products of \<open>unsigned short\<close> operands in \<open>int\<close> arithmetic, which
  can exceed \<open>INT_MAX\<close>: it is modelled as two's complement wrap-around at 32 bits followed by
  sign extension, which is what the supported compilers do.
\<close>

type_synonym limbs = "16 word \<times> 16 word \<times> 16 word"

record rand48_state =
  rs_seed :: limbs
  rs_mult :: limbs
  rs_add :: "16 word"

definition rand48_seed :: limbs where
  "rand48_seed = (0x330e, 0xabcd, 0x1234)"

definition rand48_mult :: limbs where
  "rand48_mult = (0xe66d, 0xdeec, 0x0005)"

definition rand48_add :: "16 word" where
  "rand48_add = 0x000b"

definition rand48_init :: rand48_state where
  "rand48_init = \<lparr>rs_seed = rand48_seed, rs_mult = rand48_mult, rs_add = rand48_add\<rparr>"

definition dorand48 :: "limbs \<Rightarrow> 16 word \<Rightarrow> limbs \<Rightarrow> limbs" where
  "dorand48 mult add xseed =
     (let (m0, m1, m2) = mult; (x0, x1, x2) = xseed;
          accu0 = (ucast m0 * ucast x0 + ucast add :: 64 word);
          temp0 = (ucast accu0 :: 16 word);
          accu1 = drop_bit 16 accu0 + (ucast m0 * ucast x1 + ucast m1 * ucast x0 :: 64 word);
          temp1 = (ucast accu1 :: 16 word);
          prods = (ucast m0 * ucast x2 + ucast m1 * ucast x1 + ucast m2 * ucast x0 :: 32 word);
          accu2 = drop_bit 16 accu1 + (scast prods :: 64 word)
      in (temp0, temp1, ucast accu2))"

definition lrand48 :: "rand48_state \<Rightarrow> 64 word \<times> rand48_state" where
  "lrand48 s =
     (let s' = s\<lparr>rs_seed := dorand48 (rs_mult s) (rs_add s) (rs_seed s)\<rparr>;
          (y0, y1, y2) = rs_seed s'
      in (push_bit 15 (ucast y2) + drop_bit 1 (ucast y1), s'))"

definition srand48 :: "64 word \<Rightarrow> rand48_state" where
  "srand48 seed =
     \<lparr>rs_seed = (0x330e, ucast seed, ucast (signed_drop_bit 16 seed)),
      rs_mult = rand48_mult, rs_add = rand48_add\<rparr>"

section \<open>The limbs implement arithmetic modulo 2^48\<close>

definition limbs_val :: "limbs \<Rightarrow> int" where
  "limbs_val x = (case x of (x0, x1, x2) \<Rightarrow> uint x0 + 2 ^ 16 * uint x1 + 2 ^ 32 * uint x2)"

lemma uint16_bounds: "0 \<le> uint (x :: 16 word)" "uint (x :: 16 word) \<le> 65535"
  using uint_bounded [of x] by simp_all

lemma uint16_mult_bound: "uint (x :: 16 word) * uint (y :: 16 word) \<le> 65535 * 65535"
  by (intro mult_mono uint16_bounds) simp_all

lemma limb_expand:
  fixes B :: int
  assumes "a = B * aq + ar" "c = aq + q" "c = B * cq + cr" "d = cq + p" "d = B * dq + dr"
  shows "a + B * q + B * B * p = (ar + B * cr + B * B * dr) + B * B * B * dq"
proof -
  from assms have q: "q = B * cq + cr - aq" and p: "p = B * dq + dr - cq" by simp_all
  show ?thesis unfolding assms(1) p q by (simp only: algebra_simps)
qed

lemma limb_accumulate:
  fixes a q p B :: int
  assumes "0 < B"
  shows "a mod B + B * ((a div B + q) mod B) + B * B * (((a div B + q) div B + p) mod B)
       = (a + B * q + B * B * p) mod (B * B * B)"
proof -
  define c where "c = a div B + q"
  define d where "d = c div B + p"
  have eq: "a + B * q + B * B * p =
      (a mod B + B * (c mod B) + B * B * (d mod B)) + B * B * B * (d div B)"
    by (rule limb_expand [where aq = "a div B" and cq = "c div B" and c = c and d = d])
      (simp_all add: c_def d_def)
  let ?r = "a mod B + B * (c mod B) + B * B * (d mod B)"
  have b: "a mod B \<le> B - 1" "c mod B \<le> B - 1" "d mod B \<le> B - 1"
    using assms by (simp_all add: pos_mod_bound [THEN zless_imp_add1_zle, simplified] zle_diff1_eq)
  have nn: "0 \<le> ?r" using assms by simp
  have "?r \<le> (B - 1) + B * (B - 1) + B * B * (B - 1)"
    using assms b by (intro add_mono mult_left_mono) simp_all
  also have "\<dots> < B * B * B" by (simp add: algebra_simps)
  finally have "?r mod (B * B * B) = ?r" using nn by (intro mod_pos_pos_trivial)
  then show ?thesis
    unfolding eq c_def [symmetric] d_def [symmetric] by simp
qed

text \<open>The three accumulations of \<open>_dorand48\<close>, read as integers: none of the first two wraps.\<close>

lemma accu0_value:
  "uint (ucast m0 * ucast x0 + ucast add :: 64 word)
     = uint (m0 :: 16 word) * uint (x0 :: 16 word) + uint (add :: 16 word)"
proof -
  have "uint m0 * uint x0 + uint add \<le> 65535 * 65535 + 65535"
    by (intro add_mono uint16_mult_bound uint16_bounds)
  moreover have "0 \<le> uint m0 * uint x0 + uint add" by simp
  moreover have "uint (ucast m0 * ucast x0 + ucast add :: 64 word)
      = (uint m0 * uint x0 + uint add) mod 2 ^ 64"
    by (simp add: uint_word_ariths uint_up_ucast is_up mod_simps)
  ultimately show ?thesis by simp
qed

lemma accu1_value:
  assumes "uint (a :: 64 word) = uint (m0 :: 16 word) * uint (x0 :: 16 word) + uint (add :: 16 word)"
  shows "uint (drop_bit 16 a + (ucast m0 * ucast x1 + ucast m1 * ucast x0) :: 64 word)
     = uint a div 2 ^ 16 + (uint m0 * uint (x1 :: 16 word) + uint (m1 :: 16 word) * uint x0)"
proof -
  let ?v = "uint a div 2 ^ 16 + (uint m0 * uint x1 + uint m1 * uint x0)"
  have "uint a \<le> 65535 * 65535 + 65535"
    unfolding assms by (intro add_mono uint16_mult_bound uint16_bounds)
  then have "?v \<le> (65535 * 65535 + 65535) div 2 ^ 16 + (65535 * 65535 + 65535 * 65535)"
    by (intro add_mono uint16_mult_bound zdiv_mono1) simp_all
  moreover have "0 \<le> ?v" by (simp add: pos_imp_zdiv_nonneg_iff)
  moreover have "uint (drop_bit 16 a + (ucast m0 * ucast x1 + ucast m1 * ucast x0) :: 64 word)
      = ?v mod 2 ^ 64"
    by (simp add: uint_word_ariths uint_up_ucast is_up mod_simps drop_bit_eq_div uint_div_distrib)
  ultimately show ?thesis by simp
qed

lemma sext_low_bits: "uint (scast (w :: 32 word) :: 64 word) mod 2 ^ 16 = uint w mod 2 ^ 16"
proof -
  have "uint (scast w :: 64 word) mod 2 ^ 16 = sint w mod 2 ^ 64 mod 2 ^ 16"
    by (simp only: scast_eq uint_word_of_int) simp
  also have "\<dots> = sint w mod 2 ^ 16"
    by (simp add: mod_mod_cancel)
  also have "\<dots> = sint w mod 2 ^ 32 mod 2 ^ 16"
    by (simp add: mod_mod_cancel)
  also have "sint w mod 2 ^ 32 = uint w"
    using uint_sint [of w] by (simp add: take_bit_eq_mod)
  finally show ?thesis .
qed

lemma prods_low_bits:
  "uint (ucast m0 * ucast x2 + ucast m1 * ucast x1 + ucast m2 * ucast x0 :: 32 word) mod 2 ^ 16
     = (uint (m0 :: 16 word) * uint (x2 :: 16 word) + uint (m1 :: 16 word) * uint (x1 :: 16 word)
        + uint (m2 :: 16 word) * uint (x0 :: 16 word)) mod 2 ^ 16"
  by (simp add: uint_word_ariths uint_up_ucast is_up mod_simps mod_mod_cancel)

lemma accu2_value:
  "uint (ucast (drop_bit 16 a + scast p :: 64 word) :: 16 word)
     = (uint (a :: 64 word) div 2 ^ 16 + uint (p :: 32 word)) mod 2 ^ 16"
proof -
  have "uint (ucast (drop_bit 16 a + scast p :: 64 word) :: 16 word)
      = (uint a div 2 ^ 16 + uint (scast p :: 64 word)) mod 2 ^ 64 mod 2 ^ 16"
    by (simp add: unsigned_ucast_eq take_bit_eq_mod uint_word_ariths drop_bit_eq_div uint_div_distrib)
  also have "\<dots> = (uint a div 2 ^ 16 + uint (scast p :: 64 word) mod 2 ^ 16) mod 2 ^ 16"
    by (simp add: mod_mod_cancel mod_simps)
  finally show ?thesis by (simp only: sext_low_bits mod_simps)
qed

lemma ucast_64_16: "uint (ucast (a :: 64 word) :: 16 word) = uint a mod 2 ^ 16"
  by (simp add: unsigned_ucast_eq take_bit_eq_mod)

text \<open>
  C1: one step of \<open>_dorand48\<close>, with its 16-bit limbs, its truncations and its 32-bit products,
  computes exactly the recurrence X' = (mult * X + add) mod 2^48 on the 48-bit number the limbs
  stand for, for every multiplier, increment and seed.
\<close>

theorem dorand48_lcg:
  "limbs_val (dorand48 mult add x) = (limbs_val mult * limbs_val x + uint add) mod 2 ^ 48"
proof -
  obtain m0 m1 m2 where m: "mult = (m0, m1, m2)" by (cases mult)
  obtain x0 x1 x2 where x: "x = (x0, x1, x2)" by (cases x)
  define a0 :: "64 word" where "a0 = ucast m0 * ucast x0 + ucast add"
  define a1 :: "64 word" where
    "a1 = drop_bit 16 a0 + (ucast m0 * ucast x1 + ucast m1 * ucast x0)"
  define P :: "32 word" where "P = ucast m0 * ucast x2 + ucast m1 * ucast x1 + ucast m2 * ucast x0"
  define a where "a = uint m0 * uint x0 + uint add"
  define q where "q = uint m0 * uint x1 + uint m1 * uint x0"
  define p where "p = uint m0 * uint x2 + uint m1 * uint x1 + uint m2 * uint x0"
  have a0: "uint a0 = a" unfolding a0_def a_def by (rule accu0_value)
  have a1: "uint a1 = a div 2 ^ 16 + q"
    unfolding a1_def q_def using accu1_value [OF a0 [unfolded a_def]] a0 by simp
  have P: "uint P mod 2 ^ 16 = p mod 2 ^ 16" unfolding P_def p_def by (rule prods_low_bits)
  have l2: "uint (ucast (drop_bit 16 a1 + scast P :: 64 word) :: 16 word)
      = ((a div 2 ^ 16 + q) div 2 ^ 16 + p) mod 2 ^ 16"
    unfolding accu2_value a1 using P by (metis mod_add_right_eq)
  have d: "dorand48 mult add x = (ucast a0, ucast a1, ucast (drop_bit 16 a1 + scast P :: 64 word))"
    by (simp add: dorand48_def m x Let_def a0_def a1_def P_def)
  have "limbs_val (dorand48 mult add x)
      = a mod 2 ^ 16 + 2 ^ 16 * ((a div 2 ^ 16 + q) mod 2 ^ 16)
        + 2 ^ 16 * 2 ^ 16 * (((a div 2 ^ 16 + q) div 2 ^ 16 + p) mod 2 ^ 16)"
    by (simp only: d limbs_val_def prod.case l2 ucast_64_16 [of a0] ucast_64_16 [of a1] a0 a1) simp
  also have "\<dots> = (a + 2 ^ 16 * q + 2 ^ 16 * 2 ^ 16 * p) mod (2 ^ 16 * 2 ^ 16 * 2 ^ 16)"
    by (rule limb_accumulate) simp
  also have "\<dots> = (limbs_val mult * limbs_val x + uint add) mod 2 ^ 48"
  proof -
    have "limbs_val mult * limbs_val x + uint add
        = (a + 2 ^ 16 * q + 2 ^ 16 * 2 ^ 16 * p)
          + 2 ^ 48 * (uint m1 * uint x2 + uint m2 * uint x1 + 2 ^ 16 * (uint m2 * uint x2))"
      by (simp add: limbs_val_def m x a_def q_def p_def algebra_simps)
    then show ?thesis by (simp only: mod_mult_self2) simp
  qed
  finally show ?thesis .
qed


lemma limbs_val_nonneg: "0 \<le> limbs_val x"
  by (auto simp: limbs_val_def split: prod.splits)

lemma limbs_div:
  fixes a b c :: int
  assumes "0 \<le> a" "a < 65536"
  shows "(a + 65536 * b + 4294967296 * c) div 131072 = c * 32768 + b div 2"
proof -
  have "(a + 65536 * b + 4294967296 * c) div 65536 = b + 65536 * c"
    using assms by (simp add: div_add1_eq)
  then have "(a + 65536 * b + 4294967296 * c) div (65536 * 2) = (b + 65536 * c) div 2"
    by (subst zdiv_zmult2_eq) simp_all
  moreover have "(b + 65536 * c) div 2 = c * 32768 + b div 2" by presburger
  ultimately show ?thesis by simp
qed

lemma lrand48_value:
  "uint (fst (lrand48 s)) = limbs_val (rs_seed (snd (lrand48 s))) div 2 ^ 17 \<and>
   unat (fst (lrand48 s)) < 2 ^ 31"
proof -
  obtain y0 y1 y2 where y: "dorand48 (rs_mult s) (rs_add s) (rs_seed s) = (y0, y1, y2)"
    using prod_cases3 by blast
  have b: "uint y0 < 65536" "uint y1 < 65536" "uint y2 < 65536"
    using uint_bounded [of y0] uint_bounded [of y1] uint_bounded [of y2] by simp_all
  have p: "uint (push_bit 15 (ucast y2 :: 64 word)) = uint y2 * 2 ^ 15"
    using b by (simp add: push_bit_eq_mult uint_word_ariths unsigned_ucast_eq take_bit_eq_mod)
  have d: "uint (drop_bit 1 (ucast y1 :: 64 word)) = uint y1 div 2"
    using b by (simp add: drop_bit_eq_div uint_div unsigned_ucast_eq take_bit_eq_mod)
  have f: "fst (lrand48 s) = push_bit 15 (ucast y2) + drop_bit 1 (ucast y1)"
    by (simp add: lrand48_def y)
  have v: "uint (fst (lrand48 s)) = uint y2 * 2 ^ 15 + uint y1 div 2"
    unfolding f using b d by (simp add: uint_word_ariths p)
  moreover have "limbs_val (rs_seed (snd (lrand48 s))) div 2 ^ 17 = uint y2 * 2 ^ 15 + uint y1 div 2"
    using limbs_div [OF _ b(1), of "uint y1" "uint y2"] by (simp add: lrand48_def y limbs_val_def)
  moreover have "uint y2 * 2 ^ 15 + uint y1 div 2 < 2 ^ 31" using b by simp
  ultimately show ?thesis by (simp add: unat_eq_nat_uint nat_less_iff)
qed

text \<open>
  \<open>lrand48\<close> returns the top 31 of the 48 bits of the stepped state, so the value is below
  \<open>2^31\<close> and no bit is lost in the two shifts.
\<close>

lemma lrand48_top31:
  "uint (fst (lrand48 s)) = limbs_val (rs_seed (snd (lrand48 s))) div 2 ^ 17 \<and>
   unat (fst (lrand48 s)) < 2 ^ 31"
  by (rule lrand48_value)

lemma lrand48_bound: "unat (fst (lrand48 s)) < 2 ^ 31"
  by (rule lrand48_value [THEN conjunct2])

end
