(* ===== verification/StringUtils.thy ===== *)
theory StringUtils
  imports Prelude
begin

text \<open>
  The string helpers of \<open>StringUtils.cpp\<close>.  \<open>std::string\<close> is \<open>string\<close> (a list of bytes),
  a position is a natural number and \<open>string::npos\<close> is \<open>None\<close>.  The two stream extractions
  \<open>ss >> i\<close> are modelled as C++11 does them: leading white space is skipped, an exhausted
  stream leaves the variable alone, a stream that does not start with a number stores 0, and a
  number outside the target type stores its nearest bound.
\<close>

section \<open>Scanning\<close>

definition is_space :: "char \<Rightarrow> bool" where
  "is_space c \<longleftrightarrow> c = CHR '' '' \<or> c = CHR 0x09 \<or> c = CHR 0x0A"

definition empty_line :: "string \<Rightarrow> bool" where
  "empty_line line \<longleftrightarrow> line = [] \<or> (\<forall>c \<in> set line. is_space c)"

function ignore_spaces :: "string \<Rightarrow> nat \<Rightarrow> nat" where
  "ignore_spaces str pos =
     (if pos < length str \<and> is_space (str ! pos) then ignore_spaces str (Suc pos) else pos)"
  by pat_completeness auto
termination by (relation "measure (\<lambda>(str, pos). length str - pos)") auto

declare ignore_spaces.simps [simp del]

fun find_from :: "(char \<Rightarrow> bool) \<Rightarrow> string \<Rightarrow> nat \<Rightarrow> nat option" where
  "find_from p [] i = None"
| "find_from p (c # cs) i = (if p c then Some i else find_from p cs (Suc i))"

definition find_first_of :: "string \<Rightarrow> char \<Rightarrow> nat \<Rightarrow> nat option" where
  "find_first_of s c pos = find_from (\<lambda>x. x = c) (drop pos s) pos"

definition find_any_char :: "string \<Rightarrow> nat \<Rightarrow> string \<Rightarrow> nat option" where
  "find_any_char s pos to_match =
     (if s = [] \<or> to_match = [] then None
      else find_from (\<lambda>x. x \<in> set to_match) (drop pos s) pos)"

text \<open>\<open>substr(pos, end - pos)\<close>, with \<open>npos\<close> as the end of the string.\<close>

definition substr_to :: "string \<Rightarrow> nat \<Rightarrow> nat option \<Rightarrow> string" where
  "substr_to s pos e = (case e of None \<Rightarrow> drop pos s | Some j \<Rightarrow> take (j - pos) (drop pos s))"

lemma find_from_Some:
  "find_from p cs i = Some j \<Longrightarrow>
     i \<le> j \<and> j < i + length cs \<and> p (cs ! (j - i)) \<and> (\<forall>k < j - i. \<not> p (cs ! k))"
proof (induction cs arbitrary: i)
  case (Cons c cs)
  show ?case
  proof (cases "p c")
    case False
    with Cons.prems have "find_from p cs (Suc i) = Some j" by simp
    from Cons.IH [OF this] have
      ih: "Suc i \<le> j" "j < Suc i + length cs" "p (cs ! (j - Suc i))" "\<forall>k < j - Suc i. \<not> p (cs ! k)"
      by auto
    from ih(1) have j: "j - i = Suc (j - Suc i)" by simp
    have "\<not> p ((c # cs) ! k)" if "k < j - i" for k
      using that ih(4) False unfolding j by (cases k) simp_all
    with ih j show ?thesis by simp
  qed (use Cons.prems in auto)
qed simp

lemma find_from_None: "find_from p cs i = None \<longleftrightarrow> (\<forall>c \<in> set cs. \<not> p c)"
  by (induction cs arbitrary: i) auto

lemma find_from_takeWhile:
  "find_from p cs i = (if \<exists>c \<in> set cs. p c then Some (i + length (takeWhile (\<lambda>c. \<not> p c) cs)) else None)"
  by (induction cs arbitrary: i) auto

lemma find_first_of_bounds: "find_first_of s c pos = Some j \<Longrightarrow> pos \<le> j \<and> j < length s"
  unfolding find_first_of_def by (drule find_from_Some) auto

lemma find_any_char_bounds: "find_any_char s pos m = Some j \<Longrightarrow> pos \<le> j \<and> j < length s"
  unfolding find_any_char_def by (auto split: if_splits dest: find_from_Some)

lemma ignore_spaces_takeWhile:
  "ignore_spaces s pos = pos + length (takeWhile is_space (drop pos s))"
proof (induction s pos rule: ignore_spaces.induct)
  case (1 s pos)
  show ?case
  proof (cases "pos < length s")
    case True
    then have "drop pos s = s ! pos # drop (Suc pos) s" by (rule Cons_nth_drop_Suc [symmetric])
    with 1 True show ?thesis by (subst ignore_spaces.simps) auto
  qed (subst ignore_spaces.simps, simp)
qed

lemma ignore_spaces_ge: "pos \<le> ignore_spaces s pos"
  by (simp add: ignore_spaces_takeWhile)

lemma split_decreases:
  assumes "Some j = find_from p (drop (ignore_spaces str pos) str) (ignore_spaces str pos)"
  shows "length str - j < Suc (length str) - pos"
  using find_from_Some [OF assms [symmetric]] ignore_spaces_takeWhile [of str pos] by auto

lemma drop_ignore_spaces: "drop (ignore_spaces s pos) s = dropWhile is_space (drop pos s)"
  by (simp add: ignore_spaces_takeWhile dropWhile_eq_drop add.commute)

section \<open>Substrings\<close>

definition first_nonspace_char :: "string \<Rightarrow> char" where
  "first_nonspace_char s =
     (if s = [] then CHR 0x00
      else let pos = ignore_spaces s 0 in if pos < length s then s ! pos else CHR 0x00)"

definition get_substring_before :: "string \<Rightarrow> nat \<Rightarrow> char \<Rightarrow> string" where
  "get_substring_before s pos close_delim =
     (case find_first_of s close_delim pos of
        None \<Rightarrow> []
      | Some end_pos \<Rightarrow> if end_pos = pos then [] else take (end_pos - pos) (drop pos s))"

definition get_substring :: "string \<Rightarrow> char \<Rightarrow> char \<Rightarrow> string" where
  "get_substring s open_delim close_delim =
     (if s = [] then []
      else let pos = ignore_spaces s 0;
               c = (if pos < length s then s ! pos else CHR 0x00)
           in if c \<noteq> open_delim then [] else get_substring_before s (Suc pos) close_delim)"

definition chop :: "string \<Rightarrow> string" where
  "chop str =
     (let blank = (\<lambda>c. c = CHR '' '' \<or> c = CHR 0x09);
          s = dropWhile blank str
      in rev (dropWhile blank (rev s)))"

definition end_with :: "string \<Rightarrow> string \<Rightarrow> bool" where
  "end_with s tail =
     ((if length tail < length s then drop (length s - length tail) s else s) = tail)"

lemma end_with_suffix: "end_with s t \<longleftrightarrow> (\<exists>p. s = p @ t)"
proof
  assume "end_with s t"
  then show "\<exists>p. s = p @ t"
    by (auto simp: end_with_def split: if_splits) (metis append_take_drop_id)
qed (auto simp: end_with_def)

section \<open>Splitting\<close>

text \<open>
  The three \<open>split_string\<close> loops: skip white space, find the next separator, keep the piece
  in between unless it is empty, go on behind the separator.  \<open>sep\<close> is the search the loop uses.
\<close>

definition next_piece :: "(string \<Rightarrow> nat \<Rightarrow> nat option) \<Rightarrow> string \<Rightarrow> nat \<Rightarrow> string \<times> nat option" where
  "next_piece sep str pos =
     (let start_pos = ignore_spaces str pos; e = sep str start_pos
      in (substr_to str start_pos e, e))"

function split_char_from :: "string \<Rightarrow> char \<Rightarrow> nat \<Rightarrow> string list \<Rightarrow> string list" where
  "split_char_from str sep_char pos v =
     (case next_piece (\<lambda>s p. find_first_of s sep_char p) str pos of
        (s, e) \<Rightarrow>
          let v' = (if s \<noteq> [] then v @ [s] else v)
          in case e of None \<Rightarrow> v' | Some p \<Rightarrow> split_char_from str sep_char (Suc p) v')"
  by pat_completeness auto
termination
  by (relation "measure (\<lambda>(str, c, pos, v). Suc (length str) - pos)")
    (auto simp: next_piece_def Let_def find_first_of_def find_any_char_def
      split: if_splits intro: split_decreases)

definition split_string_char :: "string \<Rightarrow> char \<Rightarrow> string list" where
  "split_string_char str sep_char = split_char_from str sep_char 0 []"

function split_chars_from :: "string \<Rightarrow> string \<Rightarrow> nat \<Rightarrow> string list \<Rightarrow> string list" where
  "split_chars_from str sep_chars pos v =
     (case next_piece (\<lambda>s p. find_any_char s p sep_chars) str pos of
        (s, e) \<Rightarrow>
          let v' = (if s \<noteq> [] then v @ [s] else v)
          in case e of None \<Rightarrow> v' | Some p \<Rightarrow> split_chars_from str sep_chars (Suc p) v')"
  by pat_completeness auto
termination
  by (relation "measure (\<lambda>(str, c, pos, v). Suc (length str) - pos)")
    (auto simp: next_piece_def Let_def find_first_of_def find_any_char_def
      split: if_splits intro: split_decreases)

definition split_string_chars :: "string \<Rightarrow> string \<Rightarrow> string list" where
  "split_string_chars str sep_chars = split_chars_from str sep_chars 0 []"

declare split_char_from.simps [simp del] split_chars_from.simps [simp del]

section \<open>The splitting loops against a list specification\<close>

text \<open>What the loops promise, without positions: pieces between separators, leading white
  space dropped, empty pieces dropped.\<close>

function pieces :: "(char \<Rightarrow> bool) \<Rightarrow> string \<Rightarrow> string list" where
  "pieces p s =
     (let s' = dropWhile is_space s; w = takeWhile (\<lambda>c. \<not> p c) s'
      in (if w \<noteq> [] then [w] else []) @
         (case dropWhile (\<lambda>c. \<not> p c) s' of [] \<Rightarrow> [] | c # r \<Rightarrow> pieces p r))"
  by pat_completeness auto
termination
proof (relation "measure (\<lambda>(p, s). length s)", goal_cases)
  case (2 p s s' w c r)
  then have "length (c # r) \<le> length s"
    using length_dropWhile_le [of "\<lambda>c. \<not> p c" "dropWhile is_space s"]
      length_dropWhile_le [of is_space s] by simp
  then show ?case by simp
qed simp

declare pieces.simps [simp del]

lemma next_piece_from:
  assumes "\<And>q. sep str q = find_from p (drop q str) q"
  shows "next_piece sep str pos =
    (let s' = dropWhile is_space (drop pos str)
     in (takeWhile (\<lambda>c. \<not> p c) s',
         if \<exists>c \<in> set s'. p c
         then Some (ignore_spaces str pos + length (takeWhile (\<lambda>c. \<not> p c) s')) else None))"
proof -
  let ?q = "ignore_spaces str pos"
  let ?s = "dropWhile is_space (drop pos str)"
  have d: "drop ?q str = ?s" by (rule drop_ignore_spaces)
  have t: "takeWhile (\<lambda>c. \<not> p c) ?s = ?s" if "\<not> (\<exists>c \<in> set ?s. p c)"
    using that by (simp add: takeWhile_eq_all_conv)
  have u: "take (length (takeWhile (\<lambda>c. \<not> p c) ?s)) ?s = takeWhile (\<lambda>c. \<not> p c) ?s"
    by (simp flip: takeWhile_eq_take)
  show ?thesis
  proof (cases "\<exists>c \<in> set ?s. p c")
    case True
    then show ?thesis
      using u by (simp only: next_piece_def Let_def assms substr_to_def d find_from_takeWhile
        if_True option.case) simp
  next
    case False
    then show ?thesis
      by (simp only: next_piece_def Let_def assms substr_to_def d find_from_takeWhile
        if_False option.case t [OF False])
  qed
qed

lemma rest_after_piece:
  assumes "\<exists>c \<in> set s. p c"
  shows "dropWhile (\<lambda>c. \<not> p c) s =
    s ! length (takeWhile (\<lambda>c. \<not> p c) s) # drop (Suc (length (takeWhile (\<lambda>c. \<not> p c) s))) s"
proof -
  have "length (takeWhile (\<lambda>c. \<not> p c) s) < length s"
    using assms by (induction s) auto
  then show ?thesis by (simp add: dropWhile_eq_drop Cons_nth_drop_Suc)
qed

lemma drop_after_spaces:
  "drop (Suc (ignore_spaces str pos + n)) str = drop (Suc n) (dropWhile is_space (drop pos str))"
  by (simp flip: drop_ignore_spaces add: add.commute)

lemma pieces_step:
  "pieces p (drop pos str) =
    (case (let s' = dropWhile is_space (drop pos str)
       in (takeWhile (\<lambda>c. \<not> p c) s',
           if \<exists>c \<in> set s'. p c
           then Some (ignore_spaces str pos + length (takeWhile (\<lambda>c. \<not> p c) s')) else None)) of
       (w, e) \<Rightarrow> (if w \<noteq> [] then [w] else []) @
         (case e of None \<Rightarrow> [] | Some q \<Rightarrow> pieces p (drop (Suc q) str)))"
proof -
  let ?s = "dropWhile is_space (drop pos str)"
  show ?thesis
  proof (cases "\<exists>c \<in> set ?s. p c")
    case True
    then show ?thesis
      by (subst pieces.simps) (simp only: Let_def rest_after_piece [OF True] list.case prod.case
        if_True option.case drop_after_spaces)
  next
    case False
    then have d: "dropWhile (\<lambda>c. \<not> p c) ?s = []" by simp
    show ?thesis by (subst pieces.simps) (simp only: Let_def d list.case prod.case
        option.case False if_False)
  qed
qed

lemma split_char_from_pieces:
  "split_char_from str c pos v = v @ pieces (\<lambda>x. x = c) (drop pos str)"
proof (induction str c pos v rule: split_char_from.induct)
  case (1 str c pos v)
  show ?case
    by (subst split_char_from.simps, subst pieces_step)
      (use 1 in \<open>auto simp: next_piece_from [where p = "\<lambda>x. x = c"] find_first_of_def Let_def
        split: option.splits\<close>)
qed

lemma find_any_char_from:
  "find_any_char str q m = find_from (\<lambda>x. x \<in> set m) (drop q str) q"
  by (auto simp: find_any_char_def find_from_None [symmetric] find_from_takeWhile)

lemma split_chars_from_pieces:
  "split_chars_from str m pos v = v @ pieces (\<lambda>x. x \<in> set m) (drop pos str)"
proof (induction str m pos v rule: split_chars_from.induct)
  case (1 str m pos v)
  show ?case
    by (subst split_chars_from.simps, subst pieces_step)
      (use 1 in \<open>auto simp: next_piece_from [where p = "\<lambda>x. x \<in> set m"] find_any_char_from Let_def
        split: option.splits\<close>)
qed

lemma split_string_char_pieces: "split_string_char str c = pieces (\<lambda>x. x = c) str"
  by (simp add: split_string_char_def split_char_from_pieces)

lemma split_string_chars_pieces: "split_string_chars str m = pieces (\<lambda>x. x \<in> set m) str"
  by (simp add: split_string_chars_def split_chars_from_pieces)

lemma pieces_wellformed:
  "w \<in> set (pieces p s) \<Longrightarrow> w \<noteq> [] \<and> (\<forall>c \<in> set w. \<not> p c) \<and> \<not> is_space (hd w)"
proof (induction p s rule: pieces.induct)
  case (1 p s)
  let ?s = "dropWhile is_space s"
  show ?case
  proof (cases "w = takeWhile (\<lambda>c. \<not> p c) ?s \<and> w \<noteq> []")
    case True
    then obtain c r where cr: "?s = c # r" by (cases ?s) auto
    with hd_dropWhile [of is_space s] have "\<not> is_space c" by simp
    with True cr show ?thesis by (auto dest: set_takeWhileD split: if_splits)
  next
    case False
    with "1.prems" have w: "w \<in> set (case dropWhile (\<lambda>c. \<not> p c) ?s of [] \<Rightarrow> [] | c # r \<Rightarrow> pieces p r)"
      using pieces.simps [of p s] by (simp only: Let_def) (auto split: if_splits)
    then obtain c r where "dropWhile (\<lambda>c. \<not> p c) ?s = c # r" "w \<in> set (pieces p r)"
      by (cases "dropWhile (\<lambda>c. \<not> p c) ?s") simp_all
    with "1.IH" show ?thesis by blast
  qed
qed

lemma pieces_single:
  assumes "w \<noteq> []" "\<forall>c \<in> set w. \<not> p c" "\<not> is_space (hd w)"
  shows "pieces p w = [w]"
proof -
  have "dropWhile is_space w = w" using assms by (cases w) auto
  moreover have "takeWhile (\<lambda>c. \<not> p c) w = w" "dropWhile (\<lambda>c. \<not> p c) w = []"
    using assms by (auto simp: takeWhile_eq_all_conv)
  ultimately show ?thesis
    using assms(1) by (subst pieces.simps) (simp only: Let_def list.case if_True append_Nil2 not_False_eq_True)
qed

lemma pieces_prefix:
  assumes "w \<noteq> []" "\<forall>c \<in> set w. \<not> p c" "\<not> is_space (hd w)" "p d"
  shows "pieces p (w @ d # r) = w # pieces p r"
proof -
  have "dropWhile is_space (w @ d # r) = w @ d # r" using assms by (cases w) auto
  moreover have "takeWhile (\<lambda>c. \<not> p c) (w @ d # r) = w" "dropWhile (\<lambda>c. \<not> p c) (w @ d # r) = d # r"
    using assms by auto
  ultimately show ?thesis
    using assms(1) by (subst pieces.simps) (simp only: Let_def list.case if_True append.simps not_False_eq_True)
qed

fun join_with :: "char \<Rightarrow> string list \<Rightarrow> string" where
  "join_with d [] = []"
| "join_with d [w] = w"
| "join_with d (w # ws) = w @ d # join_with d ws"

lemma pieces_join:
  "\<forall>w \<in> set ws. w \<noteq> [] \<and> (\<forall>c \<in> set w. \<not> p c) \<and> \<not> is_space (hd w) \<Longrightarrow> p d \<Longrightarrow>
     pieces p (join_with d ws) = ws"
  by (induction d ws rule: join_with.induct)
    (auto simp: pieces.simps [of p "[]"] pieces_single pieces_prefix)

section \<open>Numbers\<close>

definition digit_val :: "char \<Rightarrow> nat option" where
  "digit_val c =
     (let n = (of_char c :: nat) in
      if 48 \<le> n \<and> n \<le> 57 then Some (n - 48)
      else if 65 \<le> n \<and> n \<le> 70 then Some (n - 55)
      else if 97 \<le> n \<and> n \<le> 102 then Some (n - 87)
      else None)"

definition has_digit :: "nat \<Rightarrow> char \<Rightarrow> bool" where
  "has_digit base c = (case digit_val c of None \<Rightarrow> False | Some d \<Rightarrow> d < base)"

definition digits_val :: "nat \<Rightarrow> string \<Rightarrow> nat" where
  "digits_val base ds = foldl (\<lambda>v c. base * v + the (digit_val c)) 0 ds"

definition isspace :: "char \<Rightarrow> bool" where
  "isspace c \<longleftrightarrow> c = CHR '' '' \<or> (9 \<le> (of_char c :: nat) \<and> of_char c \<le> (13 :: nat))"

text \<open>\<open>stream >> i\<close> for a signed target with the bounds \<open>lo..hi\<close> that holds \<open>old\<close> before.\<close>

definition extract_int :: "nat \<Rightarrow> int \<Rightarrow> int \<Rightarrow> int \<Rightarrow> string \<Rightarrow> int" where
  "extract_int base lo hi old s =
     (let s1 = dropWhile isspace s in
      if s1 = [] then old
      else let neg = (hd s1 = CHR ''-'');
               s2 = (if hd s1 = CHR ''-'' \<or> hd s1 = CHR ''+'' then tl s1 else s1);
               s3 = (if base = 16 \<and> (take 2 s2 = ''0x'' \<or> take 2 s2 = ''0X'') then drop 2 s2 else s2);
               v = int (digits_val base (takeWhile (has_digit base) s3))
           in max lo (min hi (if neg then - v else v)))"

definition int_min :: int where "int_min = - (2 ^ 31)"
definition int_max :: int where "int_max = 2 ^ 31 - 1"
definition int64_min :: int where "int64_min = - (2 ^ 63)"
definition int64_max :: int where "int64_max = 2 ^ 63 - 1"

function str2int :: "string \<Rightarrow> int option" where
  "str2int s =
     (if s \<noteq> [] \<and> hd s = CHR ''(''
      then (if last s = CHR '')'' then str2int (take (length s - 2) (drop 1 s)) else None)
      else Some (if take 2 s = ''0x'' then extract_int 16 int_min int_max (- 1) s
                 else extract_int 10 int_min int_max (- 1) s))"
  by pat_completeness auto
termination by (relation "measure length") auto

declare str2int.simps [simp del]

fun digits10 :: "nat \<Rightarrow> string" where
  "digits10 n = (if n < 10 then [char_of (48 + n)] else digits10 (n div 10) @ [char_of (48 + n mod 10)])"

declare digits10.simps [simp del]

definition int2str :: "int \<Rightarrow> string" where
  "int2str i = (if i < 0 then CHR ''-'' # digits10 (nat (- i)) else digits10 (nat i))"

definition longlong2str :: "int \<Rightarrow> string" where
  "longlong2str i = (if i < 0 then CHR ''-'' # digits10 (nat (- i)) else digits10 (nat i))"

text \<open>The hexadecimal loop of \<open>str2longlong\<close> takes upper-case digits only and stops at the
  first other character; leaving the 64-bit range is signed overflow.\<close>

fun hex_loop :: "string \<Rightarrow> int \<Rightarrow> int option" where
  "hex_loop [] i = Some i"
| "hex_loop (c # cs) i =
     (let n = (of_char c :: nat) in
      if 48 \<le> n \<and> n \<le> 57 \<or> 65 \<le> n \<and> n \<le> 70
      then let i' = i * 16 + int (if n \<le> 57 then n - 48 else 10 + n - 65)
           in if i' \<le> int64_max then hex_loop cs i' else None
      else Some i)"

definition str2longlong :: "string \<Rightarrow> int option" where
  "str2longlong s =
     (if take 2 s = ''0x'' then hex_loop (drop 2 s) 0
      else Some (extract_int 10 int64_min int64_max 0 s))"

lemma digit_chars: "(d :: nat) < 10 \<Longrightarrow> char_of (48 + d) \<in> set ''0123456789''"
proof -
  assume "d < 10"
  then have "d = 0 \<or> d = 1 \<or> d = 2 \<or> d = 3 \<or> d = 4 \<or> d = 5 \<or> d = 6 \<or> d = 7 \<or> d = 8 \<or> d = 9"
    by presburger
  then show ?thesis by (elim disjE) (simp_all add: char_of_def bit_0)
qed

definition plain_digit :: "char \<Rightarrow> bool" where
  "plain_digit c \<longleftrightarrow> c \<in> set ''0123456789''"

lemma plain_digit_props:
  "plain_digit c \<Longrightarrow> has_digit 10 c \<and> \<not> isspace c \<and> c \<noteq> CHR ''-'' \<and> c \<noteq> CHR ''+'' \<and>
     c \<noteq> CHR ''('' \<and> c \<noteq> CHR ''x''"
  by (auto simp: plain_digit_def has_digit_def digit_val_def isspace_def Let_def)

lemma digit_val_char: "d < 10 \<Longrightarrow> digit_val (char_of (48 + d)) = Some d"
  by (simp add: digit_val_def of_char_of)

lemma digits10_nonempty [simp]: "digits10 n \<noteq> []"
  by (subst digits10.simps) simp

lemma digits10_plain: "c \<in> set (digits10 n) \<Longrightarrow> plain_digit c"
proof (induction n rule: digits10.induct)
  case (1 n)
  show ?case
  proof (cases "n < 10")
    case True
    with "1.prems" have "c = char_of (48 + n)" by (subst (asm) digits10.simps) simp
    with True digit_chars show ?thesis unfolding plain_digit_def by blast
  next
    case False
    with "1.prems" have "c \<in> set (digits10 (n div 10)) \<or> c = char_of (48 + n mod 10)"
      by (subst (asm) digits10.simps) auto
    with False "1.IH" digit_chars [of "n mod 10"] show ?thesis unfolding plain_digit_def by auto
  qed
qed

lemma digits_val_snoc: "digits_val b (ds @ [c]) = b * digits_val b ds + the (digit_val c)"
  by (simp add: digits_val_def)

lemma digits_val_digits10: "digits_val 10 (digits10 n) = n"
proof (induction n rule: digits10.induct)
  case (1 n)
  show ?case
  proof (cases "n < 10")
    case True
    then show ?thesis by (subst digits10.simps) (simp add: digits_val_def digit_val_char)
  next
    case False
    with 1 show ?thesis by (subst digits10.simps) (simp add: digits_val_snoc digit_val_char)
  qed
qed

lemma extract_plain:
  assumes "ds \<noteq> []" "\<And>c. c \<in> set ds \<Longrightarrow> plain_digit c"
    and "lo \<le> int (digits_val 10 ds)" "int (digits_val 10 ds) \<le> hi"
  shows "extract_int 10 lo hi old ds = int (digits_val 10 ds)"
proof -
  obtain c r where cr: "ds = c # r" using assms(1) by (cases ds) auto
  have c: "\<not> isspace c" "c \<noteq> CHR ''-''" "c \<noteq> CHR ''+''"
    using plain_digit_props assms(2) [of c] cr by auto
  have "takeWhile (has_digit 10) ds = ds"
    using assms(2) plain_digit_props by (auto simp: takeWhile_eq_all_conv)
  moreover have "dropWhile isspace ds = ds" using c cr by simp
  ultimately show ?thesis using c cr assms(3,4) by (simp add: extract_int_def Let_def)
qed

lemma extract_negative:
  assumes "ds \<noteq> []" "\<And>c. c \<in> set ds \<Longrightarrow> plain_digit c"
    and "lo \<le> - int (digits_val 10 ds)" "- int (digits_val 10 ds) \<le> hi"
  shows "extract_int 10 lo hi old (CHR ''-'' # ds) = - int (digits_val 10 ds)"
proof -
  have t: "takeWhile (has_digit 10) ds = ds"
    using assms(2) plain_digit_props by (auto simp: takeWhile_eq_all_conv)
  have "\<not> isspace (CHR ''-'')" by (simp add: isspace_def)
  then show ?thesis using assms(3,4) by (simp add: extract_int_def Let_def t)
qed

lemma int2str_first: "take 2 (int2str i) \<noteq> ''0x''" "hd (int2str i) \<noteq> CHR ''(''" "int2str i \<noteq> []"
proof -
  show "take 2 (int2str i) \<noteq> ''0x''"
  proof
    assume t: "take 2 (int2str i) = ''0x''"
    then have "CHR ''x'' \<in> set (int2str i)"
      using in_set_takeD [of "CHR ''x''" 2 "int2str i"] by simp
    then show False
      using digits10_plain plain_digit_props by (auto simp: int2str_def split: if_splits)
  qed
  have "hd (digits10 n) \<noteq> CHR ''(''" for n
    using digits10_plain [of "hd (digits10 n)" n] plain_digit_props by auto
  then show "hd (int2str i) \<noteq> CHR ''(''" by (simp add: int2str_def)
  show "int2str i \<noteq> []" by (simp add: int2str_def)
qed

lemma str2int_int2str_inverse:
  assumes "int_min \<le> i" "i \<le> int_max"
  shows "str2int (int2str i) = Some i"
proof -
  have "extract_int 10 int_min int_max (- 1) (int2str i) = i"
  proof (cases "i < 0")
    case True
    then show ?thesis
      using extract_negative [of "digits10 (nat (- i))" int_min int_max "- 1"] assms
      by (simp add: int2str_def digits10_plain digits_val_digits10)
  next
    case False
    then show ?thesis
      using extract_plain [of "digits10 (nat i)" int_min int_max "- 1"] assms
      by (simp add: int2str_def digits10_plain digits_val_digits10)
  qed
  with int2str_first [of i] show ?thesis by (subst str2int.simps) simp
qed

section \<open>Assignment lists\<close>

fun breakup_pairs :: "string list \<Rightarrow> (string list \<times> string list) option" where
  "breakup_pairs [] = Some ([], [])"
| "breakup_pairs (s # ss) =
     (case split_string_char s (CHR ''='') of
        [var, val] \<Rightarrow>
          map_option (\<lambda>(vars, vals). (chop var # vars, chop val # vals)) (breakup_pairs ss)
      | _ \<Rightarrow> None)"

definition breakup_assigns :: "string \<Rightarrow> (string list \<times> string list) option" where
  "breakup_assigns assigns = breakup_pairs (split_string_char assigns (CHR '';''))"

section \<open>Properties\<close>

lemma int2str_chars: "c \<in> set (int2str i) \<Longrightarrow> plain_digit c \<or> c = CHR ''-''"
  by (auto simp: int2str_def digits10_plain split: if_splits)

lemma int2str_not_space: "\<not> is_space (hd (int2str i))"
proof -
  have "hd (int2str i) \<in> set (int2str i)" using int2str_first(3) by (rule hd_in_set)
  then show ?thesis by (auto simp: is_space_def plain_digit_def dest!: int2str_chars)
qed

text \<open>
  C29: splitting what a join on the same separator produced gives the items back, for items that are
  not empty, do not start with white space and do not contain the separator.
\<close>

theorem split_join_roundtrip:
  assumes "\<forall>w \<in> set ws. w \<noteq> [] \<and> sep \<notin> set w \<and> \<not> is_space (hd w)"
  shows "split_string_char (join_with sep ws) sep = ws"
  unfolding split_string_char_pieces by (rule pieces_join) (use assms in auto)

theorem split_join_roundtrip_witness:
  "split_string_char (join_with (CHR '','') [''pid'', ''int_prob=1'']) (CHR '','') = [''pid'', ''int_prob=1'']"
  by (rule split_join_roundtrip) (simp add: is_space_def)

text \<open>
  C0: \<open>str2int\<close> reads back every \<open>int\<close> that \<open>int2str\<close> prints, negative ones included.
\<close>

theorem str2int_int2str:
  assumes "int_min \<le> i" "i \<le> int_max"
  shows "str2int (int2str i) = Some i"
  using assms by (rule str2int_int2str_inverse)

theorem str2int_int2str_witness: "str2int (int2str (- 42)) = Some (- 42)"
  by (rule str2int_int2str) (simp_all add: int_min_def int_max_def)

end
