(* ===== verification/PartialExpander.thy ===== *)
theory PartialExpander
  imports StringUtils
begin

text \<open>
  \<open>PartialExpander.cpp\<close>: which statement kinds an exhaustive run may expand.  The two static
  maps are a record; \<open>operator[]\<close> inserts \<open>false\<close> for a missing key, which \<open>map_index\<close> makes
  explicit.
\<close>

datatype eStatementType =
  eAssign | eBlock | eFor | eIfElse | eInvoke | eReturn | eContinue | eBreak | eGoto
  | eHIPStatement | eArrayOp | MAX_STATEMENT_TYPE

type_synonym expand_map = "eStatementType \<rightharpoonup> bool"

record partial_expander =
  expands :: expand_map
  expands_backup :: expand_map

definition partial_expander_static :: partial_expander where
  "partial_expander_static = \<lparr>expands = Map.empty, expands_backup = Map.empty\<rparr>"

definition map_index :: "('k \<rightharpoonup> bool) \<Rightarrow> 'k \<Rightarrow> bool \<times> ('k \<rightharpoonup> bool)" where
  "map_index m k = (case m k of Some v \<Rightarrow> (v, m) | None \<Rightarrow> (False, m(k \<mapsto> False)))"

definition init_map :: "expand_map \<Rightarrow> bool \<Rightarrow> expand_map" where
  "init_map m value = m(eAssign \<mapsto> value, eBlock \<mapsto> value, eFor \<mapsto> value, eIfElse \<mapsto> value,
     eInvoke \<mapsto> value, eReturn \<mapsto> value, MAX_STATEMENT_TYPE \<mapsto> value)"

definition set_stmt_expand :: "eStatementType \<Rightarrow> bool \<Rightarrow> partial_expander \<Rightarrow> partial_expander" where
  "set_stmt_expand t value pe = pe\<lparr>expands := (expands pe)(t \<mapsto> value)\<rparr>"

definition set_expand :: "string \<Rightarrow> partial_expander \<Rightarrow> bool \<times> partial_expander" where
  "set_expand s pe =
     (if s = ''assignment'' then (True, set_stmt_expand eAssign True pe)
      else if s = ''block'' then (True, set_stmt_expand eBlock True pe)
      else if s = ''for'' then (True, set_stmt_expand eFor True pe)
      else if s = ''if-else'' then (True, set_stmt_expand eIfElse True pe)
      else if s = ''invoke'' then (True, set_stmt_expand eInvoke True pe)
      else if s = ''return'' then (True, set_stmt_expand eReturn True pe)
      else if s = ''all'' then (True, pe\<lparr>expands := init_map (expands pe) True\<rparr>)
      else (False, pe))"

text \<open>\<open>parse_options\<close> walks the option string; its argument here is the rest of the string
  from \<open>pos\<close> on.  The assertion on blanks looks at the first character of every item.\<close>

function parse_options :: "string \<Rightarrow> char \<Rightarrow> partial_expander \<Rightarrow> (bool \<times> partial_expander) option" where
  "parse_options options sep_char pe =
     (if options \<noteq> [] \<and> hd options = CHR '' '' then None
      else let s = takeWhile (\<lambda>c. c \<noteq> sep_char) options;
               rest = dropWhile (\<lambda>c. c \<noteq> sep_char) options;
               (ok, pe') = set_expand s pe
           in if \<not> ok then Some (False, pe')
              else if rest = [] then Some (True, pe')
              else parse_options (tl rest) sep_char pe')"
  by pat_completeness auto
termination
proof (relation "measure (\<lambda>(s, _). length s)", goal_cases)
  case (2 options sep_char pe s rest x ok pe')
  then have "rest \<noteq> []" by simp
  then have "length (tl rest) < length rest" by (cases rest) simp_all
  also have "length rest \<le> length options" unfolding \<open>rest = _\<close> by (rule length_dropWhile_le)
  finally show ?case by simp
qed simp

declare parse_options.simps [simp del]

definition copy_expands :: "expand_map \<Rightarrow> expand_map \<Rightarrow> expand_map" where
  "copy_expands dest src = dest ++ src"

definition init_partial_expander :: "string \<Rightarrow> partial_expander \<Rightarrow> (bool \<times> partial_expander) option" where
  "init_partial_expander options pe =
     do {
       (ok, pe1) \<leftarrow> parse_options options (CHR '','') (pe\<lparr>expands := init_map (expands pe) False\<rparr>);
       if \<not> ok then Some (False, pe1)
       else let pe2 = set_stmt_expand MAX_STATEMENT_TYPE True pe1
            in Some (True, pe2\<lparr>expands_backup := copy_expands (expands_backup pe2) (expands pe2)\<rparr>)
     }"

definition restore_init_values :: "partial_expander \<Rightarrow> partial_expander" where
  "restore_init_values pe = pe\<lparr>expands := copy_expands (expands pe) (expands_backup pe)\<rparr>"

definition direct_expand_check :: "eStatementType \<Rightarrow> partial_expander \<Rightarrow> bool \<times> partial_expander" where
  "direct_expand_check t pe =
     (let (v, m) = map_index (expands pe) t in (v, pe\<lparr>expands := m\<rparr>))"

definition expand_check :: "eStatementType \<Rightarrow> partial_expander \<Rightarrow> (bool \<times> partial_expander) option" where
  "expand_check t pe =
     (let (mx, m0) = map_index (expands pe) MAX_STATEMENT_TYPE; pe0 = pe\<lparr>expands := m0\<rparr> in
      if \<not> mx then Some (True, pe0)
      else do {
        assert_opt (expands pe0 t \<noteq> None);
        let (v, m1) = map_index (expands pe0) t;
        let (rv, m2) = (if t = eAssign \<and> \<not> v then map_index m1 eInvoke else (v, m1));
        let pe1 = pe0\<lparr>expands := m2\<rparr>;
        Some (rv, if rv then set_stmt_expand MAX_STATEMENT_TYPE False pe1 else pe1)
      })"

section \<open>Properties\<close>

lemma set_expand_monotone:
  "set_expand s pe = (ok, pe') \<Longrightarrow> expands pe t = Some True \<Longrightarrow> expands pe' t = Some True"
  by (auto simp: set_expand_def set_stmt_expand_def init_map_def split: if_splits)

text \<open>Of the statement kinds only these seven have an entry after initialisation.\<close>

definition expandable :: "eStatementType \<Rightarrow> bool" where
  "expandable t \<longleftrightarrow> t \<in> {eAssign, eBlock, eFor, eIfElse, eInvoke, eReturn, MAX_STATEMENT_TYPE}"

lemma init_map_dom: "dom (init_map m v) = dom m \<union> {t. expandable t}"
  by (auto simp: init_map_def expandable_def split: if_splits)

lemma set_expand_dom:
  assumes "set_expand s pe = (ok, pe')" "{t. expandable t} \<subseteq> dom (expands pe)"
  shows "dom (expands pe') = dom (expands pe)"
proof (cases "s = ''all''")
  case True
  then have "pe' = pe\<lparr>expands := init_map (expands pe) True\<rparr>"
    using assms(1) by (simp add: set_expand_def)
  then have "dom (expands pe') = dom (expands pe) \<union> {t. expandable t}" by (simp add: init_map_dom)
  with assms(2) show ?thesis by blast
next
  case False
  with assms show ?thesis
    by (auto simp: set_expand_def set_stmt_expand_def expandable_def split: if_splits)
qed

lemma parse_options_dom:
  "parse_options s c pe = Some (ok, pe') \<Longrightarrow> {t. expandable t} \<subseteq> dom (expands pe) \<Longrightarrow>
     dom (expands pe') = dom (expands pe)"
proof (induction s c pe rule: parse_options.induct)
  case (1 s c pe)
  obtain b q where q: "set_expand (takeWhile (\<lambda>x. x \<noteq> c) s) pe = (b, q)" by fastforce
  have dq: "dom (expands q) = dom (expands pe)" by (rule set_expand_dom [OF q "1.prems"(2)])
  let ?rest = "dropWhile (\<lambda>x. x \<noteq> c) s"
  from "1.prems"(1) have e: "(if s \<noteq> [] \<and> hd s = CHR '' '' then None
      else if \<not> b then Some (False, q) else if ?rest = [] then Some (True, q)
      else parse_options (tl ?rest) c q) = Some (ok, pe')"
    by (subst (asm) parse_options.simps) (simp only: Let_def q prod.case)
  then have ns: "\<not> (s \<noteq> [] \<and> hd s = CHR '' '')" by (simp split: if_splits)
  show ?case
  proof (cases "b \<and> ?rest \<noteq> []")
    case True
    then have b: "b" and r: "?rest \<noteq> []" by blast+
    from e have "parse_options (tl ?rest) c q = Some (ok, pe')"
      by (simp only: ns b r if_False if_True not_True_eq_False)
    then have "dom (expands pe') = dom (expands q)"
      using "1.IH" [OF ns refl refl q [symmetric]] True "1.prems"(2) dq by simp
    with dq show ?thesis by simp
  next
    case False
    then have "\<not> b \<or> ?rest = []" by (simp only: de_Morgan_conj not_not)
    then have "pe' = q"
    proof
      assume "\<not> b"
      with e ns show ?thesis by (simp only: if_False if_True not_False_eq_True simp_thms prod.inject option.inject)
    next
      assume "?rest = []"
      with e ns show ?thesis by (simp only: if_False if_True split: if_splits) auto
    qed
    with dq show ?thesis by simp
  qed
qed

text \<open>
  C0: after \<open>init_partial_expander\<close> accepted its option string in a fresh run, exactly the six
  expandable statement kinds (and the marker) have entries, so the first \<open>expand_check\<close> of any other
  kind (\<open>continue\<close>, \<open>break\<close>, \<open>goto\<close>, an array operation, a HIP statement) fails its assertion,
  while a check of an expandable kind returns.
\<close>

theorem expand_check_after_init:
  assumes "init_partial_expander s partial_expander_static = Some (True, pe)"
  shows "expand_check t pe = None \<longleftrightarrow> \<not> expandable t"
proof -
  let ?pe0 = "partial_expander_static\<lparr>expands := init_map (expands partial_expander_static) False\<rparr>"
  from assms obtain pe1 where p1: "parse_options s (CHR '','') ?pe0 = Some (True, pe1)"
    and pe: "expands pe = (expands pe1)(MAX_STATEMENT_TYPE \<mapsto> True)"
    by (auto simp: init_partial_expander_def set_stmt_expand_def Let_def bind_eq_Some_conv split: if_splits)
  have d0: "dom (expands ?pe0) = {t. expandable t}"
    by (simp add: init_map_dom partial_expander_static_def)
  with parse_options_dom [OF p1] have "dom (expands pe1) = {t. expandable t}" by simp
  then have "dom (expands pe) = {t. expandable t}"
    unfolding pe by (auto simp: expandable_def)
  then have "expandable t \<longleftrightarrow> expands pe t \<noteq> None" by blast
  then show ?thesis
    by (auto simp: expand_check_def map_index_def pe Let_def bind_eq_None_conv assert_opt_def
      split: option.splits if_splits)
qed

theorem expand_check_after_init_witness:
  "\<exists>pe. init_partial_expander ''for,return'' partial_expander_static = Some (True, pe) \<and>
     expand_check eContinue pe = None \<and> expand_check eFor pe \<noteq> None"
proof -
  let ?r = "init_partial_expander ''for,return'' partial_expander_static"
  have "\<exists>pe. ?r = Some (True, pe)"
    by (simp add: init_partial_expander_def parse_options.simps set_expand_def Let_def)
  then obtain pe where pe: "?r = Some (True, pe)" ..
  then show ?thesis
    using expand_check_after_init [OF pe, of eContinue] expand_check_after_init [OF pe, of eFor]
    by (auto simp: expandable_def)
qed

end
