(* ===== verification/Options.thy ===== *)
theory Options
  imports PartialExpander
begin

text \<open>
  The option store of the generator, class \<open>CGOptions\<close> (\<open>CGOptions.cpp\<close>).  Every static member
  that \<open>DEFINE_GETTER_SETTER\<close> declares is one field \<open>opt_<name>\<close> of the record, with the getter
  as its selector and the setter as its update; the members declared by hand follow.
  Creating the directory for split files is I/O and a parameter of \<open>has_conflict\<close>, the lines of
  \<open>platform.info\<close> (absent: \<open>None\<close>) one of \<open>set_platform_specific_options\<close>.
\<close>

record CGOptions =
  opt_compute_hash :: bool
  opt_depth_protect :: bool
  opt_max_split_files :: int
  opt_split_files_dir :: string
  opt_output_file :: string
  opt_max_funcs :: int
  opt_max_params :: int
  opt_max_block_size :: int
  opt_max_blk_depth :: int
  opt_max_expr_depth :: int
  opt_wrap_volatiles :: bool
  opt_allow_const_volatile :: bool
  opt_avoid_signed_overflow :: bool
  opt_max_struct_fields :: int
  opt_max_union_fields :: int
  opt_max_nested_struct_level :: int
  opt_struct_output :: string
  opt_fixed_struct_fields :: bool
  opt_expand_struct :: bool
  opt_use_struct :: bool
  opt_use_union :: bool
  opt_max_indirect_level :: int
  opt_max_array_dimensions :: int
  opt_max_array_length_per_dimension :: int
  opt_max_array_length :: int
  opt_interested_facts :: int
  opt_paranoid :: bool
  opt_quiet :: bool
  opt_concise :: bool
  opt_nomain :: bool
  opt_random_based :: bool
  opt_dfs_exhaustive :: bool
  opt_dfs_debug_sequence :: string
  opt_max_exhaustive_depth :: int
  opt_compact_output :: bool
  opt_func1_max_params :: int
  opt_klee :: bool
  opt_crest :: bool
  opt_ccomp :: bool
  opt_coverage_test :: bool
  opt_coverage_test_size :: int
  opt_packed_struct :: bool
  opt_bitfields :: bool
  opt_prefix_name :: bool
  opt_sequence_name_prefix :: bool
  opt_compatible_check :: bool
  opt_partial_expand :: string
  opt_delta_monitor :: string
  opt_delta_output :: string
  opt_go_delta :: string
  opt_delta_input :: string
  opt_no_delta_reduction :: bool
  opt_math64 :: bool
  opt_inline_function :: bool
  opt_math_notmp :: bool
  opt_longlong :: bool
  opt_int8 :: bool
  opt_uint8 :: bool
  opt_enable_float :: bool
  opt_strict_float :: bool
  opt_pointers :: bool
  opt_arrays :: bool
  opt_strict_const_arrays :: bool
  opt_jumps :: bool
  opt_return_structs :: bool
  opt_arg_structs :: bool
  opt_return_unions :: bool
  opt_arg_unions :: bool
  opt_volatiles :: bool
  opt_volatile_pointers :: bool
  opt_const_pointers :: bool
  opt_global_variables :: bool
  opt_access_once :: bool
  opt_strict_volatile_rule :: bool
  opt_addr_taken_of_locals :: bool
  opt_fresh_array_ctrl_var_names :: bool
  opt_consts :: bool
  opt_builtins :: bool
  opt_dangling_global_ptrs :: bool
  opt_divs :: bool
  opt_muls :: bool
  opt_accept_argc :: bool
  opt_random_random :: bool
  opt_stop_by_stmt :: int
  opt_step_hash_by_stmt :: bool
  opt_compound_assignment :: bool
  opt_dump_default_probabilities :: string
  opt_dump_random_probabilities :: string
  opt_probability_configuration :: string
  opt_const_as_condition :: bool
  opt_match_exact_qualifiers :: bool
  opt_blind_check_global :: bool
  opt_no_return_dead_ptr :: bool
  opt_hash_value_printf :: bool
  opt_signed_char_index :: bool
  opt_max_array_num_in_loop :: int
  opt_identify_wrappers :: bool
  opt_mark_mutable_const :: bool
  opt_force_globals_static :: bool
  opt_force_non_uniform_array_init :: bool
  opt_inline_function_prob :: int
  opt_builtin_function_prob :: int
  opt_null_pointer_dereference_prob :: int
  opt_dead_pointer_dereference_prob :: int
  opt_pre_incr_operator :: bool
  opt_pre_decr_operator :: bool
  opt_post_incr_operator :: bool
  opt_post_decr_operator :: bool
  opt_unary_plus_operator :: bool
  opt_use_embedded_assigns :: bool
  opt_use_comma_exprs :: bool
  opt_take_union_field_addr :: bool
  opt_vol_struct_union_fields :: bool
  opt_const_struct_union_fields :: bool
  opt_lang_cpp :: bool
  opt_cpp11 :: bool
  opt_fast_execution :: bool
  opt_array_oob_prob :: int
  opt_func_attr_flag :: bool
  opt_type_attr_flag :: bool
  opt_label_attr_flag :: bool
  opt_var_attr_flag :: bool
  opt_Int128 :: bool
  opt_UInt128 :: bool
  opt_binary_constant :: bool
  opt_int_size :: int
  opt_pointer_size :: int
  opt_conflict_msg :: string
  opt_vol_tests_mach :: string
  opt_safe_math_wrapper_ids :: "int list"
  opt_enabled_builtin_kinds :: "string \<rightharpoonup> bool"

text \<open>The values before \<open>main\<close> runs.\<close>

definition CGOptions_static :: CGOptions where
  "CGOptions_static = \<lparr>
      opt_compute_hash = False, opt_depth_protect = False, opt_max_split_files = 0,
      opt_split_files_dir = '''', opt_output_file = '''', opt_max_funcs = 0, opt_max_params = 0,
      opt_max_block_size = 0, opt_max_blk_depth = 0, opt_max_expr_depth = 0,
      opt_wrap_volatiles = False, opt_allow_const_volatile = False,
      opt_avoid_signed_overflow = False, opt_max_struct_fields = 0, opt_max_union_fields = 0,
      opt_max_nested_struct_level = 0, opt_struct_output = '''', opt_fixed_struct_fields = False,
      opt_expand_struct = False, opt_use_struct = False, opt_use_union = False,
      opt_max_indirect_level = 0, opt_max_array_dimensions = 0,
      opt_max_array_length_per_dimension = 0, opt_max_array_length = 0, opt_interested_facts = 0,
      opt_paranoid = False, opt_quiet = False, opt_concise = False, opt_nomain = False,
      opt_random_based = False, opt_dfs_exhaustive = False, opt_dfs_debug_sequence = '''',
      opt_max_exhaustive_depth = 0, opt_compact_output = False, opt_func1_max_params = 0,
      opt_klee = False, opt_crest = False, opt_ccomp = False, opt_coverage_test = False,
      opt_coverage_test_size = 0, opt_packed_struct = False, opt_bitfields = False,
      opt_prefix_name = False, opt_sequence_name_prefix = False, opt_compatible_check = False,
      opt_partial_expand = '''', opt_delta_monitor = '''', opt_delta_output = '''',
      opt_go_delta = '''', opt_delta_input = '''', opt_no_delta_reduction = False,
      opt_math64 = False, opt_inline_function = False, opt_math_notmp = False,
      opt_longlong = False, opt_int8 = False, opt_uint8 = False, opt_enable_float = False,
      opt_strict_float = False, opt_pointers = False, opt_arrays = False,
      opt_strict_const_arrays = False, opt_jumps = False, opt_return_structs = False,
      opt_arg_structs = False, opt_return_unions = False, opt_arg_unions = False,
      opt_volatiles = False, opt_volatile_pointers = False, opt_const_pointers = False,
      opt_global_variables = False, opt_access_once = False, opt_strict_volatile_rule = False,
      opt_addr_taken_of_locals = False, opt_fresh_array_ctrl_var_names = False,
      opt_consts = False, opt_builtins = False, opt_dangling_global_ptrs = False,
      opt_divs = False, opt_muls = False, opt_accept_argc = False, opt_random_random = False,
      opt_stop_by_stmt = 0, opt_step_hash_by_stmt = False, opt_compound_assignment = False,
      opt_dump_default_probabilities = '''', opt_dump_random_probabilities = '''',
      opt_probability_configuration = '''', opt_const_as_condition = False,
      opt_match_exact_qualifiers = False, opt_blind_check_global = False,
      opt_no_return_dead_ptr = False, opt_hash_value_printf = False,
      opt_signed_char_index = False, opt_max_array_num_in_loop = 0,
      opt_identify_wrappers = False, opt_mark_mutable_const = False,
      opt_force_globals_static = False, opt_force_non_uniform_array_init = False,
      opt_inline_function_prob = 0, opt_builtin_function_prob = 0,
      opt_null_pointer_dereference_prob = 0, opt_dead_pointer_dereference_prob = 0,
      opt_pre_incr_operator = False, opt_pre_decr_operator = False,
      opt_post_incr_operator = False, opt_post_decr_operator = False,
      opt_unary_plus_operator = False, opt_use_embedded_assigns = False,
      opt_use_comma_exprs = False, opt_take_union_field_addr = False,
      opt_vol_struct_union_fields = False, opt_const_struct_union_fields = False,
      opt_lang_cpp = False, opt_cpp11 = False, opt_fast_execution = False,
      opt_array_oob_prob = 0, opt_func_attr_flag = False, opt_type_attr_flag = False,
      opt_label_attr_flag = False, opt_var_attr_flag = False, opt_Int128 = False,
      opt_UInt128 = False, opt_binary_constant = False,
      opt_int_size = 0, opt_pointer_size = 0, opt_conflict_msg = '''', opt_vol_tests_mach = '''',
      opt_safe_math_wrapper_ids = [], opt_enabled_builtin_kinds = Map.empty\<rparr>"

definition set_default_builtin_kinds :: "CGOptions \<Rightarrow> CGOptions" where
  "set_default_builtin_kinds c = c\<lparr>opt_enabled_builtin_kinds :=
     (opt_enabled_builtin_kinds c)(''generic'' \<mapsto> True, ''x86'' \<mapsto> True)\<rparr>"

definition platform_value :: "string \<Rightarrow> string \<Rightarrow> int option option" where
  "platform_value key line =
     (if take (length key) line = key
      then Some (str2int (chop (drop (length key) line))) else None)"

fun platform_lines :: "string list \<Rightarrow> CGOptions \<Rightarrow> CGOptions option" where
  "platform_lines [] c = Some c"
| "platform_lines (line # ls) c =
     do {
       c1 \<leftarrow> (case platform_value ''integer size = '' line of
                None \<Rightarrow> Some c
              | Some v \<Rightarrow> map_option (\<lambda>i. c\<lparr>opt_int_size := i\<rparr>) v);
       c2 \<leftarrow> (case platform_value ''pointer size = '' line of
                None \<Rightarrow> Some c1
              | Some v \<Rightarrow> map_option (\<lambda>i. c1\<lparr>opt_pointer_size := i\<rparr>) v);
       platform_lines ls c2
     }"

text \<open>\<open>exit(-1)\<close> on a missing size is \<open>None\<close>, as an abort is.\<close>

definition set_platform_specific_options ::
    "int \<Rightarrow> int \<Rightarrow> string list option \<Rightarrow> CGOptions \<Rightarrow> CGOptions option" where
  "set_platform_specific_options sizeof_int sizeof_ptr conf c =
     (case conf of
        None \<Rightarrow> Some (c\<lparr>opt_int_size := sizeof_int, opt_pointer_size := sizeof_ptr\<rparr>)
      | Some ls \<Rightarrow>
          do {
            c1 \<leftarrow> platform_lines ls c;
            assert_opt (opt_int_size c1 \<noteq> 0);
            assert_opt (opt_pointer_size c1 \<noteq> 0);
            Some c1
          })"

text \<open>Note the first assignment: the default of \<open>max_split_files\<close> is stored into
  \<open>max_funcs\<close>, which the next line overwrites.\<close>

definition set_default_settings ::
    "int \<Rightarrow> int \<Rightarrow> string list option \<Rightarrow> CGOptions \<Rightarrow> CGOptions option" where
  "set_default_settings sizeof_int sizeof_ptr conf c0 =
     do {
       c \<leftarrow> set_platform_specific_options sizeof_int sizeof_ptr conf c0;
       Some (set_default_builtin_kinds (c\<lparr>
      opt_compute_hash := True, opt_max_funcs := 0, opt_max_funcs := 10, opt_max_params := 5,
      opt_max_block_size := 4, opt_max_blk_depth := 5, opt_max_expr_depth := 10,
      opt_max_struct_fields := 10, opt_max_union_fields := 5, opt_max_nested_struct_level := 3,
      opt_fixed_struct_fields := False, opt_expand_struct := False,
      opt_max_array_dimensions := 3, opt_max_array_length_per_dimension := 10,
      opt_max_array_length := 256, opt_max_exhaustive_depth := - 1, opt_max_indirect_level := 5,
      opt_output_file := '''', opt_interested_facts := 3, opt_allow_const_volatile := True,
      opt_avoid_signed_overflow := True, opt_paranoid := False, opt_quiet := False,
      opt_concise := False, opt_nomain := False, opt_random_based := True,
      opt_use_struct := True, opt_use_union := True, opt_compact_output := False,
      opt_func1_max_params := 3, opt_klee := False, opt_crest := False, opt_ccomp := False,
      opt_coverage_test := False, opt_coverage_test_size := 500, opt_packed_struct := True,
      opt_bitfields := True, opt_prefix_name := False, opt_sequence_name_prefix := False,
      opt_compatible_check := False, opt_compound_assignment := True, opt_math64 := True,
      opt_inline_function := False, opt_math_notmp := False, opt_longlong := True,
      opt_int8 := True, opt_uint8 := True, opt_enable_float := False, opt_strict_float := False,
      opt_pointers := True, opt_arrays := True, opt_strict_const_arrays := False,
      opt_jumps := True, opt_return_structs := True, opt_arg_structs := True,
      opt_return_unions := True, opt_arg_unions := True, opt_volatiles := True,
      opt_volatile_pointers := True, opt_const_pointers := True, opt_global_variables := True,
      opt_consts := True, opt_dangling_global_ptrs := True, opt_divs := True, opt_muls := True,
      opt_accept_argc := True, opt_stop_by_stmt := - 1, opt_step_hash_by_stmt := False,
      opt_const_as_condition := False, opt_match_exact_qualifiers := False,
      opt_blind_check_global := False, opt_no_return_dead_ptr := True,
      opt_hash_value_printf := True, opt_signed_char_index := True,
      opt_identify_wrappers := False, opt_mark_mutable_const := False,
      opt_force_globals_static := True, opt_force_non_uniform_array_init := True,
      opt_max_array_num_in_loop := 4, opt_inline_function_prob := 50,
      opt_builtin_function_prob := 50, opt_null_pointer_dereference_prob := 0,
      opt_dead_pointer_dereference_prob := 0, opt_pre_incr_operator := True,
      opt_pre_decr_operator := True, opt_post_incr_operator := True,
      opt_post_decr_operator := True, opt_unary_plus_operator := True,
      opt_use_embedded_assigns := True, opt_use_comma_exprs := True,
      opt_take_union_field_addr := True, opt_vol_struct_union_fields := True,
      opt_const_struct_union_fields := True, opt_addr_taken_of_locals := True,
      opt_lang_cpp := False, opt_cpp11 := False, opt_fast_execution := False,
      opt_array_oob_prob := 0, opt_Int128 := False, opt_UInt128 := False,
      opt_binary_constant := False\<rparr>))
     }"

definition fix_options_for_cpp :: "CGOptions \<Rightarrow> CGOptions" where
  "fix_options_for_cpp c = c\<lparr>opt_match_exact_qualifiers := True,
     opt_vol_struct_union_fields := False, opt_const_struct_union_fields := False\<rparr>"

definition is_random :: "CGOptions \<Rightarrow> bool" where
  "is_random c = opt_random_based c"

section \<open>Conflicts between options\<close>

definition tabs :: "nat \<Rightarrow> string" where
  "tabs n = replicate n (CHR 0x09)"

definition set_msg :: "string \<Rightarrow> CGOptions \<Rightarrow> CGOptions" where
  "set_msg m c = c\<lparr>opt_conflict_msg := m\<rparr>"

definition has_random_based_conflict :: "CGOptions \<Rightarrow> bool \<times> CGOptions" where
  "has_random_based_conflict c =
     (if \<not> opt_random_based c
      then let (rv, c1) =
             (if opt_split_files_dir c \<noteq> [] then (True, set_msg ''split_files_dir '' c)
              else if opt_max_split_files c > 0 then (True, set_msg ''max_split_files '' c)
              else (False, c))
           in if rv
              then (rv, set_msg (opt_conflict_msg c1 @ ''can only be applied to random mode'') c1)
              else (rv, c1)
      else if opt_sequence_name_prefix c
      then (True, set_msg (''--sequence-name-prefix option can only be '' @ tabs 5 @
             ''used with --dfs-exhaustive'') c)
      else (False, c))"

definition has_extension_support :: "CGOptions \<Rightarrow> bool" where
  "has_extension_support c \<longleftrightarrow> opt_klee c \<or> opt_crest c \<or> opt_coverage_test c"

definition allow_int64 :: "CGOptions \<Rightarrow> bool" where
  "allow_int64 c \<longleftrightarrow> \<not> has_extension_support c \<and> opt_math64 c \<and> opt_longlong c"

text \<open>The static state \<open>resolve_exhaustive_options\<close> reaches besides the options: the partial
  expander and the flag of \<open>CompatibleChecker\<close>.\<close>

record options_state =
  os_opts :: CGOptions
  os_expander :: partial_expander
  os_compatible :: bool

definition enable_compatible_check :: "options_state \<Rightarrow> options_state" where
  "enable_compatible_check s = s\<lparr>os_compatible := True\<rparr>"

definition resolve_exhaustive_options :: "options_state \<Rightarrow> (bool \<times> options_state) option" where
  "resolve_exhaustive_options s =
     (if \<not> opt_dfs_exhaustive (os_opts s) then Some (False, s)
      else
        let s1 = (if opt_compatible_check (os_opts s) then enable_compatible_check s else s);
            msg = (\<lambda>m s. s\<lparr>os_opts := set_msg m (os_opts s)\<rparr>)
        in do {
          (ok, s2) \<leftarrow>
            (if opt_partial_expand (os_opts s1) \<noteq> []
             then map_option (\<lambda>(ok, pe). (ok, s1\<lparr>os_expander := pe\<rparr>))
                    (init_partial_expander (opt_partial_expand (os_opts s1)) (os_expander s1))
             else Some (True, s1));
          if \<not> ok then Some (True, msg ''wrong partial-expand options!'' s2)
          else if opt_max_exhaustive_depth (os_opts s2) \<le> 0
          then Some (True, msg ''max-exhaustive-depth must be at least 0'' s2)
          else if \<not> opt_use_struct (os_opts s2) \<and> opt_expand_struct (os_opts s2)
          then Some (True, msg ''expand-struct cannot be used with --no-struct'' s2)
          else if has_extension_support (os_opts s2)
          then Some (True, msg ''exhaustive mode doesn't support klee|crest|coverage-test extension'' s2)
          else Some (False, s2\<lparr>os_opts := (os_opts s2)\<lparr>opt_fixed_struct_fields := True\<rparr>\<rparr>)
        })"

definition has_delta_conflict :: "CGOptions \<Rightarrow> bool \<times> CGOptions" where
  "has_delta_conflict c =
     (if opt_delta_monitor c \<noteq> [] \<and> opt_go_delta c \<noteq> []
      then (True, set_msg (''you cannot specify --delta-monitor and '' @ tabs 3 @
             ''--go-delta monitor at the same time. --go-delta '' @ tabs 3 @
             ''will invoke the corresponding delta monitor implicitly.'') c)
      else (False, c))"

definition has_extension_conflict :: "CGOptions \<Rightarrow> bool \<times> CGOptions" where
  "has_extension_conflict c =
     (let count = of_bool (opt_klee c) + of_bool (opt_crest c) + of_bool (opt_coverage_test c) in
      if count > (1 :: nat)
      then (True, set_msg ''You could only specify --klee or --crest or --coverage-test'' c)
      else (False, c))"

text \<open>The tail of \<open>has_conflict\<close>: the range checks on the options themselves.\<close>

definition has_value_conflict :: "(string \<Rightarrow> bool) \<Rightarrow> CGOptions \<Rightarrow> bool \<times> CGOptions" where
  "has_value_conflict create_output_dir c =
     (if opt_inline_function_prob c < 0 \<or> opt_inline_function_prob c > 100
      then (True, set_msg ''inline-function-prob value must between [0,100]'' c)
      else if opt_builtin_function_prob c < 0 \<or> opt_builtin_function_prob c > 100
      then (True, set_msg ''builtin-function-prob value must between [0,100]'' c)
      else if opt_array_oob_prob c < 0 \<or> opt_array_oob_prob c > 100
      then (True, set_msg ''array-oob-prob value must between [0,100]'' c)
      else if opt_max_funcs c < 1
      then (True, set_msg ''max-funcs must be at least 1'' c)
      else if opt_max_blk_depth c < 1
      then (True, set_msg ''max-stmt-depth must be at least 1'' c)
      else if opt_func1_max_params c > opt_max_params c
      then (True, set_msg ''func1_max_params() cannot be larger than max_params()'' c)
      else
        let c1 = (if opt_split_files_dir c = [] then c\<lparr>opt_split_files_dir := ''./output''\<rparr> else c)
        in if opt_max_split_files c1 > 0 \<and> \<not> create_output_dir (opt_split_files_dir c1)
           then (True, set_msg ''cannot create dir for split files!'' c1)
           else if \<not> opt_lang_cpp c1 \<and> opt_cpp11 c1
           then (True, set_msg ''--cpp11 option makes sense only with --lang-cpp option enabled.'' c1)
           else (False, c1))"

definition has_conflict :: "(string \<Rightarrow> bool) \<Rightarrow> options_state \<Rightarrow> (bool \<times> options_state) option" where
  "has_conflict create_output_dir s =
     (let (b, c) = has_random_based_conflict (os_opts s); s1 = s\<lparr>os_opts := c\<rparr> in
      if b then Some (True, s1)
      else do {
        (b, s2) \<leftarrow> resolve_exhaustive_options s1;
        if b then Some (True, s2)
        else let (b, c) = has_extension_conflict (os_opts s2); s3 = s2\<lparr>os_opts := c\<rparr> in
        if b then Some (True, s3)
        else let (b, c) = has_delta_conflict (os_opts s3); s4 = s3\<lparr>os_opts := c\<rparr> in
        if b then Some (True, s4)
        else let (b, c) = has_value_conflict create_output_dir (os_opts s4)
             in Some (b, s4\<lparr>os_opts := c\<rparr>)
      })"

section \<open>Lists in option strings\<close>

text \<open>\<open>parse_string_options\<close> keeps empty items, unlike \<open>split_string\<close>.\<close>

function comma_items :: "string \<Rightarrow> string list" where
  "comma_items s =
     (case dropWhile (\<lambda>c. c \<noteq> CHR '','') s of
        [] \<Rightarrow> [s]
      | _ # rest \<Rightarrow> takeWhile (\<lambda>c. c \<noteq> CHR '','') s # comma_items rest)"
  by pat_completeness auto
termination
proof (relation "measure length", goal_cases)
  case (2 s c rest)
  then have "length (c # rest) \<le> length s"
    using length_dropWhile_le [of "\<lambda>c. c \<noteq> CHR '',''" s] by simp
  then show ?case by simp
qed simp

declare comma_items.simps [simp del]

definition parse_string_options :: "string \<Rightarrow> string list \<Rightarrow> string list" where
  "parse_string_options vname v = (if vname = [] then v else v @ comma_items vname)"

definition split_int_string :: "string \<Rightarrow> int list \<Rightarrow> string \<Rightarrow> int list option" where
  "split_int_string str values sep_chars =
     (case those (map str2int (split_string_chars str sep_chars)) of
        None \<Rightarrow> None | Some is \<Rightarrow> Some (values @ is))"

definition set_safe_math_wrapper :: "string \<Rightarrow> CGOptions \<Rightarrow> CGOptions option" where
  "set_safe_math_wrapper ids c =
     map_option (\<lambda>is. c\<lparr>opt_safe_math_wrapper_ids := is\<rparr>)
       (split_int_string ids (opt_safe_math_wrapper_ids c) '','')"

definition safe_math_wrapper :: "int \<Rightarrow> CGOptions \<Rightarrow> bool" where
  "safe_math_wrapper i c \<longleftrightarrow>
     opt_safe_math_wrapper_ids c = [] \<or> i \<in> set (opt_safe_math_wrapper_ids c)"

definition set_builtin_kinds :: "bool \<Rightarrow> string \<Rightarrow> CGOptions \<Rightarrow> CGOptions" where
  "set_builtin_kinds value kinds c = c\<lparr>opt_enabled_builtin_kinds :=
     foldl (\<lambda>m k. m(k \<mapsto> value)) (opt_enabled_builtin_kinds c) (split_string_chars kinds '','')\<rparr>"

definition disable_builtin_kinds :: "string \<Rightarrow> CGOptions \<Rightarrow> CGOptions" where
  "disable_builtin_kinds = set_builtin_kinds False"

definition enable_builtin_kinds :: "string \<Rightarrow> CGOptions \<Rightarrow> CGOptions" where
  "enable_builtin_kinds = set_builtin_kinds True"

definition enabled_builtin_kind :: "string \<Rightarrow> CGOptions \<Rightarrow> bool" where
  "enabled_builtin_kind kind c = (case opt_enabled_builtin_kinds c kind of None \<Rightarrow> False | Some b \<Rightarrow> b)"

definition enabled_builtin :: "string \<Rightarrow> CGOptions \<Rightarrow> bool" where
  "enabled_builtin ks c = list_ex (\<lambda>k. enabled_builtin_kind k c) (split_string_chars ks ''|'')"

section \<open>Properties\<close>

definition options_sane :: "CGOptions \<Rightarrow> bool" where
  "options_sane c \<longleftrightarrow>
     0 \<le> opt_inline_function_prob c \<and> opt_inline_function_prob c \<le> 100 \<and>
     0 \<le> opt_builtin_function_prob c \<and> opt_builtin_function_prob c \<le> 100 \<and>
     0 \<le> opt_array_oob_prob c \<and> opt_array_oob_prob c \<le> 100 \<and>
     1 \<le> opt_max_funcs c \<and> 1 \<le> opt_max_blk_depth c \<and>
     opt_func1_max_params c \<le> opt_max_params c \<and> opt_split_files_dir c \<noteq> [] \<and>
     (opt_cpp11 c \<longrightarrow> opt_lang_cpp c) \<and>
     (opt_random_based c \<longrightarrow> \<not> opt_sequence_name_prefix c) \<and>
     (opt_dfs_exhaustive c \<longrightarrow> 0 < opt_max_exhaustive_depth c \<and> opt_fixed_struct_fields c \<and>
        \<not> has_extension_support c \<and> (opt_expand_struct c \<longrightarrow> opt_use_struct c)) \<and>
     \<not> (opt_klee c \<and> opt_crest c) \<and> \<not> (opt_klee c \<and> opt_coverage_test c) \<and>
     \<not> (opt_crest c \<and> opt_coverage_test c) \<and>
     \<not> (opt_delta_monitor c \<noteq> [] \<and> opt_go_delta c \<noteq> [])"

lemma no_random_based_conflict:
  "has_random_based_conflict c = (False, c') \<Longrightarrow>
     c' = c \<and> (opt_random_based c \<longrightarrow> \<not> opt_sequence_name_prefix c)"
  by (auto simp: has_random_based_conflict_def Let_def split: if_splits)

lemma no_extension_conflict:
  "has_extension_conflict c = (False, c') \<Longrightarrow>
     c' = c \<and> \<not> (opt_klee c \<and> opt_crest c) \<and> \<not> (opt_klee c \<and> opt_coverage_test c) \<and>
     \<not> (opt_crest c \<and> opt_coverage_test c)"
  by (auto simp: has_extension_conflict_def Let_def split: if_splits)

lemma no_delta_conflict:
  "has_delta_conflict c = (False, c') \<Longrightarrow>
     c' = c \<and> \<not> (opt_delta_monitor c \<noteq> [] \<and> opt_go_delta c \<noteq> [])"
  by (auto simp: has_delta_conflict_def split: if_splits)

lemma exhaustive_resolved_on:
  assumes "resolve_exhaustive_options s = Some (False, s')" "opt_dfs_exhaustive (os_opts s)"
  shows "os_opts s' = (os_opts s)\<lparr>opt_fixed_struct_fields := True\<rparr> \<and>
     0 < opt_max_exhaustive_depth (os_opts s) \<and> \<not> has_extension_support (os_opts s) \<and>
     (opt_expand_struct (os_opts s) \<longrightarrow> opt_use_struct (os_opts s))"
  using assms
  by (auto simp: resolve_exhaustive_options_def enable_compatible_check_def Let_def bind_eq_Some_conv
      split: if_splits)

lemma exhaustive_resolved:
  assumes "resolve_exhaustive_options s = Some (False, s')"
  shows "\<exists>f. os_opts s' = (os_opts s)\<lparr>opt_fixed_struct_fields := f\<rparr> \<and>
     (opt_dfs_exhaustive (os_opts s) \<longrightarrow> f \<and> 0 < opt_max_exhaustive_depth (os_opts s) \<and>
        \<not> has_extension_support (os_opts s) \<and>
        (opt_expand_struct (os_opts s) \<longrightarrow> opt_use_struct (os_opts s)))"
proof (cases "opt_dfs_exhaustive (os_opts s)")
  case False
  with assms have "s' = s" by (simp add: resolve_exhaustive_options_def)
  with False show ?thesis by (intro exI [of _ "opt_fixed_struct_fields (os_opts s)"]) simp
next
  case True
  from exhaustive_resolved_on [OF assms True] show ?thesis by (intro exI [of _ True]) simp
qed

lemma no_value_conflict:
  assumes "has_value_conflict f c = (False, c')"
  shows "c' = c\<lparr>opt_split_files_dir := opt_split_files_dir c'\<rparr>"
    and "opt_split_files_dir c' \<noteq> []"
    and "0 \<le> opt_inline_function_prob c \<and> opt_inline_function_prob c \<le> 100"
    and "0 \<le> opt_builtin_function_prob c \<and> opt_builtin_function_prob c \<le> 100"
    and "0 \<le> opt_array_oob_prob c \<and> opt_array_oob_prob c \<le> 100"
    and "1 \<le> opt_max_funcs c \<and> 1 \<le> opt_max_blk_depth c \<and> opt_func1_max_params c \<le> opt_max_params c"
    and "opt_cpp11 c \<longrightarrow> opt_lang_cpp c"
  using assms by (auto simp: has_value_conflict_def Let_def split: if_splits)

lemma accepted_options_sane:
  assumes "has_conflict create_dir s = Some (False, s')"
  shows "options_sane (os_opts s')"
proof -
  from assms obtain c1 s2 c3 c4 c5 where
    r: "has_random_based_conflict (os_opts s) = (False, c1)" and
    e: "resolve_exhaustive_options (s\<lparr>os_opts := c1\<rparr>) = Some (False, s2)" and
    x: "has_extension_conflict (os_opts s2) = (False, c3)" and
    d: "has_delta_conflict c3 = (False, c4)" and
    v: "has_value_conflict create_dir c4 = (False, c5)" and
    s': "os_opts s' = c5"
    by (auto simp: has_conflict_def Let_def bind_eq_Some_conv split: if_splits prod.splits)
  from no_random_based_conflict [OF r] have r': "c1 = os_opts s"
    "opt_random_based (os_opts s) \<longrightarrow> \<not> opt_sequence_name_prefix (os_opts s)" by auto
  from exhaustive_resolved [OF e] obtain f where
    e': "os_opts s2 = c1\<lparr>opt_fixed_struct_fields := f\<rparr>" and
    f: "opt_dfs_exhaustive c1 \<longrightarrow> f \<and> 0 < opt_max_exhaustive_depth c1 \<and>
        \<not> has_extension_support c1 \<and> (opt_expand_struct c1 \<longrightarrow> opt_use_struct c1)" by auto
  from no_extension_conflict [OF x] no_delta_conflict [OF d]
  have x': "c4 = os_opts s2" by simp
  obtain dir where c5: "c5 = (os_opts s)\<lparr>opt_fixed_struct_fields := f, opt_split_files_dir := dir\<rparr>"
    using no_value_conflict(1) [OF v] x' e' r'(1) by (cases "os_opts s") simp
  show ?thesis
    using no_value_conflict(2-7) [OF v] no_extension_conflict [OF x] no_delta_conflict [OF d] r'(2) f
    unfolding s' options_sane_def has_extension_support_def
    by (simp add: x' e' r'(1) c5)
qed

text \<open>
  a set of options that \<open>has_conflict\<close> accepts is sane: every probability is a percentage, the
  limits are at least 1 and ordered, the extensions exclude each other, and an exhaustive run has a
  positive depth, fixed struct sizes and no extension.
\<close>

lemma has_conflict_accepts_sane:
  assumes "has_conflict create_dir s = Some (False, s')"
  shows "options_sane (os_opts s')"
  by (rule accepted_options_sane [OF assms])


text \<open>The options as the driver has them when no flag is given.\<close>

definition default_state :: "int \<Rightarrow> int \<Rightarrow> options_state" where
  "default_state si sp = \<lparr>
     os_opts = (case set_default_settings si sp None CGOptions_static of
                  None \<Rightarrow> CGOptions_static | Some c \<Rightarrow> c),
     os_expander = partial_expander_static, os_compatible = False\<rparr>"

lemma default_state_accepted:
  "\<exists>s'. has_conflict mk (default_state si sp) = Some (False, s')"
  by (simp add: default_state_def set_default_settings_def set_platform_specific_options_def
      CGOptions_static_def set_default_builtin_kinds_def has_conflict_def
      has_random_based_conflict_def resolve_exhaustive_options_def has_extension_conflict_def
      has_delta_conflict_def has_value_conflict_def)

end
