(* ===== verification/Tables.thy ===== *)
theory Tables
  imports Prelude "HOL-Library.Multiset"
begin

text \<open>
  The two tables that turn a random number into a choice: \<open>ProbabilityTable\<close>
  (\<open>ProbabilityTable.h\<close>), a vector of entries kept sorted by key in which a number selects the first
  entry with a greater key, and \<open>DistributionTable\<close> (\<open>Probabilities.cpp\<close>), parallel vectors of keys
  and weights in which a number is consumed weight by weight.
\<close>

section \<open>\<open>ProbabilityTable\<close>\<close>

text \<open>An entry is a pair of key and value.  Keys are \<open>unsigned int\<close> in every instance, so the
  model keeps them as natural numbers.\<close>

record 'v ProbabilityTable =
  pt_curr_max_key :: nat
  pt_table :: "(nat \<times> 'v) list"

definition empty_prob_table :: "'v ProbabilityTable" where
  "empty_prob_table = \<lparr>pt_curr_max_key = 0, pt_table = []\<rparr>"

definition my_greater :: "nat \<times> 'v \<Rightarrow> nat \<Rightarrow> bool" where
  "my_greater t k2 \<longleftrightarrow> fst t > k2"

text \<open>The loop of \<open>sorted_insert\<close> with the insertion at the place where it stops; the flag tells
  that the loop ran to the end of the vector.\<close>

fun insert_before_greater :: "nat \<times> 'v \<Rightarrow> (nat \<times> 'v) list \<Rightarrow> (nat \<times> 'v) list \<times> bool" where
  "insert_before_greater t [] = ([t], True)"
| "insert_before_greater t (e # es) =
     (if my_greater e (fst t) then (t # e # es, False)
      else let (r, at_end) = insert_before_greater t es in (e # r, at_end))"

definition sorted_insert :: "nat \<times> 'v \<Rightarrow> 'v ProbabilityTable \<Rightarrow> 'v ProbabilityTable" where
  "sorted_insert t p =
     (if pt_table p = [] then p\<lparr>pt_table := pt_table p @ [t], pt_curr_max_key := fst t\<rparr>
      else let (r, at_end) = insert_before_greater t (pt_table p)
           in if at_end then p\<lparr>pt_table := r, pt_curr_max_key := fst t\<rparr> else p\<lparr>pt_table := r\<rparr>)"

definition add_elem :: "nat \<Rightarrow> 'v \<Rightarrow> 'v ProbabilityTable \<Rightarrow> 'v ProbabilityTable" where
  "add_elem k v p = sorted_insert (k, v) p"

definition get_value :: "nat \<Rightarrow> 'v ProbabilityTable \<Rightarrow> 'v option" where
  "get_value k p =
     do {
       assert_opt (k < pt_curr_max_key p);
       e \<leftarrow> find (\<lambda>t. my_greater t k) (pt_table p);
       Some (snd e)
     }"

text \<open>The invariant: entries sorted by key, \<open>pt_curr_max_key\<close> the key of the last one.\<close>

definition prob_table_ok :: "'v ProbabilityTable \<Rightarrow> bool" where
  "prob_table_ok p \<longleftrightarrow> sorted (map fst (pt_table p)) \<and>
     pt_curr_max_key p = (if pt_table p = [] then 0 else fst (last (pt_table p)))"

lemma insert_before_greater_props:
  "insert_before_greater t es = (r, at_end) \<Longrightarrow>
     mset r = add_mset t (mset es) \<and> r \<noteq> [] \<and>
     (at_end \<longrightarrow> r = es @ [t] \<and> (\<forall>e \<in> set es. fst e \<le> fst t)) \<and>
     (\<not> at_end \<longrightarrow> es \<noteq> [] \<and> last r = last es) \<and>
     (sorted (map fst es) \<longrightarrow> sorted (map fst r))"
proof (induction es arbitrary: r at_end)
  case (Cons e es)
  show ?case
  proof (cases "my_greater e (fst t)")
    case True
    with Cons.prems have "r = t # e # es" "\<not> at_end" by auto
    with True show ?thesis by (auto simp: my_greater_def intro: order.trans less_imp_le)
  next
    case False
    obtain r1 a1 where i: "insert_before_greater t es = (r1, a1)" by fastforce
    with False Cons.prems have r: "r = e # r1" "at_end = a1" by auto
    note h = Cons.IH [OF i]
    have s: "set r1 = insert (fst t, snd t) (set es)"
      using h by (metis prod.collapse set_mset_add_mset_insert set_mset_mset)
    show ?thesis using h r s False by (auto simp: my_greater_def)
  qed
qed auto

lemma sorted_insert_ok: "prob_table_ok p \<Longrightarrow> prob_table_ok (sorted_insert t p)"
  by (auto simp: prob_table_ok_def sorted_insert_def Let_def split: prod.splits
      dest!: insert_before_greater_props)

lemma mset_sorted_insert: "mset (pt_table (sorted_insert t p)) = add_mset t (mset (pt_table p))"
  by (auto simp: sorted_insert_def Let_def split: prod.splits dest!: insert_before_greater_props)

lemma empty_prob_table_ok [simp]: "prob_table_ok empty_prob_table"
  by (simp add: prob_table_ok_def empty_prob_table_def)

text \<open>Building a table from a list of entries, in the order of the code's \<open>add_elem\<close> calls.\<close>

definition build_table :: "(nat \<times> 'v) list \<Rightarrow> 'v ProbabilityTable" where
  "build_table es = foldl (\<lambda>p (k, v). add_elem k v p) empty_prob_table es"

lemma build_table_props:
  "prob_table_ok p \<Longrightarrow> prob_table_ok (foldl (\<lambda>p (k, v). add_elem k v p) p es) \<and>
     mset (pt_table (foldl (\<lambda>p (k, v). add_elem k v p) p es)) = mset (pt_table p) + mset es"
  by (induction es arbitrary: p)
    (auto simp: add_elem_def sorted_insert_ok mset_sorted_insert)

lemma build_table_sorted:
  "sorted (map fst (pt_table (build_table es))) \<and> mset (pt_table (build_table es)) = mset es \<and>
   pt_curr_max_key (build_table es) = Max (insert 0 (fst ` set es))"
proof -
  have p: "prob_table_ok (build_table es)" "mset (pt_table (build_table es)) = mset es"
    using build_table_props [OF empty_prob_table_ok, of es]
    by (auto simp: build_table_def empty_prob_table_def)
  let ?t = "pt_table (build_table es)"
  have s: "set ?t = set es" using p(2) by (metis set_mset_mset)
  have "pt_curr_max_key (build_table es) = Max (insert 0 (fst ` set ?t))"
  proof (cases "?t = []")
    case False
    then have l: "fst (last ?t) \<in> fst ` set ?t" by simp
    from p(1) have so: "sorted (map fst ?t)" by (simp add: prob_table_ok_def)
    have m: "\<forall>k \<in> fst ` set ?t. k \<le> fst (last ?t)"
    proof
      fix k assume "k \<in> fst ` set ?t"
      then obtain i where i: "i < length ?t" "k = map fst ?t ! i" by (auto simp: in_set_conv_nth)
      have "map fst ?t ! i \<le> map fst ?t ! (length ?t - 1)"
        using so i(1) by (intro sorted_nth_mono) auto
      with i False show "k \<le> fst (last ?t)" by (simp add: last_conv_nth)
    qed
    with l have "Max (insert 0 (fst ` set ?t)) = fst (last ?t)" by (intro Max_eqI) auto
    with p(1) False show ?thesis by (simp add: prob_table_ok_def)
  qed (use p(1) in \<open>simp add: prob_table_ok_def\<close>)
  with p s show ?thesis by (simp add: prob_table_ok_def)
qed

text \<open>
  C0: a table built by any sequence of \<open>add_elem\<close> calls holds exactly the added entries, sorted by
  key, with \<open>pt_curr_max_key\<close> the greatest of the keys.
\<close>

theorem prob_table_sorted:
  "sorted (map fst (pt_table (build_table es))) \<and> mset (pt_table (build_table es)) = mset es \<and>
   pt_curr_max_key (build_table es) = Max (insert 0 (fst ` set es))"
  by (rule build_table_sorted)

lemma get_value_cases:
  "case get_value k (build_table es) of
     None \<Rightarrow> (\<forall>e \<in> set es. fst e \<le> k)
   | Some v \<Rightarrow> \<exists>k'. (k', v) \<in> set es \<and> k < k' \<and> (\<forall>e \<in> set es. \<not> (k < fst e \<and> fst e < k'))"
proof -
  let ?p = "build_table es"
  let ?t = "pt_table ?p"
  have s: "sorted (map fst ?t)" "set ?t = set es"
    "pt_curr_max_key ?p = Max (insert 0 (fst ` set es))"
    using build_table_sorted [of es] by (auto dest: mset_eq_setD)
  show ?thesis
  proof (cases "find (\<lambda>t. my_greater t k) ?t")
    case None
    then have "\<forall>e \<in> set es. fst e \<le> k" by (auto simp: find_None_iff my_greater_def s(2) not_less)
    then show ?thesis by (simp add: get_value_def None assert_opt_def)
  next
    case (Some e)
    then obtain i where i: "i < length ?t" "e = ?t ! i" "fst e > k"
      "\<forall>j < i. fst (?t ! j) \<le> k"
      by (auto simp: find_Some_iff my_greater_def not_less)
    then have e: "e \<in> set es" using s(2) nth_mem by metis
    then have "k < pt_curr_max_key ?p" using i(3) s(3) by (auto simp: Max_gr_iff)
    then have g: "get_value k ?p = Some (snd e)" by (simp add: get_value_def Some)
    have "\<not> (k < fst e' \<and> fst e' < fst e)" if "e' \<in> set es" for e'
    proof -
      from that s(2) obtain j where j: "j < length ?t" "?t ! j = e'" by (metis in_set_conv_nth)
      show ?thesis
      proof (cases "j < i")
        case True
        with i(4) j(2) show ?thesis by (metis not_less)
      next
        case False
        then have "map fst ?t ! i \<le> map fst ?t ! j" using s(1) j(1) by (intro sorted_nth_mono) auto
        then have "fst e \<le> fst e'" using i(1,2) j by simp
        then show ?thesis by simp
      qed
    qed
    with e i(3) have "\<exists>k'. (k', snd e) \<in> set es \<and> k < k' \<and>
        (\<forall>e' \<in> set es. \<not> (k < fst e' \<and> fst e' < k'))"
      by (intro exI [of _ "fst e"]) simp
    then show ?thesis by (simp add: g)
  qed
qed

text \<open>
  A lookup below \<open>pt_curr_max_key\<close> never fails, and it returns the value of an entry whose key
  is the least key greater than the number looked up; a lookup at or above it aborts.
\<close>

lemma get_value_least_greater:
  "case get_value k (build_table es) of
     None \<Rightarrow> (\<forall>e \<in> set es. fst e \<le> k)
   | Some v \<Rightarrow> \<exists>k'. (k', v) \<in> set es \<and> k < k' \<and> (\<forall>e \<in> set es. \<not> (k < fst e \<and> fst e < k'))"
  by (rule get_value_cases)

section \<open>\<open>DistributionTable\<close>\<close>

record DistributionTable =
  dt_max_prob :: int
  dt_keys :: "int list"
  dt_probs :: "int list"

definition empty_distribution :: DistributionTable where
  "empty_distribution = \<lparr>dt_max_prob = 0, dt_keys = [], dt_probs = []\<rparr>"

definition add_entry :: "int \<Rightarrow> int \<Rightarrow> DistributionTable \<Rightarrow> DistributionTable" where
  "add_entry key prob d =
     d\<lparr>dt_keys := dt_keys d @ [key], dt_probs := dt_probs d @ [prob], dt_max_prob := dt_max_prob d + prob\<rparr>"

fun key_to_prob_loop :: "int \<Rightarrow> int list \<Rightarrow> int list \<Rightarrow> int" where
  "key_to_prob_loop key (k # ks) (p # ps) = (if k = key then p else key_to_prob_loop key ks ps)"
| "key_to_prob_loop key _ _ = 0"

definition key_to_prob :: "int \<Rightarrow> DistributionTable \<Rightarrow> int" where
  "key_to_prob key d = key_to_prob_loop key (dt_keys d) (dt_probs d)"

fun rnd_num_to_key_loop :: "int \<Rightarrow> int list \<Rightarrow> int list \<Rightarrow> int option" where
  "rnd_num_to_key_loop rnd (k # ks) (p # ps) =
     (if rnd < p then Some k else rnd_num_to_key_loop (rnd - p) ks ps)"
| "rnd_num_to_key_loop rnd _ _ = None"

definition rnd_num_to_key :: "int \<Rightarrow> DistributionTable \<Rightarrow> int option" where
  "rnd_num_to_key rnd d =
     do {
       assert_opt (rnd < dt_max_prob d \<and> rnd \<ge> 0);
       assert_opt (length (dt_keys d) = length (dt_probs d));
       rnd_num_to_key_loop rnd (dt_keys d) (dt_probs d)
     }"

definition build_distribution :: "(int \<times> int) list \<Rightarrow> DistributionTable" where
  "build_distribution es = foldl (\<lambda>d (k, p). add_entry k p d) empty_distribution es"

lemma build_distribution_fields_gen:
  "foldl (\<lambda>d (k, p). add_entry k p d) d es =
     \<lparr>dt_max_prob = dt_max_prob d + sum_list (map snd es), dt_keys = dt_keys d @ map fst es,
      dt_probs = dt_probs d @ map snd es\<rparr>"
  by (induction es arbitrary: d) (auto simp: add_entry_def)

lemma build_distribution_fields [simp]:
  "build_distribution es =
     \<lparr>dt_max_prob = sum_list (map snd es), dt_keys = map fst es, dt_probs = map snd es\<rparr>"
  by (simp add: build_distribution_def build_distribution_fields_gen empty_distribution_def)

text \<open>The draws that select key \<open>k\<close>.\<close>

definition draws :: "int \<Rightarrow> (int \<times> int) list \<Rightarrow> int set" where
  "draws k es = {r. 0 \<le> r \<and> r < sum_list (map snd es) \<and>
     rnd_num_to_key_loop r (map fst es) (map snd es) = Some k}"

lemma sum_list_weights_nonneg: "\<forall>e \<in> set es. 0 \<le> snd e \<Longrightarrow> 0 \<le> sum_list (map snd (es :: (int \<times> int) list))"
  by (intro sum_list_nonneg) auto

lemma draws_Cons:
  assumes "0 \<le> p" "\<forall>e \<in> set es. 0 \<le> snd e"
  shows "draws k ((k1, p) # es) = (if k1 = k then {0..<p} else {}) \<union> (\<lambda>r. r + p) ` draws k es"
proof -
  have n: "0 \<le> sum_list (map snd es)" using assms(2) by (rule sum_list_weights_nonneg)
  have "r \<in> draws k ((k1, p) # es) \<longleftrightarrow>
      r \<in> (if k1 = k then {0..<p} else {}) \<or> r - p \<in> draws k es" for r
    using assms(1) n by (auto simp: draws_def)
  moreover have "r \<in> (\<lambda>r. r + p) ` draws k es \<longleftrightarrow> r - p \<in> draws k es" for r
    by (auto intro!: image_eqI [of _ _ "r - p"])
  ultimately show ?thesis by blast
qed

lemma finite_draws: "finite (draws k es)"
  by (rule finite_subset [of _ "{0..<sum_list (map snd es)}"]) (auto simp: draws_def)

lemma card_draws:
  "\<forall>e \<in> set es. 0 \<le> snd e \<Longrightarrow>
     int (card (draws k es)) = sum_list (map snd (filter (\<lambda>e. fst e = k) es))"
proof (induction es)
  case (Cons e es)
  obtain k1 p where e: "e = (k1, p)" by fastforce
  from Cons.prems e have p: "0 \<le> p" "\<forall>e \<in> set es. 0 \<le> snd e" by auto
  have d: "(if k1 = k then {0..<p} else {}) \<inter> (\<lambda>r. r + p) ` draws k es = {}"
    by (auto simp: draws_def)
  have "card (draws k (e # es)) = card (if k1 = k then {0..<p} else {}) + card (draws k es)"
    unfolding e draws_Cons [OF p] using d
    by (subst card_Un_disjoint) (auto simp: finite_draws card_image inj_on_def)
  with Cons.IH [OF p(2)] p(1) e show ?case by auto
qed (simp add: draws_def)



lemma key_to_prob_distinct:
  "distinct (map fst es) \<Longrightarrow>
     key_to_prob k (build_distribution es) = sum_list (map snd (filter (\<lambda>e. fst e = k) es))"
proof -
  have "key_to_prob_loop k (map fst es) (map snd es) = sum_list (map snd (filter (\<lambda>e. fst e = k) es))"
    if "distinct (map fst es)" using that
  proof (induction es)
    case (Cons e es)
    have "fst e = k \<Longrightarrow> filter (\<lambda>e. fst e = k) es = []"
      using Cons.prems by (auto simp: filter_empty_conv intro: rev_image_eqI)
    with Cons show ?case by auto
  qed simp
  then show "distinct (map fst es) \<Longrightarrow> ?thesis" by (simp add: key_to_prob_def)
qed

end
