(* ===== verification/World.thy ===== *)
theory World
  imports Rand48 Options Tables "HOL-Library.AList"
begin

text \<open>
  The process-wide state that the random generators share: the options, the error flag of
  \<open>Error.h\<close>, the state of the congruential generator, and the two generator objects with the
  dispatcher of \<open>RandomNumber.cpp\<close>; with the sequences of \<open>LinearSequence.cpp\<close> that record the
  choices, and the filters of \<open>Filter.cpp\<close> and \<open>VectorFilter.cpp\<close> that reject them.
\<close>

section \<open>Error codes (\<open>Error.h\<close>)\<close>

definition SUCCESS :: int where "SUCCESS = 0"
definition ERROR :: int where "ERROR = - 1"
definition EXCEED_MAX_DEPTH_ERROR :: int where "EXCEED_MAX_DEPTH_ERROR = - 2"
definition FILTER_ERROR :: int where "FILTER_ERROR = - 3"
definition BACKTRACKING_ERROR :: int where "BACKTRACKING_ERROR = - 4"
definition COMPATIBLE_CHECK_ERROR :: int where "COMPATIBLE_CHECK_ERROR = - 5"
definition INVALID_SIMPLE_DELTA_SEQUENCE :: int where "INVALID_SIMPLE_DELTA_SEQUENCE = - 6"

lemmas error_codes = SUCCESS_def ERROR_def EXCEED_MAX_DEPTH_ERROR_def FILTER_ERROR_def
  BACKTRACKING_ERROR_def COMPATIBLE_CHECK_ERROR_def INVALID_SIMPLE_DELTA_SEQUENCE_def

section \<open>Sequences of choices (\<open>LinearSequence.cpp\<close>)\<close>

text \<open>\<open>seq_map_\<close> is a \<open>std::map<int, int>\<close>: an association list without repeated keys.\<close>

type_synonym sequence = "(int \<times> int) list"

definition add_number :: "int \<Rightarrow> int \<Rightarrow> sequence \<Rightarrow> sequence" where
  "add_number v k s = AList.update k v s"

definition get_number :: "int \<Rightarrow> int" where
  "get_number bound = - 1"

text \<open>\<open>operator[]\<close> inserts a 0 for a missing key.\<close>

definition seq_at :: "int \<Rightarrow> sequence \<Rightarrow> int \<times> sequence" where
  "seq_at k s = (case map_of s k of None \<Rightarrow> (0, AList.update k 0 s) | Some v \<Rightarrow> (v, s))"

definition get_number_by_pos :: "int \<Rightarrow> sequence \<Rightarrow> (int \<times> sequence) option" where
  "get_number_by_pos pos s =
     (let (rv, s') = seq_at pos s in do { assert_opt (rv \<ge> 0); Some (rv, s') })"

definition clear_sequence :: "sequence \<Rightarrow> sequence" where
  "clear_sequence s = []"

definition sequence_length :: "sequence \<Rightarrow> nat" where
  "sequence_length s = length s"

partial_function (option) get_sequence_loop ::
    "char \<Rightarrow> nat \<Rightarrow> sequence \<Rightarrow> string \<Rightarrow> (string \<times> sequence) option" where
  "get_sequence_loop sep i s out =
     (if i < sequence_length s - 1
      then let (v, s') = seq_at (int i) s
           in get_sequence_loop sep (i + 1) s' (out @ int2str v @ [sep])
      else let (v, s') = seq_at (int i) s in Some (out @ int2str v, s'))"

declare get_sequence_loop.simps [code]

definition get_sequence :: "char \<Rightarrow> sequence \<Rightarrow> (string \<times> sequence) option" where
  "get_sequence sep s = do { assert_opt (s \<noteq> []); get_sequence_loop sep 0 s [] }"

section \<open>The state\<close>

datatype RNDNUM_GENERATOR = rDefaultRndNumGenerator | rDFSRndNumGenerator

record default_gen =
  dg_rand_depth :: "64 word"
  dg_trace_string :: string
  dg_seq :: sequence

record SearchState =
  ss_init :: bool
  ss_value :: int
  ss_bound :: int
  ss_index :: int

record dfs_gen =
  df_trace_string :: string
  df_decision_depth :: int
  df_current_pos :: int
  df_all_done :: bool
  df_seq :: sequence
  df_use_debug_sequence :: bool
  df_states :: "SearchState list"

text \<open>
  \<open>w_default\<close> and \<open>w_dfs\<close> are the singletons \<open>impl_\<close> of the two generator classes;
  \<open>w_generators\<close> is the map \<open>generators_\<close> of the dispatcher (which of its entries are not null)
  and \<open>w_curr\<close> its \<open>curr_generator_\<close>.
\<close>

record world =
  w_opts :: CGOptions
  w_err :: int
  w_rand48 :: rand48_state
  w_seed :: "64 word"
  w_default :: "default_gen option"
  w_dfs :: "dfs_gen option"
  w_generators :: "RNDNUM_GENERATOR list"
  w_curr :: "RNDNUM_GENERATOR option"

definition set_error :: "int \<Rightarrow> 'z world_scheme \<Rightarrow> 'z world_scheme" where
  "set_error e w = w\<lparr>w_err := e\<rparr>"

definition dfs_mod :: "(dfs_gen \<Rightarrow> dfs_gen) \<Rightarrow> 'z world_scheme \<Rightarrow> 'z world_scheme" where
  "dfs_mod g w = w\<lparr>w_dfs := map_option g (w_dfs w)\<rparr>"

definition default_mod :: "(default_gen \<Rightarrow> default_gen) \<Rightarrow> 'z world_scheme \<Rightarrow> 'z world_scheme" where
  "default_mod g w = w\<lparr>w_default := map_option g (w_default w)\<rparr>"

lemma set_error_sel [simp]:
  "w_err (set_error e w) = e" "w_dfs (set_error e w) = w_dfs w" "w_opts (set_error e w) = w_opts w"
  "w_default (set_error e w) = w_default w" "w_curr (set_error e w) = w_curr w"
  "world.more (set_error e w) = world.more w"
  by (simp_all add: set_error_def)

lemma dfs_mod_sel [simp]:
  "w_err (dfs_mod g w) = w_err w" "w_dfs (dfs_mod g w) = map_option g (w_dfs w)"
  "w_opts (dfs_mod g w) = w_opts w" "w_default (dfs_mod g w) = w_default w"
  "w_curr (dfs_mod g w) = w_curr w" "world.more (dfs_mod g w) = world.more w"
  by (simp_all add: dfs_mod_def)

lemma default_mod_sel [simp]:
  "w_err (default_mod g w) = w_err w" "w_dfs (default_mod g w) = w_dfs w"
  "w_opts (default_mod g w) = w_opts w" "w_curr (default_mod g w) = w_curr w"
  "w_default (default_mod g w) = map_option g (w_default w)"
  "world.more (default_mod g w) = world.more w"
  by (simp_all add: default_mod_def)

section \<open>Filters\<close>

text \<open>
  A filter is its virtual method \<open>filter(int v)\<close>: it may read and change the state (a filter can
  draw random numbers) and it may abort.  \<open>True\<close> rejects the number.
\<close>

type_synonym 'z filter_fn = "int \<Rightarrow> 'z world_scheme \<Rightarrow> (bool \<times> 'z world_scheme) option"

datatype FilterKind = fDefault | fDFS | MAX_FILTER_KIND_SIZE

text \<open>The bit set \<open>kinds_\<close> of a filter, for which \<open>MAX_FILTER_KIND_SIZE\<close> is out of range:
  \<open>test\<close> throws there.\<close>

record Filter =
  fk_default :: bool
  fk_dfs :: bool

definition Filter_init :: Filter where
  "Filter_init = \<lparr>fk_default = True, fk_dfs = True\<rparr>"

definition set_kind :: "FilterKind \<Rightarrow> bool \<Rightarrow> Filter \<Rightarrow> Filter option" where
  "set_kind k b f =
     (case k of fDefault \<Rightarrow> Some (f\<lparr>fk_default := b\<rparr>) | fDFS \<Rightarrow> Some (f\<lparr>fk_dfs := b\<rparr>)
      | MAX_FILTER_KIND_SIZE \<Rightarrow> None)"

definition filter_enable :: "FilterKind \<Rightarrow> Filter \<Rightarrow> Filter option" where
  "filter_enable k = set_kind k True"

definition filter_disable :: "FilterKind \<Rightarrow> Filter \<Rightarrow> Filter option" where
  "filter_disable k = set_kind k False"

definition current_kind :: "'z world_scheme \<Rightarrow> FilterKind" where
  "current_kind w =
     (if opt_random_based (w_opts w) then fDefault
      else if opt_dfs_exhaustive (w_opts w) then fDFS
      else MAX_FILTER_KIND_SIZE)"

definition valid_filter :: "Filter \<Rightarrow> 'z world_scheme \<Rightarrow> bool option" where
  "valid_filter f w =
     (case current_kind w of fDefault \<Rightarrow> Some (fk_default f) | fDFS \<Rightarrow> Some (fk_dfs f)
      | MAX_FILTER_KIND_SIZE \<Rightarrow> None)"

section \<open>\<open>VectorFilter\<close>\<close>

datatype filter_flag = FILTER_OUT | NOT_FILTER_OUT

record VectorFilter = Filter +
  vf_vs :: "nat list"
  vf_ptable :: "DistributionTable option"
  vf_flag :: filter_flag

definition VectorFilter_init :: "DistributionTable option \<Rightarrow> VectorFilter" where
  "VectorFilter_init table = \<lparr>fk_default = True, fk_dfs = True, vf_vs = [], vf_ptable = table,
     vf_flag = FILTER_OUT\<rparr>"

definition VectorFilter_of :: "nat list \<Rightarrow> filter_flag \<Rightarrow> VectorFilter" where
  "VectorFilter_of vs flag = \<lparr>fk_default = True, fk_dfs = True, vf_vs = vs, vf_ptable = None,
     vf_flag = flag\<rparr>"

definition vf_lookup :: "VectorFilter \<Rightarrow> int \<Rightarrow> 'z world_scheme \<Rightarrow> int option" where
  "vf_lookup f v w =
     do {
       valid \<leftarrow> valid_filter (Filter.truncate f) w;
       (case vf_ptable f of
          None \<Rightarrow> Some v
        | Some t \<Rightarrow> if \<not> valid then Some v else rnd_num_to_key v t)
     }"

definition vf_filter :: "VectorFilter \<Rightarrow> 'z filter_fn" where
  "vf_filter f v w =
     do {
       valid \<leftarrow> valid_filter (Filter.truncate f) w;
       if \<not> valid then Some (False, w)
       else do {
         v' \<leftarrow> vf_lookup f v w;
         let re = nat (v' mod 2 ^ 32) \<in> set (vf_vs f);
         Some (if vf_flag f = FILTER_OUT then re else \<not> re, w)
       }
     }"

definition vf_add :: "nat \<Rightarrow> VectorFilter \<Rightarrow> VectorFilter" where
  "vf_add item f = f\<lparr>vf_vs := add_new item (vf_vs f)\<rparr>"

definition vf_get_max_prob :: "VectorFilter \<Rightarrow> int" where
  "vf_get_max_prob f = (case vf_ptable f of Some t \<Rightarrow> dt_max_prob t | None \<Rightarrow> 100)"

text \<open>A filter that only reads: it neither aborts nor changes the state.\<close>

definition pure_filter :: "(int \<Rightarrow> bool) \<Rightarrow> 'z filter_fn" where
  "pure_filter p v w = Some (p v, w)"

lemma pure_filter_simp [simp]: "pure_filter p v w = Some (p v, w)"
  by (simp add: pure_filter_def)

end
