(* ===== verification/RandomGen.thy ===== *)
theory RandomGen
  imports World
begin

text \<open>
  The two generators of random numbers and the functions the rest of the program calls:
  \<open>AbsRndNumGenerator.cpp\<close>, \<open>DefaultRndNumGenerator.cpp\<close> (rejection sampling over the congruential
  generator), \<open>DFSRndNumGenerator.cpp\<close> (every choice is a step of a depth first search),
  \<open>RandomNumber.cpp\<close> (the dispatcher) and \<open>random.cpp\<close>.  The locale \<open>random_source\<close> states what a
  caller may rely on; it is interpreted on both generators and on the dispatcher.

  A bound is an \<open>unsigned int\<close> of the C++ code, kept as a natural number.  The DFS generator passes
  it on as an \<open>int\<close>; the bounds of the program are far below \<open>2^31\<close>.
\<close>

section \<open>The base class\<close>

definition genrand :: "'z world_scheme \<Rightarrow> nat \<times> 'z world_scheme" where
  "genrand w = (let (x, s) = lrand48 (w_rand48 w) in (unat x, w\<lparr>w_rand48 := s\<rparr>))"

definition seedrand :: "64 word \<Rightarrow> 'z world_scheme \<Rightarrow> 'z world_scheme" where
  "seedrand seed w = w\<lparr>w_rand48 := srand48 seed\<rparr>"

definition hex1 :: string where "hex1 = ''0123456789ABCDEF''"
definition dec1 :: string where "dec1 = ''0123456789''"

fun random_digits_loop :: "string \<Rightarrow> nat \<Rightarrow> string \<Rightarrow> 'z world_scheme \<Rightarrow> string \<times> 'z world_scheme" where
  "random_digits_loop tab 0 str w = (str, w)"
| "random_digits_loop tab (Suc num) str w =
     (let (g, w') = genrand w
      in random_digits_loop tab num (str @ [tab ! (g mod length tab)]) w')"

text \<open>A negative count makes \<open>while (num--)\<close> run through all of \<open>int\<close>: undefined.\<close>

definition Abs_RandomHexDigits :: "int \<Rightarrow> 'z world_scheme \<Rightarrow> (string \<times> 'z world_scheme) option" where
  "Abs_RandomHexDigits num w =
     (if num < 0 then None else Some (random_digits_loop hex1 (nat num) [] w))"

definition Abs_RandomDigits :: "int \<Rightarrow> 'z world_scheme \<Rightarrow> (string \<times> 'z world_scheme) option" where
  "Abs_RandomDigits num w =
     (if num < 0 then None else Some (random_digits_loop dec1 (nat num) [] w))"

lemma genrand_sel [simp]:
  "genrand w = (g, w') \<Longrightarrow> w_err w' = w_err w \<and> w_opts w' = w_opts w \<and> w_dfs w' = w_dfs w \<and>
     w_default w' = w_default w \<and> w_curr w' = w_curr w \<and> world.more w' = world.more w"
  by (auto simp: genrand_def split: prod.splits)

section \<open>The default generator\<close>

definition to_int32 :: "64 word \<Rightarrow> int" where
  "to_int32 x = sint (ucast x :: 32 word)"

definition default_add_number :: "int \<Rightarrow> int \<Rightarrow> int \<Rightarrow> 'z world_scheme \<Rightarrow> 'z world_scheme" where
  "default_add_number v bound k w = w"

definition default_get_sequence :: "'z world_scheme \<Rightarrow> (string \<times> 'z world_scheme) option" where
  "default_get_sequence w =
     do {
       d \<leftarrow> w_default w;
       (s, sq) \<leftarrow> get_sequence (CHR ''_'') (dg_seq d);
       Some (s, default_mod (\<lambda>d. d\<lparr>dg_seq := sq\<rparr>) w)
     }"

definition inc_rand_depth :: "'z world_scheme \<Rightarrow> 'z world_scheme" where
  "inc_rand_depth w = default_mod (\<lambda>d. d\<lparr>dg_rand_depth := dg_rand_depth d + 1\<rparr>) w"

definition append_trace :: "string option \<Rightarrow> 'z world_scheme \<Rightarrow> 'z world_scheme" where
  "append_trace wh w =
     (case wh of None \<Rightarrow> w
      | Some s \<Rightarrow> default_mod (\<lambda>d. d\<lparr>dg_trace_string := dg_trace_string d @ s @ ''->''\<rparr>) w)"

text \<open>The loop that draws again while the filter rejects.  It may run forever, when the filter
  rejects everything; then, and when the filter aborts, there is no result.\<close>

partial_function (option) reject_loop ::
    "nat \<Rightarrow> 'z filter_fn \<Rightarrow> 64 word \<Rightarrow> nat \<Rightarrow> 'z world_scheme \<Rightarrow> (nat \<times> 'z world_scheme) option" where
  "reject_loop n f local_depth v w =
     do {
       (rejected, w1) \<leftarrow> f (int v) w;
       if \<not> rejected then Some (v, w1)
       else let (g, w2) = genrand (default_mod (\<lambda>d. d\<lparr>dg_rand_depth := local_depth + 1\<rparr>) w1)
            in reject_loop n f local_depth (g mod n) w2
     }"

declare reject_loop.simps [code]

definition default_rnd_upto ::
    "nat \<Rightarrow> 'z filter_fn option \<Rightarrow> string option \<Rightarrow> 'z world_scheme \<Rightarrow> (nat \<times> 'z world_scheme) option" where
  "default_rnd_upto n f wh w =
     do {
       assert_opt (n \<noteq> 0);
       d \<leftarrow> w_default w;
       let (g, w1) = genrand w;
       let local_depth = dg_rand_depth d;
       let w2 = inc_rand_depth w1;
       (v, w3) \<leftarrow> (case f of None \<Rightarrow> Some (g mod n, w2)
                   | Some ff \<Rightarrow> reject_loop n ff local_depth (g mod n) w2);
       Some (v, default_add_number (int v) (int n) (to_int32 local_depth) (append_trace wh w3))
     }"

text \<open>The filter may decide a coin by rejecting one of its sides.\<close>

definition flip_by_filter ::
    "'z filter_fn option \<Rightarrow> int \<Rightarrow> 'z world_scheme \<Rightarrow> (bool option \<times> 'z world_scheme) option" where
  "flip_by_filter f local_depth w =
     (case f of
        None \<Rightarrow> Some (None, w)
      | Some ff \<Rightarrow>
          do {
            (r0, w1) \<leftarrow> ff 0 w;
            if r0 then Some (Some True, default_add_number 1 2 local_depth w1)
            else do {
              (r1, w2) \<leftarrow> ff 1 w1;
              if r1 then Some (Some False, default_add_number 0 2 local_depth w2)
              else Some (None, w2)
            }
          })"

definition default_rnd_flipcoin ::
    "nat \<Rightarrow> 'z filter_fn option \<Rightarrow> string option \<Rightarrow> 'z world_scheme \<Rightarrow> (bool \<times> 'z world_scheme) option" where
  "default_rnd_flipcoin p f wh w =
     do {
       assert_opt (p \<le> 100);
       d \<leftarrow> w_default w;
       let local_depth = to_int32 (dg_rand_depth d);
       (decided, w1) \<leftarrow> flip_by_filter f local_depth (inc_rand_depth w);
       (case decided of
          Some b \<Rightarrow> Some (b, w1)
        | None \<Rightarrow>
            let (g, w2) = genrand w1; rv = g mod 100 < p
            in Some (rv, default_add_number (if rv then 1 else 0) 2 local_depth w2))
     }"

fun default_digits_loop :: "string \<Rightarrow> nat \<Rightarrow> string \<Rightarrow> 'z world_scheme \<Rightarrow> string \<times> 'z world_scheme" where
  "default_digits_loop tab 0 str w = (str, w)"
| "default_digits_loop tab (Suc num) str w =
     (let (g, w1) = genrand w; x = g mod length tab
      in default_digits_loop tab num (str @ [tab ! x])
           (default_mod (\<lambda>d. d\<lparr>dg_seq := add_number (int x) (to_int32 (dg_rand_depth d)) (dg_seq d),
                               dg_rand_depth := dg_rand_depth d + 1\<rparr>) w1))"

definition default_RandomHexDigits :: "int \<Rightarrow> 'z world_scheme \<Rightarrow> (string \<times> 'z world_scheme) option" where
  "default_RandomHexDigits num w =
     (if \<not> is_random (w_opts w) then Abs_RandomHexDigits num w
      else if num < 0 then None else Some (default_digits_loop hex1 (nat num) [] w))"

definition default_RandomDigits :: "int \<Rightarrow> 'z world_scheme \<Rightarrow> (string \<times> 'z world_scheme) option" where
  "default_RandomDigits num w =
     (if \<not> is_random (w_opts w) then Abs_RandomDigits num w
      else if num < 0 then None else Some (default_digits_loop dec1 (nat num) [] w))"

section \<open>The depth first generator\<close>

definition SearchState_new :: "int \<Rightarrow> SearchState" where
  "SearchState_new index = \<lparr>ss_init = False, ss_value = 0, ss_bound = 0, ss_index = index\<rparr>"

definition initSearchState :: "bool \<Rightarrow> int \<Rightarrow> int \<Rightarrow> SearchState \<Rightarrow> SearchState" where
  "initSearchState ini val bound s = s\<lparr>ss_init := ini, ss_value := val, ss_bound := bound\<rparr>"

definition init_states :: "int \<Rightarrow> SearchState list" where
  "init_states sz = map (\<lambda>i. SearchState_new (int i)) [0..<nat sz]"

definition initialize_sequence :: "int list \<Rightarrow> sequence \<Rightarrow> sequence" where
  "initialize_sequence v s = foldl (\<lambda>s (i, x). add_number x (int i) s) s (enumerate 0 v)"

definition max_exhaustive_depth :: "'z world_scheme \<Rightarrow> int" where
  "max_exhaustive_depth w = opt_max_exhaustive_depth (w_opts w)"

definition dfs_new :: "'z world_scheme \<Rightarrow> dfs_gen" where
  "dfs_new w = \<lparr>df_trace_string = [], df_decision_depth = - 1, df_current_pos = - 1,
     df_all_done = False, df_seq = [], df_use_debug_sequence = False,
     df_states = init_states (max_exhaustive_depth w)\<rparr>"

text \<open>\<open>for (i = a; i < b; ++i) states_[i]->...\<close>: an index outside of the vector is undefined.\<close>

definition upd_states ::
    "int \<Rightarrow> int \<Rightarrow> (SearchState \<Rightarrow> SearchState) \<Rightarrow> SearchState list \<Rightarrow> SearchState list option" where
  "upd_states a b g ss =
     (if b \<le> a then Some ss
      else if a < 0 \<or> int (length ss) < b then None
      else Some (take (nat a) ss @ map g (take (nat (b - a)) (drop (nat a) ss)) @ drop (nat b) ss))"

definition dfs_upd_states ::
    "int \<Rightarrow> (SearchState \<Rightarrow> SearchState) \<Rightarrow> 'z world_scheme \<Rightarrow> 'z world_scheme option" where
  "dfs_upd_states a g w =
     do {
       d \<leftarrow> w_dfs w;
       ss \<leftarrow> upd_states a (max_exhaustive_depth w) g (df_states d);
       Some (dfs_mod (\<lambda>d. d\<lparr>df_states := ss\<rparr>) w)
     }"

text \<open>A write through the pointer \<open>state\<close>, which is \<open>states_[i]\<close> for the position of the call.\<close>

definition set_state :: "int \<Rightarrow> (SearchState \<Rightarrow> SearchState) \<Rightarrow> 'z world_scheme \<Rightarrow> 'z world_scheme" where
  "set_state i g w =
     dfs_mod (\<lambda>d. d\<lparr>df_states := (df_states d)[nat i := g (df_states d ! nat i)]\<rparr>) w"

definition eager_backtracking :: "int \<Rightarrow> 'z world_scheme \<Rightarrow> (bool \<times> 'z world_scheme) option" where
  "eager_backtracking depth_needed w =
     do {
       d \<leftarrow> w_dfs w;
       if df_current_pos d \<le> 0 then Some (False, w)
       else if max_exhaustive_depth w - df_current_pos d \<ge> depth_needed then Some (False, w)
       else if df_current_pos d > df_decision_depth d
       then Some (True, set_error BACKTRACKING_ERROR w)
       else do {
         w1 \<leftarrow> dfs_upd_states (df_current_pos d + 1) (\<lambda>s. s\<lparr>ss_init := False\<rparr>)
                (dfs_mod (\<lambda>d. d\<lparr>df_decision_depth := df_current_pos d\<rparr>) w);
         Some (True, set_error BACKTRACKING_ERROR w1)
       }
     }"

definition dfs_add_number :: "int \<Rightarrow> int \<Rightarrow> 'z world_scheme \<Rightarrow> 'z world_scheme" where
  "dfs_add_number v k w = dfs_mod (\<lambda>d. d\<lparr>df_seq := add_number v k (df_seq d)\<rparr>) w"

definition revisit_node ::
    "int \<Rightarrow> int \<Rightarrow> 'z filter_fn option \<Rightarrow> 'z world_scheme \<Rightarrow> (int \<times> 'z world_scheme) option" where
  "revisit_node local_pos bound f w =
     do {
       d \<leftarrow> w_dfs w;
       state \<leftarrow> vec_get (df_states d) (nat local_pos);
       let rv = ss_value state;
       (case f of
          None \<Rightarrow> Some (rv, dfs_add_number rv local_pos w)
        | Some ff \<Rightarrow>
            do {
              assert_opt (rv < bound);
              (_, w1) \<leftarrow> ff rv w;
              if w_err w1 \<noteq> SUCCESS then Some (- 1, w1)
              else do {
                d1 \<leftarrow> w_dfs w1;
                assert_opt (df_current_pos d1 < max_exhaustive_depth w1);
                Some (rv, dfs_add_number rv local_pos w1)
              }
            })
     }"

definition filter_invalid_nums :: "int list option \<Rightarrow> int \<Rightarrow> bool" where
  "filter_invalid_nums bad v = (case bad of None \<Rightarrow> False | Some vs \<Rightarrow> v \<in> set vs)"

text \<open>\<open>(filter && filter->filter(v)) || filter_invalid_nums(invalid_nums, v)\<close>\<close>

definition filtered_out ::
    "'z filter_fn option \<Rightarrow> int list option \<Rightarrow> int \<Rightarrow> 'z world_scheme \<Rightarrow> (bool \<times> 'z world_scheme) option" where
  "filtered_out f bad v w =
     (case f of None \<Rightarrow> Some (filter_invalid_nums bad v, w)
      | Some ff \<Rightarrow> do { (b, w1) \<leftarrow> ff v w; Some (b \<or> filter_invalid_nums bad v, w1) })"

text \<open>The loop of the first visit; \<open>None\<close> in the result is \<open>ERROR_GUARD\<close> returning from it.\<close>

function first_visit_loop ::
    "'z filter_fn option \<Rightarrow> int list option \<Rightarrow> int \<Rightarrow> int \<Rightarrow> int \<Rightarrow> 'z world_scheme \<Rightarrow> (int option \<times> 'z world_scheme) option" where
  "first_visit_loop f bad local_pos bound v w =
     (if \<not> v < bound then Some (Some v, w)
      else do {
        (out, w1) \<leftarrow> filtered_out f bad v w;
        if \<not> out then Some (Some v, w1)
        else do {
          d \<leftarrow> w_dfs w1;
          w2 \<leftarrow> dfs_upd_states (df_decision_depth d) (\<lambda>s. s\<lparr>ss_value := 0\<rparr>) w1;
          if w_err w2 \<noteq> SUCCESS then Some (None, w2)
          else first_visit_loop f bad local_pos bound (v + 1)
                 (dfs_mod (\<lambda>d. d\<lparr>df_decision_depth := df_current_pos d,
                                 df_current_pos := local_pos\<rparr>) w2)
        }
      })"
  by pat_completeness auto
termination by (relation "measure (\<lambda>(f, bad, lp, bound, v, w). nat (bound - v))") auto

text \<open>The loop that switches a node to its next branch.\<close>

function next_branch_loop ::
    "'z filter_fn option \<Rightarrow> int list option \<Rightarrow> int \<Rightarrow> int \<Rightarrow> int \<Rightarrow> int \<Rightarrow> 'z world_scheme \<Rightarrow>
      (int option \<times> 'z world_scheme) option" where
  "next_branch_loop f bad local_pos local_depth bound v w =
     (let v1 = v + 1;
          w1 = dfs_mod (\<lambda>d. d\<lparr>df_current_pos := local_pos, df_decision_depth := local_depth\<rparr>)
                 (set_state local_pos (\<lambda>s. s\<lparr>ss_value := v1\<rparr>) w)
      in if w_err w1 \<noteq> SUCCESS then Some (None, w1)
         else if \<not> v1 < bound then Some (Some v1, w1)
         else do {
           (out, w2) \<leftarrow> filtered_out f bad v1 w1;
           if \<not> out then Some (Some v1, w2)
           else next_branch_loop f bad local_pos local_depth bound v1 w2
         })"
  by pat_completeness auto
termination by (relation "measure (\<lambda>(f, bad, lp, ld, bound, v, w). nat (bound - v))") auto

declare first_visit_loop.simps [simp del] next_branch_loop.simps [simp del]

text \<open>The common end of an exhausted node: everything from it on is forgotten and the decision
  moves to the node before it.\<close>

definition backtrack :: "int \<Rightarrow> 'z world_scheme \<Rightarrow> (int \<times> 'z world_scheme) option" where
  "backtrack local_pos w =
     do {
       w1 \<leftarrow> dfs_upd_states local_pos (\<lambda>s. s\<lparr>ss_init := False\<rparr>)
              (dfs_mod (\<lambda>d. d\<lparr>df_current_pos := local_pos\<rparr>) w);
       Some (- 1, set_error BACKTRACKING_ERROR
         (dfs_mod (\<lambda>d. d\<lparr>df_decision_depth := df_decision_depth d - 1,
            df_all_done := (df_decision_depth d - 1 < 0 \<or> df_all_done d)\<rparr>) w1))
     }"

definition debug_choice :: "'z filter_fn option \<Rightarrow> 'z world_scheme \<Rightarrow> (int \<times> 'z world_scheme) option" where
  "debug_choice f w =
     do {
       d \<leftarrow> w_dfs w;
       (rv, sq) \<leftarrow> get_number_by_pos (df_current_pos d) (df_seq d);
       let w1 = dfs_mod (\<lambda>d. d\<lparr>df_seq := sq\<rparr>) w;
       w2 \<leftarrow> (case f of None \<Rightarrow> Some w1 | Some ff \<Rightarrow> map_option snd (ff rv w1));
       d2 \<leftarrow> w_dfs w2;
       Some (rv, if nat (df_current_pos d2 mod 2 ^ 32) \<ge> sequence_length (df_seq d2) - 1
                 then dfs_mod (\<lambda>d. d\<lparr>df_all_done := True\<rparr>) w2 else w2)
     }"

definition next_branch ::
    "int \<Rightarrow> int \<Rightarrow> 'z filter_fn option \<Rightarrow> int list option \<Rightarrow> 'z world_scheme \<Rightarrow> (int \<times> 'z world_scheme) option" where
  "next_branch local_pos bound f bad w =
     do {
       d \<leftarrow> w_dfs w;
       state \<leftarrow> vec_get (df_states d) (nat local_pos);
       (r, w1) \<leftarrow> next_branch_loop f bad local_pos (df_decision_depth d) bound (ss_value state) w;
       (case r of
          None \<Rightarrow> Some (- 1, w1)
        | Some v \<Rightarrow>
            let w2 = set_state local_pos (\<lambda>s. s\<lparr>ss_value := v\<rparr>) w1
            in if v \<ge> bound then backtrack local_pos w2
               else if w_err w2 \<noteq> SUCCESS then Some (- 1, w2)
               else Some (v, dfs_add_number v local_pos w2))
     }"

definition first_visit ::
    "int \<Rightarrow> int \<Rightarrow> 'z filter_fn option \<Rightarrow> int list option \<Rightarrow> 'z world_scheme \<Rightarrow> (int \<times> 'z world_scheme) option" where
  "first_visit local_pos bound f bad w =
     do {
       (r, w1) \<leftarrow> first_visit_loop f bad local_pos bound 0
                    (set_state local_pos (initSearchState True 0 bound)
                      (dfs_mod (\<lambda>d. d\<lparr>df_decision_depth := df_decision_depth d + 1\<rparr>) w));
       (case r of
          None \<Rightarrow> Some (- 1, w1)
        | Some v \<Rightarrow>
            let w2 = dfs_mod (\<lambda>d. d\<lparr>df_decision_depth := df_current_pos d\<rparr>) w1
            in if v \<ge> bound then backtrack local_pos w2
               else let w3 = set_state local_pos (\<lambda>s. s\<lparr>ss_value := v\<rparr>) w2
                    in if w_err w3 \<noteq> SUCCESS then Some (- 1, w3)
                       else Some (v, dfs_add_number v local_pos w3))
     }"

definition random_choice ::
    "int \<Rightarrow> 'z filter_fn option \<Rightarrow> int list option \<Rightarrow> 'z world_scheme \<Rightarrow> (int \<times> 'z world_scheme) option" where
  "random_choice bound f bad w =
     (if w_err w = BACKTRACKING_ERROR then Some (- 1, w)
      else if w_err w \<noteq> SUCCESS then None
      else
        let w1 = dfs_mod (\<lambda>d. d\<lparr>df_current_pos := df_current_pos d + 1\<rparr>) w
        in do {
          d \<leftarrow> w_dfs w1;
          if df_use_debug_sequence d then debug_choice f w1
          else
            let pos = df_current_pos d
            in if pos \<ge> max_exhaustive_depth w1 \<or> df_decision_depth d \<ge> max_exhaustive_depth w1
               then Some (- 1, set_error EXCEED_MAX_DEPTH_ERROR w1)
               else do {
                 assert_opt (0 \<le> pos);
                 state \<leftarrow> vec_get (df_states d) (nat pos);
                 let w2 = set_state pos (\<lambda>s. s\<lparr>ss_bound := bound\<rparr>) w1;
                 if pos < df_decision_depth d \<and> ss_init state then revisit_node pos bound f w2
                 else if ss_init state then next_branch pos bound f bad w2
                 else first_visit pos bound f bad w2
               }
        })"

definition dfs_reset_state :: "'z world_scheme \<Rightarrow> 'z world_scheme" where
  "dfs_reset_state w = dfs_mod (\<lambda>d. d\<lparr>df_current_pos := - 1, df_trace_string := [],
     df_seq := clear_sequence (df_seq d)\<rparr>) w"

definition dfs_get_sequence :: "'z world_scheme \<Rightarrow> (string \<times> 'z world_scheme) option" where
  "dfs_get_sequence w =
     do {
       d \<leftarrow> w_dfs w;
       (s, sq) \<leftarrow> get_sequence (CHR ''_'') (df_seq d);
       Some (s, dfs_mod (\<lambda>d. d\<lparr>df_seq := sq\<rparr>) w)
     }"

definition dfs_get_prefixed_name :: "string \<Rightarrow> 'z world_scheme \<Rightarrow> (string \<times> 'z world_scheme) option" where
  "dfs_get_prefixed_name name w =
     map_option (\<lambda>(s, w'). (''p_'' @ s @ ''_'' @ name, w')) (dfs_get_sequence w)"

text \<open>The \<open>int\<close> result of the search becomes \<open>unsigned\<close>: -1 is the largest number.\<close>

definition UINT_MAX :: nat where "UINT_MAX = 4294967295"

definition dfs_rnd_upto ::
    "nat \<Rightarrow> 'z filter_fn option \<Rightarrow> string option \<Rightarrow> 'z world_scheme \<Rightarrow> (nat \<times> 'z world_scheme) option" where
  "dfs_rnd_upto n f wh w =
     do {
       (x, w1) \<leftarrow> random_choice (int n) f None w;
       assert_opt (x = - 1 \<or> (x \<ge> 0 \<and> x < int n));
       Some (if x = - 1 then UINT_MAX else nat x, w1)
     }"

definition dfs_rnd_flipcoin ::
    "nat \<Rightarrow> 'z filter_fn option \<Rightarrow> string option \<Rightarrow> 'z world_scheme \<Rightarrow> (bool \<times> 'z world_scheme) option" where
  "dfs_rnd_flipcoin n f wh w =
     do {
       (y, w1) \<leftarrow> random_choice 2 f
         (if n = 100 then Some [0] else if n = 0 then Some [1] else None) w;
       assert_opt (y = - 1 \<or> (y \<ge> 0 \<and> y < 2));
       Some (y \<noteq> 0, w1)
     }"

section \<open>The dispatcher\<close>

definition default_new :: default_gen where
  "default_new = \<lparr>dg_rand_depth = 0, dg_trace_string = [], dg_seq = []\<rparr>"

text \<open>The factory.  It seeds the generator again even if the singleton exists already.  A debugging
  sequence (\<open>--dfs-debug-sequence\<close>) is given to the model already parsed.\<close>

definition make_rndnum_generator ::
    "int list option \<Rightarrow> RNDNUM_GENERATOR \<Rightarrow> 64 word \<Rightarrow> 'z world_scheme \<Rightarrow> 'z world_scheme" where
  "make_rndnum_generator debug_seq impl seed w =
     (let w1 = seedrand seed w in
      case impl of
        rDefaultRndNumGenerator \<Rightarrow>
          (case w_default w1 of Some _ \<Rightarrow> w1 | None \<Rightarrow> w1\<lparr>w_default := Some default_new\<rparr>)
      | rDFSRndNumGenerator \<Rightarrow>
          (case w_dfs w1 of Some _ \<Rightarrow> w1
           | None \<Rightarrow>
               (case debug_seq of
                  None \<Rightarrow> w1\<lparr>w_dfs := Some (dfs_new w1)\<rparr>
                | Some v \<Rightarrow> w1\<lparr>w_dfs := Some ((dfs_new w1)\<lparr>df_seq := initialize_sequence v [],
                                                         df_use_debug_sequence := True\<rparr>)\<rparr>)))"

text \<open>\<open>CreateInstance\<close> on a fresh process (the branch \<open>!instance_\<close>).\<close>

definition CreateInstance ::
    "int list option \<Rightarrow> RNDNUM_GENERATOR \<Rightarrow> 64 word \<Rightarrow> 'z world_scheme \<Rightarrow> 'z world_scheme" where
  "CreateInstance debug_seq impl seed w =
     (make_rndnum_generator debug_seq impl seed w)
       \<lparr>w_seed := seed, w_curr := Some impl, w_generators := [impl]\<rparr>"

definition SwitchRndNumGenerator ::
    "int list option \<Rightarrow> RNDNUM_GENERATOR \<Rightarrow> 'z world_scheme \<Rightarrow> (RNDNUM_GENERATOR \<times> 'z world_scheme) option" where
  "SwitchRndNumGenerator debug_seq impl w =
     (let w1 = (if impl \<in> set (w_generators w) then w
                else (make_rndnum_generator debug_seq impl (w_seed w) w)
                       \<lparr>w_generators := add_new impl (w_generators w)\<rparr>)
      in do { old \<leftarrow> w_curr w1; Some (old, w1\<lparr>w_curr := Some impl\<rparr>) })"

definition rnd_upto ::
    "nat \<Rightarrow> 'z filter_fn option \<Rightarrow> string option \<Rightarrow> 'z world_scheme \<Rightarrow> (nat \<times> 'z world_scheme) option" where
  "rnd_upto n f wh w =
     (case w_curr w of
        None \<Rightarrow> None
      | Some rDefaultRndNumGenerator \<Rightarrow> default_rnd_upto n f wh w
      | Some rDFSRndNumGenerator \<Rightarrow> dfs_rnd_upto n f wh w)"

definition rnd_flipcoin ::
    "nat \<Rightarrow> 'z filter_fn option \<Rightarrow> string option \<Rightarrow> 'z world_scheme \<Rightarrow> (bool \<times> 'z world_scheme) option" where
  "rnd_flipcoin p f wh w =
     (case w_curr w of
        None \<Rightarrow> None
      | Some rDefaultRndNumGenerator \<Rightarrow> default_rnd_flipcoin p f wh w
      | Some rDFSRndNumGenerator \<Rightarrow> dfs_rnd_flipcoin p f wh w)"

definition RandomHexDigits :: "int \<Rightarrow> 'z world_scheme \<Rightarrow> (string \<times> 'z world_scheme) option" where
  "RandomHexDigits num w =
     (case w_curr w of
        None \<Rightarrow> None
      | Some rDefaultRndNumGenerator \<Rightarrow> default_RandomHexDigits num w
      | Some rDFSRndNumGenerator \<Rightarrow> Abs_RandomHexDigits num w)"

definition RandomDigits :: "int \<Rightarrow> 'z world_scheme \<Rightarrow> (string \<times> 'z world_scheme) option" where
  "RandomDigits num w =
     (case w_curr w of
        None \<Rightarrow> None
      | Some rDefaultRndNumGenerator \<Rightarrow> default_RandomDigits num w
      | Some rDFSRndNumGenerator \<Rightarrow> Abs_RandomDigits num w)"

section \<open>\<open>random.cpp\<close>: choices outside of the search\<close>

text \<open>The shape shared by the \<open>Pure...\<close> functions: in exhaustive mode run on the default generator
  and switch back.\<close>

definition purely :: "('z world_scheme \<Rightarrow> ('a \<times> 'z world_scheme) option) \<Rightarrow> 'z world_scheme \<Rightarrow> ('a \<times> 'z world_scheme) option" where
  "purely f w =
     (if \<not> is_random (w_opts w)
      then do {
        (old, w1) \<leftarrow> SwitchRndNumGenerator None rDefaultRndNumGenerator w;
        (rv, w2) \<leftarrow> f w1;
        (_, w3) \<leftarrow> SwitchRndNumGenerator None old w2;
        Some (rv, w3)
      }
      else f w)"

definition PureRandomHexDigits :: "int \<Rightarrow> 'z world_scheme \<Rightarrow> (string \<times> 'z world_scheme) option" where
  "PureRandomHexDigits num = purely (RandomHexDigits num)"

definition PureRandomDigits :: "int \<Rightarrow> 'z world_scheme \<Rightarrow> (string \<times> 'z world_scheme) option" where
  "PureRandomDigits num = purely (RandomDigits num)"

definition pure_rnd_upto ::
    "nat \<Rightarrow> 'z filter_fn option \<Rightarrow> string option \<Rightarrow> 'z world_scheme \<Rightarrow> (nat \<times> 'z world_scheme) option" where
  "pure_rnd_upto n f wh w = (if n = 0 then Some (0, w) else purely (rnd_upto n f wh) w)"

definition pure_rnd_flipcoin ::
    "nat \<Rightarrow> 'z filter_fn option \<Rightarrow> string option \<Rightarrow> 'z world_scheme \<Rightarrow> (bool \<times> 'z world_scheme) option" where
  "pure_rnd_flipcoin n f wh = purely (rnd_flipcoin n f wh)"

section \<open>What a caller may rely on\<close>

text \<open>
  A source of random numbers has an invariant on the state that its draws and every well-behaved
  filter keep; a draw below \<open>n\<close> is below \<open>n\<close> unless the error flag is set, and coins of
  probability 0 and 100 are fair to their name when nothing filters them.
\<close>

definition keeps :: "('z world_scheme \<Rightarrow> bool) \<Rightarrow> 'z filter_fn option \<Rightarrow> bool" where
  "keeps I f \<longleftrightarrow> (\<forall>g v w b w'. f = Some g \<longrightarrow> g v w = Some (b, w') \<longrightarrow> I w \<longrightarrow> I w')"

lemma keeps_None [simp]: "keeps I None"
  by (simp add: keeps_def)

lemma keeps_pure [simp]: "keeps I (Some (pure_filter p))"
  by (simp add: keeps_def)

lemma keepsD: "keeps I (Some g) \<Longrightarrow> g v w = Some (b, w') \<Longrightarrow> I w \<Longrightarrow> I w'"
  by (simp add: keeps_def)

locale random_source =
  fixes I :: "'z world_scheme \<Rightarrow> bool"
    and upto_n :: "nat \<Rightarrow> 'z filter_fn option \<Rightarrow> string option \<Rightarrow> 'z world_scheme \<Rightarrow> (nat \<times> 'z world_scheme) option"
    and flip :: "nat \<Rightarrow> 'z filter_fn option \<Rightarrow> string option \<Rightarrow> 'z world_scheme \<Rightarrow> (bool \<times> 'z world_scheme) option"
  assumes upto_keeps: "I w \<Longrightarrow> keeps I f \<Longrightarrow> upto_n n f wh w = Some (r, w') \<Longrightarrow> I w'"
    and flip_keeps: "I w \<Longrightarrow> keeps I f \<Longrightarrow> flip p f wh w = Some (b, w') \<Longrightarrow> I w'"
    and upto_range: "I w \<Longrightarrow> keeps I f \<Longrightarrow> upto_n n f wh w = Some (r, w') \<Longrightarrow> r < n \<or> w_err w' \<noteq> SUCCESS"
begin

text \<open>The code's idiom \<open>v[rnd_upto(v.size())]\<close> stays inside of the vector.\<close>

lemma pick_inside:
  "I w \<Longrightarrow> keeps I f \<Longrightarrow> upto_n (length xs) f wh w = Some (r, w') \<Longrightarrow> w_err w' = SUCCESS \<Longrightarrow>
     \<exists>x \<in> set xs. vec_get xs r = Some x"
  using upto_range [of w f "length xs" wh r w'] by auto

text \<open>Two draws in a row, as in the choice of an array element.\<close>

lemma two_draws_inside:
  assumes "I w" "keeps I f" "keeps I g"
    and "upto_n n f wh w = Some (r, w1)" "upto_n m g wh' w1 = Some (q, w2)"
    and "w_err w1 = SUCCESS" "w_err w2 = SUCCESS"
  shows "r < n \<and> q < m \<and> I w2"
  using upto_range [OF assms(1,2,4)] upto_keeps [OF assms(1,2,4)] assms upto_range upto_keeps
  by metis

end

text \<open>A source that cannot fail: no draw is ever out of range.\<close>

locale total_random_source = random_source +
  assumes upto_total: "upto_n n f wh w = Some (r, w') \<Longrightarrow> r < n"
begin

lemma no_draw_below_zero: "upto_n 0 f wh w = None"
  using upto_total [of 0 f wh w] by (cases "upto_n 0 f wh w") auto

end

lemma dfs_add_number_opts [simp]: "w_opts (dfs_add_number v k w) = w_opts w"
  by (simp add: dfs_add_number_def)

lemma set_state_opts [simp]: "w_opts (set_state i h w) = w_opts w"
  by (simp add: set_state_def)

text \<open>The invariant of both generators: the search never stores a negative branch, and the options,
  the choice of the generator and the part of the state that the generators do not know, \<open>more\<close>,
  satisfy \<open>c\<close>: only a filter can change that.\<close>

definition source_inv :: "(CGOptions \<Rightarrow> RNDNUM_GENERATOR option \<Rightarrow> 'z \<Rightarrow> bool) \<Rightarrow> 'z world_scheme \<Rightarrow> bool" where
  "source_inv c w \<longleftrightarrow> c (w_opts w) (w_curr w) (world.more w) \<and> (case w_dfs w of None \<Rightarrow> True
     | Some d \<Rightarrow> \<forall>s \<in> set (df_states d). 0 \<le> ss_value s)"

abbreviation rnd_inv :: "CGOptions \<Rightarrow> 'z world_scheme \<Rightarrow> bool" where
  "rnd_inv c \<equiv> source_inv (\<lambda>opts curr rest. opts = c)"

subsection \<open>The default generator is a total source\<close>

lemma default_keeps_inv [simp]:
  "source_inv c (default_mod g w) = source_inv c w"
  "source_inv c (inc_rand_depth w) = source_inv c w"
  "source_inv c (append_trace wh w) = source_inv c w"
  "source_inv c (default_add_number v n k w) = source_inv c w"
  by (auto simp: source_inv_def inc_rand_depth_def append_trace_def default_add_number_def
      split: option.splits)

lemma source_inv_genrand: "genrand w = (g, w') \<Longrightarrow> source_inv c w' = source_inv c w"
  using genrand_sel by (simp add: source_inv_def)

text \<open>What the loop promises of its result: in range, accepted last, and the invariant kept.\<close>

definition reject_post :: "(CGOptions \<Rightarrow> RNDNUM_GENERATOR option \<Rightarrow> 'z \<Rightarrow> bool) \<Rightarrow> nat \<Rightarrow> 'z filter_fn \<Rightarrow> nat \<Rightarrow> 'z world_scheme \<Rightarrow> nat \<times> 'z world_scheme \<Rightarrow> bool" where
  "reject_post c n f v w y \<longleftrightarrow>
     (v < n \<longrightarrow> fst y < n) \<and>
     (source_inv c w \<longrightarrow> keeps (source_inv c) (Some f) \<longrightarrow> source_inv c (snd y)) \<and>
     (\<exists>w0. f (int (fst y)) w0 = Some (False, snd y))"

lemma reject_loop_post:
  assumes "reject_loop n f ld v w = Some y"
  shows "reject_post c n f v w y"
proof (rule reject_loop.raw_induct [where P = "\<lambda>n f ld v w y. reject_post c n f v w y", OF _ assms])
  fix rl n f ld v w y
  assume ih: "\<And>n f ld v w y. rl n f ld v w = Some y \<Longrightarrow> reject_post c n f v w y"
    and body: "do {
       (rejected, w1) \<leftarrow> f (int v) w;
       if \<not> rejected then Some (v, w1)
       else let (g, w2) = genrand (default_mod (\<lambda>d. d\<lparr>dg_rand_depth := ld + 1\<rparr>) w1)
            in rl n f ld (g mod n) w2 } = Some y"
  from body obtain rej w1 where f: "f (int v) w = Some (rej, w1)" by (auto simp: bind_eq_Some_conv)
  then have w1: "source_inv c w \<longrightarrow> keeps (source_inv c) (Some f) \<longrightarrow> source_inv c w1" by (meson keepsD)
  show "reject_post c n f v w y"
  proof (cases rej)
    case False
    with body f w1 show ?thesis by (auto simp: reject_post_def)
  next
    case True
    obtain g w2 where g: "genrand (default_mod (\<lambda>d. d\<lparr>dg_rand_depth := ld + 1\<rparr>) w1) = (g, w2)"
      by fastforce
    then have "source_inv c w2 = source_inv c w1" using source_inv_genrand by fastforce
    with body f True g w1 ih [of n f ld "g mod n" w2 y] show ?thesis
      by (auto simp: reject_post_def)
  qed
qed

lemma default_upto_cases:
  assumes "default_rnd_upto n f wh w = Some (r, w')"
  obtains g w1 where "0 < n" "genrand w = (g, w1)"
    "f = None \<Longrightarrow> r = g mod n \<and> w' = append_trace wh (inc_rand_depth w1)"
    "\<And>ff. f = Some ff \<Longrightarrow> \<exists>y. reject_post c n ff (g mod n) (inc_rand_depth w1) y \<and>
       r = fst y \<and> w' = append_trace wh (snd y)"
proof -
  obtain g w1 where g: "genrand w = (g, w1)" by fastforce
  from assms g have n: "0 < n"
    by (auto simp: default_rnd_upto_def bind_eq_Some_conv)
  show thesis
  proof (rule that [OF n g])
    show "f = None \<Longrightarrow> r = g mod n \<and> w' = append_trace wh (inc_rand_depth w1)"
      using assms g by (auto simp: default_rnd_upto_def bind_eq_Some_conv default_add_number_def)
    show "\<exists>y. reject_post c n ff (g mod n) (inc_rand_depth w1) y \<and> r = fst y \<and>
       w' = append_trace wh (snd y)" if "f = Some ff" for ff
      using assms g that
      by (auto simp: default_rnd_upto_def bind_eq_Some_conv default_add_number_def
          dest!: reject_loop_post)
  qed
qed

lemma default_upto_total: "default_rnd_upto n f wh w = Some (r, w') \<Longrightarrow> r < n"
  by (erule default_upto_cases, cases f) (auto simp: reject_post_def)

lemma default_upto_keeps:
  assumes "default_rnd_upto n f wh w = Some (r, w')" "keeps (source_inv c) f" "source_inv c w"
  shows "source_inv c w'"
proof -
  from assms(1) show ?thesis
  proof (rule default_upto_cases)
    fix g w1
    assume g: "0 < n" "genrand w = (g, w1)"
      and no: "f = None \<Longrightarrow> r = g mod n \<and> w' = append_trace wh (inc_rand_depth w1)"
      and so: "\<And>ff. f = Some ff \<Longrightarrow> \<exists>y. reject_post c n ff (g mod n) (inc_rand_depth w1) y \<and>
       r = fst y \<and> w' = append_trace wh (snd y)"
    from g assms(3) have w1: "source_inv c w1" by (simp add: source_inv_genrand)
    show ?thesis
    proof (cases f)
      case None
      with no w1 show ?thesis by simp
    next
      case (Some ff)
      with so assms(2) w1 show ?thesis by (fastforce simp: reject_post_def)
    qed
  qed
qed

lemma flip_by_filter_keeps:
  "flip_by_filter f ld w = Some (dec, w') \<Longrightarrow> keeps (source_inv c) f \<Longrightarrow> source_inv c w \<Longrightarrow> source_inv c w'"
  by (auto simp: flip_by_filter_def bind_eq_Some_conv split: option.splits if_splits)
    (meson keepsD)+

lemma default_flip_keeps:
  assumes "default_rnd_flipcoin p f wh w = Some (b, w')" "keeps (source_inv c) f" "source_inv c w"
  shows "source_inv c w'"
proof -
  from assms(1) obtain ld dec w1 where
    d: "flip_by_filter f ld (inc_rand_depth w) = Some (dec, w1)" and
    e: "w' = w1 \<or> w' = snd (genrand w1)"
    by (auto simp: default_rnd_flipcoin_def bind_eq_Some_conv default_add_number_def Let_def
        split: option.splits prod.splits)
  from flip_by_filter_keeps [OF d assms(2)] assms(3) have "source_inv c w1" by simp
  with e show ?thesis using source_inv_genrand by (metis prod.collapse)
qed

interpretation default_source: total_random_source "source_inv c" default_rnd_upto default_rnd_flipcoin for c
  by unfold_locales (auto dest: default_upto_keeps default_flip_keeps default_upto_total)

subsection \<open>The depth first generator is a source\<close>

text \<open>What a search step promises: the invariant, and an error whenever it has no number.\<close>

definition dfs_post :: "(CGOptions \<Rightarrow> RNDNUM_GENERATOR option \<Rightarrow> 'z \<Rightarrow> bool) \<Rightarrow> int \<Rightarrow> 'z world_scheme \<Rightarrow> bool" where
  "dfs_post c x w \<longleftrightarrow> source_inv c w \<and> (x = - 1 \<longrightarrow> w_err w \<noteq> SUCCESS)"

lemma source_inv_mod [simp]: "(\<And>d. df_states (g d) = df_states d) \<Longrightarrow> source_inv c (dfs_mod g w) = source_inv c w"
  by (auto simp: source_inv_def split: option.splits)

lemma source_inv_set_error [simp]: "source_inv c (set_error e w) = source_inv c w"
  by (simp add: source_inv_def)

lemma source_inv_add_number [simp]: "source_inv c (dfs_add_number v k w) = source_inv c w"
  by (simp add: dfs_add_number_def)

lemma dfs_add_number_err [simp]: "w_err (dfs_add_number v k w) = w_err w"
  by (simp add: dfs_add_number_def)

lemma set_state_err [simp]: "w_err (set_state i g w) = w_err w"
  by (simp add: set_state_def)

lemma source_inv_set_state:
  "source_inv c w \<Longrightarrow> (\<And>s. 0 \<le> ss_value s \<Longrightarrow> 0 \<le> ss_value (g s)) \<Longrightarrow> source_inv c (set_state i g w)"
proof (cases "w_dfs w")
  case (Some d)
  assume h: "source_inv c w" "\<And>s. 0 \<le> ss_value s \<Longrightarrow> 0 \<le> ss_value (g s)"
  from h(1) Some have v: "\<forall>s \<in> set (df_states d). 0 \<le> ss_value s" by (simp add: source_inv_def)
  have "\<forall>s \<in> set ((df_states d)[nat i := g (df_states d ! nat i)]). 0 \<le> ss_value s"
  proof (cases "nat i < length (df_states d)")
    case True
    with v h(2) have "0 \<le> ss_value (g (df_states d ! nat i))" by simp
    with v show ?thesis using set_update_subset_insert [of "df_states d"] by blast
  next
    case False
    with v show ?thesis by (simp add: list_update_beyond)
  qed
  with h(1) show ?thesis by (simp add: source_inv_def set_state_def Some)
qed (simp add: source_inv_def set_state_def)

lemma set_upd_states:
  assumes "upd_states a b g ss = Some ss'"
  shows "set ss' \<subseteq> set ss \<union> g ` set ss"
proof -
  have "set (take (nat a) ss) \<subseteq> set ss" "set (drop (nat b) ss) \<subseteq> set ss"
    "set (take (nat (b - a)) (drop (nat a) ss)) \<subseteq> set ss"
    by (meson set_take_subset set_drop_subset subset_trans)+
  with assms show ?thesis by (fastforce simp: upd_states_def split: if_splits)
qed

lemma dfs_upd_states_inv:
  assumes "dfs_upd_states a g w = Some w'" "source_inv c w" "\<And>s. 0 \<le> ss_value s \<Longrightarrow> 0 \<le> ss_value (g s)"
  shows "source_inv c w' \<and> w_err w' = w_err w"
proof -
  from assms(1) obtain d ss where d: "w_dfs w = Some d"
    "upd_states a (max_exhaustive_depth w) g (df_states d) = Some ss"
    "w' = dfs_mod (\<lambda>d. d\<lparr>df_states := ss\<rparr>) w"
    by (auto simp: dfs_upd_states_def bind_eq_Some_conv)
  with assms(2,3) set_upd_states [OF d(2)] show ?thesis by (fastforce simp: source_inv_def)
qed

lemma filtered_out_inv:
  "filtered_out f bad v w = Some (b, w') \<Longrightarrow> keeps (source_inv c) f \<Longrightarrow> source_inv c w \<Longrightarrow> source_inv c w'"
  by (auto simp: filtered_out_def bind_eq_Some_conv split: option.splits dest: keepsD)

lemma first_visit_loop_inv:
  "first_visit_loop f bad lp bound v w = Some (r, w') \<Longrightarrow> keeps (source_inv c) f \<Longrightarrow> source_inv c w \<Longrightarrow>
     source_inv c w' \<and> (r = None \<longrightarrow> w_err w' \<noteq> SUCCESS) \<and> (\<forall>x. r = Some x \<longrightarrow> v \<le> x)"
proof (induction f bad lp bound v w rule: first_visit_loop.induct)
  case (1 f bad lp bound v w)
  show ?case
  proof (cases "v < bound")
    case False
    with "1.prems" show ?thesis by (auto simp: first_visit_loop.simps [of f bad lp bound v w])
  next
    case v: True
    with "1.prems"(1) obtain out w1 where fo: "filtered_out f bad v w = Some (out, w1)"
      by (auto simp: first_visit_loop.simps [of f bad lp bound v w] bind_eq_Some_conv)
    with "1.prems" have i1: "source_inv c w1" by (blast intro: filtered_out_inv)
    show ?thesis
    proof (cases out)
      case False
      with "1.prems" v fo i1 show ?thesis
        by (auto simp: first_visit_loop.simps [of f bad lp bound v w])
    next
      case True
      with "1.prems"(1) v fo obtain d w2 where d: "w_dfs w1 = Some d"
        "dfs_upd_states (df_decision_depth d) (\<lambda>s. s\<lparr>ss_value := 0\<rparr>) w1 = Some w2"
        by (auto simp: first_visit_loop.simps [of f bad lp bound v w] bind_eq_Some_conv)
      from dfs_upd_states_inv [OF d(2) i1] have i2: "source_inv c w2" by simp
      show ?thesis
      proof (cases "w_err w2 = SUCCESS")
        case False
        with "1.prems"(1) v fo True d i2 show ?thesis
          by (auto simp: first_visit_loop.simps [of f bad lp bound v w])
      next
        case ok: True
        let ?w3 = "dfs_mod (\<lambda>d. d\<lparr>df_decision_depth := df_current_pos d, df_current_pos := lp\<rparr>) w2"
        from "1.prems"(1) v fo True d ok
        have "first_visit_loop f bad lp bound (v + 1) ?w3 = Some (r, w')"
          by (auto simp: first_visit_loop.simps [of f bad lp bound v w])
        moreover have "source_inv c ?w3" using i2 by simp
        ultimately show ?thesis
          using "1.IH" [of "(out, w1)" out w1 d w2] v fo True d ok "1.prems"(2) by auto
      qed
    qed
  qed
qed

lemma next_branch_loop_inv:
  "next_branch_loop f bad lp ld bound v w = Some (r, w') \<Longrightarrow> keeps (source_inv c) f \<Longrightarrow> source_inv c w \<Longrightarrow>
     0 \<le> v \<Longrightarrow>
     source_inv c w' \<and> (r = None \<longrightarrow> w_err w' \<noteq> SUCCESS) \<and> (\<forall>x. r = Some x \<longrightarrow> v < x)"
proof (induction f bad lp ld bound v w rule: next_branch_loop.induct)
  case (1 f bad lp ld bound v w)
  let ?w1 = "dfs_mod (\<lambda>d. d\<lparr>df_current_pos := lp, df_decision_depth := ld\<rparr>)
                 (set_state lp (\<lambda>s. s\<lparr>ss_value := v + 1\<rparr>) w)"
  have i1: "source_inv c ?w1" using "1.prems" by (auto intro: source_inv_set_state)
  note simp1 = next_branch_loop.simps [of f bad lp ld bound v w]
  show ?case
  proof (cases "w_err ?w1 = SUCCESS \<and> v + 1 < bound")
    case False
    with "1.prems" i1 show ?thesis by (auto simp: simp1 Let_def split: if_splits)
  next
    case c: True
    with "1.prems"(1) obtain out w2 where fo: "filtered_out f bad (v + 1) ?w1 = Some (out, w2)"
      by (auto simp: simp1 Let_def bind_eq_Some_conv split: if_splits)
    with "1.prems"(2) i1 have i2: "source_inv c w2" by (blast intro: filtered_out_inv)
    show ?thesis
    proof (cases out)
      case False
      with "1.prems" c fo i2 show ?thesis by (auto simp: simp1 Let_def)
    next
      case True
      with "1.prems"(1) c fo
      have r: "next_branch_loop f bad lp ld bound (v + 1) w2 = Some (r, w')"
        by (auto simp: simp1 Let_def)
      have "source_inv c w' \<and> (r = None \<longrightarrow> w_err w' \<noteq> SUCCESS) \<and> (\<forall>x. r = Some x \<longrightarrow> v + 1 < x)"
        using "1.IH" [of "v + 1" ?w1 "(out, w2)" out w2] c fo True r i2 "1.prems"(2,4) by auto
      then show ?thesis by auto
    qed
  qed
qed

lemma backtrack_post:
  assumes "backtrack lp w = Some (x, w')" "source_inv c w"
  shows "dfs_post c x w'"
proof -
  from assms(1) obtain w1 where w1: "dfs_upd_states lp (\<lambda>s. s\<lparr>ss_init := False\<rparr>)
      (dfs_mod (\<lambda>d. d\<lparr>df_current_pos := lp\<rparr>) w) = Some w1" and
    w': "w' = set_error BACKTRACKING_ERROR (dfs_mod (\<lambda>d. d\<lparr>df_decision_depth := df_decision_depth d - 1,
            df_all_done := (df_decision_depth d - 1 < 0 \<or> df_all_done d)\<rparr>) w1)"
    by (auto simp: backtrack_def bind_eq_Some_conv)
  from dfs_upd_states_inv [OF w1] assms(2) have "source_inv c w1" by simp
  then show ?thesis by (simp add: w' dfs_post_def error_codes)
qed

lemma source_inv_value:
  "source_inv c w \<Longrightarrow> w_dfs w = Some d \<Longrightarrow> vec_get (df_states d) i = Some s \<Longrightarrow> 0 \<le> ss_value s"
  by (auto simp: source_inv_def)

lemma next_branch_post:
  assumes "next_branch lp bound f bad w = Some (x, w')" "keeps (source_inv c) f" "source_inv c w"
  shows "dfs_post c x w'"
proof -
  from assms(1) obtain d state r w1 where d: "w_dfs w = Some d"
      "vec_get (df_states d) (nat lp) = Some state"
      "next_branch_loop f bad lp (df_decision_depth d) bound (ss_value state) w = Some (r, w1)"
    by (auto simp: next_branch_def bind_eq_Some_conv simp del: vec_get_Some)
  note v0 = source_inv_value [OF assms(3) d(1,2)]
  note l = next_branch_loop_inv [OF d(3) assms(2,3) v0]
  show ?thesis
  proof (cases r)
    case None
    with assms(1) d l show ?thesis by (auto simp: next_branch_def dfs_post_def)
  next
    case (Some v)
    let ?w2 = "set_state lp (\<lambda>s. s\<lparr>ss_value := v\<rparr>) w1"
    from l Some v0 have v: "0 \<le> v" and i2: "source_inv c ?w2" by (auto intro: source_inv_set_state)
    show ?thesis
    proof (cases "v \<ge> bound")
      case True
      with assms(1) d Some have "backtrack lp ?w2 = Some (x, w')" by (auto simp: next_branch_def)
      with i2 show ?thesis by (rule backtrack_post [rotated])
    next
      case False
      with assms(1) d Some v i2 show ?thesis
        by (auto simp: next_branch_def dfs_post_def Let_def split: if_splits)
    qed
  qed
qed

lemma first_visit_post:
  assumes "first_visit lp bound f bad w = Some (x, w')" "keeps (source_inv c) f" "source_inv c w"
  shows "dfs_post c x w'"
proof -
  let ?w0 = "set_state lp (initSearchState True 0 bound)
     (dfs_mod (\<lambda>d. d\<lparr>df_decision_depth := df_decision_depth d + 1\<rparr>) w)"
  from assms(1) obtain r w1 where d: "first_visit_loop f bad lp bound 0 ?w0 = Some (r, w1)"
    by (auto simp: first_visit_def bind_eq_Some_conv)
  have "source_inv c ?w0" using assms(3) by (auto intro!: source_inv_set_state simp: initSearchState_def)
  note l = first_visit_loop_inv [OF d assms(2) this]
  show ?thesis
  proof (cases r)
    case None
    with assms(1) d l show ?thesis by (auto simp: first_visit_def dfs_post_def)
  next
    case (Some v)
    let ?w2 = "dfs_mod (\<lambda>d. d\<lparr>df_decision_depth := df_current_pos d\<rparr>) w1"
    from l Some have v: "0 \<le> v" and i2: "source_inv c ?w2" by auto
    show ?thesis
    proof (cases "v \<ge> bound")
      case True
      with assms(1) d Some have "backtrack lp ?w2 = Some (x, w')" by (auto simp: first_visit_def)
      with i2 show ?thesis by (rule backtrack_post [rotated])
    next
      case False
      have "source_inv c (set_state lp (\<lambda>s. s\<lparr>ss_value := v\<rparr>) ?w2)" using v i2
        by (auto intro: source_inv_set_state)
      with assms(1) d Some v False show ?thesis
        by (auto simp: first_visit_def dfs_post_def Let_def split: if_splits)
    qed
  qed
qed

lemma revisit_node_post:
  assumes "revisit_node lp bound f w = Some (x, w')" "keeps (source_inv c) f" "source_inv c w"
  shows "dfs_post c x w'"
proof -
  from assms(1) obtain d state where d: "w_dfs w = Some d"
      "vec_get (df_states d) (nat lp) = Some state"
    by (auto simp: revisit_node_def bind_eq_Some_conv simp del: vec_get_Some)
  note v0 = source_inv_value [OF assms(3) d]
  show ?thesis
  proof (cases f)
    case None
    with assms d v0 show ?thesis by (auto simp: revisit_node_def dfs_post_def Let_def)
  next
    case (Some ff)
    with assms(1) d obtain b w1 where ff: "ff (ss_value state) w = Some (b, w1)"
      by (auto simp: revisit_node_def bind_eq_Some_conv Let_def)
    from keepsD [OF assms(2) [unfolded Some] this assms(3)] have i1: "source_inv c w1" .
    have "(x = - 1 \<and> w' = w1 \<and> w_err w1 \<noteq> SUCCESS) \<or>
        (x = ss_value state \<and> w' = dfs_add_number x lp w1)"
      using assms(1) unfolding revisit_node_def d(1) Some
      by (auto simp: d(2) ff bind_eq_Some_conv Let_def simp del: vec_get_Some split: if_splits)
    with i1 v0 show ?thesis by (auto simp: dfs_post_def)
  qed
qed

lemma debug_choice_post:
  assumes "debug_choice f w = Some (x, w')" "keeps (source_inv c) f" "source_inv c w"
  shows "dfs_post c x w'"
proof -
  from assms(1) obtain d rv sq w2 where d: "w_dfs w = Some d"
      "get_number_by_pos (df_current_pos d) (df_seq d) = Some (rv, sq)"
      "(case f of None \<Rightarrow> Some (dfs_mod (\<lambda>d. d\<lparr>df_seq := sq\<rparr>) w)
        | Some ff \<Rightarrow> map_option snd (ff rv (dfs_mod (\<lambda>d. d\<lparr>df_seq := sq\<rparr>) w))) = Some w2" and
    r: "x = rv" "w' = w2 \<or> w' = dfs_mod (\<lambda>d. d\<lparr>df_all_done := True\<rparr>) w2"
    by (auto simp: debug_choice_def bind_eq_Some_conv Let_def)
  from d(2) have "0 \<le> rv" by (auto simp: get_number_by_pos_def split: prod.splits)
  moreover have "source_inv c w2"
  proof (cases f)
    case None
    with d assms(3) show ?thesis by auto
  next
    case (Some ff)
    have "source_inv c (dfs_mod (\<lambda>d. d\<lparr>df_seq := sq\<rparr>) w)" using assms(3) by simp
    with Some d(3) assms(2) show ?thesis by (auto dest: keepsD)
  qed
  ultimately show ?thesis using r by (auto simp: dfs_post_def)
qed

lemma random_choice_post:
  assumes "random_choice bound f bad w = Some (x, w')" "keeps (source_inv c) f" "source_inv c w"
  shows "dfs_post c x w'"
proof (cases "w_err w = SUCCESS")
  case False
  with assms show ?thesis
    by (auto simp: random_choice_def dfs_post_def error_codes split: if_splits)
next
  case True
  let ?w1 = "dfs_mod (\<lambda>d. d\<lparr>df_current_pos := df_current_pos d + 1\<rparr>) w"
  obtain d where d: "w_dfs ?w1 = Some d" using assms(1) True
    by (auto simp: random_choice_def error_codes bind_eq_Some_conv Let_def)
  have i1: "source_inv c ?w1" using assms(3) by simp
  have i2: "source_inv c (set_state i (\<lambda>s. s\<lparr>ss_bound := bound\<rparr>) ?w1)" for i
    using i1 by (auto intro: source_inv_set_state)
  have ne: "w_err w \<noteq> BACKTRACKING_ERROR" using True by (simp add: error_codes)
  show ?thesis
  proof (cases "df_use_debug_sequence d")
    case True
    with assms(1) ne d \<open>w_err w = SUCCESS\<close> have "debug_choice f ?w1 = Some (x, w')"
      by (auto simp: random_choice_def Let_def)
    with assms(2) i1 show ?thesis by (rule debug_choice_post [rotated 1])
  next
    case False
    with assms(1) ne d \<open>w_err w = SUCCESS\<close>
    have "x = - 1 \<and> w' = set_error EXCEED_MAX_DEPTH_ERROR ?w1 \<or>
       (\<exists>p. revisit_node p bound f (set_state p (\<lambda>s. s\<lparr>ss_bound := bound\<rparr>) ?w1) = Some (x, w') \<or>
            next_branch p bound f bad (set_state p (\<lambda>s. s\<lparr>ss_bound := bound\<rparr>) ?w1) = Some (x, w') \<or>
            first_visit p bound f bad (set_state p (\<lambda>s. s\<lparr>ss_bound := bound\<rparr>) ?w1) = Some (x, w'))"
      by (auto simp: random_choice_def Let_def bind_eq_Some_conv split: if_splits)
    then show ?thesis
    proof (elim disjE exE conjE)
      assume "x = - 1" "w' = set_error EXCEED_MAX_DEPTH_ERROR ?w1"
      with i1 show ?thesis by (simp add: dfs_post_def error_codes)
    qed (blast intro: revisit_node_post next_branch_post first_visit_post assms(2) i2)+
  qed
qed

lemma dfs_upto_post:
  assumes "dfs_rnd_upto n f wh w = Some (r, w')" "keeps (source_inv c) f" "source_inv c w"
  shows "source_inv c w' \<and> (r < n \<or> w_err w' \<noteq> SUCCESS)"
proof -
  from assms(1) obtain x where x: "random_choice (int n) f None w = Some (x, w')"
    "x = - 1 \<or> 0 \<le> x \<and> x < int n" "r = (if x = - 1 then UINT_MAX else nat x)"
    by (auto simp: dfs_rnd_upto_def bind_eq_Some_conv)
  have p: "source_inv c w'" "x = - 1 \<longrightarrow> w_err w' \<noteq> SUCCESS"
    using random_choice_post [OF x(1) assms(2,3)] by (simp_all add: dfs_post_def)
  show ?thesis
  proof (cases "x = - 1")
    case False
    with x(2,3) have "r < n" by (simp add: nat_less_iff)
    with p(1) show ?thesis by simp
  qed (use p in simp)
qed

lemma dfs_flip_post:
  assumes "dfs_rnd_flipcoin p f wh w = Some (b, w')" "keeps (source_inv c) f" "source_inv c w"
  shows "source_inv c w'"
proof -
  from assms(1) obtain x bad where x: "random_choice 2 f bad w = Some (x, w')"
    by (auto simp: dfs_rnd_flipcoin_def bind_eq_Some_conv)
  from random_choice_post [OF this assms(2,3)] show ?thesis by (simp add: dfs_post_def)
qed

interpretation dfs_source: random_source "source_inv c" dfs_rnd_upto dfs_rnd_flipcoin for c
  by unfold_locales (auto dest: dfs_upto_post dfs_flip_post)


subsection \<open>The dispatcher is a source\<close>

interpretation rnd: random_source "source_inv c" rnd_upto rnd_flipcoin for c
proof
  fix w f n wh r w'
  assume h: "source_inv c w" "keeps (source_inv c) f" "rnd_upto n f wh w = Some (r, w')"
  then have "default_rnd_upto n f wh w = Some (r, w') \<or> dfs_rnd_upto n f wh w = Some (r, w')"
    by (auto simp: rnd_upto_def split: option.splits RNDNUM_GENERATOR.splits)
  with h show "source_inv c w'" "r < n \<or> w_err w' \<noteq> SUCCESS"
    by (auto dest: default_upto_keeps default_upto_total dfs_upto_post)
next
  fix w f p wh b w'
  assume "source_inv c w" "keeps (source_inv c) f" "rnd_flipcoin p f wh w = Some (b, w')"
  then show "source_inv c w'"
    by (auto simp: rnd_flipcoin_def dest: default_flip_keeps dfs_flip_post
        split: option.splits RNDNUM_GENERATOR.splits)
qed

lemma keeps_vf_filter [simp]: "keeps I (Some (vf_filter f))"
  by (auto simp: keeps_def vf_filter_def bind_eq_Some_conv Let_def split: if_splits)

section \<open>Properties\<close>


text \<open>
  C19: through the dispatcher, whichever generator is active: a draw that leaves no error is below its
  bound, so it can be used as an index, and the generators' invariant survives.
\<close>

theorem rnd_upto_in_range:
  assumes "source_inv c w" "keeps (source_inv c) f" "rnd_upto (length xs) f wh w = Some (r, w')"
    "w_err w' = SUCCESS"
  shows "(\<exists>x \<in> set xs. vec_get xs r = Some x) \<and> source_inv c w'"
  using rnd.pick_inside [OF assms] rnd.upto_keeps [OF assms(1-3)] by blast

text \<open>Reading only the state that a draw of the default generator leaves alone.\<close>

definition same_search :: "'z world_scheme \<Rightarrow> 'z world_scheme \<Rightarrow> bool" where
  "same_search w w' \<longleftrightarrow> w_dfs w' = w_dfs w \<and> w_err w' = w_err w \<and> w_curr w' = w_curr w \<and>
     w_opts w' = w_opts w"

lemma same_search_refl [simp]: "same_search w w"
  by (simp add: same_search_def)

lemma same_search_trans: "same_search a b \<Longrightarrow> same_search b c \<Longrightarrow> same_search a c"
  by (simp add: same_search_def)

lemma same_search_genrand: "genrand w = (g, w') \<Longrightarrow> same_search w w'"
  using genrand_sel by (simp add: same_search_def)

lemma same_search_default_mod [simp]: "same_search w (default_mod g w)"
  by (simp add: same_search_def)

lemma reject_loop_search:
  assumes "reject_loop n f ld v w = Some y"
  shows "f = pure_filter p \<longrightarrow> same_search w (snd y)"
proof (rule reject_loop.raw_induct
    [where P = "\<lambda>n f ld v w y. f = pure_filter p \<longrightarrow> same_search w (snd y)", OF _ assms])
  fix rl n f ld v w y
  assume ih: "\<And>n f ld v w y. rl n f ld v w = Some y \<Longrightarrow> f = pure_filter p \<longrightarrow> same_search w (snd y)"
    and body: "do {
       (rejected, w1) \<leftarrow> f (int v) w;
       if \<not> rejected then Some (v, w1)
       else let (g, w2) = genrand (default_mod (\<lambda>d. d\<lparr>dg_rand_depth := ld + 1\<rparr>) w1)
            in rl n f ld (g mod n) w2 } = Some y"
  show "f = pure_filter p \<longrightarrow> same_search w (snd y)"
  proof
    assume f: "f = pure_filter p"
    obtain g w2 where g: "genrand (default_mod (\<lambda>d. d\<lparr>dg_rand_depth := ld + 1\<rparr>) w) = (g, w2)"
      by fastforce
    show "same_search w (snd y)"
    proof (cases "p (int v)")
      case True
      with body f g ih [of n f ld "g mod n" w2 y] have "same_search w2 (snd y)" by simp
      moreover have "same_search w w2" using same_search_genrand [OF g] same_search_default_mod
        by (rule same_search_trans [rotated])
      ultimately show ?thesis by (rule same_search_trans [rotated])
    qed (use body f in auto)
  qed
qed

lemma default_upto_search:
  assumes "default_rnd_upto n f wh w = Some (r, w')" "f = None \<or> f = Some (pure_filter p)"
  shows "same_search w w'"
proof -
  obtain g w1 where g: "genrand w = (g, w1)" by fastforce
  have s1: "same_search w (inc_rand_depth w1)"
    using same_search_trans [OF same_search_genrand [OF g]] by (simp add: inc_rand_depth_def)
  have tr: "same_search x (append_trace wh x)" for x
    by (simp add: append_trace_def split: option.split)
  from assms g have "\<exists>w3. same_search (inc_rand_depth w1) w3 \<and> w' = append_trace wh w3"
    by (auto simp: default_rnd_upto_def bind_eq_Some_conv default_add_number_def
        dest!: reject_loop_search [of _ _ _ _ _ _ p]) (metis same_search_refl)+
  with s1 tr show ?thesis by (meson same_search_trans)
qed

lemma make_generator_search:
  assumes "w_dfs w = Some d"
  shows "same_search w (make_rndnum_generator sq impl seed w)"
  using assms by (auto simp: make_rndnum_generator_def seedrand_def same_search_def Let_def
      split: RNDNUM_GENERATOR.splits option.splits)

lemma switch_search:
  assumes "SwitchRndNumGenerator sq impl w = Some (old, w')" "w_dfs w = Some d"
  shows "w_dfs w' = Some d \<and> w_err w' = w_err w \<and> w_curr w' = Some impl \<and>
     w_opts w' = w_opts w \<and> w_curr w = Some old"
  using assms make_generator_search [OF assms(2), of sq impl "w_seed w"]
  by (auto simp: SwitchRndNumGenerator_def same_search_def Let_def bind_eq_Some_conv split: if_splits)

text \<open>
  C0: in exhaustive mode a \<open>pure_rnd_upto\<close> is in range and is invisible to the search: the search state,
  the error flag and the active generator are what they were, so the enumeration is not disturbed.
\<close>

theorem pure_rnd_upto_outside_search:
  assumes "pure_rnd_upto n f wh w = Some (r, w')" "f = None \<or> f = Some (pure_filter p)"
    and "\<not> is_random (w_opts w)" "w_dfs w = Some d"
  shows "(n \<noteq> 0 \<longrightarrow> r < n) \<and> w_dfs w' = w_dfs w \<and> w_err w' = w_err w \<and> w_curr w' = w_curr w"
proof (cases "n = 0")
  case True
  with assms(1) show ?thesis by (simp add: pure_rnd_upto_def)
next
  case False
  with assms(1,3) obtain old w1 w2 old2 where
    a: "SwitchRndNumGenerator None rDefaultRndNumGenerator w = Some (old, w1)" and
    b: "rnd_upto n f wh w1 = Some (r, w2)" and
    c: "SwitchRndNumGenerator None old w2 = Some (old2, w')"
    by (auto simp: pure_rnd_upto_def purely_def bind_eq_Some_conv)
  note a' = switch_search [OF a assms(4)]
  from a' b have u: "default_rnd_upto n f wh w1 = Some (r, w2)" by (simp add: rnd_upto_def)
  from default_upto_search [OF u assms(2)] a' have w2: "w_dfs w2 = Some d" "w_err w2 = w_err w"
    by (simp_all add: same_search_def)
  from switch_search [OF c w2(1)] a' w2 default_upto_total [OF u] assms(4) show ?thesis by simp
qed

text \<open>A world for the examples: a default generator, and a search state when \<open>k\<close> is positive.\<close>

definition example_world :: "RNDNUM_GENERATOR \<Rightarrow> world" where
  "example_world g =
     (let w = \<lparr>w_opts = CGOptions_static\<lparr>opt_max_exhaustive_depth := 2, opt_random_based := False\<rparr>,
               w_err = SUCCESS, w_rand48 = srand48 0, w_seed = 0, w_default = Some default_new,
               w_dfs = None, w_generators = [rDefaultRndNumGenerator, rDFSRndNumGenerator],
               w_curr = Some g\<rparr>
      in w\<lparr>w_dfs := Some (dfs_new w)\<rparr>)"

lemma default_draw_below_1:
  assumes "w_default w = Some d"
  shows "\<exists>w'. default_rnd_upto 1 (Some (pure_filter (\<lambda>v. False))) None w = Some (0, w')"
proof -
  obtain g w1 where "genrand w = (g, w1)" by fastforce
  with assms show ?thesis
    by (simp add: default_rnd_upto_def reject_loop.simps append_trace_def default_add_number_def)
qed

lemma default_draw_unfiltered:
  assumes "w_default w = Some d"
  shows "\<exists>w'. default_rnd_upto 1 None None w = Some (0, w') \<and> w_generators w' = w_generators w \<and>
     w_curr w' = w_curr w"
proof -
  obtain x s where "lrand48 (w_rand48 w) = (x, s)" by fastforce
  with assms show ?thesis
    by (simp add: default_rnd_upto_def genrand_def inc_rand_depth_def default_mod_def append_trace_def
        default_add_number_def)
qed


theorem rnd_upto_in_range_witness:
  "\<exists>r w'. rnd_upto (length [''a'']) (Some (pure_filter (\<lambda>v. False))) None
       (example_world rDefaultRndNumGenerator) = Some (r, w') \<and>
     (\<exists>x \<in> set [''a'']. vec_get [''a''] r = Some x)"
proof -
  let ?w = "example_world rDefaultRndNumGenerator"
  obtain w' where w: "default_rnd_upto 1 (Some (pure_filter (\<lambda>v. False))) None ?w = Some (0, w')"
    using default_draw_below_1 [of ?w] by (auto simp: example_world_def Let_def)
  then have u: "rnd_upto (length [''a'']) (Some (pure_filter (\<lambda>v. False))) None ?w = Some (0, w')"
    by (simp add: rnd_upto_def example_world_def Let_def)
  have i: "rnd_inv (w_opts ?w) ?w"
    by (auto simp: source_inv_def example_world_def Let_def dfs_new_def init_states_def SearchState_new_def)
  have "w_err w' = SUCCESS" using default_upto_search [OF w]
    by (auto simp: same_search_def example_world_def Let_def)
  from rnd_upto_in_range [OF i keeps_pure u this] u show ?thesis by blast
qed

theorem pure_rnd_upto_outside_search_witness:
  "\<exists>r w'. pure_rnd_upto 1 None None (example_world rDFSRndNumGenerator) = Some (r, w') \<and>
     r < 1 \<and> w_curr w' = Some rDFSRndNumGenerator"
proof -
  let ?w = "example_world rDFSRndNumGenerator"
  have sw: "SwitchRndNumGenerator None g w = Some (the (w_curr w), w\<lparr>w_curr := Some g\<rparr>)"
    if "w_generators w = w_generators ?w" "w_curr w \<noteq> None" for w g
    using that by (cases g) (auto simp: SwitchRndNumGenerator_def example_world_def Let_def)
  have o: "\<not> is_random (w_opts ?w)" "w_dfs ?w = Some (the (w_dfs ?w))"
    by (simp_all add: example_world_def is_random_def Let_def)
  let ?w1 = "?w\<lparr>w_curr := Some rDefaultRndNumGenerator\<rparr>"
  have "w_default ?w1 = Some default_new" by (simp add: example_world_def Let_def)
  from default_draw_unfiltered [OF this] obtain w2 where
    w2: "default_rnd_upto 1 None None ?w1 = Some (0, w2)" "w_generators w2 = w_generators ?w1"
      "w_curr w2 = w_curr ?w1" by blast
  have "SwitchRndNumGenerator None rDefaultRndNumGenerator ?w = Some (rDFSRndNumGenerator, ?w1)"
    using sw [of ?w] by (simp add: example_world_def Let_def)
  moreover have "rnd_upto 1 None None ?w1 = Some (0, w2)" using w2(1) by (simp add: rnd_upto_def)
  ultimately obtain r w' where p: "pure_rnd_upto 1 None None ?w = Some (r, w')"
    using o(1) sw [of w2] w2(2,3) by (auto simp: pure_rnd_upto_def purely_def)
  from pure_rnd_upto_outside_search [OF p _ o] p show ?thesis
    by (auto simp: example_world_def Let_def)
qed

end
