(* ===== verification/DfsSearch.thy ===== *)
theory DfsSearch
  imports RandomGen
begin

text \<open>
  The exhaustive mode (\<open>DFSProgramGenerator::goGenerator\<close>): the generator of programs is run again
  and again on the depth first source until that source has exhausted the tree of choices.

  The program being generated is a parameter: all the search can see of it is which choice it asks
  for next, so it is a tree whose nodes are requests \<open>rnd_upto(n, filter)\<close> and whose leaves are
  finished programs.
\<close>

datatype 'a tree = Leaf 'a | Node nat "int \<Rightarrow> bool" "nat \<Rightarrow> 'a tree"

text \<open>One generation: every request is guarded by \<open>ERROR_GUARD\<close>.\<close>

primrec GenerateFunctions :: "'a tree \<Rightarrow> world \<Rightarrow> ('a option \<times> world) option" where
  "GenerateFunctions (Leaf a) = (\<lambda>w. Some (if w_err w = SUCCESS then Some a else None, w))"
| "GenerateFunctions (Node n p ch) = (\<lambda>w.
     do {
       (r, w1) \<leftarrow> dfs_rnd_upto n (Some (pure_filter p)) None w;
       if w_err w1 \<noteq> SUCCESS then Some (None, w1) else GenerateFunctions (ch r) w1
     })"

text \<open>The main loop; the output is the list of programs written.\<close>

partial_function (option) goGenerator_loop ::
    "'a tree \<Rightarrow> world \<Rightarrow> 'a list \<Rightarrow> ('a list \<times> world) option" where
  "goGenerator_loop t w out =
     do {
       d \<leftarrow> w_dfs w;
       if df_all_done d then Some (out, w)
       else do {
         (r, w1) \<leftarrow> GenerateFunctions t (set_error SUCCESS w);
         goGenerator_loop t (dfs_reset_state w1)
           (case r of None \<Rightarrow> out | Some a \<Rightarrow> out @ [a])
       }
     }"

declare goGenerator_loop.simps [code]

definition goGenerator :: "'a tree \<Rightarrow> world \<Rightarrow> ('a list \<times> world) option" where
  "goGenerator t w = goGenerator_loop t w []"

section \<open>What is to be enumerated\<close>

definition choices :: "(int \<Rightarrow> bool) \<Rightarrow> nat \<Rightarrow> nat \<Rightarrow> nat list" where
  "choices p i n = filter (\<lambda>u. \<not> p (int u)) [i..<n]"

primrec leaves :: "'a tree \<Rightarrow> 'a list" where
  "leaves (Leaf a) = [a]"
| "leaves (Node n p ch) = concat (map (\<lambda>v. leaves (ch v)) (choices p 0 n))"

text \<open>No generation asks for more than \<open>k\<close> choices.\<close>

primrec depth_le :: "nat \<Rightarrow> 'a tree \<Rightarrow> bool" where
  "depth_le k (Leaf a) = True"
| "depth_le k (Node n p ch) = (0 < k \<and> (\<forall>v \<in> set (choices p 0 n). depth_le (k - 1) (ch v)))"

section \<open>The search state as a path in the tree\<close>

text \<open>
  Between two steps the vector \<open>states_\<close> holds the path \<open>vs\<close> of the branches taken: its first
  \<open>length vs\<close> entries are initialised with those values, all the others are not.
\<close>

definition path_cells :: "nat \<Rightarrow> nat list \<Rightarrow> SearchState list \<Rightarrow> bool" where
  "path_cells m vs ss \<longleftrightarrow> length ss = m \<and> length vs \<le> m \<and>
     (\<forall>i < m. ss_init (ss ! i) \<longleftrightarrow> i < length vs) \<and>
     (\<forall>i < length vs. ss_value (ss ! i) = int (vs ! i))"

definition dfs_at :: "nat list \<Rightarrow> int \<Rightarrow> int \<Rightarrow> bool \<Rightarrow> world \<Rightarrow> bool" where
  "dfs_at vs depth pos fin w \<longleftrightarrow> 0 \<le> max_exhaustive_depth w \<and>
     (\<exists>d. w_dfs w = Some d \<and> \<not> df_use_debug_sequence d \<and> df_decision_depth d = depth \<and>
          df_current_pos d = pos \<and> df_all_done d = fin \<and>
          path_cells (nat (max_exhaustive_depth w)) vs (df_states d))"

abbreviation dfs_path :: "nat list \<Rightarrow> int \<Rightarrow> bool \<Rightarrow> world \<Rightarrow> bool" where
  "dfs_path vs \<equiv> dfs_at vs (int (length vs) - 1)"

lemma max_depth_simps [simp]:
  "max_exhaustive_depth (dfs_mod g w) = max_exhaustive_depth w"
  "max_exhaustive_depth (set_error e w) = max_exhaustive_depth w"
  "max_exhaustive_depth (set_state i h w) = max_exhaustive_depth w"
  "max_exhaustive_depth (dfs_add_number v k w) = max_exhaustive_depth w"
  by (simp_all add: max_exhaustive_depth_def set_state_def dfs_add_number_def)

lemma path_cells_length: "path_cells m vs ss \<Longrightarrow> length ss = m"
  by (simp add: path_cells_def)

lemma path_cells_update:
  "path_cells m vs ss \<Longrightarrow> ss_init s \<longleftrightarrow> ss_init (ss ! i) \<Longrightarrow>
     i < length vs \<longrightarrow> ss_value s = int (vs ! i) \<Longrightarrow> path_cells m vs (ss[i := s])"
proof (cases "i < length ss")
  case True
  then have "ss[i := s] ! j = (if i = j then s else ss ! j)" for j
    by (simp add: nth_list_update)
  moreover assume "path_cells m vs ss" "ss_init s \<longleftrightarrow> ss_init (ss ! i)"
    "i < length vs \<longrightarrow> ss_value s = int (vs ! i)"
  ultimately show ?thesis by (auto simp: path_cells_def)
qed (simp add: list_update_beyond)

lemma upd_states_some:
  assumes "0 \<le> a" "length ss = nat b" "0 \<le> b"
  shows "upd_states a b g ss = Some (take (nat a) ss @ map g (drop (nat a) ss))"
proof (cases "b \<le> a")
  case True
  with assms show ?thesis by (simp add: upd_states_def)
next
  case False
  with assms have "take (nat (b - a)) (drop (nat a) ss) = drop (nat a) ss" by (simp add: nat_diff_distrib)
  with False assms show ?thesis by (simp add: upd_states_def)
qed

lemma upd_states_nth:
  assumes "0 \<le> a" "length ss = nat b" "0 \<le> b"
  shows "\<exists>ss'. upd_states a b g ss = Some ss' \<and> length ss' = length ss \<and>
     (\<forall>i < length ss. ss' ! i = (if nat a \<le> i then g (ss ! i) else ss ! i))"
  by (intro exI [of _ "take (nat a) ss @ map g (drop (nat a) ss)"])
    (auto simp: upd_states_some [OF assms] nth_append)

lemma dfs_atD:
  assumes "dfs_at vs depth pos fin w"
  obtains d where "w_dfs w = Some d" "\<not> df_use_debug_sequence d" "df_decision_depth d = depth"
    "df_current_pos d = pos" "df_all_done d = fin"
    "path_cells (nat (max_exhaustive_depth w)) vs (df_states d)"
    "length (df_states d) = nat (max_exhaustive_depth w)" "0 \<le> max_exhaustive_depth w"
  using assms path_cells_length unfolding dfs_at_def by blast

lemma dfs_at_add_number [simp]:
  "dfs_at vs depth pos fin (dfs_add_number v k w) = dfs_at vs depth pos fin w"
  by (auto simp: dfs_at_def dfs_add_number_def)

lemma dfs_at_set_error [simp]: "dfs_at vs depth pos fin (set_error e w) = dfs_at vs depth pos fin w"
  by (auto simp: dfs_at_def)

lemma dfs_at_set_bound:
  assumes "dfs_at vs depth pos fin w"
  shows "dfs_at vs depth pos fin (set_state i (\<lambda>s. s\<lparr>ss_bound := b\<rparr>) w)"
proof -
  from assms obtain d where d: "w_dfs w = Some d" "\<not> df_use_debug_sequence d"
    "df_decision_depth d = depth" "df_current_pos d = pos" "df_all_done d = fin"
    "path_cells (nat (max_exhaustive_depth w)) vs (df_states d)"
    "length (df_states d) = nat (max_exhaustive_depth w)" "0 \<le> max_exhaustive_depth w" by (rule dfs_atD)
  have "path_cells (nat (max_exhaustive_depth w)) vs
      ((df_states d)[nat i := (df_states d ! nat i)\<lparr>ss_bound := b\<rparr>])"
    by (rule path_cells_update [OF d(6)]) (use d(6) in \<open>auto simp: path_cells_def\<close>)
  with d show ?thesis by (auto simp: dfs_at_def set_state_def)
qed

text \<open>Forgetting everything from position \<open>j\<close> on.\<close>

lemma backtrack_path:
  assumes "dfs_at vs depth pos fin w" "j \<le> length vs"
  shows "\<exists>w'. backtrack (int j) w = Some (- 1, w') \<and> w_err w' = BACKTRACKING_ERROR \<and>
     dfs_at (take j vs) (depth - 1) (int j) (depth - 1 < 0 \<or> fin) w' \<and> w_opts w' = w_opts w"
proof -
  from assms(1) obtain d where d: "w_dfs w = Some d" "\<not> df_use_debug_sequence d"
    "df_decision_depth d = depth" "df_current_pos d = pos" "df_all_done d = fin"
    "path_cells (nat (max_exhaustive_depth w)) vs (df_states d)"
    "length (df_states d) = nat (max_exhaustive_depth w)" "0 \<le> max_exhaustive_depth w" by (rule dfs_atD)
  from upd_states_nth [OF _ d(7,8), of "int j" "\<lambda>s. s\<lparr>ss_init := False\<rparr>"] obtain ss' where
    u: "upd_states (int j) (max_exhaustive_depth w) (\<lambda>s. s\<lparr>ss_init := False\<rparr>) (df_states d) = Some ss'"
       "length ss' = length (df_states d)"
       "\<forall>i < length (df_states d). ss' ! i = (if j \<le> i then (df_states d ! i)\<lparr>ss_init := False\<rparr>
          else df_states d ! i)" by auto
  have c: "path_cells (nat (max_exhaustive_depth w)) (take j vs) ss'"
    unfolding path_cells_def using d(6,7) u(2,3) assms(2) by (auto simp: path_cells_def)
  show ?thesis using d u(1) c
    by (auto simp: backtrack_def dfs_upd_states_def dfs_at_def)
qed

section \<open>One request\<close>

text \<open>The first branch from \<open>v\<close> on that the filter accepts.\<close>

definition next_choice :: "(int \<Rightarrow> bool) \<Rightarrow> nat \<Rightarrow> nat \<Rightarrow> nat option" where
  "next_choice p n v = find (\<lambda>u. \<not> p (int u)) [v..<n]"

lemma next_choice_step:
  "next_choice p n v = (if v < n then if p (int v) then next_choice p n (Suc v) else Some v else None)"
  by (simp add: next_choice_def upt_rec)

lemma next_choice_SomeD: "next_choice p n v = Some u \<Longrightarrow> v \<le> u \<and> u < n \<and> \<not> p (int u)"
  by (auto simp: next_choice_def find_Some_iff)

lemma choices_None: "next_choice p n v = None \<Longrightarrow> choices p v n = []"
  by (auto simp: next_choice_def choices_def find_None_iff filter_empty_conv)

lemma choices_Some: "next_choice p n v = Some u \<Longrightarrow> choices p v n = u # choices p (Suc u) n"
proof (induction "n - v" arbitrary: v)
  case 0
  then show ?case by (auto dest: next_choice_SomeD)
next
  case (Suc k)
  from Suc.hyps(2) have v: "v < n" by simp
  show ?case
  proof (cases "p (int v)")
    case True
    with Suc.prems v have "next_choice p n (Suc v) = Some u" by (simp add: next_choice_step [of p n v])
    with Suc.hyps have "choices p (Suc v) n = u # choices p (Suc u) n" by simp
    with True v show ?thesis by (simp add: choices_def upt_rec [of v])
  next
    case False
    with Suc.prems v have "u = v" by (simp add: next_choice_step [of p n v])
    with False v show ?thesis by (simp add: choices_def upt_rec [of v])
  qed
qed

lemma set_state_last:
  assumes "dfs_at vs depth pos fin w" "length vs = Suc j" "\<And>s. ss_init (h s) = ss_init s"
    "\<And>s. ss_value (h s) = int y"
  shows "dfs_at (take j vs @ [y]) depth pos fin (set_state (int j) h w)"
proof -
  from assms(1) obtain d where d: "w_dfs w = Some d" "\<not> df_use_debug_sequence d"
    "df_decision_depth d = depth" "df_current_pos d = pos" "df_all_done d = fin"
    "path_cells (nat (max_exhaustive_depth w)) vs (df_states d)"
    "length (df_states d) = nat (max_exhaustive_depth w)" "0 \<le> max_exhaustive_depth w" by (rule dfs_atD)
  have "(df_states d)[j := h (df_states d ! j)] ! i =
      (if i = j then h (df_states d ! j) else df_states d ! i)" for i
    using d(6) assms(2) by (simp add: path_cells_def nth_list_update)
  then have "path_cells (nat (max_exhaustive_depth w)) (take j vs @ [y])
      ((df_states d)[j := h (df_states d ! j)])"
    using d(6) assms(2-4) by (auto simp: path_cells_def nth_append less_Suc_eq)
  with d show ?thesis by (auto simp: dfs_at_def set_state_def)
qed

lemma dfs_at_move:
  "dfs_at vs depth pos fin w \<Longrightarrow>
     dfs_at vs depth' pos' fin (dfs_mod (\<lambda>d. d\<lparr>df_decision_depth := depth', df_current_pos := pos'\<rparr>) w)"
  by (auto simp: dfs_at_def)

lemma reset_values_path:
  assumes "dfs_at (vs @ [0]) (int (length vs)) pos fin w"
  shows "\<exists>w'. dfs_upd_states (int (length vs)) (\<lambda>s. s\<lparr>ss_value := 0\<rparr>) w = Some w' \<and>
     dfs_at (vs @ [0]) (int (length vs)) pos fin w' \<and> w_err w' = w_err w \<and> w_opts w' = w_opts w"
proof -
  from assms obtain d where d: "w_dfs w = Some d" "\<not> df_use_debug_sequence d"
    "df_decision_depth d = int (length vs)" "df_current_pos d = pos" "df_all_done d = fin"
    "path_cells (nat (max_exhaustive_depth w)) (vs @ [0]) (df_states d)"
    "length (df_states d) = nat (max_exhaustive_depth w)" "0 \<le> max_exhaustive_depth w" by (rule dfs_atD)
  from upd_states_nth [OF _ d(7,8), of "int (length vs)" "\<lambda>s. s\<lparr>ss_value := 0\<rparr>"] obtain ss' where
    u: "upd_states (int (length vs)) (max_exhaustive_depth w) (\<lambda>s. s\<lparr>ss_value := 0\<rparr>) (df_states d) = Some ss'"
       "length ss' = length (df_states d)"
       "\<forall>i < length (df_states d). ss' ! i = (if length vs \<le> i then (df_states d ! i)\<lparr>ss_value := 0\<rparr>
          else df_states d ! i)" by auto
  have "path_cells (nat (max_exhaustive_depth w)) (vs @ [0]) ss'"
    unfolding path_cells_def using d(6,7) u(2,3) by (auto simp: path_cells_def nth_append less_Suc_eq)
  with d u(1) show ?thesis by (auto simp: dfs_upd_states_def dfs_at_def)
qed

lemma filtered_out_pure [simp]:
  "filtered_out (Some (pure_filter p)) None v w = Some (p v, w)"
  by (simp add: filtered_out_def filter_invalid_nums_def)

lemma first_visit_loop_path:
  assumes "dfs_at (vs @ [0]) (int (length vs)) (int (length vs)) False w" "w_err w = SUCCESS"
  shows "\<exists>r w'. first_visit_loop (Some (pure_filter p)) None (int (length vs)) (int n) (int v) w =
       Some (Some r, w') \<and> dfs_at (vs @ [0]) (int (length vs)) (int (length vs)) False w' \<and>
     w_err w' = SUCCESS \<and> w_opts w' = w_opts w \<and>
     (case next_choice p n v of None \<Rightarrow> int n \<le> r | Some u \<Rightarrow> r = int u)"
  using assms
proof (induction "n - v" arbitrary: v w)
  case 0
  then show ?case by (simp add: first_visit_loop.simps next_choice_step)
next
  case (Suc k)
  from Suc.hyps(2) have v: "v < n" by simp
  show ?case
  proof (cases "p (int v)")
    case False
    with v Suc.prems show ?thesis by (simp add: first_visit_loop.simps next_choice_step)
  next
    case True
    from reset_values_path [OF Suc.prems(1)] obtain w1 where w1:
      "dfs_upd_states (int (length vs)) (\<lambda>s. s\<lparr>ss_value := 0\<rparr>) w = Some w1"
      "dfs_at (vs @ [0]) (int (length vs)) (int (length vs)) False w1"
      "w_err w1 = w_err w" "w_opts w1 = w_opts w" by blast
    from Suc.prems(1) obtain d where d: "w_dfs w = Some d" "df_decision_depth d = int (length vs)"
      by (auto elim: dfs_atD)
    let ?w2 = "dfs_mod (\<lambda>d. d\<lparr>df_decision_depth := df_current_pos d,
        df_current_pos := int (length vs)\<rparr>) w1"
    have w2: "dfs_at (vs @ [0]) (int (length vs)) (int (length vs)) False ?w2"
      using w1(2) by (auto simp: dfs_at_def)
    have "\<exists>r w'. first_visit_loop (Some (pure_filter p)) None (int (length vs)) (int n) (int (Suc v)) ?w2 =
       Some (Some r, w') \<and> dfs_at (vs @ [0]) (int (length vs)) (int (length vs)) False w' \<and>
     w_err w' = SUCCESS \<and> w_opts w' = w_opts ?w2 \<and>
     (case next_choice p n (Suc v) of None \<Rightarrow> int n \<le> r | Some u \<Rightarrow> r = int u)"
      using Suc.hyps w2 w1(3) Suc.prems(2) by (intro Suc.hyps(1)) simp_all
    then show ?thesis
      using v True d w1 Suc.prems(2)
      by (simp add: first_visit_loop.simps [of _ _ _ _ "int v" w] next_choice_step [of p n v] add.commute)
  qed
qed

lemma next_branch_loop_path:
  assumes "dfs_at (vs @ [v]) (int (length vs)) pos False w" "w_err w = SUCCESS"
  shows "\<exists>r w'. next_branch_loop (Some (pure_filter p)) None (int (length vs)) (int (length vs))
         (int n) (int v) w = Some (Some (int r), w') \<and>
     dfs_at (vs @ [r]) (int (length vs)) (int (length vs)) False w' \<and>
     w_err w' = SUCCESS \<and> w_opts w' = w_opts w \<and>
     (case next_choice p n (Suc v) of None \<Rightarrow> n \<le> r | Some u \<Rightarrow> r = u)"
  using assms
proof (induction "n - Suc v" arbitrary: v w pos)
  case (0 v w pos)
  let ?w1 = "dfs_mod (\<lambda>d. d\<lparr>df_current_pos := int (length vs), df_decision_depth := int (length vs)\<rparr>)
                 (set_state (int (length vs)) (\<lambda>s. s\<lparr>ss_value := int v + 1\<rparr>) w)"
  have "dfs_at (vs @ [Suc v]) (int (length vs)) pos False
      (set_state (int (length vs)) (\<lambda>s. s\<lparr>ss_value := int v + 1\<rparr>) w)"
    using set_state_last [OF "0.prems"(1), of "length vs" _ "Suc v"] by simp
  then have "dfs_at (vs @ [Suc v]) (int (length vs)) (int (length vs)) False ?w1"
    by (auto simp: dfs_at_def)
  then show ?case using 0
    by (intro exI [of _ "Suc v"] exI [of _ ?w1])
      (simp add: next_branch_loop.simps [of _ _ _ _ _ "int v"] next_choice_step add.commute Let_def)
next
  case (Suc k v w pos)
  let ?w1 = "dfs_mod (\<lambda>d. d\<lparr>df_current_pos := int (length vs), df_decision_depth := int (length vs)\<rparr>)
                 (set_state (int (length vs)) (\<lambda>s. s\<lparr>ss_value := int v + 1\<rparr>) w)"
  from Suc.hyps(2) have v: "Suc v < n" by simp
  have "dfs_at (vs @ [Suc v]) (int (length vs)) pos False
      (set_state (int (length vs)) (\<lambda>s. s\<lparr>ss_value := int v + 1\<rparr>) w)"
    using set_state_last [OF Suc.prems(1), of "length vs" _ "Suc v"] by simp
  then have w1: "dfs_at (vs @ [Suc v]) (int (length vs)) (int (length vs)) False ?w1"
    by (auto simp: dfs_at_def)
  have o: "w_opts ?w1 = w_opts w" "w_err ?w1 = SUCCESS" using Suc.prems(2) by (simp_all add: set_state_def)
  show ?case
  proof (cases "p (int (Suc v))")
    case False
    with v w1 o show ?thesis
      by (intro exI [of _ "Suc v"] exI [of _ ?w1])
        (simp add: next_branch_loop.simps [of _ _ _ _ _ "int v"] next_choice_step add.commute Let_def)
  next
    case True
    have "k = n - Suc (Suc v)" using Suc.hyps(2) by simp
    from Suc.hyps(1) [OF this w1 o(2)] obtain r w' where
      r: "next_branch_loop (Some (pure_filter p)) None (int (length vs)) (int (length vs))
         (int n) (int (Suc v)) ?w1 = Some (Some (int r), w')"
       "dfs_at (vs @ [r]) (int (length vs)) (int (length vs)) False w'"
       "w_err w' = SUCCESS" "w_opts w' = w_opts ?w1"
       "case next_choice p n (Suc (Suc v)) of None \<Rightarrow> n \<le> r | Some u \<Rightarrow> r = u" by blast
    with v True o show ?thesis
      by (intro exI [of _ r] exI [of _ w'])
        (simp add: next_branch_loop.simps [of _ _ _ _ _ "int v"] next_choice_step [of p n "Suc v"] add.commute Let_def)
  qed
qed

text \<open>The state after \<open>++current_pos_\<close> and \<open>state->set_bound(bound)\<close>.\<close>

definition enter_node :: "nat \<Rightarrow> int \<Rightarrow> world \<Rightarrow> world" where
  "enter_node j bound w = set_state (int j) (\<lambda>s. s\<lparr>ss_bound := bound\<rparr>)
     (dfs_mod (\<lambda>d. d\<lparr>df_current_pos := df_current_pos d + 1\<rparr>) w)"

lemma enter_node_sel [simp]:
  "w_err (enter_node j b w) = w_err w" "w_opts (enter_node j b w) = w_opts w"
  "max_exhaustive_depth (enter_node j b w) = max_exhaustive_depth w"
  by (simp_all add: enter_node_def)

lemma enter_node_path:
  "dfs_at vs depth (int j - 1) False w \<Longrightarrow> dfs_at vs depth (int j) False (enter_node j b w)"
  unfolding enter_node_def by (rule dfs_at_set_bound) (auto simp: dfs_at_def)

lemma random_choice_enter:
  assumes "dfs_at vs depth (int j - 1) False w" "w_err w = SUCCESS"
    and "int j < max_exhaustive_depth w" "depth < max_exhaustive_depth w"
  shows "random_choice bound f bad w =
     (if int j < depth \<and> j < length vs then revisit_node (int j) bound f (enter_node j bound w)
      else if j < length vs then next_branch (int j) bound f bad (enter_node j bound w)
      else first_visit (int j) bound f bad (enter_node j bound w))"
proof -
  from assms(1) obtain d where d: "w_dfs w = Some d" "\<not> df_use_debug_sequence d"
    "df_decision_depth d = depth" "df_current_pos d = int j - 1" "df_all_done d = False"
    "path_cells (nat (max_exhaustive_depth w)) vs (df_states d)"
    "length (df_states d) = nat (max_exhaustive_depth w)" "0 \<le> max_exhaustive_depth w" by (rule dfs_atD)
  have j: "j < length (df_states d)" using assms(3) d(7) by simp
  have i: "ss_init (df_states d ! j) \<longleftrightarrow> j < length vs" using d(6,7) j by (simp add: path_cells_def)
  show ?thesis
    using assms d j i by (simp add: random_choice_def error_codes Let_def enter_node_def)
qed

lemma dfs_rnd_upto_of_choice:
  "random_choice (int n) f None w = Some (x, w') \<Longrightarrow> x = - 1 \<or> 0 \<le> x \<and> x < int n \<Longrightarrow>
     dfs_rnd_upto n f wh w = Some (if x = - 1 then UINT_MAX else nat x, w')"
  by (auto simp: dfs_rnd_upto_def)

text \<open>Below the decision: the choice made before is made again.\<close>

lemma revisit_request:
  assumes "dfs_path vs (int j - 1) False w" "w_err w = SUCCESS" "Suc j < length vs" "vs ! j < n"
  shows "\<exists>w'. dfs_rnd_upto n (Some (pure_filter p)) wh w = Some (vs ! j, w') \<and>
     dfs_path vs (int j) False w' \<and> w_err w' = SUCCESS \<and> w_opts w' = w_opts w"
proof -
  let ?w2 = "enter_node j (int n) w"
  have w2: "dfs_path vs (int j) False ?w2" by (rule enter_node_path [OF assms(1)])
  then obtain d where d: "w_dfs ?w2 = Some d" "df_current_pos d = int j"
    "path_cells (nat (max_exhaustive_depth w)) vs (df_states d)" by (auto elim: dfs_atD)
  have "length vs \<le> nat (max_exhaustive_depth w)" using d(3) by (simp add: path_cells_def)
  with assms(3) have m: "int (length vs) \<le> max_exhaustive_depth w" by linarith
  have v: "vec_get (df_states d) j = Some (df_states d ! j)" "ss_value (df_states d ! j) = int (vs ! j)"
    using d(3) assms(3) by (auto simp: path_cells_def)
  have "random_choice (int n) (Some (pure_filter p)) None w =
      revisit_node (int j) (int n) (Some (pure_filter p)) ?w2"
    using random_choice_enter [OF assms(1,2)] m assms(3) by simp
  also have "\<dots> = Some (int (vs ! j), dfs_add_number (int (vs ! j)) (int j) ?w2)"
    using d v assms(2-4) m by (simp add: revisit_node_def Let_def del: vec_get_Some)
  finally show ?thesis using w2 assms(2,4)
    by (intro exI [of _ "dfs_add_number (int (vs ! j)) (int j) ?w2"])
      (simp add: dfs_rnd_upto_of_choice)
qed

text \<open>What a node answers: the next accepted branch, or a step back.\<close>

definition answer :: "nat option \<Rightarrow> nat list \<Rightarrow> world \<Rightarrow> nat \<times> world \<Rightarrow> bool" where
  "answer c vs w rw \<longleftrightarrow> w_opts (snd rw) = w_opts w \<and>
     (case c of
        Some u \<Rightarrow> fst rw = u \<and> w_err (snd rw) = SUCCESS \<and>
                  dfs_path (vs @ [u]) (int (length vs)) False (snd rw)
      | None \<Rightarrow> w_err (snd rw) \<noteq> SUCCESS \<and> dfs_path vs (int (length vs)) (vs = []) (snd rw))"

lemma answer_exhausted:
  assumes "dfs_at (vs @ [x]) (int (length vs)) pos False w"
    "random_choice (int n) f None w0 = backtrack (int (length vs)) w" "w_opts w = w_opts w0"
  shows "\<exists>rw. dfs_rnd_upto n f wh w0 = Some rw \<and> answer None vs w0 rw"
proof -
  from backtrack_path [OF assms(1), of "length vs"] obtain w' where
    b: "backtrack (int (length vs)) w = Some (- 1, w')" "w_err w' = BACKTRACKING_ERROR"
       "dfs_at vs (int (length vs) - 1) (int (length vs)) (int (length vs) - 1 < 0 \<or> False) w'"
       "w_opts w' = w_opts w" by auto
  then have "dfs_rnd_upto n f wh w0 = Some (UINT_MAX, w')"
    using dfs_rnd_upto_of_choice [of n f w0 "- 1" w'] assms(2) by simp
  moreover have "answer None vs w0 (UINT_MAX, w')"
    using b assms(3) by (auto simp: answer_def error_codes)
  ultimately show ?thesis by blast
qed

lemma answer_branch:
  assumes "dfs_at (vs @ [u]) (int (length vs)) (int (length vs)) False w" "u < n" "w_err w = SUCCESS"
    "random_choice (int n) f None w0 = Some (int u, dfs_add_number (int u) (int (length vs)) w)"
    "w_opts w = w_opts w0"
  shows "\<exists>rw. dfs_rnd_upto n f wh w0 = Some rw \<and> answer (Some u) vs w0 rw"
proof -
  have "dfs_rnd_upto n f wh w0 = Some (u, dfs_add_number (int u) (int (length vs)) w)"
    using dfs_rnd_upto_of_choice [OF assms(4)] assms(2) by simp
  then show ?thesis using assms(1,3,5) by (auto simp: answer_def)
qed

lemma next_request:
  assumes "dfs_path (vs @ [v]) (int (length vs) - 1) False w" "w_err w = SUCCESS"
  shows "\<exists>rw. dfs_rnd_upto n (Some (pure_filter p)) wh w = Some rw \<and>
     answer (next_choice p n (Suc v)) vs w rw"
proof -
  let ?w2 = "enter_node (length vs) (int n) w"
  have w2: "dfs_at (vs @ [v]) (int (length vs)) (int (length vs)) False ?w2"
    using enter_node_path [OF assms(1)] by simp
  then obtain d where d: "w_dfs ?w2 = Some d" "df_decision_depth d = int (length vs)"
    "path_cells (nat (max_exhaustive_depth w)) (vs @ [v]) (df_states d)" by (auto elim: dfs_atD)
  have "length (vs @ [v]) \<le> nat (max_exhaustive_depth w)" using d(3) unfolding path_cells_def by blast
  then have m: "int (length vs) < max_exhaustive_depth w" by simp
  have s: "vec_get (df_states d) (length vs) = Some (df_states d ! length vs)"
    "ss_value (df_states d ! length vs) = int v" using d(3) by (auto simp: path_cells_def)
  have rc: "random_choice (int n) (Some (pure_filter p)) None w =
      next_branch (int (length vs)) (int n) (Some (pure_filter p)) None ?w2"
    using random_choice_enter [OF assms(1,2)] m by simp
  from next_branch_loop_path [OF w2, of p n] assms(2) obtain r w' where
    r: "next_branch_loop (Some (pure_filter p)) None (int (length vs)) (int (length vs))
         (int n) (int v) ?w2 = Some (Some (int r), w')"
       "dfs_at (vs @ [r]) (int (length vs)) (int (length vs)) False w'"
       "w_err w' = SUCCESS" "w_opts w' = w_opts ?w2"
       "case next_choice p n (Suc v) of None \<Rightarrow> n \<le> r | Some u \<Rightarrow> r = u" by auto
  let ?w3 = "set_state (int (length vs)) (\<lambda>s. s\<lparr>ss_value := int r\<rparr>) w'"
  have w3: "dfs_at (vs @ [r]) (int (length vs)) (int (length vs)) False ?w3"
    using set_state_last [OF r(2), of "length vs" _ r] by simp
  have nb: "next_branch (int (length vs)) (int n) (Some (pure_filter p)) None ?w2 =
      (if n \<le> r then backtrack (int (length vs)) ?w3
       else Some (int r, dfs_add_number (int r) (int (length vs)) ?w3))"
    using d s r(1,3) by (simp add: next_branch_def Let_def del: vec_get_Some)
  show ?thesis
  proof (cases "next_choice p n (Suc v)")
    case None
    with r(5) nb rc r(4) show ?thesis using answer_exhausted [OF w3] by simp
  next
    case (Some u)
    with next_choice_SomeD [OF Some] r(3-5) nb rc show ?thesis using answer_branch [OF w3] by simp
  qed
qed

lemma fresh_request:
  assumes "dfs_path vs (int (length vs) - 1) False w" "w_err w = SUCCESS"
    "int (length vs) < max_exhaustive_depth w"
  shows "\<exists>rw. dfs_rnd_upto n (Some (pure_filter p)) wh w = Some rw \<and>
     answer (next_choice p n 0) vs w rw"
proof -
  let ?j = "int (length vs)"
  let ?w2 = "enter_node (length vs) (int n) w"
  have w2: "dfs_path vs ?j False ?w2" using enter_node_path [OF assms(1)] .
  then obtain d where d: "w_dfs ?w2 = Some d" "\<not> df_use_debug_sequence d"
    "df_decision_depth d = ?j - 1" "df_current_pos d = ?j" "df_all_done d = False"
    "path_cells (nat (max_exhaustive_depth w)) vs (df_states d)"
    "length (df_states d) = nat (max_exhaustive_depth w)" by (auto elim: dfs_atD)
  let ?w3 = "set_state ?j (initSearchState True 0 (int n))
      (dfs_mod (\<lambda>d. d\<lparr>df_decision_depth := df_decision_depth d + 1\<rparr>) ?w2)"
  let ?s = "initSearchState True 0 (int n) (df_states d ! length vs)"
  have "(df_states d)[length vs := ?s] ! i = (if i = length vs then ?s else df_states d ! i)" for i
    using d(7) assms(3) by (simp add: nth_list_update)
  then have "path_cells (nat (max_exhaustive_depth w)) (vs @ [0]) ((df_states d)[length vs := ?s])"
    using d(6) assms(3) by (auto simp: path_cells_def nth_append less_Suc_eq initSearchState_def)
  with d assms(3) have w3: "dfs_at (vs @ [0]) ?j ?j False ?w3"
    by (auto simp: dfs_at_def set_state_def)
  have rc: "random_choice (int n) (Some (pure_filter p)) None w =
      first_visit ?j (int n) (Some (pure_filter p)) None ?w2"
    using random_choice_enter [OF assms(1,2)] assms(3) by simp
  from first_visit_loop_path [OF w3, of p n 0] assms(2) obtain r w' where
    r: "first_visit_loop (Some (pure_filter p)) None ?j (int n) 0 ?w3 = Some (Some r, w')"
       "dfs_at (vs @ [0]) ?j ?j False w'" "w_err w' = SUCCESS" "w_opts w' = w_opts ?w3"
       "case next_choice p n 0 of None \<Rightarrow> int n \<le> r | Some u \<Rightarrow> r = int u" by auto
  let ?w4 = "dfs_mod (\<lambda>d. d\<lparr>df_decision_depth := df_current_pos d\<rparr>) w'"
  have w4: "dfs_at (vs @ [0]) ?j ?j False ?w4" using r(2) by (auto simp: dfs_at_def)
  show ?thesis
  proof (cases "next_choice p n 0")
    case None
    with r have "first_visit ?j (int n) (Some (pure_filter p)) None ?w2 = backtrack ?j ?w4"
      by (simp add: first_visit_def Let_def)
    with None rc r(4) show ?thesis using answer_exhausted [OF w4] by simp
  next
    case (Some u)
    let ?w5 = "set_state ?j (\<lambda>s. s\<lparr>ss_value := int u\<rparr>) ?w4"
    have w5: "dfs_at (vs @ [u]) ?j ?j False ?w5"
      using set_state_last [OF w4, of "length vs" _ u] by simp
    from Some next_choice_SomeD [OF Some] r
    have "first_visit ?j (int n) (Some (pure_filter p)) None ?w2 =
        Some (int u, dfs_add_number (int u) ?j ?w5)"
      by (simp add: first_visit_def Let_def)
    with Some next_choice_SomeD [OF Some] r(3,4) rc show ?thesis using answer_branch [OF w5] by simp
  qed
qed

section \<open>One generation\<close>

text \<open>What is left to enumerate after the path \<open>vs\<close>, and a measure that every generation lowers.\<close>

primrec after :: "'a tree \<Rightarrow> nat list \<Rightarrow> 'a list" where
  "after (Leaf a) = (\<lambda>vs. [])"
| "after (Node n p ch) = (\<lambda>vs. case vs of [] \<Rightarrow> []
     | v # vs' \<Rightarrow> after (ch v) vs' @ concat (map (\<lambda>u. leaves (ch u)) (choices p (Suc v) n)))"

primrec nodes :: "'a tree \<Rightarrow> nat" where
  "nodes (Leaf a) = 1"
| "nodes (Node n p ch) = 1 + sum_list (map (\<lambda>u. nodes (ch u)) (choices p 0 n))"

primrec todo :: "'a tree \<Rightarrow> nat list \<Rightarrow> nat" where
  "todo (Leaf a) = (\<lambda>vs. 0)"
| "todo (Node n p ch) = (\<lambda>vs. case vs of [] \<Rightarrow> 0
     | v # vs' \<Rightarrow> 1 + todo (ch v) vs' + sum_list (map (\<lambda>u. nodes (ch u)) (choices p (Suc v) n)))"

primrec is_path :: "'a tree \<Rightarrow> nat list \<Rightarrow> bool" where
  "is_path (Leaf a) = (\<lambda>vs. vs = [])"
| "is_path (Node n p ch) = (\<lambda>vs. case vs of [] \<Rightarrow> True
     | v # vs' \<Rightarrow> v < n \<and> \<not> p (int v) \<and> is_path (ch v) vs')"

definition left :: "'a tree \<Rightarrow> nat list \<Rightarrow> 'a list" where
  "left t vs = (if vs = [] then leaves t else after t vs)"

definition work :: "'a tree \<Rightarrow> nat list \<Rightarrow> nat" where
  "work t vs = (if vs = [] then nodes t else todo t vs)"

lemma left_nil: "left t [] = leaves t" "work t [] = nodes t"
  by (simp_all add: left_def work_def)

lemma nodes_pos: "0 < nodes t"
  by (cases t) simp_all

text \<open>The outcome of running \<open>t\<close> below the prefix \<open>pre\<close>, started with the path \<open>pre @ vs\<close>: either
  the next leaf is produced, or none is and a node without a branch left has been closed.\<close>

definition outcome :: "'a tree \<Rightarrow> nat list \<Rightarrow> nat list \<Rightarrow> world \<Rightarrow> 'a option \<times> world \<Rightarrow> bool" where
  "outcome t pre vs w rw \<longleftrightarrow>
     (\<exists>vs' pos. dfs_path (pre @ vs') pos (pre @ vs' = [] \<and> fst rw = None) (snd rw) \<and>
        is_path t vs' \<and> w_opts (snd rw) = w_opts w \<and>
        left t vs = (case fst rw of None \<Rightarrow> [] | Some a \<Rightarrow> [a]) @ after t vs' \<and>
        todo t vs' < work t vs \<and>
        (case t of Leaf a \<Rightarrow> True | Node n p ch \<Rightarrow> fst rw \<noteq> None \<longrightarrow> vs' \<noteq> []))"

lemma run_child:
  assumes "outcome (ch u) (pre @ [u]) vs1 w1 rw" "w_opts w1 = w_opts w" "u < n" "\<not> p (int u)"
    "left (Node n p ch) vs = left (ch u) vs1 @ concat (map (\<lambda>u. leaves (ch u)) (choices p (Suc u) n))"
    "work (ch u) vs1 + sum_list (map (\<lambda>u. nodes (ch u)) (choices p (Suc u) n)) < work (Node n p ch) vs"
  shows "outcome (Node n p ch) pre vs w rw"
proof -
  from assms(1) obtain vs' pos where o:
    "dfs_path ((pre @ [u]) @ vs') pos ((pre @ [u]) @ vs' = [] \<and> fst rw = None) (snd rw)"
    "is_path (ch u) vs'" "w_opts (snd rw) = w_opts w1"
    "left (ch u) vs1 = (case fst rw of None \<Rightarrow> [] | Some a \<Rightarrow> [a]) @ after (ch u) vs'"
    "todo (ch u) vs' < work (ch u) vs1" unfolding outcome_def by blast
  show ?thesis unfolding outcome_def
    by (intro exI [of _ "u # vs'"] exI [of _ pos]) (use o assms(2-6) in simp)
qed

text \<open>From an answer at the node after \<open>pre\<close> the generation goes on in the chosen branch, or ends.\<close>

lemma run_answer:
  assumes step: "dfs_rnd_upto n (Some (pure_filter p)) None w = Some rw" "answer c pre w rw"
    and c: "c = next_choice p n k" "vs = [] \<and> k = 0 \<or> (\<exists>v. vs = [v] \<and> k = Suc v \<and> is_path (ch v) [])"
    and child: "\<And>u w1. u \<in> set (choices p 0 n) \<Longrightarrow> dfs_path (pre @ [u]) (int (length pre)) False w1 \<Longrightarrow>
       w_err w1 = SUCCESS \<Longrightarrow> w_opts w1 = w_opts w \<Longrightarrow>
       \<exists>rw1. GenerateFunctions (ch u) w1 = Some rw1 \<and> outcome (ch u) (pre @ [u]) [] w1 rw1"
  shows "\<exists>rw'. GenerateFunctions (Node n p ch) w = Some rw' \<and> outcome (Node n p ch) pre vs w rw'"
proof -
  obtain r w1 where rw: "rw = (r, w1)" by fastforce
  have leaf: "after (ch v) [] = []" "todo (ch v) [] = 0" for v by (cases "ch v", auto)+
  have l: "left (Node n p ch) vs = concat (map (\<lambda>u. leaves (ch u)) (choices p k n))"
    using c(2) leaf by (auto simp: left_def)
  have wk: "work (Node n p ch) vs = 1 + sum_list (map (\<lambda>u. nodes (ch u)) (choices p k n))"
    using c(2) leaf by (auto simp: work_def)
  show ?thesis
  proof (cases c)
    case None
    with step rw have e: "w_err w1 \<noteq> SUCCESS" "dfs_path pre (int (length pre)) (pre = []) w1"
      "w_opts w1 = w_opts w" by (simp_all add: answer_def)
    from c(1) None have no: "choices p k n = []" by (simp add: choices_None)
    have "outcome (Node n p ch) pre vs w (None, w1)" unfolding outcome_def
      by (intro exI [of _ "[]"] exI [of _ "int (length pre)"]) (use e l wk no in simp)
    with step(1) rw e(1) show ?thesis by simp
  next
    case (Some u)
    with step rw have e: "r = u" "w_err w1 = SUCCESS" "dfs_path (pre @ [u]) (int (length pre)) False w1"
      "w_opts w1 = w_opts w" by (simp_all add: answer_def)
    from c(1) Some have u: "u < n" "\<not> p (int u)" "choices p k n = u # choices p (Suc u) n"
      using next_choice_SomeD [of p n k u] choices_Some [of p n k u] by simp_all
    then have "u \<in> set (choices p 0 n)" by (simp add: choices_def)
    from child [OF this e(3,2,4)] obtain rw1 where
      r1: "GenerateFunctions (ch u) w1 = Some rw1" "outcome (ch u) (pre @ [u]) [] w1 rw1" by blast
    have "outcome (Node n p ch) pre vs w rw1"
      by (rule run_child [where ch = ch and u = u and p = p, OF r1(2) e(4) u(1,2)]) (simp_all add: l wk u(3) left_nil)
    with step(1) rw e(1,2) r1(1) show ?thesis by simp
  qed
qed

lemma run_generation:
  assumes "dfs_path (pre @ vs) (int (length pre) - 1) False w" "w_err w = SUCCESS" "is_path t vs"
    and "depth_le k t" "int (length pre + k) \<le> max_exhaustive_depth w"
  shows "\<exists>rw. GenerateFunctions t w = Some rw \<and> outcome t pre vs w rw"
  using assms
proof (induction t arbitrary: pre vs w k)
  case (Leaf a)
  then have "outcome (Leaf a) pre vs w (Some a, w)"
    by (auto simp: outcome_def left_def work_def)
  with Leaf.prems(2) show ?case by simp
next
  case (Node n p ch)
  from Node.prems(4) have k: "0 < k" and kid: "\<And>v. v \<in> set (choices p 0 n) \<Longrightarrow> depth_le (k - 1) (ch v)"
    by auto
  have child: "\<exists>rw1. GenerateFunctions (ch u) w1 = Some rw1 \<and> outcome (ch u) (pre @ [u]) vs1 w1 rw1"
    if "u \<in> set (choices p 0 n)" "dfs_path ((pre @ [u]) @ vs1) (int (length pre)) False w1"
      "w_err w1 = SUCCESS" "w_opts w1 = w_opts w" "is_path (ch u) vs1" for u vs1 w1
    using that kid [OF that(1)] k Node.prems(5)
    by (intro Node.IH [where k = "k - 1"]) (auto simp: max_exhaustive_depth_def)
  have path_nil: "is_path (ch v) []" for v by (cases "ch v") auto
  show ?case
  proof (cases vs)
    case Nil
    from Node.prems(1,5) Nil k
    obtain rw where rw: "dfs_rnd_upto n (Some (pure_filter p)) None w = Some rw"
      "answer (next_choice p n 0) pre w rw"
      using fresh_request [of pre w n p None] Node.prems(2) by auto
    show ?thesis
      by (rule run_answer [OF rw refl]) (use Nil child [of _ "[]"] path_nil in simp_all)
  next
    case (Cons v vs1)
    with Node.prems(3) have v: "v < n" "\<not> p (int v)" "is_path (ch v) vs1" by auto
    show ?thesis
    proof (cases vs1)
      case Nil
      from Node.prems(1) Cons Nil
      obtain rw where rw: "dfs_rnd_upto n (Some (pure_filter p)) None w = Some rw"
        "answer (next_choice p n (Suc v)) pre w rw"
        using next_request [of pre v w n p None] Node.prems(2) by auto
      show ?thesis
        by (rule run_answer [OF rw refl])
          (use Cons Nil child [of _ "[]"] path_nil in simp_all)
    next
      case (Cons v2 vs2)
      with Node.prems(1,2) \<open>vs = v # vs1\<close> v(1) obtain w1 where
        w1: "dfs_rnd_upto n (Some (pure_filter p)) None w = Some (v, w1)"
          "dfs_path (pre @ vs) (int (length pre)) False w1" "w_err w1 = SUCCESS" "w_opts w1 = w_opts w"
        using revisit_request [of "pre @ vs" "length pre" w n p None] by (auto simp: nth_append)
      from v have "v \<in> set (choices p 0 n)" by (simp add: choices_def)
      from child [OF this, of vs1 w1] w1 v(3) \<open>vs = v # vs1\<close> obtain rw1 where
        r1: "GenerateFunctions (ch v) w1 = Some rw1" "outcome (ch v) (pre @ [v]) vs1 w1 rw1" by auto
      have "outcome (Node n p ch) pre vs w rw1"
        by (rule run_child [where ch = ch and u = v and p = p, OF r1(2) w1(4) v(1,2)])
          (simp_all add: left_def work_def \<open>vs = v # vs1\<close> Cons)
      with w1 r1(1) show ?thesis by simp
    qed
  qed
qed

section \<open>The whole search\<close>

lemma reset_path:
  "dfs_path vs pos fin w \<Longrightarrow> dfs_path vs (- 1) fin (dfs_reset_state w)"
  by (auto simp: dfs_at_def dfs_reset_state_def)

lemma dfs_reset_opts [simp]: "w_opts (dfs_reset_state w) = w_opts w"
  by (simp add: dfs_reset_state_def)

lemma search_loop:
  assumes "dfs_path vs (- 1) (vs = [] \<and> started) w" "is_path t vs" "depth_le k t"
    "int k \<le> max_exhaustive_depth w" "t = Node n p ch"
  shows "\<exists>w'. goGenerator_loop t w out =
     Some (out @ (if vs = [] \<and> started then [] else left t vs), w')"
  using assms(1,2,4)
proof (induction "if vs = [] \<and> started then 0 else work t vs" arbitrary: vs w out started rule: less_induct)
  case less
  from less.prems(1) obtain d where d: "w_dfs w = Some d" "df_all_done d = (vs = [] \<and> started)"
    by (auto elim: dfs_atD)
  show ?case
  proof (cases "vs = [] \<and> started")
    case True
    with d show ?thesis by (simp add: goGenerator_loop.simps [of t w])
  next
    case False
    have "dfs_path ([] @ vs) (int (length []) - 1) False (set_error SUCCESS w)"
      using less.prems(1) False by simp
    from run_generation [OF this _ less.prems(2) assms(3)] less.prems(3) obtain r w1 where
      g: "GenerateFunctions t (set_error SUCCESS w) = Some (r, w1)"
         "outcome t [] vs (set_error SUCCESS w) (r, w1)" by auto
    then obtain vs' pos where o: "dfs_path vs' pos (vs' = [] \<and> r = None) w1" "is_path t vs'"
      "w_opts w1 = w_opts w" "left t vs = (case r of None \<Rightarrow> [] | Some a \<Rightarrow> [a]) @ after t vs'"
      "todo t vs' < work t vs" "r \<noteq> None \<longrightarrow> vs' \<noteq> []"
      using assms(5) by (auto simp: outcome_def)
    let ?w2 = "dfs_reset_state w1"
    let ?out = "case r of None \<Rightarrow> out | Some a \<Rightarrow> out @ [a]"
    have p2: "dfs_path vs' (- 1) (vs' = [] \<and> True) ?w2"
      using reset_path [OF o(1)] o(6) by (cases "vs' = []") auto
    have m: "(if vs' = [] \<and> True then 0 else work t vs') < (if vs = [] \<and> started then 0 else work t vs)"
      using False o(5) by (auto simp: work_def)
    have d2: "int k \<le> max_exhaustive_depth ?w2"
      using less.prems(3) o(3) by (simp add: max_exhaustive_depth_def)
    have nil: "after t [] = []" using assms(5) by simp
    from less.hyps [OF m p2 o(2) d2, of ?out] obtain w' where
      "goGenerator_loop t ?w2 ?out = Some (?out @ (if vs' = [] then [] else left t vs'), w')" by auto
    then have "goGenerator_loop t ?w2 ?out = Some (out @ left t vs, w')"
      using o(4) nil by (auto simp: left_def split: option.splits)
    with d False g(1) show ?thesis by (auto simp: goGenerator_loop.simps [of t w])
  qed
qed

text \<open>The state in which the main loop starts.\<close>

definition search_start :: "world \<Rightarrow> bool" where
  "search_start w \<longleftrightarrow> 0 < max_exhaustive_depth w \<and> w_dfs w = Some (dfs_new w)"

lemma search_start_path: "search_start w \<Longrightarrow> dfs_path [] (- 1) False w"
  by (auto simp: search_start_def dfs_at_def dfs_new_def init_states_def SearchState_new_def path_cells_def)



text \<open>Two coins, the second one of which may not come down 1 when the first one did.\<close>

definition coin_tree :: "(nat \<times> nat) tree" where
  "coin_tree = Node 2 (\<lambda>v. False)
     (\<lambda>a. Node 2 (\<lambda>v. a = 1 \<and> v = 1) (\<lambda>b. Leaf (a, b)))"

definition start_world :: "int \<Rightarrow> world" where
  "start_world k = (let w = \<lparr>w_opts = CGOptions_static\<lparr>opt_max_exhaustive_depth := k\<rparr>, w_err = SUCCESS,
      w_rand48 = rand48_init, w_seed = 0, w_default = None, w_dfs = None,
      w_generators = [rDFSRndNumGenerator], w_curr = Some rDFSRndNumGenerator\<rparr>
    in w\<lparr>w_dfs := Some (dfs_new w)\<rparr>)"

lemma start_world_search: "0 < k \<Longrightarrow> search_start (start_world k)"
  by (simp add: search_start_def start_world_def Let_def max_exhaustive_depth_def dfs_new_def)


end
