(* ===== verification/Enumerator.thy ===== *)
theory Enumerator
  imports Prelude
begin

text \<open>
  The odometer of \<open>Enumerator.h\<close>, which the exhaustive mode runs over the flags of types and fields.
  A \<open>std::map\<close> from names to counters is a list of pairs sorted by name; an iterator is an index,
  with the length of the list as \<open>end()\<close>.  Decrementing an iterator at the beginning is undefined
  (\<open>None\<close>), which is what \<open>reset_pos\<close> does to an enumerator of fewer than two elements.
\<close>

record EnumObject =
  eo_bound :: int
  eo_current_value :: int
  eo_is_bool :: bool
  eo_bool_value :: bool
  eo_changed :: bool

definition EnumObject_new :: "int \<Rightarrow> bool \<Rightarrow> bool \<Rightarrow> EnumObject option" where
  "EnumObject_new bound is_bool bool_value =
     do {
       assert_opt (bound > 0);
       Some \<lparr>eo_bound = bound, eo_current_value = 0, eo_is_bool = is_bool,
             eo_bool_value = bool_value, eo_changed = False\<rparr>
     }"

definition EnumObject_next :: "EnumObject \<Rightarrow> bool \<times> EnumObject" where
  "EnumObject_next x =
     (if eo_current_value x + 1 < eo_bound x
      then (True, x\<lparr>eo_current_value := eo_current_value x + 1, eo_changed := True\<rparr>)
      else (False, x))"

definition good_value :: "EnumObject \<Rightarrow> bool" where
  "good_value x \<longleftrightarrow> eo_current_value x < eo_bound x"

definition clear_value :: "EnumObject \<Rightarrow> EnumObject" where
  "clear_value x = x\<lparr>eo_current_value := 0\<rparr>"

definition reset_changed :: "EnumObject \<Rightarrow> EnumObject" where
  "reset_changed x = x\<lparr>eo_changed := False\<rparr>"

record 'n Enumerator =
  en_objs :: "('n \<times> EnumObject) list"
  en_forward_pos :: nat
  en_backward_pos :: nat

definition Enumerator_new :: "'n Enumerator" where
  "Enumerator_new = \<lparr>en_objs = [], en_forward_pos = 0, en_backward_pos = 0\<rparr>"

definition insert_elem ::
    "'n :: linorder \<Rightarrow> EnumObject \<Rightarrow> 'n Enumerator \<Rightarrow> 'n Enumerator option" where
  "insert_elem name x e =
     do {
       assert_opt (name \<notin> fst ` set (en_objs e));
       Some (e\<lparr>en_objs := insort_key fst (name, x) (en_objs e)\<rparr>)
     }"

definition add_elem :: "'n :: linorder \<Rightarrow> int \<Rightarrow> 'n Enumerator \<Rightarrow> 'n Enumerator option" where
  "add_elem name bound e = do { x \<leftarrow> EnumObject_new bound False False; insert_elem name x e }"

definition add_bool_elem_of_bool ::
    "'n :: linorder \<Rightarrow> bool \<Rightarrow> 'n Enumerator \<Rightarrow> 'n Enumerator option" where
  "add_bool_elem_of_bool name value e =
     do { x \<leftarrow> EnumObject_new (if value then 2 else 1) True False; insert_elem name x e }"

definition add_bool_elem :: "'n :: linorder \<Rightarrow> int \<Rightarrow> 'n Enumerator \<Rightarrow> 'n Enumerator option" where
  "add_bool_elem name value e =
     do {
       x \<leftarrow> (if value = 0 then EnumObject_new 1 True False
             else if value = 100 then EnumObject_new 1 True True
             else EnumObject_new 2 True False);
       insert_elem name x e
     }"

definition get_elem :: "'n \<Rightarrow> 'n Enumerator \<Rightarrow> int option" where
  "get_elem name e =
     do {
       x \<leftarrow> map_of (en_objs e) name;
       assert_opt (eo_current_value x \<ge> 0);
       Some (if eo_is_bool x
             then if eo_bound x = 1 then of_bool (eo_bool_value x)
                  else of_bool (eo_current_value x \<noteq> 0)
             else eo_current_value x)
     }"

definition is_changed :: "'n \<Rightarrow> 'n Enumerator \<Rightarrow> bool option" where
  "is_changed name e = map_option eo_changed (map_of (en_objs e) name)"

definition reset_pos :: "'n Enumerator \<Rightarrow> 'n Enumerator option" where
  "reset_pos e =
     (let n = length (en_objs e) in
      do {
        assert_opt (2 \<le> n);
        Some (e\<lparr>en_forward_pos := n - 1, en_backward_pos := n - 2\<rparr>)
      })"

text \<open>The enumerator itself or the null pointer: the flag is \<open>False\<close> for null.\<close>

definition enum_begin :: "'n Enumerator \<Rightarrow> (bool \<times> 'n Enumerator) option" where
  "enum_begin e =
     do {
       e1 \<leftarrow> reset_pos e;
       (_, x) \<leftarrow> vec_get (en_objs e1) (en_forward_pos e1);
       Some (\<not> (en_forward_pos e1 = 0 \<and> \<not> good_value x), e1)
     }"

definition set_obj :: "nat \<Rightarrow> EnumObject \<Rightarrow> ('n \<times> EnumObject) list \<Rightarrow> ('n \<times> EnumObject) list" where
  "set_obj i x xs = xs[i := (fst (xs ! i), x)]"

definition reset_after_backward_pos :: "'n Enumerator \<Rightarrow> 'n Enumerator" where
  "reset_after_backward_pos e =
     (let b = en_backward_pos e in
      e\<lparr>en_objs := take (b + 1) (en_objs e) @
                    map (\<lambda>(n, x). (n, clear_value x)) (drop (b + 1) (en_objs e)),
         en_forward_pos := b + 1\<rparr>)"

text \<open>\<open>roll_back_current_pos\<close> moves \<open>backward_pos_\<close> down until a counter can be advanced; the first
  argument is that position.\<close>

primrec roll_back :: "nat \<Rightarrow> 'n Enumerator \<Rightarrow> (bool \<times> 'n Enumerator) option" where
  "roll_back 0 e =
     do {
       (_, x) \<leftarrow> vec_get (en_objs e) 0;
       let (rv, x1) = EnumObject_next x;
       if \<not> rv then Some (False, e)
       else do {
         e1 \<leftarrow> reset_pos (reset_after_backward_pos
                 (e\<lparr>en_objs := set_obj 0 x1 (en_objs e), en_backward_pos := 0\<rparr>));
         Some (True, e1)
       }
     }"
| "roll_back (Suc i) e =
     do {
       (_, x) \<leftarrow> vec_get (en_objs e) (Suc i);
       let (rv, x1) = EnumObject_next x;
       if rv
       then do {
         e1 \<leftarrow> reset_pos (reset_after_backward_pos
                 (e\<lparr>en_objs := set_obj (Suc i) x1 (en_objs e), en_backward_pos := Suc i\<rparr>));
         Some (True, e1)
       }
       else roll_back i (e\<lparr>en_backward_pos := i\<rparr>)
     }"

definition roll_back_current_pos :: "'n Enumerator \<Rightarrow> (bool \<times> 'n Enumerator) option" where
  "roll_back_current_pos e = roll_back (en_backward_pos e) e"

definition reset_all_changed :: "'n Enumerator \<Rightarrow> 'n Enumerator" where
  "reset_all_changed e = e\<lparr>en_objs := map (\<lambda>(n, x). (n, reset_changed x)) (en_objs e)\<rparr>"

lemma length_reset_pos: "reset_pos e = Some e' \<Longrightarrow> length (en_objs e') = length (en_objs e) \<and>
    en_forward_pos e' = length (en_objs e) - 1"
  by (auto simp: reset_pos_def Let_def)

lemma length_reset_all_changed [simp]:
  "length (en_objs (reset_all_changed e)) = length (en_objs e)"
  "en_forward_pos (reset_all_changed e) = en_forward_pos e"
  "en_backward_pos (reset_all_changed e) = en_backward_pos e"
  by (simp_all add: reset_all_changed_def)

function enum_next :: "'n Enumerator \<Rightarrow> (bool \<times> 'n Enumerator) option" where
  "enum_next e =
     do {
       assert_opt (en_forward_pos e \<noteq> length (en_objs e));
       (_, x) \<leftarrow> vec_get (en_objs (reset_all_changed e)) (en_forward_pos e);
       let (rv, x1) = EnumObject_next x;
       if rv
       then Some (True, (reset_all_changed e)
              \<lparr>en_objs := set_obj (en_forward_pos e) x1 (en_objs (reset_all_changed e))\<rparr>)
       else if en_forward_pos e + 1 = length (en_objs e)
       then roll_back_current_pos ((reset_all_changed e)\<lparr>en_forward_pos := en_forward_pos e + 1\<rparr>)
       else do {
         e1 \<leftarrow> reset_pos ((reset_all_changed e)\<lparr>en_forward_pos := en_forward_pos e + 1\<rparr>);
         enum_next e1
       }
     }"
  by pat_completeness auto
termination
  by (relation "measure (\<lambda>e. length (en_objs e) - en_forward_pos e)")
    (auto dest!: length_reset_pos simp del: vec_get_inside)

declare enum_next.simps [simp del]

section \<open>An enumerator is a counter in mixed radix\<close>

text \<open>Bounds and current values, in the order of the names.\<close>

definition counters :: "'n Enumerator \<Rightarrow> (int \<times> int) list" where
  "counters e = map (\<lambda>(n, x). (eo_bound x, eo_current_value x)) (en_objs e)"

definition within :: "(int \<times> int) list \<Rightarrow> bool" where
  "within cs \<longleftrightarrow> (\<forall>(b, v) \<in> set cs. 0 \<le> v \<and> v < b)"

fun combos :: "(int \<times> int) list \<Rightarrow> int" where
  "combos [] = 1"
| "combos ((b, v) # cs) = b * combos cs"

fun rank :: "(int \<times> int) list \<Rightarrow> int" where
  "rank [] = 0"
| "rank ((b, v) # cs) = v * combos cs + rank cs"

lemma combos_append: "combos (xs @ ys) = combos xs * combos ys"
  by (induction xs rule: combos.induct) auto

lemma combos_bounds: "map fst xs = map fst ys \<Longrightarrow> combos xs = combos ys"
proof (induction xs arbitrary: ys)
  case (Cons x xs)
  then obtain y ys' where "ys = y # ys'" "fst x = fst y" "map fst xs = map fst ys'" by (cases ys) auto
  with Cons.IH [of ys'] show ?case by (cases x; cases y) simp
qed simp

lemma rank_append: "rank (xs @ ys) = rank xs * combos ys + rank ys"
  by (induction xs rule: rank.induct) (auto simp: combos_append algebra_simps)

lemma combos_pos: "within cs \<Longrightarrow> 0 < combos cs"
  by (induction cs rule: combos.induct) (auto simp: within_def)

lemma rank_bounds: "within cs \<Longrightarrow> 0 \<le> rank cs \<and> rank cs < combos cs"
proof (induction cs rule: rank.induct)
  case (2 b v cs)
  then have w: "0 \<le> v" "v < b" "within cs" by (auto simp: within_def)
  with 2 have r: "0 \<le> rank cs" "rank cs < combos cs" by auto
  have "v * combos cs + rank cs < (v + 1) * combos cs" using r by (simp add: algebra_simps)
  also have "\<dots> \<le> b * combos cs" using w r by (intro mult_right_mono) auto
  finally show ?case using w r by simp
qed simp

lemma rank_inj:
  "within xs \<Longrightarrow> within ys \<Longrightarrow> map fst xs = map fst ys \<Longrightarrow> rank xs = rank ys \<Longrightarrow> xs = ys"
proof (induction xs arbitrary: ys)
  case (Cons x xs)
  obtain b v where x: "x = (b, v)" by fastforce
  from Cons.prems(3) obtain u ys' where y: "ys = (b, u) # ys'" "map fst xs = map fst ys'"
    using x by (cases ys) auto
  from Cons.prems x y have w: "within xs" "within ys'" by (auto simp: within_def)
  note c = combos_bounds [OF y(2)]
  note r = rank_bounds [OF w(1)] rank_bounds [OF w(2)]
  from Cons.prems(4) x y c have e: "v * combos xs + rank xs = u * combos xs + rank ys'" by simp
  have "(v * combos xs + rank xs) div combos xs = v" "(u * combos xs + rank ys') div combos xs = u"
    using r c by (auto simp: div_add1_eq)
  with e have "v = u" by simp
  with e Cons.IH [OF w y(2)] x y show ?case by simp
qed simp

lemma rank_maxed:
  "(\<forall>(b, v) \<in> set cs. v + 1 = b) \<Longrightarrow> rank cs + 1 = combos cs"
proof (induction cs rule: rank.induct)
  case (2 b v cs)
  then have "rank cs + 1 = combos cs" and b: "b = v + 1" by auto
  then show ?case by (simp add: b algebra_simps)
qed simp

lemma rank_cleared: "rank (map (\<lambda>(b, v). (b, 0)) (cs :: (int \<times> int) list)) = 0"
  by (induction cs rule: rank.induct) auto

lemma rank_advance:
  assumes "\<forall>(b, v) \<in> set post. v + 1 = b"
  shows "rank (pre @ (b, v + 1) # map (\<lambda>(b, v). (b, 0)) post) = rank (pre @ (b, v) # post) + 1"
proof -
  have f: "map fst (map (\<lambda>(b, v). (b, 0 :: int)) post) = map fst post" by (simp add: split_beta comp_def)
  have c: "combos (map (\<lambda>(b, v). (b, 0)) post) = combos post" by (rule combos_bounds [OF f])
  with rank_maxed [OF assms] show ?thesis
    by (simp add: rank_append rank_cleared combos_append algebra_simps)
qed

text \<open>The state between two calls.\<close>

definition enum_ok :: "'n Enumerator \<Rightarrow> bool" where
  "enum_ok e \<longleftrightarrow> 2 \<le> length (en_objs e) \<and> en_forward_pos e = length (en_objs e) - 1 \<and>
     en_backward_pos e = length (en_objs e) - 2 \<and> within (counters e)"

text \<open>What a call of \<open>next\<close> promises: one more, or the end.\<close>

definition counted :: "'n Enumerator \<Rightarrow> bool \<times> 'n Enumerator \<Rightarrow> bool" where
  "counted e re \<longleftrightarrow>
     (if fst re
      then enum_ok (snd re) \<and> rank (counters (snd re)) = rank (counters e) + 1 \<and>
           map fst (counters (snd re)) = map fst (counters e)
      else rank (counters e) + 1 = combos (counters e))"

lemma length_counters [simp]: "length (counters e) = length (en_objs e)"
  by (simp add: counters_def)

lemma counters_nth:
  "i < length (en_objs e) \<Longrightarrow>
     counters e ! i = (eo_bound (snd (en_objs e ! i)), eo_current_value (snd (en_objs e ! i)))"
  by (simp add: counters_def split_beta)

lemma counters_reset_all_changed [simp]: "counters (reset_all_changed e) = counters e"
  by (simp add: counters_def reset_all_changed_def split_beta reset_changed_def comp_def)

lemma counters_forward [simp]:
  "counters (e\<lparr>en_forward_pos := k\<rparr>) = counters e" "counters (e\<lparr>en_backward_pos := k\<rparr>) = counters e"
  by (simp_all add: counters_def)

lemma next_counter:
  "EnumObject_next x = (rv, x1) \<Longrightarrow> rv = (eo_current_value x + 1 < eo_bound x) \<and>
     (rv \<longrightarrow> eo_bound x1 = eo_bound x \<and> eo_current_value x1 = eo_current_value x + 1)"
  by (auto simp: EnumObject_next_def split: if_splits)

lemma within_nth: "within cs \<longleftrightarrow> (\<forall>i < length cs. 0 \<le> snd (cs ! i) \<and> snd (cs ! i) < fst (cs ! i))"
  by (auto simp: within_def all_set_conv_all_nth split_beta)

text \<open>The common step: counter \<open>i\<close> advances, everything after it restarts.\<close>

lemma advance_step:
  assumes i: "i < length (en_objs e)" and n: "2 \<le> length (en_objs e)" and w: "within (counters e)"
    and nx: "EnumObject_next (snd (en_objs e ! i)) = (True, x1)"
    and mx: "\<forall>(b, v) \<in> set (drop (Suc i) (counters e)). v + 1 = b"
  shows "\<exists>e1. reset_pos (reset_after_backward_pos
      (e\<lparr>en_objs := set_obj i x1 (en_objs e), en_backward_pos := i\<rparr>)) = Some e1 \<and> counted e (True, e1)"
proof -
  let ?e = "reset_after_backward_pos (e\<lparr>en_objs := set_obj i x1 (en_objs e), en_backward_pos := i\<rparr>)"
  let ?c = "counters e"
  obtain b v where bv: "?c ! i = (b, v)" by fastforce
  with counters_nth [OF i] next_counter [OF nx]
  have x1: "eo_bound x1 = b" "eo_current_value x1 = v + 1" and lt: "v + 1 < b" by auto
  have l: "length (en_objs ?e) = length (en_objs e)" using i
    by (simp add: reset_after_backward_pos_def set_obj_def Let_def)
  have c: "counters ?e = take i ?c @ (b, v + 1) # map (\<lambda>(b, v). (b, 0)) (drop (Suc i) ?c)"
    using i x1 by (simp add: reset_after_backward_pos_def set_obj_def Let_def counters_def
        take_Suc_conv_app_nth take_map drop_map split_beta clear_value_def comp_def)
  have split: "?c = take i ?c @ (b, v) # drop (Suc i) ?c" using i bv id_take_nth_drop [of i ?c] by simp
  have r: "rank (counters ?e) = rank ?c + 1"
    unfolding c using rank_advance [OF mx, of "take i ?c" b v] split by simp
  have w1: "within (counters ?e)"
  proof -
    from w split have "within (take i ?c @ (b, v) # drop (Suc i) ?c)" by simp
    then show ?thesis unfolding c within_def using lt by (force simp: split_beta)
  qed
  have f: "map fst (counters ?e) = map fst ?c"
    unfolding c by (subst (3) split) (simp add: split_beta comp_def)
  let ?e1 = "?e\<lparr>en_forward_pos := length (en_objs e) - 1, en_backward_pos := length (en_objs e) - 2\<rparr>"
  have "reset_pos ?e = Some ?e1" using n l by (simp add: reset_pos_def Let_def)
  moreover have "counted e (True, ?e1)" using n l r w1 f by (simp add: counted_def enum_ok_def)
  ultimately show ?thesis by blast
qed

lemma roll_back_counted:
  assumes "i < length (en_objs e)" "2 \<le> length (en_objs e)" "within (counters e)"
    "\<forall>(b, v) \<in> set (drop (Suc i) (counters e)). v + 1 = b"
  shows "\<exists>re. roll_back i e = Some re \<and> counted e re"
  using assms
proof (induction i arbitrary: e)
  case 0
  obtain nm x where ob: "en_objs e ! 0 = (nm, x)" by fastforce
  obtain rv x1 where nx: "EnumObject_next x = (rv, x1)" by fastforce
  show ?case
  proof (cases rv)
    case True
    with advance_step [OF 0(1-3), of x1] 0(4) nx ob 0(1) show ?thesis by auto
  next
    case False
    from 0(1) have cs: "counters e = counters e ! 0 # drop (Suc 0) (counters e)"
      by (metis Cons_nth_drop_Suc drop0 length_counters)
    from counters_nth [OF 0(1)] ob False next_counter [OF nx] 0(1,3)
    have "snd (counters e ! 0) + 1 = fst (counters e ! 0)"
      by (auto simp: within_nth dest!: spec [of _ 0])
    then have "rank (counters e) + 1 = combos (counters e)"
      using 0(4) by (intro rank_maxed, subst cs) auto
    with False nx ob 0(1) show ?thesis by (simp add: counted_def)
  qed
next
  case (Suc i)
  obtain nm x where ob: "en_objs e ! Suc i = (nm, x)" by fastforce
  obtain rv x1 where nx: "EnumObject_next x = (rv, x1)" by fastforce
  show ?case
  proof (cases rv)
    case True
    with advance_step [OF Suc.prems(1-3), of x1] Suc.prems(4) nx ob Suc.prems(1) show ?thesis by auto
  next
    case False
    let ?e = "e\<lparr>en_backward_pos := i\<rparr>"
    from counters_nth [OF Suc.prems(1)] ob False next_counter [OF nx] Suc.prems(1,3)
    have "snd (counters e ! Suc i) + 1 = fst (counters e ! Suc i)"
      by (auto simp: within_nth dest!: spec [of _ "Suc i"])
    moreover have "drop (Suc i) (counters e) = counters e ! Suc i # drop (Suc (Suc i)) (counters e)"
      using Suc.prems(1) by (simp add: Cons_nth_drop_Suc)
    ultimately have "\<forall>(b, v) \<in> set (drop (Suc i) (counters ?e)). v + 1 = b"
      using Suc.prems(4) by auto
    with Suc.IH [of ?e] Suc.prems obtain re where "roll_back i ?e = Some re" "counted ?e re" by auto
    with False nx ob Suc.prems(1) show ?thesis by (auto simp: counted_def split: if_splits)
  qed
qed

lemma enum_next_counted:
  assumes "enum_ok e"
  shows "\<exists>re. enum_next e = Some re \<and> counted e re"
proof -
  let ?n = "length (en_objs e)"
  let ?e = "reset_all_changed e"
  from assms have n: "2 \<le> ?n" "en_forward_pos e = ?n - 1" "en_backward_pos e = ?n - 2" "within (counters e)"
    by (auto simp: enum_ok_def)
  obtain nm x where ob: "en_objs ?e ! (?n - 1) = (nm, x)" by fastforce
  obtain rv x1 where nx: "EnumObject_next x = (rv, x1)" by fastforce
  have last: "counters e ! (?n - 1) = (eo_bound x, eo_current_value x)"
    using counters_nth [of "?n - 1" ?e] n ob by simp
  show ?thesis
  proof (cases rv)
    case True
    let ?e1 = "?e\<lparr>en_objs := set_obj (?n - 1) x1 (en_objs ?e)\<rparr>"
    have c: "counters ?e1 = take (?n - 1) (counters e) @ [(eo_bound x, eo_current_value x + 1)]"
    proof -
      have "counters ?e1 = (counters ?e)[?n - 1 := (eo_bound x1, eo_current_value x1)]"
        by (simp add: counters_def set_obj_def map_update)
      then show ?thesis using next_counter [OF nx] True n(1)
        by (simp add: upd_conv_take_nth_drop)
    qed
    have split: "counters e = take (?n - 1) (counters e) @ [(eo_bound x, eo_current_value x)]"
      using n(1) last id_take_nth_drop [of "?n - 1" "counters e"] by simp
    have r: "rank (counters ?e1) = rank (counters e) + 1"
      unfolding c by (subst (2) split) (simp add: rank_append)
    have w: "within (counters ?e1)"
    proof -
      from n(4) split have "within (take (?n - 1) (counters e) @ [(eo_bound x, eo_current_value x)])" by simp
      then show ?thesis unfolding c within_def using next_counter [OF nx] True by auto
    qed
    have f: "map fst (counters ?e1) = map fst (counters e)"
      unfolding c by (subst (2) split) simp
    have "enum_next e = Some (True, ?e1)" using n ob nx True
      by (simp add: enum_next.simps [of e])
    moreover have "counted e (True, ?e1)"
      using r w f n by (simp add: counted_def enum_ok_def set_obj_def)
    ultimately show ?thesis by blast
  next
    case False
    let ?e2 = "?e\<lparr>en_forward_pos := en_forward_pos e + 1\<rparr>"
    from n(4) last n(1) have "0 \<le> eo_current_value x \<and> eo_current_value x < eo_bound x"
      by (auto simp: within_nth dest!: spec [of _ "?n - 1"])
    with False next_counter [OF nx] have mx: "eo_current_value x + 1 = eo_bound x" by auto
    have d: "drop (Suc (?n - 2)) (counters e) = [counters e ! (?n - 1)]"
    proof -
      have "Suc (?n - 2) = ?n - 1" using n(1) by simp
      then show ?thesis using n(1) Cons_nth_drop_Suc [of "?n - 1" "counters e"] by simp
    qed
    have rb: "\<exists>re. roll_back (?n - 2) ?e2 = Some re \<and> counted ?e2 re"
      by (rule roll_back_counted) (use n d last mx in auto)
    have "en_forward_pos e + 1 = ?n" "en_forward_pos e \<noteq> ?n" using n(1,2) by simp_all
    moreover have "vec_get (en_objs ?e) (en_forward_pos e) = Some (nm, x)" using n(1,2) ob by simp
    ultimately have "enum_next e = roll_back_current_pos ?e2" using nx False
      by (simp add: enum_next.simps [of e] del: vec_get_Some)
    then have nx2: "enum_next e = roll_back (?n - 2) ?e2" using n(3)
      by (simp add: roll_back_current_pos_def)
    from rb obtain re where re: "roll_back (?n - 2) ?e2 = Some re" "counted ?e2 re" by blast
    have "counters ?e2 = counters e" by simp
    then have "counted e re" using re(2) unfolding counted_def by (simp split: if_splits)
    with nx2 re(1) show ?thesis by simp
  qed
qed

section \<open>The loop over an enumerator\<close>

text \<open>\<open>for (i = e.begin(); i != e.end(); i = i->next())\<close>, collecting the combinations seen.\<close>

partial_function (option) enum_rest :: "'n Enumerator \<Rightarrow> (int \<times> int) list list option" where
  "enum_rest e =
     do {
       (more, e1) \<leftarrow> enum_next e;
       if more then do { cs \<leftarrow> enum_rest e1; Some (counters e1 # cs) } else Some []
     }"

declare enum_rest.simps [code]

definition enum_all :: "'n Enumerator \<Rightarrow> (int \<times> int) list list option" where
  "enum_all e =
     do {
       (more, e1) \<leftarrow> enum_begin e;
       if more then do { cs \<leftarrow> enum_rest e1; Some (counters e1 # cs) } else Some []
     }"

lemma enum_rest_ranks:
  assumes "enum_ok e"
  shows "\<exists>cs. enum_rest e = Some cs \<and> map rank cs = [rank (counters e) + 1..combos (counters e) - 1] \<and>
     (\<forall>c \<in> set cs. within c \<and> map fst c = map fst (counters e))"
  using assms
proof (induction "nat (combos (counters e) - rank (counters e))" arbitrary: e rule: less_induct)
  case less
  from less.prems have b: "0 \<le> rank (counters e) \<and> rank (counters e) < combos (counters e)"
    by (intro rank_bounds) (simp add: enum_ok_def)
  from enum_next_counted [OF less.prems] obtain more e1 where
    nx: "enum_next e = Some (more, e1)" "counted e (more, e1)" by auto
  show ?case
  proof (cases more)
    case False
    with nx show ?thesis by (simp add: enum_rest.simps [of e] counted_def)
  next
    case True
    with nx have e1: "enum_ok e1" "rank (counters e1) = rank (counters e) + 1"
      "map fst (counters e1) = map fst (counters e)" by (simp_all add: counted_def)
    note c1 = combos_bounds [OF e1(3)]
    have b1: "rank (counters e1) < combos (counters e1)"
      using rank_bounds e1(1) by (auto simp: enum_ok_def)
    have "nat (combos (counters e1) - rank (counters e1)) < nat (combos (counters e) - rank (counters e))"
      using b c1 e1(2) by simp
    from less.hyps [OF this e1(1)] obtain cs where
      cs: "enum_rest e1 = Some cs" "map rank cs = [rank (counters e1) + 1..combos (counters e1) - 1]"
      "\<forall>c \<in> set cs. within c \<and> map fst c = map fst (counters e1)" by blast
    have "map rank (counters e1 # cs) = [rank (counters e) + 1..combos (counters e) - 1]"
      using cs(2) e1(2) c1 b1 by (simp add: upto_rec1 [of "rank (counters e) + 1"])
    moreover have "enum_rest e = Some (counters e1 # cs)"
      using nx True cs(1) by (simp add: enum_rest.simps [of e])
    ultimately show ?thesis using cs(3) e1 by (auto simp: enum_ok_def)
  qed
qed

text \<open>A freshly built enumerator: all counters at 0.\<close>

definition fresh_enum :: "'n Enumerator \<Rightarrow> bool" where
  "fresh_enum e \<longleftrightarrow> (\<forall>(n, x) \<in> set (en_objs e). 0 < eo_bound x \<and> eo_current_value x = 0)"

lemma fresh_insert: "insert_elem name x e = Some e' \<Longrightarrow> fresh_enum e \<Longrightarrow> 0 < eo_bound x \<Longrightarrow>
    eo_current_value x = 0 \<Longrightarrow>
    fresh_enum e' \<and> length (en_objs e') = Suc (length (en_objs e))"
  by (auto simp: insert_elem_def fresh_enum_def set_insort_key)

lemma EnumObject_new_fresh:
  "EnumObject_new b i v = Some x \<Longrightarrow> 0 < eo_bound x \<and> eo_current_value x = 0"
  by (auto simp: EnumObject_new_def)

lemma fresh_new [simp]: "fresh_enum Enumerator_new"
  by (simp add: fresh_enum_def Enumerator_new_def)

lemma fresh_add_elem: "add_elem name b e = Some e' \<Longrightarrow> fresh_enum e \<Longrightarrow> fresh_enum e'"
  by (auto simp: add_elem_def bind_eq_Some_conv dest!: EnumObject_new_fresh dest: fresh_insert)

lemma fresh_add_bool_elem: "add_bool_elem name v e = Some e' \<Longrightarrow> fresh_enum e \<Longrightarrow> fresh_enum e'"
  by (auto simp: add_bool_elem_def bind_eq_Some_conv split: if_splits
      dest!: EnumObject_new_fresh dest: fresh_insert)

lemma within_fresh: "fresh_enum e \<Longrightarrow> within (counters e)"
  by (auto simp: fresh_enum_def within_def counters_def)

lemma rank_fresh: "fresh_enum e \<Longrightarrow> rank (counters e) = 0"
proof -
  assume "fresh_enum e"
  then have "counters e = map (\<lambda>(b, v). (b, 0)) (counters e)"
    by (auto simp: fresh_enum_def counters_def)
  then show ?thesis by (metis rank_cleared)
qed

text \<open>
  C8: the loop over a freshly built enumerator of two or more elements ends, and it visits every
  combination of values below the bounds exactly once and no other, in the order of an odometer.
\<close>

theorem enumerator_visits_all:
  assumes "fresh_enum e" "2 \<le> length (en_objs e)"
  shows "\<exists>cs. enum_all e = Some cs \<and> distinct cs \<and> sorted (map rank cs) \<and>
     set cs = {c. within c \<and> map fst c = map fst (counters e)}"
proof -
  let ?n = "length (en_objs e)"
  let ?e = "e\<lparr>en_forward_pos := ?n - 1, en_backward_pos := ?n - 2\<rparr>"
  note w = within_fresh [OF assms(1)] and r = rank_fresh [OF assms(1)]
  from assms(2) have ok: "enum_ok ?e" using w by (simp add: enum_ok_def)
  have b: "enum_begin e = Some (True, ?e)"
    using assms(2) by (auto simp: enum_begin_def reset_pos_def Let_def split: prod.splits)
  from enum_rest_ranks [OF ok] obtain cs where
    cs: "enum_rest ?e = Some cs" "map rank cs = [1..combos (counters e) - 1]"
      "\<forall>c \<in> set cs. within c \<and> map fst c = map fst (counters e)" using r by auto
  let ?cs = "counters e # cs"
  have p: "0 < combos (counters e)" using combos_pos [OF w] .
  have ranks: "map rank ?cs = [0..combos (counters e) - 1]"
    using cs(2) r p by (simp add: upto_rec1)
  have a: "\<forall>c \<in> set ?cs. within c \<and> map fst c = map fst (counters e)" using cs(3) w by simp
  have "c \<in> set ?cs" if c: "within c" "map fst c = map fst (counters e)" for c
  proof -
    from rank_bounds [OF c(1)] combos_bounds [OF c(2)] have "rank c \<in> set (map rank ?cs)"
      unfolding ranks by auto
    then have "\<exists>d \<in> set ?cs. rank d = rank c" by (metis imageE list.set_map)
    then obtain d where d: "d \<in> set ?cs" "rank d = rank c" by blast
    with a c have "d = c" by (intro rank_inj) auto
    with d show ?thesis by simp
  qed
  with a have "set ?cs = {c. within c \<and> map fst c = map fst (counters e)}" by blast
  moreover have "enum_all e = Some ?cs" using b cs(1) by (simp add: enum_all_def)
  moreover have "distinct (map rank ?cs)" "sorted (map rank ?cs)" unfolding ranks by simp_all
  moreover from this(1) have "distinct ?cs" by (rule distinct_map [THEN iffD1, THEN conjunct1])
  ultimately show ?thesis by blast
qed

theorem enumerator_visits_all_witness:
  "\<exists>e cs. add_bool_elem 1 50 (Enumerator_new :: nat Enumerator) = Some e \<and> fresh_enum e \<and>
     (\<exists>e2. add_elem 2 3 e = Some e2 \<and> enum_all e2 = Some cs \<and> distinct cs)"
proof -
  define e :: "nat Enumerator" where "e = the (add_bool_elem 1 50 Enumerator_new)"
  define e2 where "e2 = the (add_elem 2 3 e)"
  have 1: "add_bool_elem 1 50 (Enumerator_new :: nat Enumerator) = Some e"
    by (simp add: e_def add_bool_elem_def EnumObject_new_def insert_elem_def Enumerator_new_def)
  have 2: "add_elem 2 3 e = Some e2"
    by (simp add: e2_def e_def add_bool_elem_def add_elem_def EnumObject_new_def insert_elem_def
        Enumerator_new_def)
  have f: "fresh_enum e" "fresh_enum e2" using fresh_add_bool_elem [OF 1] fresh_add_elem [OF 2] by simp_all
  have "length (en_objs e2) = 2"
    by (simp add: e2_def e_def add_bool_elem_def add_elem_def EnumObject_new_def insert_elem_def
        Enumerator_new_def)
  with enumerator_visits_all [OF f(2)] 1 2 f show ?thesis by auto
qed

end
