(* ===== verification/Enums.thy ===== *)
theory Enums
  imports PartialExpander
begin

text \<open>
  Enumerations of the program whose numeric values matter: \<open>eSimpleType\<close>, \<open>eTypeDesc\<close>
  (\<open>Type.h\<close>), \<open>eUnaryOps\<close>, \<open>eBinaryOps\<close> (\<open>FunctionInvocation.h\<close>), \<open>SafeOpSize\<close>
  (\<open>SafeOpFlags.h\<close>), \<open>eAssignOps\<close> (\<open>StatementAssign.h\<close>), \<open>eTermType\<close>
  (\<open>Expression.h\<close>), \<open>eStatementType\<close> (\<open>Statement.h\<close>) and \<open>ProbName\<close> (\<open>Probabilities.h\<close>).  Each
  is a data type with its constructors in the order of the source and a function giving the C value;
  \<open>ProbName\<close>, with its ninety members, is the C value itself.
\<close>

datatype eTypeDesc =
  eSimple | ePointer | eUnion | eVector | eStruct | MAX_TYPE_DESC

primrec type_desc_num :: "eTypeDesc \<Rightarrow> nat" where
  "type_desc_num eSimple = 0"
| "type_desc_num ePointer = 1"
| "type_desc_num eUnion = 2"
| "type_desc_num eVector = 3"
| "type_desc_num eStruct = 4"
| "type_desc_num MAX_TYPE_DESC = 5"

lemma type_desc_num_inj [simp]: "type_desc_num x = type_desc_num y \<longleftrightarrow> x = y"
  by (cases x; cases y) simp_all

datatype eSimpleType =
  eVoid | eChar | eInt | eShort | eLong | eLongLong | eUChar | eUInt | eUShort | eULong
     | eFloat | eULongLong | eInt128 | eUInt128 | MAX_SIMPLE_TYPES

primrec simple_type_num :: "eSimpleType \<Rightarrow> nat" where
  "simple_type_num eVoid = 0"
| "simple_type_num eChar = 1"
| "simple_type_num eInt = 2"
| "simple_type_num eShort = 3"
| "simple_type_num eLong = 4"
| "simple_type_num eLongLong = 5"
| "simple_type_num eUChar = 6"
| "simple_type_num eUInt = 7"
| "simple_type_num eUShort = 8"
| "simple_type_num eULong = 9"
| "simple_type_num eFloat = 10"
| "simple_type_num eULongLong = 11"
| "simple_type_num eInt128 = 12"
| "simple_type_num eUInt128 = 13"
| "simple_type_num MAX_SIMPLE_TYPES = 14"

lemma simple_type_num_inj [simp]: "simple_type_num x = simple_type_num y \<longleftrightarrow> x = y"
  by (cases x; cases y) simp_all

datatype eUnaryOps =
  ePlus | eMinus | eNot | eBitNot | MAX_UNARY_OP

primrec unary_op_num :: "eUnaryOps \<Rightarrow> nat" where
  "unary_op_num ePlus = 0"
| "unary_op_num eMinus = 1"
| "unary_op_num eNot = 2"
| "unary_op_num eBitNot = 3"
| "unary_op_num MAX_UNARY_OP = 4"

lemma unary_op_num_inj [simp]: "unary_op_num x = unary_op_num y \<longleftrightarrow> x = y"
  by (cases x; cases y) simp_all

datatype eBinaryOps =
  eAdd | eSub | eMul | eDiv | eMod | eCmpGt | eCmpLt | eCmpGe | eCmpLe | eCmpEq | eCmpNe
     | eAnd | eOr | eBitXor | eBitAnd | eBitOr | eRShift | eLShift | MAX_BINARY_OP

primrec binary_op_num :: "eBinaryOps \<Rightarrow> nat" where
  "binary_op_num eAdd = 0"
| "binary_op_num eSub = 1"
| "binary_op_num eMul = 2"
| "binary_op_num eDiv = 3"
| "binary_op_num eMod = 4"
| "binary_op_num eCmpGt = 5"
| "binary_op_num eCmpLt = 6"
| "binary_op_num eCmpGe = 7"
| "binary_op_num eCmpLe = 8"
| "binary_op_num eCmpEq = 9"
| "binary_op_num eCmpNe = 10"
| "binary_op_num eAnd = 11"
| "binary_op_num eOr = 12"
| "binary_op_num eBitXor = 13"
| "binary_op_num eBitAnd = 14"
| "binary_op_num eBitOr = 15"
| "binary_op_num eRShift = 16"
| "binary_op_num eLShift = 17"
| "binary_op_num MAX_BINARY_OP = 18"

lemma binary_op_num_inj [simp]: "binary_op_num x = binary_op_num y \<longleftrightarrow> x = y"
  by (cases x; cases y) simp_all

datatype SafeOpSize =
  sInt8 | sInt16 | sInt32 | sInt64 | sFloat | MAX_SAFE_OP_SIZE

primrec safe_op_size_num :: "SafeOpSize \<Rightarrow> nat" where
  "safe_op_size_num sInt8 = 0"
| "safe_op_size_num sInt16 = 1"
| "safe_op_size_num sInt32 = 2"
| "safe_op_size_num sInt64 = 3"
| "safe_op_size_num sFloat = 4"
| "safe_op_size_num MAX_SAFE_OP_SIZE = 5"

lemma safe_op_size_num_inj [simp]: "safe_op_size_num x = safe_op_size_num y \<longleftrightarrow> x = y"
  by (cases x; cases y) simp_all

datatype eAssignOps =
  eSimpleAssign | eMulAssign | eDivAssign | eRemAssign | eAddAssign | eSubAssign
     | eLShiftAssign | eRShiftAssign | eBitAndAssign | eBitXorAssign | eBitOrAssign
     | ePreIncr | ePreDecr | ePostIncr | ePostDecr | MAX_ASSIGN_OP

primrec assign_op_num :: "eAssignOps \<Rightarrow> nat" where
  "assign_op_num eSimpleAssign = 0"
| "assign_op_num eMulAssign = 1"
| "assign_op_num eDivAssign = 2"
| "assign_op_num eRemAssign = 3"
| "assign_op_num eAddAssign = 4"
| "assign_op_num eSubAssign = 5"
| "assign_op_num eLShiftAssign = 6"
| "assign_op_num eRShiftAssign = 7"
| "assign_op_num eBitAndAssign = 8"
| "assign_op_num eBitXorAssign = 9"
| "assign_op_num eBitOrAssign = 10"
| "assign_op_num ePreIncr = 11"
| "assign_op_num ePreDecr = 12"
| "assign_op_num ePostIncr = 13"
| "assign_op_num ePostDecr = 14"
| "assign_op_num MAX_ASSIGN_OP = 15"

lemma assign_op_num_inj [simp]: "assign_op_num x = assign_op_num y \<longleftrightarrow> x = y"
  by (cases x; cases y) simp_all

datatype eTermType =
  eConstant | eVariable | eFunction | eAssignment | eHIPExpression | eCommaExpr | eLhs

primrec term_type_num :: "eTermType \<Rightarrow> nat" where
  "term_type_num eConstant = 0"
| "term_type_num eVariable = 1"
| "term_type_num eFunction = 2"
| "term_type_num eAssignment = 3"
| "term_type_num eHIPExpression = 4"
| "term_type_num eCommaExpr = 5"
| "term_type_num eLhs = 6"

lemma term_type_num_inj [simp]: "term_type_num x = term_type_num y \<longleftrightarrow> x = y"
  by (cases x; cases y) simp_all

primrec statement_num :: "eStatementType \<Rightarrow> nat" where
  "statement_num eAssign = 0"
| "statement_num eBlock = 1"
| "statement_num eFor = 2"
| "statement_num eIfElse = 3"
| "statement_num eInvoke = 4"
| "statement_num eReturn = 5"
| "statement_num eContinue = 6"
| "statement_num eBreak = 7"
| "statement_num eGoto = 8"
| "statement_num eHIPStatement = 9"
| "statement_num eArrayOp = 10"
| "statement_num MAX_STATEMENT_TYPE = 11"

lemma statement_num_inj [simp]: "statement_num x = statement_num y \<longleftrightarrow> x = y"
  by (cases x; cases y) simp_all

type_synonym ProbName = nat

definition pMoreStructUnionProb :: ProbName where "pMoreStructUnionProb = 0"
definition pBitFieldsCreationProb :: ProbName where "pBitFieldsCreationProb = 1"
definition pBitFieldsSignedProb :: ProbName where "pBitFieldsSignedProb = 2"
definition pBitFieldInNormalStructProb :: ProbName where "pBitFieldInNormalStructProb = 3"
definition pScalarFieldInFullBitFieldsProb :: ProbName where "pScalarFieldInFullBitFieldsProb = 4"
definition pExhaustiveBitFieldsProb :: ProbName where "pExhaustiveBitFieldsProb = 5"
definition pSafeOpsSignedProb :: ProbName where "pSafeOpsSignedProb = 6"
definition pSelectDerefPointerProb :: ProbName where "pSelectDerefPointerProb = 7"
definition pRegularVolatileProb :: ProbName where "pRegularVolatileProb = 8"
definition pRegularConstProb :: ProbName where "pRegularConstProb = 9"
definition pStricterConstProb :: ProbName where "pStricterConstProb = 10"
definition pLooserConstProb :: ProbName where "pLooserConstProb = 11"
definition pFieldVolatileProb :: ProbName where "pFieldVolatileProb = 12"
definition pFieldConstProb :: ProbName where "pFieldConstProb = 13"
definition pStdUnaryFuncProb :: ProbName where "pStdUnaryFuncProb = 14"
definition pShiftByNonConstantProb :: ProbName where "pShiftByNonConstantProb = 15"
definition pPointerAsLTypeProb :: ProbName where "pPointerAsLTypeProb = 16"
definition pStructAsLTypeProb :: ProbName where "pStructAsLTypeProb = 17"
definition pUnionAsLTypeProb :: ProbName where "pUnionAsLTypeProb = 18"
definition pFloatAsLTypeProb :: ProbName where "pFloatAsLTypeProb = 19"
definition pNewArrayVariableProb :: ProbName where "pNewArrayVariableProb = 20"
definition pAccessOnceVariableProb :: ProbName where "pAccessOnceVariableProb = 21"
definition pInlineFunctionProb :: ProbName where "pInlineFunctionProb = 22"
definition pBuiltinFunctionProb :: ProbName where "pBuiltinFunctionProb = 23"
definition pArrayOOBProb :: ProbName where "pArrayOOBProb = 24"
definition pStatementProb :: ProbName where "pStatementProb = 25"
definition pAssignProb :: ProbName where "pAssignProb = 26"
definition pBlockProb :: ProbName where "pBlockProb = 27"
definition pForProb :: ProbName where "pForProb = 28"
definition pIfElseProb :: ProbName where "pIfElseProb = 29"
definition pInvokeProb :: ProbName where "pInvokeProb = 30"
definition pReturnProb :: ProbName where "pReturnProb = 31"
definition pContinueProb :: ProbName where "pContinueProb = 32"
definition pBreakProb :: ProbName where "pBreakProb = 33"
definition pGotoProb :: ProbName where "pGotoProb = 34"
definition pArrayOpProb :: ProbName where "pArrayOpProb = 35"
definition pHIPStatementProb :: ProbName where "pHIPStatementProb = 36"
definition pAssignOpsProb :: ProbName where "pAssignOpsProb = 37"
definition pSimpleAssignProb :: ProbName where "pSimpleAssignProb = 38"
definition pMulAssignProb :: ProbName where "pMulAssignProb = 39"
definition pDivAssignProb :: ProbName where "pDivAssignProb = 40"
definition pRemAssignProb :: ProbName where "pRemAssignProb = 41"
definition pAddAssignProb :: ProbName where "pAddAssignProb = 42"
definition pSubAssignProb :: ProbName where "pSubAssignProb = 43"
definition pLShiftAssignProb :: ProbName where "pLShiftAssignProb = 44"
definition pRShiftAssignProb :: ProbName where "pRShiftAssignProb = 45"
definition pBitAndAssignProb :: ProbName where "pBitAndAssignProb = 46"
definition pBitXorAssignProb :: ProbName where "pBitXorAssignProb = 47"
definition pBitOrAssignProb :: ProbName where "pBitOrAssignProb = 48"
definition pPreIncrProb :: ProbName where "pPreIncrProb = 49"
definition pPreDecrProb :: ProbName where "pPreDecrProb = 50"
definition pPostIncrProb :: ProbName where "pPostIncrProb = 51"
definition pPostDecrProb :: ProbName where "pPostDecrProb = 52"
definition pUnaryOpsProb :: ProbName where "pUnaryOpsProb = 53"
definition pPlusProb :: ProbName where "pPlusProb = 54"
definition pMinusProb :: ProbName where "pMinusProb = 55"
definition pNotProb :: ProbName where "pNotProb = 56"
definition pBitNotProb :: ProbName where "pBitNotProb = 57"
definition pBinaryOpsProb :: ProbName where "pBinaryOpsProb = 58"
definition pAddProb :: ProbName where "pAddProb = 59"
definition pSubProb :: ProbName where "pSubProb = 60"
definition pMulProb :: ProbName where "pMulProb = 61"
definition pDivProb :: ProbName where "pDivProb = 62"
definition pModProb :: ProbName where "pModProb = 63"
definition pCmpGtProb :: ProbName where "pCmpGtProb = 64"
definition pCmpLtProb :: ProbName where "pCmpLtProb = 65"
definition pCmpGeProb :: ProbName where "pCmpGeProb = 66"
definition pCmpLeProb :: ProbName where "pCmpLeProb = 67"
definition pCmpEqProb :: ProbName where "pCmpEqProb = 68"
definition pCmpNeProb :: ProbName where "pCmpNeProb = 69"
definition pAndProb :: ProbName where "pAndProb = 70"
definition pOrProb :: ProbName where "pOrProb = 71"
definition pBitXorProb :: ProbName where "pBitXorProb = 72"
definition pBitAndProb :: ProbName where "pBitAndProb = 73"
definition pBitOrProb :: ProbName where "pBitOrProb = 74"
definition pRShiftProb :: ProbName where "pRShiftProb = 75"
definition pLShiftProb :: ProbName where "pLShiftProb = 76"
definition pSimpleTypesProb :: ProbName where "pSimpleTypesProb = 77"
definition pVoidProb :: ProbName where "pVoidProb = 78"
definition pCharProb :: ProbName where "pCharProb = 79"
definition pIntProb :: ProbName where "pIntProb = 80"
definition pShortProb :: ProbName where "pShortProb = 81"
definition pLongProb :: ProbName where "pLongProb = 82"
definition pLongLongProb :: ProbName where "pLongLongProb = 83"
definition pUCharProb :: ProbName where "pUCharProb = 84"
definition pUIntProb :: ProbName where "pUIntProb = 85"
definition pUShortProb :: ProbName where "pUShortProb = 86"
definition pULongProb :: ProbName where "pULongProb = 87"
definition pULongLongProb :: ProbName where "pULongLongProb = 88"
definition pFloatProb :: ProbName where "pFloatProb = 89"
definition pInt128Prob :: ProbName where "pInt128Prob = 90"
definition pUInt128Prob :: ProbName where "pUInt128Prob = 91"
definition pSafeOpsSizeProb :: ProbName where "pSafeOpsSizeProb = 92"
definition pInt8Prob :: ProbName where "pInt8Prob = 93"
definition pInt16Prob :: ProbName where "pInt16Prob = 94"
definition pInt32Prob :: ProbName where "pInt32Prob = 95"
definition pInt64Prob :: ProbName where "pInt64Prob = 96"
definition pFuncAttrProb :: ProbName where "pFuncAttrProb = 97"
definition pTypeAttrProb :: ProbName where "pTypeAttrProb = 98"
definition pLabelAttrProb :: ProbName where "pLabelAttrProb = 99"
definition pVarAttrProb :: ProbName where "pVarAttrProb = 100"
definition pBinaryConstProb :: ProbName where "pBinaryConstProb = 101"

lemmas prob_names =
  pMoreStructUnionProb_def pBitFieldsCreationProb_def pBitFieldsSignedProb_def
  pBitFieldInNormalStructProb_def pScalarFieldInFullBitFieldsProb_def
  pExhaustiveBitFieldsProb_def pSafeOpsSignedProb_def pSelectDerefPointerProb_def
  pRegularVolatileProb_def pRegularConstProb_def pStricterConstProb_def pLooserConstProb_def
  pFieldVolatileProb_def pFieldConstProb_def pStdUnaryFuncProb_def pShiftByNonConstantProb_def
  pPointerAsLTypeProb_def pStructAsLTypeProb_def pUnionAsLTypeProb_def pFloatAsLTypeProb_def
  pNewArrayVariableProb_def pAccessOnceVariableProb_def pInlineFunctionProb_def
  pBuiltinFunctionProb_def pArrayOOBProb_def pStatementProb_def pAssignProb_def pBlockProb_def
  pForProb_def pIfElseProb_def pInvokeProb_def pReturnProb_def pContinueProb_def
  pBreakProb_def pGotoProb_def pArrayOpProb_def pHIPStatementProb_def pAssignOpsProb_def
  pSimpleAssignProb_def pMulAssignProb_def pDivAssignProb_def pRemAssignProb_def
  pAddAssignProb_def pSubAssignProb_def pLShiftAssignProb_def pRShiftAssignProb_def
  pBitAndAssignProb_def pBitXorAssignProb_def pBitOrAssignProb_def pPreIncrProb_def
  pPreDecrProb_def pPostIncrProb_def pPostDecrProb_def pUnaryOpsProb_def pPlusProb_def
  pMinusProb_def pNotProb_def pBitNotProb_def pBinaryOpsProb_def pAddProb_def pSubProb_def
  pMulProb_def pDivProb_def pModProb_def pCmpGtProb_def pCmpLtProb_def pCmpGeProb_def
  pCmpLeProb_def pCmpEqProb_def pCmpNeProb_def pAndProb_def pOrProb_def pBitXorProb_def
  pBitAndProb_def pBitOrProb_def pRShiftProb_def pLShiftProb_def pSimpleTypesProb_def
  pVoidProb_def pCharProb_def pIntProb_def pShortProb_def pLongProb_def pLongLongProb_def
  pUCharProb_def pUIntProb_def pUShortProb_def pULongProb_def pULongLongProb_def
  pFloatProb_def pInt128Prob_def pUInt128Prob_def pSafeOpsSizeProb_def pInt8Prob_def
  pInt16Prob_def pInt32Prob_def pInt64Prob_def pFuncAttrProb_def pTypeAttrProb_def
  pLabelAttrProb_def pVarAttrProb_def pBinaryConstProb_def

end
