(* ===== verification/Probs.thy ===== *)
theory Probs
  imports RandomGen Enums
begin

text \<open>
  \<open>Probabilities.cpp\<close>: every percentage the generator uses, single ones and groups, with the two
  ways to set them (the defaults, which depend on the options and may be drawn at random, and a
  configuration file), the filters over equal groups, and the text form.  The distribution tables of
  \<open>StatementAssign.cpp\<close> and \<open>Expression.cpp\<close> that the same initialisation fills are here too.

  The singleton is a value that is handed around; \<open>probabilities_\<close> and the maps inside of a group are
  sorted association lists, the order in which the code iterates over its \<open>std::map\<close>s.
\<close>

section \<open>Elements\<close>

record SingleProbElem =
  se_sname :: string
  se_pname :: ProbName
  se_default_val :: int
  se_val :: int

record GroupProbElem =
  ge_is_equal :: bool
  ge_sname :: string
  ge_probs :: "(ProbName \<times> SingleProbElem) list"

datatype ProbElem = Single SingleProbElem | Group GroupProbElem

definition VAL_ASSERT :: "int \<Rightarrow> bool" where
  "VAL_ASSERT val \<longleftrightarrow> val \<le> 100 \<and> val \<ge> - 1"

definition Single_get_prob :: "ProbName \<Rightarrow> SingleProbElem \<Rightarrow> int option" where
  "Single_get_prob pname e = do { assert_opt (pname = se_pname e); Some (se_val e) }"

definition Single_set_prob :: "ProbName \<Rightarrow> int \<Rightarrow> SingleProbElem \<Rightarrow> SingleProbElem option" where
  "Single_set_prob pname val e =
     do {
       assert_opt (pname = se_pname e);
       assert_opt (VAL_ASSERT val);
       assert_opt (pname = pVoidProb \<longrightarrow> val = 0);
       Some (if val \<ge> 0 then e\<lparr>se_val := val\<rparr> else e)
     }"

definition Single_dump_default :: "SingleProbElem \<Rightarrow> string" where
  "Single_dump_default e = se_sname e @ ''='' @ int2str (se_default_val e)"

definition Single_dump_val :: "SingleProbElem \<Rightarrow> string" where
  "Single_dump_val e = se_sname e @ ''='' @ int2str (se_val e)"

definition elem_exist :: "ProbName \<Rightarrow> GroupProbElem \<Rightarrow> bool" where
  "elem_exist pname g \<longleftrightarrow> map_of (ge_probs g) pname \<noteq> None"

definition Group_get_prob :: "ProbName \<Rightarrow> GroupProbElem \<Rightarrow> int option" where
  "Group_get_prob pname g =
     do {
       assert_opt (elem_exist pname g);
       e \<leftarrow> map_of (ge_probs g) pname;
       Single_get_prob pname e
     }"

definition Group_set_prob :: "ProbName \<Rightarrow> int \<Rightarrow> GroupProbElem \<Rightarrow> GroupProbElem option" where
  "Group_set_prob pname val g =
     do {
       assert_opt (elem_exist pname g);
       assert_opt (VAL_ASSERT val);
       e \<leftarrow> map_of (ge_probs g) pname;
       e1 \<leftarrow> Single_set_prob pname val e;
       Some (g\<lparr>ge_probs := map_put pname e1 (ge_probs g)\<rparr>)
     }"

fun Group_set_prob_table_loop ::
    "(ProbName \<times> SingleProbElem) list \<Rightarrow> ProbName ProbabilityTable \<Rightarrow> ProbName ProbabilityTable option" where
  "Group_set_prob_table_loop [] t = Some t"
| "Group_set_prob_table_loop ((pname, e) # es) t =
     do {
       val \<leftarrow> Single_get_prob pname e;
       Group_set_prob_table_loop es (if val > 0 then add_elem (nat val) pname t else t)
     }"

definition Group_set_prob_table ::
    "ProbName ProbabilityTable \<Rightarrow> GroupProbElem \<Rightarrow> ProbName ProbabilityTable option" where
  "Group_set_prob_table t g = Group_set_prob_table_loop (ge_probs g) t"

definition open_delim :: "GroupProbElem \<Rightarrow> string" where
  "open_delim g = (if ge_is_equal g then ''('' else ''['')"

definition close_delim :: "GroupProbElem \<Rightarrow> string" where
  "close_delim g = (if ge_is_equal g then '')'' else '']'')"

text \<open>Both dumps separate the elements of a group by commas; a group without elements fails.\<close>

definition Group_dump :: "(SingleProbElem \<Rightarrow> string) \<Rightarrow> GroupProbElem \<Rightarrow> string option" where
  "Group_dump f g =
     do {
       assert_opt (ge_probs g \<noteq> []);
       Some (open_delim g @ ge_sname g @ '','' @
         join_with (CHR '','') (map (f \<circ> snd) (ge_probs g)) @ close_delim g)
     }"

definition elem_get_prob :: "ProbName \<Rightarrow> ProbElem \<Rightarrow> int option" where
  "elem_get_prob pname e = (case e of Single s \<Rightarrow> Single_get_prob pname s | Group g \<Rightarrow> Group_get_prob pname g)"

definition elem_set_prob :: "ProbName \<Rightarrow> int \<Rightarrow> ProbElem \<Rightarrow> ProbElem option" where
  "elem_set_prob pname val e =
     (case e of Single s \<Rightarrow> map_option Single (Single_set_prob pname val s)
      | Group g \<Rightarrow> map_option Group (Group_set_prob pname val g))"

definition elem_set_prob_table ::
    "ProbName ProbabilityTable \<Rightarrow> ProbElem \<Rightarrow> ProbName ProbabilityTable option" where
  "elem_set_prob_table t e = (case e of Single s \<Rightarrow> None | Group g \<Rightarrow> Group_set_prob_table t g)"

definition elem_is_equal :: "ProbElem \<Rightarrow> bool" where
  "elem_is_equal e = (case e of Single s \<Rightarrow> False | Group g \<Rightarrow> ge_is_equal g)"

definition elem_dump_default :: "ProbElem \<Rightarrow> string option" where
  "elem_dump_default e =
     (case e of Single s \<Rightarrow> Some (Single_dump_default s) | Group g \<Rightarrow> Group_dump Single_dump_default g)"

definition elem_dump_val :: "ProbElem \<Rightarrow> string option" where
  "elem_dump_val e =
     (case e of Single s \<Rightarrow> Some (Single_dump_val s) | Group g \<Rightarrow> Group_dump Single_dump_val g)"

section \<open>The registry\<close>

record 'z Probabilities =
  pb_sname_to_pname :: "string \<rightharpoonup> ProbName"
  pb_pname_to_sname :: "ProbName \<rightharpoonup> string"
  pb_pname_to_type :: "ProbName \<rightharpoonup> nat"
  pb_probabilities :: "(ProbName \<times> ProbElem) list"
  pb_prob_filters :: "ProbName \<Rightarrow> bool"
  pb_extra_filters :: "ProbName \<rightharpoonup> 'z filter_fn option"
  pb_assignOpsTable :: DistributionTable
  pb_exprTable :: DistributionTable
  pb_paramTable :: DistributionTable

definition Probabilities_empty :: "'z Probabilities" where
  "Probabilities_empty = \<lparr>pb_sname_to_pname = Map.empty, pb_pname_to_sname = Map.empty,
     pb_pname_to_type = Map.empty, pb_probabilities = [], pb_prob_filters = (\<lambda>p. False),
     pb_extra_filters = Map.empty, pb_assignOpsTable = empty_distribution,
     pb_exprTable = empty_distribution, pb_paramTable = empty_distribution\<rparr>"

definition set_single_name :: "string \<Rightarrow> ProbName \<Rightarrow> 'z Probabilities \<Rightarrow> 'z Probabilities" where
  "set_single_name s pname P = P\<lparr>pb_sname_to_pname := (pb_sname_to_pname P)(s \<mapsto> pname),
     pb_pname_to_sname := (pb_pname_to_sname P)(pname \<mapsto> s)\<rparr>"

definition set_single_name_type :: "string \<Rightarrow> ProbName \<Rightarrow> nat \<Rightarrow> 'z Probabilities \<Rightarrow> 'z Probabilities" where
  "set_single_name_type s pname ty P =
     set_single_name s pname (P\<lparr>pb_pname_to_type := (pb_pname_to_type P)(pname \<mapsto> ty)\<rparr>)"

text \<open>\<open>operator[]\<close> on a missing name yields 0.\<close>

definition pname_to_type :: "'z Probabilities \<Rightarrow> ProbName \<Rightarrow> nat" where
  "pname_to_type P pname = (case pb_pname_to_type P pname of None \<Rightarrow> 0 | Some t \<Rightarrow> t)"

definition get_pname :: "'z Probabilities \<Rightarrow> string \<Rightarrow> ProbName option" where
  "get_pname P sname = pb_sname_to_pname P sname"

definition get_sname :: "'z Probabilities \<Rightarrow> ProbName \<Rightarrow> string option" where
  "get_sname P pname = pb_pname_to_sname P pname"

definition set_prob_table ::
    "ProbName ProbabilityTable \<Rightarrow> ProbName \<Rightarrow> 'z Probabilities \<Rightarrow> ProbName ProbabilityTable option" where
  "set_prob_table t pname P =
     do { e \<leftarrow> map_of (pb_probabilities P) pname; elem_set_prob_table t e }"

definition get_prob :: "'z Probabilities \<Rightarrow> ProbName \<Rightarrow> nat option" where
  "get_prob P pname =
     do {
       e \<leftarrow> map_of (pb_probabilities P) pname;
       val \<leftarrow> elem_get_prob pname e;
       assert_opt (val \<ge> 0 \<and> val \<le> 100);
       Some (nat val)
     }"

definition set_prob_filter :: "ProbName \<Rightarrow> 'z Probabilities \<Rightarrow> 'z Probabilities" where
  "set_prob_filter pname P = P\<lparr>pb_prob_filters := (pb_prob_filters P)(pname := True)\<rparr>"

definition register_extra_filter :: "ProbName \<Rightarrow> 'z filter_fn \<Rightarrow> 'z Probabilities \<Rightarrow> 'z Probabilities" where
  "register_extra_filter pname f P =
     P\<lparr>pb_extra_filters := (pb_extra_filters P)(pname \<mapsto> Some f)\<rparr>"

text \<open>The assertion that the filter removed is the one registered compares pointers; the model
  only asks that there is one.\<close>

definition unregister_extra_filter :: "ProbName \<Rightarrow> 'z Probabilities \<Rightarrow> 'z Probabilities option" where
  "unregister_extra_filter pname P =
     (case pb_extra_filters P pname of
        Some (Some f) \<Rightarrow> Some (P\<lparr>pb_extra_filters := (pb_extra_filters P)(pname \<mapsto> None)\<rparr>)
      | _ \<Rightarrow> None)"

definition check_extra_filter :: "'z Probabilities \<Rightarrow> ProbName \<Rightarrow> 'z filter_fn" where
  "check_extra_filter P pname v w =
     do {
       assert_opt (v \<ge> 0);
       (case pb_extra_filters P pname of
          Some (Some f) \<Rightarrow> f v w
        | _ \<Rightarrow> Some (False, w))
     }"

text \<open>The loop over the group: the first element of that type decides.\<close>

definition group_rejects :: "'z Probabilities \<Rightarrow> GroupProbElem \<Rightarrow> int \<Rightarrow> bool" where
  "group_rejects P g v =
     (case find (\<lambda>(pname, e). nat (v mod 2 ^ 32) = pname_to_type P pname) (ge_probs g) of
        None \<Rightarrow> False
      | Some (pname, e) \<Rightarrow> se_val e = 0)"

definition prob_filter :: "'z Probabilities \<Rightarrow> ProbName \<Rightarrow> 'z filter_fn" where
  "prob_filter P pname v w =
     do {
       assert_opt (v \<ge> 0);
       (extra, w1) \<leftarrow> check_extra_filter P pname v w;
       if extra then Some (True, w1)
       else (case map_of (pb_probabilities P) pname of
               Some (Group g) \<Rightarrow> do { assert_opt (ge_is_equal g); Some (group_rejects P g v, w1) }
             | _ \<Rightarrow> None)
     }"

definition get_prob_filter :: "'z Probabilities \<Rightarrow> ProbName \<Rightarrow> 'z filter_fn option" where
  "get_prob_filter P pname =
     (if pb_prob_filters P pname then Some (prob_filter P pname)
      else (case pb_extra_filters P pname of Some (Some f) \<Rightarrow> Some f | _ \<Rightarrow> None))"

section \<open>Defaults\<close>

definition single_names :: "(string \<times> ProbName) list" where
  "single_names = [
   (''more_struct_union_type_prob'', pMoreStructUnionProb),
   (''bitfields_creation_prob'', pBitFieldsCreationProb),
   (''bitfield_in_normal_struct_prob'', pBitFieldInNormalStructProb),
   (''scalar_field_in_full_bitfields_struct_prob'', pScalarFieldInFullBitFieldsProb),
   (''exhaustive_bitfield_prob'', pExhaustiveBitFieldsProb),
   (''bitfields_signed_prob'', pBitFieldsSignedProb),
   (''safe_ops_signed_prob'', pSafeOpsSignedProb),
   (''select_deref_pointer_prob'', pSelectDerefPointerProb),
   (''regular_volatile_prob'', pRegularVolatileProb),
   (''regular_const_prob'', pRegularConstProb),
   (''stricter_const_prob'', pStricterConstProb),
   (''looser_const_prob'', pLooserConstProb),
   (''field_volatile_prob'', pFieldVolatileProb),
   (''field_const_prob'', pFieldConstProb),
   (''std_unary_func_prob'', pStdUnaryFuncProb),
   (''shift_by_non_constant_prob'', pShiftByNonConstantProb),
   (''pointer_as_ltype_prob'', pPointerAsLTypeProb),
   (''struct_as_ltype_prob'', pStructAsLTypeProb),
   (''union_as_ltype_prob'', pUnionAsLTypeProb),
   (''float_as_ltype_prob'', pFloatAsLTypeProb),
   (''new_array_var_prob'', pNewArrayVariableProb),
   (''access_once_var_prob'', pAccessOnceVariableProb),
   (''inline_function_prob'', pInlineFunctionProb),
   (''builtin_function_prob'', pBuiltinFunctionProb),
   (''array_oob_prob'', pArrayOOBProb),
   (''statement_prob'', pStatementProb),
   (''assign_ops_prob'', pAssignOpsProb),
   (''assign_unary_ops_prob'', pUnaryOpsProb),
   (''assign_binary_ops_prob'', pBinaryOpsProb),
   (''simple_types_prob'', pSimpleTypesProb),
   (''safe_ops_size_prob'', pSafeOpsSizeProb),
   (''func_attr_flag'', pFuncAttrProb),
   (''type_attr_flag'', pTypeAttrProb),
   (''label_attr_flag'', pLabelAttrProb),
   (''var_attr_flag'', pVarAttrProb),
   (''binary_constant'', pBinaryConstProb)
  ]"

definition set_single_name_maps :: "'z Probabilities \<Rightarrow> 'z Probabilities" where
  "set_single_name_maps P = foldl (\<lambda>P (s, pname). set_single_name s pname P) P single_names"

text \<open>An \<open>unsigned\<close> random number stored in an \<open>int\<close>.\<close>

definition to_int :: "nat \<Rightarrow> int" where
  "to_int r = (if r < 2 ^ 31 then int r else int r - 2 ^ 32)"

definition get_random_single_prob :: "int \<Rightarrow> 'z world_scheme \<Rightarrow> (int \<times> 'z world_scheme) option" where
  "get_random_single_prob orig_val w =
     (if orig_val = 0 then Some (orig_val, w)
      else map_option (\<lambda>(r, w1). (to_int r, w1)) (rnd_upto 101 None None w))"

definition Group_get_random_single_prob ::
    "bool \<Rightarrow> int \<Rightarrow> nat list \<Rightarrow> 'z world_scheme \<Rightarrow> (int \<times> 'z world_scheme) option" where
  "Group_get_random_single_prob is_equal orig_val invalid_vals w =
     (if orig_val = 0 then Some (orig_val, w)
      else if is_equal
      then map_option (\<lambda>(p, w1). (if p then 1 else 0, w1)) (rnd_flipcoin 50 None None w)
      else map_option (\<lambda>(r, w1). (to_int r, w1))
             (rnd_upto 101 (Some (vf_filter (VectorFilter_of invalid_vals FILTER_OUT))) None w))"

text \<open>The first loop of \<open>GroupProbElem::initialize\<close>: the elements made so far, the values already
  taken and the names of the elements with a random value.\<close>

record group_init =
  gi_probs :: "(ProbName \<times> SingleProbElem) list"
  gi_invalid_vals :: "nat list"
  gi_valid_probs :: "ProbName list"

fun Group_initialize_loop ::
    "bool \<Rightarrow> 'z Probabilities \<Rightarrow> (ProbName \<times> int) list \<Rightarrow> group_init \<Rightarrow> 'z world_scheme \<Rightarrow>
      (group_init \<times> 'z world_scheme) option" where
  "Group_initialize_loop is_equal P [] g w = Some (g, w)"
| "Group_initialize_loop is_equal P ((pname, default_val) # pairs) g w =
     do {
       assert_opt (default_val \<ge> 0 \<and> default_val \<le> 100);
       (val, w1) \<leftarrow> (if opt_random_random (w_opts w)
                     then Group_get_random_single_prob is_equal default_val (gi_invalid_vals g) w
                     else Some (default_val, w));
       assert_opt (opt_random_random (w_opts w) \<longrightarrow> val \<noteq> 100);
       let valid = (opt_random_random (w_opts w) \<and> val \<noteq> 0);
       sname \<leftarrow> get_sname P pname;
       let elem = \<lparr>se_sname = sname, se_pname = pname, se_default_val = default_val, se_val = val\<rparr>;
       Group_initialize_loop is_equal P pairs
         \<lparr>gi_probs = map_put pname elem (gi_probs g),
          gi_invalid_vals = (if valid then gi_invalid_vals g @ [nat (val mod 2 ^ 32)] else gi_invalid_vals g),
          gi_valid_probs = (if valid then gi_valid_probs g @ [pname] else gi_valid_probs g)\<rparr> w1
     }"

text \<open>\<open>probs_[pname]->set_prob(val)\<close>, the overload that only assigns.\<close>

definition assign_prob ::
    "ProbName \<Rightarrow> int \<Rightarrow> (ProbName \<times> SingleProbElem) list \<Rightarrow> (ProbName \<times> SingleProbElem) list option" where
  "assign_prob pname val es =
     do { e \<leftarrow> map_of es pname; Some (map_put pname (e\<lparr>se_val := val\<rparr>) es) }"

fun assign_defaults ::
    "(ProbName \<times> int) list \<Rightarrow> (ProbName \<times> SingleProbElem) list \<Rightarrow>
      (ProbName \<times> SingleProbElem) list option" where
  "assign_defaults [] es = Some es"
| "assign_defaults ((pname, val) # pairs) es =
     do {
       assert_opt (val \<ge> 0 \<and> val \<le> 100);
       es1 \<leftarrow> assign_prob pname val es;
       assign_defaults pairs es1
     }"

definition Group_initialize ::
    "'z Probabilities \<Rightarrow> (ProbName \<times> int) list \<Rightarrow> GroupProbElem \<Rightarrow> 'z world_scheme \<Rightarrow> (GroupProbElem \<times> 'z world_scheme) option" where
  "Group_initialize P pairs g w =
     do {
       (gi, w1) \<leftarrow> Group_initialize_loop (ge_is_equal g) P pairs
          \<lparr>gi_probs = ge_probs g, gi_invalid_vals = [100, 0], gi_valid_probs = []\<rparr> w;
       if \<not> opt_random_random (w_opts w1) then Some (g\<lparr>ge_probs := gi_probs gi\<rparr>, w1)
       else if ge_is_equal g \<and> gi_valid_probs gi = []
       then do { es \<leftarrow> assign_defaults pairs (gi_probs gi); Some (g\<lparr>ge_probs := es\<rparr>, w1) }
       else if \<not> ge_is_equal g
       then do {
         assert_opt (gi_valid_probs gi \<noteq> []);
         (r, w2) \<leftarrow> rnd_upto (length (gi_valid_probs gi)) None None w1;
         pname \<leftarrow> vec_get (gi_valid_probs gi) r;
         es \<leftarrow> assign_prob pname 100 (gi_probs gi);
         Some (g\<lparr>ge_probs := es\<rparr>, w2)
       }
       else Some (g\<lparr>ge_probs := gi_probs gi\<rparr>, w1)
     }"

definition single_prob_pairs :: "CGOptions \<Rightarrow> (ProbName \<times> int) list" where
  "single_prob_pairs c = [
     (pMoreStructUnionProb, 50), (pBitFieldsCreationProb, 50), (pBitFieldInNormalStructProb, 10),
     (pScalarFieldInFullBitFieldsProb, 10), (pExhaustiveBitFieldsProb, 10),
     (pBitFieldsSignedProb, 50), (pSafeOpsSignedProb, 50), (pFuncAttrProb, 30),
     (pTypeAttrProb, 50), (pLabelAttrProb, 30), (pVarAttrProb, 30), (pBinaryConstProb, 3),
     (pRegularVolatileProb, if opt_volatiles c then 50 else 0),
     (pRegularConstProb, if opt_consts c then 10 else 0),
     (pStricterConstProb, if opt_consts c then 50 else 0),
     (pLooserConstProb, if opt_consts c then 50 else 0),
     (pFieldVolatileProb,
        if opt_volatiles c \<and> opt_vol_struct_union_fields c \<and> opt_global_variables c then 30 else 0),
     (pFieldConstProb, if opt_consts c \<and> opt_const_struct_union_fields c then 20 else 0),
     (pStdUnaryFuncProb, 5), (pShiftByNonConstantProb, 50), (pStructAsLTypeProb, 30),
     (pUnionAsLTypeProb, 25), (pFloatAsLTypeProb, if opt_enable_float c then 40 else 0),
     (pNewArrayVariableProb, if opt_arrays c then 20 else 0),
     (pPointerAsLTypeProb, if opt_pointers c then 50 else 0),
     (pSelectDerefPointerProb, if opt_pointers c then 80 else 0),
     (pAccessOnceVariableProb, 20), (pInlineFunctionProb, opt_inline_function_prob c),
     (pBuiltinFunctionProb, opt_builtin_function_prob c), (pArrayOOBProb, opt_array_oob_prob c)]"

definition single_prob_defaults :: "CGOptions \<Rightarrow> (ProbName \<times> int) list" where
  "single_prob_defaults c = map_of_pairs (single_prob_pairs c)"

fun initialize_single_loop ::
    "(ProbName \<times> int) list \<Rightarrow> 'z Probabilities \<Rightarrow> 'z world_scheme \<Rightarrow> ('z Probabilities \<times> 'z world_scheme) option" where
  "initialize_single_loop [] P w = Some (P, w)"
| "initialize_single_loop ((pname, default_val) # m) P w =
     do {
       assert_opt (default_val \<ge> 0 \<and> default_val \<le> 100);
       (val, w1) \<leftarrow> (if opt_random_random (w_opts w) then get_random_single_prob default_val w
                     else Some (default_val, w));
       sname \<leftarrow> get_sname P pname;
       initialize_single_loop m
         (P\<lparr>pb_probabilities := map_put pname
              (Single \<lparr>se_sname = sname, se_pname = pname, se_default_val = default_val, se_val = val\<rparr>)
              (pb_probabilities P)\<rparr>) w1
     }"

definition initialize_single_probs :: "'z Probabilities \<Rightarrow> 'z world_scheme \<Rightarrow> ('z Probabilities \<times> 'z world_scheme) option" where
  "initialize_single_probs P w = initialize_single_loop (single_prob_defaults (w_opts w)) P w"

definition set_group_prob ::
    "bool \<Rightarrow> ProbName \<Rightarrow> (ProbName \<times> int) list \<Rightarrow> 'z Probabilities \<Rightarrow> 'z world_scheme \<Rightarrow> ('z Probabilities \<times> 'z world_scheme) option" where
  "set_group_prob is_equal pname m P w =
     do {
       sname \<leftarrow> get_sname P pname;
       (g, w1) \<leftarrow> Group_initialize P m \<lparr>ge_is_equal = is_equal, ge_sname = sname, ge_probs = []\<rparr> w;
       Some (P\<lparr>pb_probabilities := map_put pname (Group g) (pb_probabilities P)\<rparr>, w1)
     }"

text \<open>A run of \<open>SET_SINGLE_NAME(s, type, value)\<close>: it names the elements and collects the map.\<close>

type_synonym named_prob = "string \<times> ProbName \<times> nat \<times> int"

definition name_elems :: "named_prob list \<Rightarrow> 'z Probabilities \<Rightarrow> 'z Probabilities" where
  "name_elems xs P = foldl (\<lambda>P (s, pname, ty, v). set_single_name_type s pname ty P) P xs"

definition elem_map :: "named_prob list \<Rightarrow> (ProbName \<times> int) list" where
  "elem_map xs = map_of_pairs (map (\<lambda>(s, pname, ty, v). (pname, v)) xs)"

definition set_default_group ::
    "bool \<Rightarrow> ProbName \<Rightarrow> named_prob list \<Rightarrow> 'z Probabilities \<Rightarrow> 'z world_scheme \<Rightarrow> ('z Probabilities \<times> 'z world_scheme) option" where
  "set_default_group is_equal pname xs P w =
     do {
       (P1, w1) \<leftarrow> set_group_prob is_equal pname (elem_map xs) (name_elems xs P) w;
       Some (if is_equal then set_prob_filter pname P1 else P1, w1)
     }"

definition safe_ops_size_elems :: "CGOptions \<Rightarrow> named_prob list" where
  "safe_ops_size_elems c = [
     (''safe_ops_size_int8'', pInt8Prob, safe_op_size_num sInt8, of_bool (opt_int8 c \<and> opt_uint8 c)),
     (''safe_ops_size_int16'', pInt16Prob, safe_op_size_num sInt16, 1),
     (''safe_ops_size_int32'', pInt32Prob, safe_op_size_num sInt32, 1),
     (''safe_ops_size_int64'', pInt64Prob, safe_op_size_num sInt64, of_bool (allow_int64 c))]"

definition simple_types_elems :: "CGOptions \<Rightarrow> named_prob list" where
  "simple_types_elems c = [
     (''void_prob'', pVoidProb, simple_type_num eVoid, 0),
     (''char_prob'', pCharProb, simple_type_num eChar, of_bool (opt_int8 c)),
     (''Int128_prob'', pInt128Prob, simple_type_num eInt128, of_bool (opt_Int128 c)),
     (''UInt128_prob'', pUInt128Prob, simple_type_num eUInt128, of_bool (opt_UInt128 c)),
     (''int_prob'', pIntProb, simple_type_num eInt, 1),
     (''short_prob'', pShortProb, simple_type_num eShort, 1),
     (''long_prob'', pLongProb, simple_type_num eLong, of_bool (\<not> opt_ccomp c)),
     (''ulong_prob'', pULongProb, simple_type_num eULong, of_bool (\<not> opt_ccomp c)),
     (''uchar_prob'', pUCharProb, simple_type_num eUChar, of_bool (opt_uint8 c)),
     (''uint_prob'', pUIntProb, simple_type_num eUInt, 1),
     (''ushort_prob'', pUShortProb, simple_type_num eUShort, 1),
     (''long_long_prob'', pLongLongProb, simple_type_num eLongLong, of_bool (allow_int64 c)),
     (''ulong_long_prob'', pULongLongProb, simple_type_num eULongLong, of_bool (allow_int64 c)),
     (''float_prob'', pFloatProb, simple_type_num eFloat, of_bool (opt_enable_float c))]"

definition unary_ops_elems :: "CGOptions \<Rightarrow> named_prob list" where
  "unary_ops_elems c = [
     (''unary_plus_prob'', pPlusProb, unary_op_num ePlus, of_bool (opt_unary_plus_operator c)),
     (''unary_minus_prob'', pMinusProb, unary_op_num eMinus, 1),
     (''unary_not_prob'', pNotProb, unary_op_num eNot, 1),
     (''unary_bit_not_prob'', pBitNotProb, unary_op_num eBitNot, 1)]"

definition binary_ops_elems :: "CGOptions \<Rightarrow> named_prob list" where
  "binary_ops_elems c = [
     (''binary_add_prob'', pAddProb, binary_op_num eAdd, 1),
     (''binary_sub_prob'', pSubProb, binary_op_num eSub, 1),
     (''binary_mul_prob'', pMulProb, binary_op_num eMul, of_bool (opt_muls c)),
     (''binary_div_prob'', pDivProb, binary_op_num eDiv, of_bool (opt_divs c)),
     (''binary_mod_prob'', pModProb, binary_op_num eMod, 1),
     (''binary_gt_prob'', pCmpGtProb, binary_op_num eCmpGt, 1),
     (''binary_lt_prob'', pCmpLtProb, binary_op_num eCmpLt, 1),
     (''binary_ge_prob'', pCmpGeProb, binary_op_num eCmpGe, 1),
     (''binary_le_prob'', pCmpLeProb, binary_op_num eCmpLe, 1),
     (''binary_eq_prob'', pCmpEqProb, binary_op_num eCmpEq, 1),
     (''binary_ne_prob'', pCmpNeProb, binary_op_num eCmpNe, 1),
     (''binary_and_prob'', pAndProb, binary_op_num eAnd, 1),
     (''binary_or_prob'', pOrProb, binary_op_num eOr, 1),
     (''binary_bit_xor_prob'', pBitXorProb, binary_op_num eBitXor, 1),
     (''binary_bit_and_prob'', pBitAndProb, binary_op_num eBitAnd, 1),
     (''binary_bit_or_prob'', pBitOrProb, binary_op_num eBitOr, 1),
     (''binary_bit_rshift_prob'', pRShiftProb, binary_op_num eRShift, 1),
     (''binary_bit_lshift_prob'', pLShiftProb, binary_op_num eLShift, 1)]"

definition statement_elems :: "CGOptions \<Rightarrow> named_prob list" where
  "statement_elems c = [
     (''statement_block_prob'', pBlockProb, statement_num eBlock, 0),
     (''statement_ifelse_prob'', pIfElseProb, statement_num eIfElse, 15),
     (''statement_for_prob'', pForProb, statement_num eFor, 30),
     (''statement_return_prob'', pReturnProb, statement_num eReturn, 35),
     (''statement_continue_prob'', pContinueProb, statement_num eContinue, 40),
     (''statement_break_prob'', pBreakProb, statement_num eBreak, 45)] @
     (if opt_jumps c \<and> opt_arrays c
      then [(''statement_goto_prob'', pGotoProb, statement_num eGoto, 50),
            (''statement_arrayop_prob'', pArrayOpProb, statement_num eArrayOp, 60)]
      else if opt_jumps c \<and> \<not> opt_arrays c
      then [(''statement_arrayop_prob'', pArrayOpProb, statement_num eArrayOp, 0),
            (''statement_goto_prob'', pGotoProb, statement_num eGoto, 50)]
      else if \<not> opt_jumps c \<and> opt_arrays c
      then [(''statement_goto_prob'', pGotoProb, statement_num eGoto, 0),
            (''statement_arrayop_prob'', pArrayOpProb, statement_num eArrayOp, 55)]
      else [(''statement_goto_prob'', pGotoProb, statement_num eGoto, 0),
            (''statement_arrayop_prob'', pArrayOpProb, statement_num eArrayOp, 0)]) @
     [(''statement_hipstatement_prob'', pHIPStatementProb, statement_num eHIPStatement, 5),
      (''statement_assign_prob'', pAssignProb, statement_num eAssign, 100)]"

definition set_default_safe_ops_size_prob where
  "set_default_safe_ops_size_prob P w =
     set_default_group True pSafeOpsSizeProb (safe_ops_size_elems (w_opts w)) P w"

definition set_default_simple_types_prob where
  "set_default_simple_types_prob P w =
     set_default_group True pSimpleTypesProb (simple_types_elems (w_opts w)) P w"

definition set_default_unary_ops_prob where
  "set_default_unary_ops_prob P w =
     set_default_group True pUnaryOpsProb (unary_ops_elems (w_opts w)) P w"

definition set_default_binary_ops_prob where
  "set_default_binary_ops_prob P w =
     set_default_group True pBinaryOpsProb (binary_ops_elems (w_opts w)) P w"

definition set_default_statement_prob where
  "set_default_statement_prob P w =
     set_default_group False pStatementProb (statement_elems (w_opts w)) P w"

text \<open>The tables of \<open>StatementAssign\<close> and \<open>Expression\<close>.\<close>

definition add_entries :: "(int \<times> int) list \<Rightarrow> DistributionTable \<Rightarrow> DistributionTable" where
  "add_entries es d = foldl (\<lambda>d (k, p). add_entry k p d) d es"

definition assign_ops_entries :: "CGOptions \<Rightarrow> (int \<times> int) list" where
  "assign_ops_entries c =
     [(int (assign_op_num eSimpleAssign), 70), (int (assign_op_num eBitAndAssign), 10),
      (int (assign_op_num eBitXorAssign), 10), (int (assign_op_num eBitOrAssign), 10)] @
     (if opt_pre_incr_operator c then [(int (assign_op_num ePreIncr), 5)] else []) @
     (if opt_pre_decr_operator c then [(int (assign_op_num ePreDecr), 5)] else []) @
     (if opt_post_incr_operator c then [(int (assign_op_num ePostIncr), 5)] else []) @
     (if opt_post_decr_operator c then [(int (assign_op_num ePostDecr), 5)] else [])"

definition expr_entries :: "CGOptions \<Rightarrow> (int \<times> int) list" where
  "expr_entries c =
     [(int (term_type_num eFunction), 70), (int (term_type_num eVariable), 20),
      (int (term_type_num eConstant), 10)] @
     (if opt_use_embedded_assigns c then [(int (term_type_num eAssignment), 10)] else []) @
     [(int (term_type_num eHIPExpression), 15)] @
     (if opt_use_comma_exprs c then [(int (term_type_num eCommaExpr), 10)] else [])"

definition param_entries :: "CGOptions \<Rightarrow> (int \<times> int) list" where
  "param_entries c =
     [(int (term_type_num eFunction), 40), (int (term_type_num eVariable), 40),
      (int (term_type_num eConstant), 0)] @
     (if opt_use_embedded_assigns c then [(int (term_type_num eAssignment), 10)] else []) @
     (if opt_use_comma_exprs c then [(int (term_type_num eCommaExpr), 10)] else [])"

definition initialize_group_probs :: "'z Probabilities \<Rightarrow> 'z world_scheme \<Rightarrow> ('z Probabilities \<times> 'z world_scheme) option" where
  "initialize_group_probs P w =
     do {
       (P1, w1) \<leftarrow> set_default_statement_prob P w;
       (P2, w2) \<leftarrow> set_default_unary_ops_prob P1 w1;
       (P3, w3) \<leftarrow> set_default_binary_ops_prob P2 w2;
       (P4, w4) \<leftarrow> set_default_simple_types_prob P3 w3;
       (P5, w5) \<leftarrow> set_default_safe_ops_size_prob P4 w4;
       Some (P5\<lparr>pb_assignOpsTable := add_entries (assign_ops_entries (w_opts w5)) (pb_assignOpsTable P5),
                pb_exprTable := add_entries (expr_entries (w_opts w5)) (pb_exprTable P5),
                pb_paramTable := add_entries (param_entries (w_opts w5)) (pb_paramTable P5)\<rparr>, w5)
     }"

definition Probabilities_initialize :: "'z world_scheme \<Rightarrow> ('z Probabilities \<times> 'z world_scheme) option" where
  "Probabilities_initialize w =
     do {
       (P, w1) \<leftarrow> initialize_single_probs (set_single_name_maps Probabilities_empty) w;
       initialize_group_probs P w1
     }"

section \<open>Configuration files\<close>

definition parse_single_elem ::
    "bool \<Rightarrow> 'z Probabilities \<Rightarrow> ProbElem \<Rightarrow> string \<Rightarrow> (int \<times> ProbElem) option" where
  "parse_single_elem is_equal P e line =
     (case split_string_char line (CHR ''='') of
        [name, num] \<Rightarrow>
          do {
            val \<leftarrow> str2int num;
            assert_opt (if is_equal then val = 0 \<or> val = 1 else val \<ge> 0 \<and> val \<le> 100);
            pname \<leftarrow> get_pname P name;
            e1 \<leftarrow> elem_set_prob pname val e;
            Some (val, e1)
          }
      | _ \<Rightarrow> None)"

text \<open>The loop of \<open>setup_group_probabilities\<close>: the element, the values seen, and the two flags.\<close>

fun setup_group_loop ::
    "bool \<Rightarrow> 'z Probabilities \<Rightarrow> string list \<Rightarrow> ProbElem \<times> int set \<times> bool \<times> bool \<Rightarrow>
      (ProbElem \<times> int set \<times> bool \<times> bool) option" where
  "setup_group_loop is_equal P [] st = Some st"
| "setup_group_loop is_equal P (line # ls) (e, vals, all_zero, valid_max) =
     do {
       (val, e1) \<leftarrow> parse_single_elem is_equal P e line;
       if is_equal
       then setup_group_loop is_equal P ls (e1, vals, all_zero \<and> val \<noteq> 1, True)
       else do {
         assert_opt (\<not> (val > 0 \<and> val \<in> vals));
         setup_group_loop is_equal P ls (e1, insert val vals, False, valid_max \<or> val = 100)
       }
     }"

definition setup_group_probabilities ::
    "bool \<Rightarrow> string list \<Rightarrow> 'z Probabilities \<Rightarrow> (bool \<times> 'z Probabilities) option" where
  "setup_group_probabilities is_equal elems P =
     (case elems of
        name # e1 # es \<Rightarrow>
          do {
            pname \<leftarrow> get_pname P name;
            e \<leftarrow> map_of (pb_probabilities P) pname;
            (e', vals, all_zero, valid_max) \<leftarrow> setup_group_loop is_equal P (e1 # es) (e, {}, True, False);
            assert_opt (\<not> all_zero);
            assert_opt valid_max;
            Some (True, P\<lparr>pb_probabilities := map_put pname e' (pb_probabilities P)\<rparr>)
          }
      | _ \<Rightarrow> None)"

text \<open>The results of the parsers: success, the error message, and the registry.\<close>

definition parse_group_probabilities ::
    "bool \<Rightarrow> string \<Rightarrow> 'z Probabilities \<Rightarrow> (bool \<times> string \<times> 'z Probabilities) option" where
  "parse_group_probabilities is_equal line P =
     (let s = (if is_equal then get_substring line (CHR ''('') (CHR '')'')
               else get_substring line (CHR ''['') (CHR '']'')) in
      if s = [] then Some (False, ''empty group probabilities!'', P)
      else let elems = split_string_char s (CHR '','') in
        if length elems \<le> 1 then Some (False, ''invalid group probabilities format!'', P)
        else map_option (\<lambda>(b, P1). (b, [], P1)) (setup_group_probabilities is_equal elems P))"

definition parse_single_probability :: "string \<Rightarrow> 'z Probabilities \<Rightarrow> (bool \<times> string \<times> 'z Probabilities) option" where
  "parse_single_probability line P =
     (case split_string_char line (CHR ''='') of
        [name, num] \<Rightarrow>
          do {
            val \<leftarrow> str2int num;
            assert_opt (VAL_ASSERT val);
            pname \<leftarrow> get_pname P name;
            e \<leftarrow> map_of (pb_probabilities P) pname;
            e1 \<leftarrow> elem_set_prob pname val e;
            Some (True, [], P\<lparr>pb_probabilities := map_put pname e1 (pb_probabilities P)\<rparr>)
          }
      | _ \<Rightarrow> None)"

definition parse_line :: "string \<Rightarrow> 'z Probabilities \<Rightarrow> (bool \<times> string \<times> 'z Probabilities) option" where
  "parse_line line P =
     (let c = first_nonspace_char line in
      if c = CHR 0x00 then None
      else if c = CHR ''#'' then Some (True, [], P)
      else if c = CHR ''['' then parse_group_probabilities False line P
      else if c = CHR ''('' then parse_group_probabilities True line P
      else parse_single_probability line P)"

fun parse_lines :: "string list \<Rightarrow> 'z Probabilities \<Rightarrow> (bool \<times> string \<times> 'z Probabilities) option" where
  "parse_lines [] P = Some (True, [], P)"
| "parse_lines (line # ls) P =
     (if empty_line line then parse_lines ls P
      else do {
        (ok, msg, P1) \<leftarrow> parse_line line P;
        if \<not> ok then Some (False, msg, P1) else parse_lines ls P1
      })"

text \<open>\<open>conf\<close> is the content of the file, \<open>None\<close> when it cannot be opened.\<close>

definition parse_configuration ::
    "string list option \<Rightarrow> 'z Probabilities \<Rightarrow> (bool \<times> string \<times> 'z Probabilities) option" where
  "parse_configuration conf P =
     (case conf of
        None \<Rightarrow> Some (False, ''fail to open probabilities configuration file!'', P)
      | Some ls \<Rightarrow> parse_lines ls P)"

fun dump_elems :: "(ProbElem \<Rightarrow> string option) \<Rightarrow> (ProbName \<times> ProbElem) list \<Rightarrow> string list option" where
  "dump_elems f [] = Some []"
| "dump_elems f ((p, e) # es) = do { s \<leftarrow> f e; r \<leftarrow> dump_elems f es; Some (s # [] # r) }"

definition dump_default_probabilities :: "'z Probabilities \<Rightarrow> string list option" where
  "dump_default_probabilities P = dump_elems elem_dump_default (pb_probabilities P)"

definition dump_actual_probabilities :: "nat \<Rightarrow> 'z Probabilities \<Rightarrow> string list option" where
  "dump_actual_probabilities seed P =
     map_option (\<lambda>r. (''# Seed: '' @ int2str (int seed)) # [] # r)
       (dump_elems elem_dump_val (pb_probabilities P))"

section \<open>Groups\<close>

text \<open>Every element of a group is filed under its own name.\<close>

definition group_keys_ok :: "(ProbName \<times> SingleProbElem) list \<Rightarrow> bool" where
  "group_keys_ok es \<longleftrightarrow> (\<forall>(p, e) \<in> set es. se_pname e = p)"

lemma set_map_put: "set (map_put k v m) \<subseteq> insert (k, v) (set m)"
  by (induction k v m rule: map_put.induct) auto

lemma in_map_put: "(k, v) \<in> set (map_put k v m)"
  by (induction k v m rule: map_put.induct) auto

lemma map_put_other: "(k', v') \<in> set m \<Longrightarrow> k' \<noteq> k \<Longrightarrow> (k', v') \<in> set (map_put k v m)"
  by (induction k v m rule: map_put.induct) auto

lemma group_keys_map_put:
  "group_keys_ok es \<Longrightarrow> se_pname e = p \<Longrightarrow> group_keys_ok (map_put p e es)"
  unfolding group_keys_ok_def using set_map_put by fastforce

lemma assign_prob_ok:
  "assign_prob p v es = Some es' \<Longrightarrow> group_keys_ok es \<Longrightarrow>
     group_keys_ok es' \<and> (\<exists>e. (p, e) \<in> set es' \<and> se_val e = v)"
proof -
  assume a: "assign_prob p v es = Some es'" "group_keys_ok es"
  then obtain e where e: "map_of es p = Some e" "es' = map_put p (e\<lparr>se_val := v\<rparr>) es"
    by (auto simp: assign_prob_def bind_eq_Some_conv)
  from e(1) a(2) have "se_pname e = p" by (auto simp: group_keys_ok_def dest!: map_of_SomeD)
  with e(2) a(2) show ?thesis
    using group_keys_map_put [of es "e\<lparr>se_val := v\<rparr>" p] in_map_put by fastforce
qed

lemma Group_loop_keys:
  "Group_initialize_loop eq P pairs g w = Some (g', w') \<Longrightarrow> group_keys_ok (gi_probs g) \<Longrightarrow>
     group_keys_ok (gi_probs g')"
proof (induction eq P pairs g w arbitrary: g' w' rule: Group_initialize_loop.induct)
  case (2 eq P pname dv pairs g w)
  from "2.prems"(1) obtain val w1 sname where
    s: "(if opt_random_random (w_opts w)
                     then Group_get_random_single_prob eq dv (gi_invalid_vals g) w
                     else Some (dv, w)) = Some (val, w1)"
       "get_sname P pname = Some sname" "dv \<ge> 0 \<and> dv \<le> 100"
       "opt_random_random (w_opts w) \<longrightarrow> val \<noteq> 100" and
    r: "Group_initialize_loop eq P pairs
         \<lparr>gi_probs = map_put pname \<lparr>se_sname = sname, se_pname = pname, se_default_val = dv,
             se_val = val\<rparr> (gi_probs g),
          gi_invalid_vals = (if opt_random_random (w_opts w) \<and> val \<noteq> 0
             then gi_invalid_vals g @ [nat (val mod 2 ^ 32)] else gi_invalid_vals g),
          gi_valid_probs = (if opt_random_random (w_opts w) \<and> val \<noteq> 0
             then gi_valid_probs g @ [pname] else gi_valid_probs g)\<rparr> w1 = Some (g', w')"
    by (auto simp: bind_eq_Some_conv Let_def)
  have "group_keys_ok (map_put pname \<lparr>se_sname = sname, se_pname = pname, se_default_val = dv,
      se_val = val\<rparr> (gi_probs g))"
    using "2.prems"(2) by (rule group_keys_map_put) simp
  with "2.IH" s r show ?case by (auto simp: Let_def)
qed simp

lemma Group_random_inv:
  "Group_get_random_single_prob eq v bad w = Some (r, w') \<Longrightarrow> rnd_inv c w \<Longrightarrow> rnd_inv c w'"
  by (auto simp: Group_get_random_single_prob_def split: if_splits
      dest: rnd.upto_keeps [rotated 2] rnd.flip_keeps [rotated 2])

lemma Group_loop_inv:
  "Group_initialize_loop eq P pairs g w = Some (g', w') \<Longrightarrow> rnd_inv c w \<Longrightarrow> rnd_inv c w'"
proof (induction eq P pairs g w arbitrary: g' w' rule: Group_initialize_loop.induct)
  case (2 eq P pname dv pairs g w)
  from "2.prems"(1) obtain val w1 sname gg where
    s: "(if opt_random_random (w_opts w)
                     then Group_get_random_single_prob eq dv (gi_invalid_vals g) w
                     else Some (dv, w)) = Some (val, w1)"
       "get_sname P pname = Some sname" "dv \<ge> 0 \<and> dv \<le> 100"
       "opt_random_random (w_opts w) \<longrightarrow> val \<noteq> 100" and
    r: "Group_initialize_loop eq P pairs
         \<lparr>gi_probs = map_put pname \<lparr>se_sname = sname, se_pname = pname, se_default_val = dv,
             se_val = val\<rparr> (gi_probs g),
          gi_invalid_vals = (if opt_random_random (w_opts w) \<and> val \<noteq> 0
             then gi_invalid_vals g @ [nat (val mod 2 ^ 32)] else gi_invalid_vals g),
          gi_valid_probs = (if opt_random_random (w_opts w) \<and> val \<noteq> 0
             then gi_valid_probs g @ [pname] else gi_valid_probs g)\<rparr> w1 = Some (g', w')"
    by (auto simp: bind_eq_Some_conv Let_def)
  from s(1) "2.prems"(2) have "rnd_inv c w1" by (auto split: if_splits dest: Group_random_inv)
  with "2.IH" s r show ?case by (auto simp: Let_def)
qed simp

text \<open>Without \<open>--random-random\<close> the loop files every default under its name.\<close>

lemma Group_loop_defaults:
  "Group_initialize_loop eq P pairs g w = Some (g', w') \<Longrightarrow> \<not> opt_random_random (w_opts w) \<Longrightarrow>
     distinct (map fst pairs) \<Longrightarrow>
     w' = w \<and> (\<forall>(p, v) \<in> set pairs. \<exists>e. (p, e) \<in> set (gi_probs g') \<and> se_val e = v) \<and>
     (\<forall>(p, e) \<in> set (gi_probs g). p \<notin> fst ` set pairs \<longrightarrow> (p, e) \<in> set (gi_probs g'))"
proof (induction pairs arbitrary: g)
  case (Cons pv pairs)
  obtain pname dv where pv: "pv = (pname, dv)" by fastforce
  from Cons.prems(1,2) pv obtain sname where
    s: "get_sname P pname = Some sname" "dv \<ge> 0 \<and> dv \<le> 100" and
    r: "Group_initialize_loop eq P pairs
         \<lparr>gi_probs = map_put pname \<lparr>se_sname = sname, se_pname = pname, se_default_val = dv,
             se_val = dv\<rparr> (gi_probs g), gi_invalid_vals = gi_invalid_vals g,
          gi_valid_probs = gi_valid_probs g\<rparr> w = Some (g', w')"
    by (auto simp: bind_eq_Some_conv Let_def)
  let ?e = "\<lparr>se_sname = sname, se_pname = pname, se_default_val = dv, se_val = dv\<rparr>"
  have ih: "w' = w \<and> (\<forall>(p, v) \<in> set pairs. \<exists>e. (p, e) \<in> set (gi_probs g') \<and> se_val e = v) \<and>
     (\<forall>(p, e) \<in> set (map_put pname ?e (gi_probs g)). p \<notin> fst ` set pairs \<longrightarrow> (p, e) \<in> set (gi_probs g'))"
    using Cons.IH [OF r] Cons.prems(2,3) by simp
  moreover have "pname \<notin> fst ` set pairs" using Cons.prems(3) pv by simp
  then have "(pname, ?e) \<in> set (gi_probs g')" using ih in_map_put [of pname ?e "gi_probs g"] by auto
  moreover have "(p, e) \<in> set (gi_probs g')"
    if "(p, e) \<in> set (gi_probs g)" "p \<notin> fst ` set ((pname, dv) # pairs)" for p e
  proof -
    from that have "(p, e) \<in> set (map_put pname ?e (gi_probs g))" by (intro map_put_other) auto
    with ih that(2) show ?thesis by auto
  qed
  ultimately show ?case using ih pv by fastforce
qed simp

lemma set_prob_table_total:
  "group_keys_ok es \<Longrightarrow> \<exists>t'. Group_set_prob_table_loop es t = Some t' \<and>
     t' = foldl (\<lambda>p (k, v). add_elem k v p) t
            (map (\<lambda>(p, e). (nat (se_val e), p)) (filter (\<lambda>(p, e). se_val e > 0) es))"
  by (induction es t rule: Group_set_prob_table_loop.induct)
    (auto simp: group_keys_ok_def Single_get_prob_def)


text \<open>A registry that knows the group of statements and its last element.\<close>

definition statement_names :: "unit Probabilities" where
  "statement_names = set_single_name ''statement_prob'' pStatementProb
     (set_single_name_type ''statement_assign_prob'' pAssignProb 0 Probabilities_empty)"


section \<open>Single probabilities\<close>

lemma set_map_of_pairs: "set (map_of_pairs kvs) \<subseteq> set kvs"
proof -
  have "set (foldl (\<lambda>m (k, v). map_put k v m) m kvs) \<subseteq> set m \<union> set kvs" for m
  proof (induction kvs arbitrary: m)
    case (Cons kv kvs)
    obtain k v where kv: "kv = (k, v)" by fastforce
    from Cons [of "map_put k v m"] set_map_put [of k v m] kv show ?case by auto
  qed simp
  from this [of "[]"] show ?thesis by (simp add: map_of_pairs_def)
qed

lemma distinct_map_of_pairs: "distinct (map fst (map_of_pairs kvs))"
proof -
  have "sorted (map fst m) \<and> distinct (map fst m) \<Longrightarrow>
      sorted (map fst (foldl (\<lambda>m (k, v). map_put k v m) m kvs)) \<and>
      distinct (map fst (foldl (\<lambda>m (k, v). map_put k v m) m kvs))" for m
  proof (induction kvs arbitrary: m)
    case (Cons kv kvs)
    with map_put_sorted [of m "fst kv" "snd kv"] show ?case by (simp add: split_beta)
  qed simp
  from this [of "[]"] show ?thesis by (simp add: map_of_pairs_def)
qed

lemma initialize_single_loop_defaults:
  assumes "\<not> opt_random_random (w_opts w)"
    and "\<forall>(p, v) \<in> set m. 0 \<le> v \<and> v \<le> 100 \<and> get_sname P p \<noteq> None" "distinct (map fst m)"
  shows "\<exists>P'. initialize_single_loop m P w = Some (P', w) \<and>
     (\<forall>p. p \<notin> fst ` set m \<longrightarrow> map_of (pb_probabilities P') p = map_of (pb_probabilities P) p) \<and>
     (\<forall>(p, v) \<in> set m. get_prob P' p = Some (nat v))"
  using assms
proof (induction m arbitrary: P)
  case (Cons pv m)
  obtain p v where pv: "pv = (p, v)" by fastforce
  with Cons.prems(2) obtain sname where v: "0 \<le> v" "v \<le> 100" "get_sname P p = Some sname" by auto
  let ?e = "Single \<lparr>se_sname = sname, se_pname = p, se_default_val = v, se_val = v\<rparr>"
  let ?P = "P\<lparr>pb_probabilities := map_put p ?e (pb_probabilities P)\<rparr>"
  have "\<forall>(q, u) \<in> set m. 0 \<le> u \<and> u \<le> 100 \<and> get_sname ?P q \<noteq> None"
    using Cons.prems(2) by (auto simp: get_sname_def)
  with Cons.IH [of ?P] Cons.prems(1,3) obtain P' where
    P': "initialize_single_loop m ?P w = Some (P', w)"
      "\<forall>q. q \<notin> fst ` set m \<longrightarrow> map_of (pb_probabilities P') q = map_of (pb_probabilities ?P) q"
      "\<forall>(q, u) \<in> set m. get_prob P' q = Some (nat u)" by auto
  have np: "p \<notin> fst ` set m" using Cons.prems(3) pv by simp
  with P'(2) have "map_of (pb_probabilities P') p = Some ?e" by simp
  then have "get_prob P' p = Some (nat v)"
    using v by (simp add: get_prob_def elem_get_prob_def Single_get_prob_def)
  moreover have "initialize_single_loop (pv # m) P w = Some (P', w)"
    using P'(1) v pv Cons.prems(1) by (simp add: Let_def)
  ultimately show ?case using P'(2,3) pv by auto
qed simp

lemma fold_single_names_known:
  "get_sname P p \<noteq> None \<or> p \<in> snd ` set xs \<Longrightarrow>
     get_sname (foldl (\<lambda>P (s, q). set_single_name s q P) P xs) p \<noteq> None"
proof (induction xs arbitrary: P)
  case (Cons x xs)
  obtain s q where "x = (s, q)" by fastforce
  with Cons show ?case by (auto simp: set_single_name_def get_sname_def)
qed simp

lemma set_single_name_maps_known:
  "p \<in> snd ` set single_names \<Longrightarrow> get_sname (set_single_name_maps P) p \<noteq> None"
  unfolding set_single_name_maps_def by (rule fold_single_names_known) simp

lemma single_defaults_subset: "set (single_prob_defaults c) \<subseteq> set (single_prob_pairs c)"
  unfolding single_prob_defaults_def by (rule set_map_of_pairs)

lemma named_values: "snd ` set single_names =
    {0, Suc 0, 3, 4, 5, 2, 6, 7, 8, 9, 10, 11, 12, 13, 14, 15, 16, 17, 18, 19, 20, 21, 22, 23, 24, 25,
     37, 53, 58, 77, 92, 97, 98, 99, 100, 101}"
  by (simp add: single_names_def prob_names)

lemma single_pairs_named: "\<forall>x \<in> set (single_prob_pairs c). fst x \<in> snd ` set single_names"
  unfolding single_prob_pairs_def by (simp add: named_values prob_names)

lemma single_pairs_range:
  assumes "options_sane c"
  shows "\<forall>x \<in> set (single_prob_pairs c). 0 \<le> snd x \<and> snd x \<le> 100"
  using assms unfolding single_prob_pairs_def list.set options_sane_def
  by (simp only: ball_simps snd_conv) simp

text \<open>
  C0: with options that \<open>has_conflict\<close> accepted, and without \<open>--random-random\<close>, the initialisation
  of the single probabilities does not abort, and \<open>get_prob\<close> then answers for each of them with the
  default of the options.
\<close>

theorem single_probs_are_defaults:
  assumes "options_sane (w_opts w)" "\<not> opt_random_random (w_opts w)"
  shows "\<exists>P. initialize_single_probs (set_single_name_maps Probabilities_empty) w = Some (P, w) \<and>
     (\<forall>(p, v) \<in> set (single_prob_defaults (w_opts w)). get_prob P p = Some (nat v))"
proof -
  have "\<forall>x \<in> set (single_prob_defaults (w_opts w)). 0 \<le> snd x \<and> snd x \<le> 100 \<and>
      get_sname (set_single_name_maps Probabilities_empty) (fst x) \<noteq> None"
  proof (rule ballI)
    fix x
    assume "x \<in> set (single_prob_defaults (w_opts w))"
    then have x: "x \<in> set (single_prob_pairs (w_opts w))" using single_defaults_subset by blast
    from bspec [OF single_pairs_range [OF assms(1)] x] bspec [OF single_pairs_named x]
    show "0 \<le> snd x \<and> snd x \<le> 100 \<and>
      get_sname (set_single_name_maps Probabilities_empty) (fst x) \<noteq> None"
      using set_single_name_maps_known by blast
  qed
  then have "\<forall>(p, v) \<in> set (single_prob_defaults (w_opts w)). 0 \<le> v \<and> v \<le> 100 \<and>
      get_sname (set_single_name_maps Probabilities_empty) p \<noteq> None" by (simp add: split_beta)
  from initialize_single_loop_defaults [OF assms(2) this] show ?thesis
    by (auto simp: initialize_single_probs_def single_prob_defaults_def distinct_map_of_pairs)
qed

text \<open>
  C0: a single probability written by \<open>dump_val\<close> is read back by \<open>parse_line\<close>: the registry then
  answers \<open>get_prob\<close> with the value dumped, whatever it held before.
\<close>

theorem single_config_roundtrip:
  assumes "map_of (pb_probabilities P) p = Some (Single e0)" "se_pname e0 = p"
    and "pb_sname_to_pname P (se_sname e) = Some p" "0 \<le> se_val e" "se_val e \<le> 100" "p \<noteq> pVoidProb"
    and "se_sname e \<noteq> []" "CHR ''='' \<notin> set (se_sname e)"
    and "hd (se_sname e) \<notin> set [CHR '' '', CHR 0x09, CHR 0x0A, CHR 0x00, CHR ''#'', CHR ''['', CHR ''('']"
  shows "\<exists>P'. parse_line (Single_dump_val e) P = Some (True, [], P') \<and>
     get_prob P' p = Some (nat (se_val e))"
proof -
  let ?l = "Single_dump_val e"
  obtain c r where cr: "se_sname e = c # r" using assms(7) by (cases "se_sname e") auto
  have sp: "\<not> is_space c" using assms(9) cr by (simp add: is_space_def)
  have l: "?l = join_with (CHR ''='') [se_sname e, int2str (se_val e)]"
    by (simp add: Single_dump_val_def)
  have "CHR ''='' \<notin> set (int2str (se_val e))"
    by (auto simp: plain_digit_def dest!: int2str_chars)
  then have split: "split_string_char ?l (CHR ''='') = [se_sname e, int2str (se_val e)]"
    unfolding l split_string_char_pieces
    by (intro pieces_join) (use assms(7,8) sp cr int2str_first(3) int2str_not_space in auto)
  have "ignore_spaces ?l 0 = 0" using sp cr by (simp add: ignore_spaces_takeWhile Single_dump_val_def)
  then have first: "first_nonspace_char ?l = c"
    using cr by (simp add: first_nonspace_char_def Single_dump_val_def)
  have num: "str2int (int2str (se_val e)) = Some (se_val e)"
    by (rule str2int_int2str_inverse) (use assms(4,5) in \<open>simp_all add: int_min_def int_max_def\<close>)
  let ?P = "P\<lparr>pb_probabilities := map_put p (Single (e0\<lparr>se_val := se_val e\<rparr>)) (pb_probabilities P)\<rparr>"
  have "parse_line ?l P = Some (True, [], ?P)"
    using first assms cr num split
    by (simp add: parse_line_def parse_single_probability_def VAL_ASSERT_def get_pname_def
        elem_set_prob_def Single_set_prob_def)
  moreover have "get_prob ?P p = Some (nat (se_val e))"
    using assms(2,4,5) by (simp add: get_prob_def elem_get_prob_def Single_get_prob_def)
  ultimately show ?thesis by blast
qed

theorem single_probs_are_defaults_witness:
  "\<exists>P w. initialize_single_probs (set_single_name_maps Probabilities_empty)
     (example_world rDefaultRndNumGenerator\<lparr>w_opts := os_opts (default_state 4 8)
        \<lparr>opt_split_files_dir := ''./output''\<rparr>\<rparr>) = Some (P, w) \<and> get_prob P pRegularConstProb = Some 10"
proof -
  let ?c = "os_opts (default_state 4 8)\<lparr>opt_split_files_dir := ''./output''\<rparr>"
  let ?w = "example_world rDefaultRndNumGenerator\<lparr>w_opts := ?c\<rparr>"
  have c: "opt_consts ?c" "\<not> opt_random_random ?c" "options_sane ?c"
    by (simp_all add: default_state_def set_default_settings_def set_platform_specific_options_def
        CGOptions_static_def set_default_builtin_kinds_def options_sane_def has_extension_support_def)
  have "(pRegularConstProb, 10) \<in> set (single_prob_defaults ?c)"
    using c(1) by (simp add: single_prob_defaults_def single_prob_pairs_def map_of_pairs_def prob_names)
  with single_probs_are_defaults [of ?w] c show ?thesis by fastforce
qed

theorem single_config_roundtrip_witness:
  "\<exists>P P'. parse_line ''inline_function_prob=35'' P = Some (True, [], P') \<and>
     get_prob P' pInlineFunctionProb = Some 35"
proof -
  let ?e = "\<lparr>se_sname = ''inline_function_prob'', se_pname = pInlineFunctionProb, se_default_val = 50,
      se_val = 35\<rparr>"
  let ?P = "Probabilities_empty\<lparr>pb_sname_to_pname := [''inline_function_prob'' \<mapsto> pInlineFunctionProb],
      pb_probabilities := [(pInlineFunctionProb, Single (?e\<lparr>se_val := 50\<rparr>))]\<rparr>"
  have "Single_dump_val ?e = ''inline_function_prob=35''"
    by (simp add: Single_dump_val_def int2str_def digits10.simps char_of_def bit_0)
  with single_config_roundtrip [of ?P pInlineFunctionProb "?e\<lparr>se_val := 50\<rparr>" ?e] show ?thesis
    by (auto simp: prob_names)
qed

end
