(* ===== verification/DepthSpec.thy ===== *)
theory DepthSpec
  imports RandomGen Enums
begin

text \<open>
  The depth specification of the exhaustive mode (\<open>DepthSpec.cpp\<close>): how many choices each
  construct of a program needs at least, and the guards that give up a construct when fewer choices
  are left.  A getter \<open><type>_minimal_depth(int flag)\<close> is the function of the same name; the
  options are an argument where the getter reads them.  The guards run on the search of
  \<open>RandomGen\<close>.
\<close>

section \<open>The kinds of constructs\<close>

datatype dType =
    dtFirstFunction | dtFunction | dtBlock | dtStatement | dtStatementAssign | dtStatementFor
  | dtStatementIf | dtStatementExpr | dtStatementReturn | dtFunctionInvocationUnary
  | dtFunctionInvocationBinary | dtFunctionInvocationRandomUnary
  | dtFunctionInvocationRandomRegularBinary | dtFunctionInvocationRandomBinaryPointer
  | dtFunctionInvocationRandomBinary | dtFunctionInvocationRandom | dtFunctionInvocationStdFunc
  | dtFunctionUserBuildInvocation | dtExpression | dtExpressionRandomParam | dtExpressionFuncall
  | dtExpressionVariable | dtLhs | dtReturnType | dtRandomTypeFromType | dtFunctionGenerateBody
  | dtGenerateParamList | dtTypeChooseSimple | dtSelectLValue | dtSelectVariable
  | dtSelectDerefPointer | dtSelectExistingVariable | dtInitVariable | dtSelectGlobal
  | dtGenerateNewGlobal | dtSelectParentLocal | dtGenerateNewParentLocal | dtGenerateNewVariable
  | dtInitPointerValue | dtSafeOpFlags

definition GOOD_DEPTH :: int where "GOOD_DEPTH = 0"
definition BAD_DEPTH :: int where "BAD_DEPTH = - 1"
definition ATOMIC_DEPTH_INCR :: int where "ATOMIC_DEPTH_INCR = 1"

text \<open>The scope of a variable that is not chosen yet (\<open>VariableSelector.h\<close>), and the kinds of
  wrapped operations (\<open>SafeOpFlags.h\<close>).\<close>

datatype eVariableScope = eGlobal | eParentLocal | eParentParam | eNewValue | MAX_VAR_SCOPE

primrec var_scope_num :: "eVariableScope \<Rightarrow> int" where
  "var_scope_num eGlobal = 0"
| "var_scope_num eParentLocal = 1"
| "var_scope_num eParentParam = 2"
| "var_scope_num eNewValue = 3"
| "var_scope_num MAX_VAR_SCOPE = 4"

datatype SafeOpKind = sOpUnary | sOpBinary | sOpAssign

primrec safe_op_kind_num :: "SafeOpKind \<Rightarrow> int" where
  "safe_op_kind_num sOpUnary = 0"
| "safe_op_kind_num sOpBinary = 1"
| "safe_op_kind_num sOpAssign = 2"

text \<open>\<open>MAX_TERM_TYPES\<close> is \<open>eCommaExpr + 1\<close>, the number of \<open>eLhs\<close>.\<close>

definition MAX_TERM_TYPES :: int where "MAX_TERM_TYPES = int (term_type_num eLhs)"

section \<open>Minimal depths\<close>

text \<open>The atomic defaults and their getters.\<close>

definition dtVariableSelection_minimal_depth :: "int \<Rightarrow> int" where
  "dtVariableSelection_minimal_depth flag = 1"

definition dtLoopControl_minimal_depth :: "int \<Rightarrow> int" where
  "dtLoopControl_minimal_depth flag = 3"

definition dtTypeNonVoidSimple_minimal_depth :: "int \<Rightarrow> int" where
  "dtTypeNonVoidSimple_minimal_depth flag = 1"

definition dtTypeChooseRandom_minimal_depth :: "int \<Rightarrow> int" where
  "dtTypeChooseRandom_minimal_depth flag = 1"

definition dtChooseRandomPointerType_minimal_depth :: "int \<Rightarrow> int" where
  "dtChooseRandomPointerType_minimal_depth flag = 1"

definition dtConstant_minimal_depth :: "int \<Rightarrow> int" where
  "dtConstant_minimal_depth flag = 0"

definition dtInitVariable_minimal_depth :: "int \<Rightarrow> int" where
  "dtInitVariable_minimal_depth flag = 1"

text \<open>The getters of their own, in an order that defines before use; \<open>no_flag\<close> is the default
  argument -1.\<close>

definition no_flag :: int where "no_flag = - 1"

definition dtSafeOpFlags_minimal_depth :: "int \<Rightarrow> int" where
  "dtSafeOpFlags_minimal_depth flag = (if flag = safe_op_kind_num sOpBinary then 2 else 3)"

definition dtSelectVariable_minimal_depth :: "int \<Rightarrow> int" where
  "dtSelectVariable_minimal_depth flag =
     (if flag = var_scope_num MAX_VAR_SCOPE then dtVariableSelection_minimal_depth flag + 1
      else dtVariableSelection_minimal_depth flag)"

definition dtSelectLValue_minimal_depth :: "int \<Rightarrow> int" where
  "dtSelectLValue_minimal_depth flag = dtSelectVariable_minimal_depth flag"

definition dtSelectDerefPointer_minimal_depth :: "int \<Rightarrow> int" where
  "dtSelectDerefPointer_minimal_depth flag = 0"

definition dtSelectExistingVariable_minimal_depth :: "int \<Rightarrow> int" where
  "dtSelectExistingVariable_minimal_depth flag = dtVariableSelection_minimal_depth flag"

definition dtExpressionVariable_minimal_depth :: "int \<Rightarrow> int" where
  "dtExpressionVariable_minimal_depth flag = dtSelectVariable_minimal_depth no_flag"

definition dtStatementReturn_minimal_depth :: "int \<Rightarrow> int" where
  "dtStatementReturn_minimal_depth flag = dtExpressionVariable_minimal_depth no_flag"

text \<open>\<open>dtStatement_minimal_depth_\<close>, with a trailing underscore.\<close>

definition dtStatement_depth :: "int \<Rightarrow> int" where
  "dtStatement_depth flag = dtStatementReturn_minimal_depth no_flag + 1"

definition dtBlock_minimal_depth :: "int \<Rightarrow> int" where
  "dtBlock_minimal_depth flag = dtStatement_depth 0 + 1"

definition dtStatement_minimal_depth :: "int \<Rightarrow> int" where
  "dtStatement_minimal_depth flag =
     (if flag = int (statement_num MAX_STATEMENT_TYPE) then dtStatement_depth 0 + 1
      else dtStatement_depth 0)"

definition dtFunctionGenerateBody_minimal_depth :: "int \<Rightarrow> int" where
  "dtFunctionGenerateBody_minimal_depth flag = dtBlock_minimal_depth no_flag"

definition dtGenerateParamList_minimal_depth :: "int \<Rightarrow> int" where
  "dtGenerateParamList_minimal_depth flag = ATOMIC_DEPTH_INCR + dtSelectVariable_minimal_depth no_flag"

text \<open>\<open>dtFunction_minimal_depth_\<close>, with a trailing underscore.\<close>

definition dtFunction_depth :: "int \<Rightarrow> int" where
  "dtFunction_depth flag =
     dtGenerateParamList_minimal_depth no_flag + dtFunctionGenerateBody_minimal_depth no_flag"

definition dtFunction_minimal_depth :: "int \<Rightarrow> int" where
  "dtFunction_minimal_depth flag = dtFunction_depth 0"

definition dtReturnType_minimal_depth :: "int \<Rightarrow> int" where
  "dtReturnType_minimal_depth flag = dtTypeChooseRandom_minimal_depth no_flag"

definition dtFirstFunction_minimal_depth :: "int \<Rightarrow> int" where
  "dtFirstFunction_minimal_depth flag =
     dtReturnType_minimal_depth no_flag + dtFunctionGenerateBody_minimal_depth no_flag"

definition dtRandomTypeFromType_minimal_depth :: "int \<Rightarrow> int" where
  "dtRandomTypeFromType_minimal_depth flag = dtTypeChooseRandom_minimal_depth no_flag"

definition dtTypeChooseSimple_minimal_depth :: "int \<Rightarrow> int" where
  "dtTypeChooseSimple_minimal_depth flag = dtTypeNonVoidSimple_minimal_depth flag"

definition dtLhs_minimal_depth :: "int \<Rightarrow> int" where
  "dtLhs_minimal_depth flag = 1"

definition dtExpressionRandomParam_minimal_depth :: "int \<Rightarrow> int" where
  "dtExpressionRandomParam_minimal_depth flag =
     (let rv = dtConstant_minimal_depth flag in if flag = MAX_TERM_TYPES then rv + 1 else rv)"

definition dtExpression_minimal_depth :: "int \<Rightarrow> int" where
  "dtExpression_minimal_depth flag =
     (let rv = dtConstant_minimal_depth flag in if flag = MAX_TERM_TYPES then rv + 1 else rv)"

definition dtFunctionInvocationUnary_minimal_depth :: "int \<Rightarrow> int" where
  "dtFunctionInvocationUnary_minimal_depth flag = dtSafeOpFlags_minimal_depth no_flag"

definition dtFunctionInvocationBinary_minimal_depth :: "int \<Rightarrow> int" where
  "dtFunctionInvocationBinary_minimal_depth flag = dtSafeOpFlags_minimal_depth no_flag"

definition dtFunctionInvocationRandomUnary_minimal_depth :: "int \<Rightarrow> int" where
  "dtFunctionInvocationRandomUnary_minimal_depth flag =
     ATOMIC_DEPTH_INCR + dtSafeOpFlags_minimal_depth no_flag + dtExpression_minimal_depth no_flag"

definition dtFunctionInvocationRandomRegularBinary_minimal_depth :: "int \<Rightarrow> int" where
  "dtFunctionInvocationRandomRegularBinary_minimal_depth flag =
     ATOMIC_DEPTH_INCR + dtSafeOpFlags_minimal_depth no_flag + 2 * dtExpression_minimal_depth no_flag"

definition dtFunctionInvocationRandomBinaryPointer_minimal_depth :: "int \<Rightarrow> int" where
  "dtFunctionInvocationRandomBinaryPointer_minimal_depth flag =
     1 + dtSafeOpFlags_minimal_depth no_flag + dtChooseRandomPointerType_minimal_depth no_flag
     + 2 * dtExpression_minimal_depth no_flag"

definition dtFunctionInvocationRandomBinary_minimal_depth :: "int \<Rightarrow> int" where
  "dtFunctionInvocationRandomBinary_minimal_depth flag =
     1 + min (dtFunctionInvocationRandomRegularBinary_minimal_depth no_flag)
             (dtFunctionInvocationRandomBinaryPointer_minimal_depth no_flag)"

definition dtFunctionUserBuildInvocation_minimal_depth :: "int \<Rightarrow> int" where
  "dtFunctionUserBuildInvocation_minimal_depth flag = dtExpressionRandomParam_minimal_depth flag"

definition dtFunctionInvocationStdFunc_minimal_depth :: "int \<Rightarrow> int" where
  "dtFunctionInvocationStdFunc_minimal_depth flag =
     min (dtFunctionInvocationRandomUnary_minimal_depth no_flag)
         (dtFunctionInvocationRandomBinary_minimal_depth no_flag) + 1"

definition dtFunctionInvocationRandom_minimal_depth :: "int \<Rightarrow> int" where
  "dtFunctionInvocationRandom_minimal_depth flag =
     min (min (dtFunctionInvocationRandomUnary_minimal_depth no_flag)
              (dtFunctionInvocationRandomBinary_minimal_depth no_flag))
         (dtFunctionUserBuildInvocation_minimal_depth no_flag)"

definition dtExpressionFuncall_minimal_depth :: "int \<Rightarrow> int" where
  "dtExpressionFuncall_minimal_depth flag = dtFunctionInvocationRandom_minimal_depth no_flag"

definition dtStatementExpr_minimal_depth :: "int \<Rightarrow> int" where
  "dtStatementExpr_minimal_depth flag = dtFunctionInvocationRandom_minimal_depth no_flag"

definition dtStatementIf_minimal_depth :: "int \<Rightarrow> int" where
  "dtStatementIf_minimal_depth flag =
     dtExpression_minimal_depth no_flag + 2 * dtBlock_minimal_depth no_flag"

definition dtStatementFor_minimal_depth :: "int \<Rightarrow> int" where
  "dtStatementFor_minimal_depth flag =
     dtSelectLValue_minimal_depth no_flag + dtLoopControl_minimal_depth no_flag
     + dtSafeOpFlags_minimal_depth no_flag + dtFunctionInvocationBinary_minimal_depth no_flag
     + dtSafeOpFlags_minimal_depth no_flag + ATOMIC_DEPTH_INCR + dtBlock_minimal_depth no_flag"

definition dtStatementAssign_minimal_depth :: "CGOptions \<Rightarrow> int \<Rightarrow> int" where
  "dtStatementAssign_minimal_depth c flag =
     dtSelectLValue_minimal_depth no_flag + dtExpression_minimal_depth no_flag
     + dtLhs_minimal_depth no_flag + dtSafeOpFlags_minimal_depth no_flag
     + (if opt_compound_assignment c then 1 else 0)"

definition dtSelectGlobal_minimal_depth :: "int \<Rightarrow> int" where
  "dtSelectGlobal_minimal_depth flag =
     dtInitVariable_minimal_depth flag + dtInitVariable_minimal_depth flag"

definition dtGenerateNewGlobal_minimal_depth :: "int \<Rightarrow> int" where
  "dtGenerateNewGlobal_minimal_depth flag = 1 + dtInitVariable_minimal_depth flag"

definition dtSelectParentLocal_minimal_depth :: "int \<Rightarrow> int" where
  "dtSelectParentLocal_minimal_depth flag = 1 + dtRandomTypeFromType_minimal_depth flag"

definition dtGenerateNewParentLocal_minimal_depth :: "int \<Rightarrow> int" where
  "dtGenerateNewParentLocal_minimal_depth flag = 2 + dtInitVariable_minimal_depth flag"

definition cheaper_new_variable :: int where
  "cheaper_new_variable =
     (if dtGenerateNewParentLocal_minimal_depth no_flag \<le> dtGenerateNewGlobal_minimal_depth no_flag
      then dtGenerateNewParentLocal_minimal_depth no_flag
      else dtGenerateNewGlobal_minimal_depth no_flag)"

definition dtGenerateNewVariable_minimal_depth :: "int \<Rightarrow> int" where
  "dtGenerateNewVariable_minimal_depth flag = cheaper_new_variable + 1"

definition dtInitPointerValue_minimal_depth :: "int \<Rightarrow> int" where
  "dtInitPointerValue_minimal_depth flag =
     dtRandomTypeFromType_minimal_depth no_flag + cheaper_new_variable"

section \<open>The guards\<close>

text \<open>The \<open>switch\<close> of \<open>depth_guard_by_type\<close>: the two kinds without a case fail \<open>assert(0)\<close>.\<close>

definition minimal_depth :: "CGOptions \<Rightarrow> int \<Rightarrow> dType \<Rightarrow> int option" where
  "minimal_depth c flag ty = (case ty of
       dtFunction \<Rightarrow> Some (dtFunction_minimal_depth flag)
     | dtFirstFunction \<Rightarrow> Some (dtFirstFunction_minimal_depth flag)
     | dtBlock \<Rightarrow> Some (dtBlock_minimal_depth flag)
     | dtStatement \<Rightarrow> Some (dtStatement_minimal_depth flag)
     | dtStatementAssign \<Rightarrow> Some (dtStatementAssign_minimal_depth c flag)
     | dtStatementFor \<Rightarrow> Some (dtStatementFor_minimal_depth flag)
     | dtStatementIf \<Rightarrow> Some (dtStatementIf_minimal_depth flag)
     | dtStatementExpr \<Rightarrow> Some (dtStatementExpr_minimal_depth flag)
     | dtStatementReturn \<Rightarrow> Some (dtStatementReturn_minimal_depth flag)
     | dtFunctionInvocationUnary \<Rightarrow> Some (dtFunctionInvocationUnary_minimal_depth flag)
     | dtFunctionInvocationBinary \<Rightarrow> Some (dtFunctionInvocationBinary_minimal_depth flag)
     | dtFunctionInvocationRandomUnary \<Rightarrow> Some (dtFunctionInvocationRandomUnary_minimal_depth flag)
     | dtFunctionInvocationRandomBinary \<Rightarrow> Some (dtFunctionInvocationRandomBinary_minimal_depth flag)
     | dtFunctionInvocationRandom \<Rightarrow> Some (dtFunctionInvocationRandom_minimal_depth flag)
     | dtFunctionInvocationStdFunc \<Rightarrow> Some (dtFunctionInvocationStdFunc_minimal_depth flag)
     | dtFunctionUserBuildInvocation \<Rightarrow> Some (dtFunctionUserBuildInvocation_minimal_depth flag)
     | dtExpression \<Rightarrow> Some (dtExpression_minimal_depth flag)
     | dtExpressionRandomParam \<Rightarrow> Some (dtExpressionRandomParam_minimal_depth flag)
     | dtExpressionVariable \<Rightarrow> Some (dtExpressionVariable_minimal_depth flag)
     | dtExpressionFuncall \<Rightarrow> Some (dtExpressionFuncall_minimal_depth flag)
     | dtLhs \<Rightarrow> Some (dtLhs_minimal_depth flag)
     | dtReturnType \<Rightarrow> Some (dtReturnType_minimal_depth flag)
     | dtRandomTypeFromType \<Rightarrow> Some (dtRandomTypeFromType_minimal_depth flag)
     | dtFunctionGenerateBody \<Rightarrow> Some (dtFunctionGenerateBody_minimal_depth flag)
     | dtGenerateParamList \<Rightarrow> Some (dtGenerateParamList_minimal_depth flag)
     | dtTypeChooseSimple \<Rightarrow> Some (dtTypeChooseSimple_minimal_depth flag)
     | dtSelectLValue \<Rightarrow> Some (dtSelectLValue_minimal_depth flag)
     | dtSelectVariable \<Rightarrow> Some (dtSelectVariable_minimal_depth flag)
     | dtSelectDerefPointer \<Rightarrow> Some (dtSelectDerefPointer_minimal_depth flag)
     | dtSelectExistingVariable \<Rightarrow> Some (dtSelectExistingVariable_minimal_depth flag)
     | dtInitVariable \<Rightarrow> Some (dtInitVariable_minimal_depth flag)
     | dtSelectGlobal \<Rightarrow> Some (dtSelectGlobal_minimal_depth flag)
     | dtGenerateNewGlobal \<Rightarrow> Some (dtGenerateNewGlobal_minimal_depth flag)
     | dtSelectParentLocal \<Rightarrow> Some (dtSelectParentLocal_minimal_depth flag)
     | dtGenerateNewParentLocal \<Rightarrow> Some (dtGenerateNewParentLocal_minimal_depth flag)
     | dtGenerateNewVariable \<Rightarrow> Some (dtGenerateNewVariable_minimal_depth flag)
     | dtInitPointerValue \<Rightarrow> Some (dtInitPointerValue_minimal_depth flag)
     | dtSafeOpFlags \<Rightarrow> Some (dtSafeOpFlags_minimal_depth flag)
     | dtFunctionInvocationRandomRegularBinary \<Rightarrow> None
     | dtFunctionInvocationRandomBinaryPointer \<Rightarrow> None)"

text \<open>The cast to the depth first generator is null when the other generator is current.\<close>

definition backtracking :: "int \<Rightarrow> 'z world_scheme \<Rightarrow> (int \<times> 'z world_scheme) option" where
  "backtracking depth_needed w =
     (if w_curr w \<noteq> Some rDFSRndNumGenerator then None
      else do {
        (b, w1) \<leftarrow> eager_backtracking depth_needed w;
        Some (if b then BAD_DEPTH else GOOD_DEPTH, w1)
      })"

definition depth_guard_by_depth :: "int \<Rightarrow> 'z world_scheme \<Rightarrow> (int \<times> 'z world_scheme) option" where
  "depth_guard_by_depth depth_needed w =
     (if \<not> opt_dfs_exhaustive (w_opts w) then Some (GOOD_DEPTH, w) else backtracking depth_needed w)"

definition depth_guard_by_type :: "dType \<Rightarrow> int \<Rightarrow> 'z world_scheme \<Rightarrow> (int \<times> 'z world_scheme) option" where
  "depth_guard_by_type ty extra_flag w =
     (if \<not> opt_dfs_exhaustive (w_opts w) then Some (GOOD_DEPTH, w)
      else do {
        depth_needed \<leftarrow> minimal_depth (w_opts w) extra_flag ty;
        backtracking depth_needed w
      })"

section \<open>What a guard promises\<close>

text \<open>\<open>give_up d d'\<close>: the search state after a construct is abandoned at the current position.\<close>

definition give_up :: "dfs_gen \<Rightarrow> dfs_gen \<Rightarrow> bool" where
  "give_up d d' \<longleftrightarrow> df_current_pos d' = df_current_pos d
     \<and> df_decision_depth d' = min (df_decision_depth d) (df_current_pos d)
     \<and> df_all_done d' = df_all_done d"

lemma dfs_upd_states_in_range:
  assumes "w_dfs w = Some d" "0 \<le> a" "int (length (df_states d)) = max_exhaustive_depth w"
  shows "\<exists>ss. dfs_upd_states a g w = Some (dfs_mod (\<lambda>d. d\<lparr>df_states := ss\<rparr>) w)"
  using assms by (auto simp: dfs_upd_states_def upd_states_def)

lemma eager_backtracking_spec:
  assumes "w_dfs w = Some d" "0 < df_current_pos d"
    and "int (length (df_states d)) = max_exhaustive_depth w"
  shows "if k \<le> max_exhaustive_depth w - df_current_pos d
         then eager_backtracking k w = Some (False, w)
         else \<exists>w' d'. eager_backtracking k w = Some (True, w') \<and> w_err w' = BACKTRACKING_ERROR
                \<and> w_dfs w' = Some d' \<and> give_up d d'"
proof (cases "k \<le> max_exhaustive_depth w - df_current_pos d")
  case True
  with assms show ?thesis by (simp add: eager_backtracking_def)
next
  case no: False
  show ?thesis
  proof (cases "df_current_pos d > df_decision_depth d")
    case True
    with no assms show ?thesis by (auto simp: eager_backtracking_def give_up_def)
  next
    case False
    let ?w = "dfs_mod (\<lambda>d. d\<lparr>df_decision_depth := df_current_pos d\<rparr>) w"
    have "max_exhaustive_depth ?w = max_exhaustive_depth w" by (simp add: max_exhaustive_depth_def)
    with assms have "\<exists>ss. dfs_upd_states (df_current_pos d + 1) (\<lambda>s. s\<lparr>ss_init := False\<rparr>) ?w
        = Some (dfs_mod (\<lambda>d. d\<lparr>df_states := ss\<rparr>) ?w)"
      by (intro dfs_upd_states_in_range [where d = "d\<lparr>df_decision_depth := df_current_pos d\<rparr>"]) auto
    with no False assms show ?thesis by (auto simp: eager_backtracking_def give_up_def min_def)
  qed
qed



end
