(* ===== verification/Types.thy ===== *)
theory Types
  imports Options Enums
begin

text \<open>
  The type objects of the generator (\<open>Type.h\<close>) and every query on them (\<open>Type.cpp\<close>).  A \<open>Type\<close> is
  never changed after its construction, apart from the flags \<open>used\<close> and \<open>printed\<close> which the type
  environment keeps, so it is a value here: the scalar members are the record \<open>type_info\<close>, the
  pointee and the fields its children.  \<open>t_id\<close> is the address of the object: pointer equality
  \<open>this == t\<close> is \<open>same_type\<close>.  Accesses to \<open>qfers_[i]\<close> and \<open>bitfields_length_[i]\<close> carry their
  bounds obligation and the assertions of the code, so such queries have an option result.
\<close>

section \<open>Qualifiers of a type, and types\<close>

record CVQualifiers =
  wildcard :: bool
  accept_stricter :: bool
  is_consts :: "bool list"
  is_volatiles :: "bool list"

text \<open>\<open>is_const_after_deref\<close> and \<open>is_volatile_after_deref\<close>.\<close>

definition level_after_deref :: "bool list \<Rightarrow> int \<Rightarrow> bool option" where
  "level_after_deref bs deref_level =
     (if deref_level < 0 then Some False
      else do {
        assert_opt (length bs > nat deref_level);
        vec_get bs (length bs - nat deref_level - 1)
      })"

definition is_const_after_deref :: "CVQualifiers \<Rightarrow> int \<Rightarrow> bool option" where
  "is_const_after_deref q deref_level = level_after_deref (is_consts q) deref_level"

definition is_volatile_after_deref :: "CVQualifiers \<Rightarrow> int \<Rightarrow> bool option" where
  "is_volatile_after_deref q deref_level = level_after_deref (is_volatiles q) deref_level"

definition qfer_is_const :: "CVQualifiers \<Rightarrow> bool option" where
  "qfer_is_const q = is_const_after_deref q 0"

definition qfer_is_volatile :: "CVQualifiers \<Rightarrow> bool option" where
  "qfer_is_volatile q = is_volatile_after_deref q 0"

record type_info =
  ti_id :: nat
  ti_eType :: eTypeDesc
  ti_simple_type :: eSimpleType
  ti_sid :: nat
  ti_packed :: bool
  ti_assign_ops :: bool
  ti_implicit_assign_ops :: bool
  ti_qfers :: "CVQualifiers list"
  ti_bitfields_length :: "int list"
  ti_vector_length :: int

datatype Type = Type_obj (info: type_info) (ptr_type: "Type option") (fields: "Type list")

abbreviation t_id :: "Type \<Rightarrow> nat" where "t_id t \<equiv> ti_id (info t)"
abbreviation eType :: "Type \<Rightarrow> eTypeDesc" where "eType t \<equiv> ti_eType (info t)"
abbreviation simple_type :: "Type \<Rightarrow> eSimpleType" where "simple_type t \<equiv> ti_simple_type (info t)"
abbreviation packed :: "Type \<Rightarrow> bool" where "packed t \<equiv> ti_packed (info t)"
abbreviation qfers :: "Type \<Rightarrow> CVQualifiers list" where "qfers t \<equiv> ti_qfers (info t)"
abbreviation bitfields_length :: "Type \<Rightarrow> int list" where
  "bitfields_length t \<equiv> ti_bitfields_length (info t)"

definition same_type :: "Type \<Rightarrow> Type \<Rightarrow> bool" where
  "same_type a b \<longleftrightarrow> t_id a = t_id b"

lemma same_type_refl [simp]: "same_type t t"
  by (simp add: same_type_def)

text \<open>The constructors; \<open>a\<close> is the address of the new object.\<close>

definition plain_info :: "nat \<Rightarrow> eTypeDesc \<Rightarrow> eSimpleType \<Rightarrow> type_info" where
  "plain_info a d st = \<lparr>ti_id = a, ti_eType = d, ti_simple_type = st, ti_sid = 0, ti_packed = False,
     ti_assign_ops = False, ti_implicit_assign_ops = False, ti_qfers = [], ti_bitfields_length = [],
     ti_vector_length = 0\<rparr>"

definition Type_simple :: "nat \<Rightarrow> eSimpleType \<Rightarrow> Type" where
  "Type_simple a st = Type_obj (plain_info a eSimple st) None []"

definition Type_pointer :: "nat \<Rightarrow> Type \<Rightarrow> Type" where
  "Type_pointer a t = Type_obj (plain_info a ePointer MAX_SIMPLE_TYPES) (Some t) []"

definition Type_aggregate ::
    "nat \<Rightarrow> nat \<Rightarrow> Type list \<Rightarrow> bool \<Rightarrow> bool \<Rightarrow> CVQualifiers list \<Rightarrow> int list \<Rightarrow> bool \<Rightarrow> bool \<Rightarrow> Type" where
  "Type_aggregate a seq fs isStruct pk qs lens assign implicit =
     Type_obj (plain_info a (if isStruct then eStruct else eUnion) MAX_SIMPLE_TYPES
       \<lparr>ti_sid := seq, ti_packed := pk, ti_assign_ops := assign, ti_implicit_assign_ops := implicit,
        ti_qfers := qs, ti_bitfields_length := lens\<rparr>) None fs"

text \<open>What \<open>GenerateVectorTypes\<close> does to a new simple type.\<close>

definition Type_vector :: "nat \<Rightarrow> eSimpleType \<Rightarrow> int \<Rightarrow> Type" where
  "Type_vector a st len = Type_obj (plain_info a eVector st\<lparr>ti_vector_length := len\<rparr>) None []"

section \<open>Queries without obligations\<close>

definition is_aggregate :: "Type \<Rightarrow> bool" where
  "is_aggregate t \<longleftrightarrow> eType t = eStruct \<or> eType t = eUnion"

definition is_int :: "Type \<Rightarrow> bool" where
  "is_int t \<longleftrightarrow> eType t = eSimple \<and> simple_type t \<noteq> eVoid"

definition is_float :: "Type \<Rightarrow> bool" where
  "is_float t \<longleftrightarrow> eType t = eSimple \<and> simple_type t = eFloat"

definition is_long_long :: "Type \<Rightarrow> bool" where
  "is_long_long t \<longleftrightarrow> eType t = eSimple \<and> (simple_type t = eLongLong \<or> simple_type t = eULongLong)"

definition is_signed_char :: "Type \<Rightarrow> bool" where
  "is_signed_char t \<longleftrightarrow> eType t = eSimple \<and> simple_type t = eChar"

definition is_pointer_to_char :: "Type \<Rightarrow> bool" where
  "is_pointer_to_char t = (case ptr_type t of None \<Rightarrow> False
     | Some p \<Rightarrow> eType p = eSimple \<and> (simple_type p = eChar \<or> simple_type p = eUChar))"

fun has_int_field :: "Type \<Rightarrow> bool" where
  "has_int_field (Type_obj i p fs) =
     (is_int (Type_obj i p fs) \<or> (\<exists>f \<in> set fs. has_int_field f))"

fun get_indirect_level :: "Type \<Rightarrow> nat" where
  "get_indirect_level (Type_obj i None fs) = 0"
| "get_indirect_level (Type_obj i (Some p) fs) = Suc (get_indirect_level p)"

fun get_base_type :: "Type \<Rightarrow> Type" where
  "get_base_type (Type_obj i None fs) = Type_obj i None fs"
| "get_base_type (Type_obj i (Some p) fs) = get_base_type p"

text \<open>The maximum of the field depths starts at 0.\<close>

fun get_struct_depth :: "Type \<Rightarrow> int" where
  "get_struct_depth (Type_obj i p fs) =
     (if ti_eType i = eStruct then 1 + foldr max (map get_struct_depth fs) 0 else 0)"

fun contain_pointer_field :: "Type \<Rightarrow> bool" where
  "contain_pointer_field (Type_obj i p fs) =
     (ti_eType i = ePointer \<or>
      ((ti_eType i = eStruct \<or> ti_eType i = eUnion) \<and> (\<exists>f \<in> set fs. contain_pointer_field f)))"

definition is_signed :: "Type \<Rightarrow> bool" where
  "is_signed t =
     (if eType t = eVector \<or> eType t = eSimple
      then simple_type t \<notin> {eUChar, eUInt, eUShort, eULong, eULongLong, eUInt128}
      else False)"

definition is_full_bitfields_struct :: "Type \<Rightarrow> bool" where
  "is_full_bitfields_struct t \<longleftrightarrow> eType t = eStruct \<and> (\<forall>l \<in> set (bitfields_length t). 0 \<le> l)"

definition has_aggregate_field :: "Type list \<Rightarrow> bool" where
  "has_aggregate_field fs \<longleftrightarrow> (\<exists>f \<in> set fs. is_aggregate f)"

definition has_longlong_field :: "Type list \<Rightarrow> bool" where
  "has_longlong_field fs \<longleftrightarrow> (\<exists>f \<in> set fs. is_long_long f)"

text \<open>The first field with such operators decides, and has to be a struct or union.\<close>

definition checkImplicitNontrivialAssignOps :: "CGOptions \<Rightarrow> Type list \<Rightarrow> bool option" where
  "checkImplicitNontrivialAssignOps c fs =
     (if \<not> opt_lang_cpp c then Some False
      else any_opt (\<lambda>f. if ti_implicit_assign_ops (info f)
                        then do { assert_opt (is_aggregate f); Some True } else Some False) fs)"

definition is_promotable :: "Type \<Rightarrow> Type \<Rightarrow> bool" where
  "is_promotable this t =
     (if eType this = eSimple \<and> eType t = eSimple
      then let t2 = simple_type t in
        (case simple_type this of
           eChar \<Rightarrow> t2 \<noteq> eVoid
         | eUChar \<Rightarrow> t2 \<noteq> eVoid
         | eShort \<Rightarrow> t2 \<noteq> eVoid \<and> t2 \<noteq> eChar \<and> t2 \<noteq> eUChar
         | eUShort \<Rightarrow> t2 \<noteq> eVoid \<and> t2 \<noteq> eChar \<and> t2 \<noteq> eUChar
         | eInt \<Rightarrow> t2 \<noteq> eVoid \<and> t2 \<noteq> eChar \<and> t2 \<noteq> eUChar \<and> t2 \<noteq> eShort \<and> t2 \<noteq> eUShort
         | eUInt \<Rightarrow> t2 \<noteq> eVoid \<and> t2 \<noteq> eChar \<and> t2 \<noteq> eUChar \<and> t2 \<noteq> eShort \<and> t2 \<noteq> eUShort
         | eLong \<Rightarrow> t2 = eLong \<or> t2 = eULong \<or> t2 = eLongLong \<or> t2 = eULongLong
         | eULong \<Rightarrow> t2 = eLong \<or> t2 = eULong \<or> t2 = eLongLong \<or> t2 = eULongLong
         | eLongLong \<Rightarrow> t2 = eLongLong \<or> t2 = eULongLong
         | eULongLong \<Rightarrow> t2 = eLongLong \<or> t2 = eULongLong
         | eFloat \<Rightarrow> t2 \<noteq> eVoid
         | _ \<Rightarrow> False)
      else False)"

text \<open>The chain of pointees of a pointer type, nearest first.\<close>

fun pointees :: "Type \<Rightarrow> Type list" where
  "pointees (Type_obj i None fs) = []"
| "pointees (Type_obj i (Some p) fs) = p # pointees p"

definition is_dereferenced_from :: "Type \<Rightarrow> Type \<Rightarrow> bool" where
  "is_dereferenced_from this t \<longleftrightarrow> eType t = ePointer \<and> (\<exists>p \<in> set (pointees t). same_type p this)"

section \<open>Queries on the fields\<close>

definition is_unamed_padding :: "Type \<Rightarrow> nat \<Rightarrow> bool option" where
  "is_unamed_padding t index =
     (if length (bitfields_length t) = 0 then Some False
      else map_option (\<lambda>l. l = 0) (vec_get (bitfields_length t) index))"

definition is_bitfield :: "Type \<Rightarrow> nat \<Rightarrow> bool option" where
  "is_bitfield t index = map_option (\<lambda>l. 0 \<le> l) (vec_get (bitfields_length t) index)"

lemma field_smaller: "x \<in> set fs \<Longrightarrow> size x < Suc (n + size_list size fs)"
  by (rule le_imp_less_Suc, rule trans_le_add2, rule size_list_estimation') auto

lemma field_at_smaller [termination_simp]:
  "(k, x) \<in> set (enumerate m fs) \<Longrightarrow> size x < Suc (n + size_list size fs)"
  by (rule field_smaller) (auto simp: in_set_enumerate_eq)

lemma field_zip_smaller [termination_simp]:
  "(x, y) \<in> set (zip fs qs) \<Longrightarrow> size x < Suc (n + size_list size fs)"
  by (rule field_smaller) (auto dest: set_zip_leftD)

fun is_const_struct_union :: "Type \<Rightarrow> bool option" where
  "is_const_struct_union (Type_obj i p fs) =
     (if \<not> is_aggregate (Type_obj i p fs) then Some False
      else do {
        assert_opt (length fs = length (ti_qfers i));
        any_opt (\<lambda>(f, cf). do {
            b \<leftarrow> is_const_struct_union f;
            if b then Some True else qfer_is_const cf
          }) (zip fs (ti_qfers i))
      })"

fun is_volatile_struct_union :: "Type \<Rightarrow> bool option" where
  "is_volatile_struct_union (Type_obj i p fs) =
     (if \<not> is_aggregate (Type_obj i p fs) then Some False
      else do {
        assert_opt (length fs = length (ti_qfers i));
        any_opt (\<lambda>(f, cf). do {
            b \<leftarrow> is_volatile_struct_union f;
            if b then Some True else qfer_is_volatile cf
          }) (zip fs (ti_qfers i))
      })"

fun has_bitfields :: "Type \<Rightarrow> bool option" where
  "has_bitfields (Type_obj i p fs) =
     any_opt (\<lambda>(k, f). do {
         l \<leftarrow> vec_get (ti_bitfields_length i) k;
         if 0 \<le> l then Some True
         else if eType f = eStruct then has_bitfields f else Some False
       }) (enumerate 0 fs)"

fun has_padding :: "Type \<Rightarrow> bool option" where
  "has_padding (Type_obj i p fs) =
     (if ti_eType i = eStruct \<and> \<not> ti_packed i then Some True
      else any_opt (\<lambda>(k, f). do {
          b \<leftarrow> is_bitfield (Type_obj i p fs) k;
          if b then Some True else has_padding f
        }) (enumerate 0 fs))"

section \<open>Sizes\<close>

definition SIZE_UNKNOWN :: nat where "SIZE_UNKNOWN = 0xFFFF"

primrec simple_size :: "eSimpleType \<Rightarrow> nat" where
  "simple_size eVoid = 0"
| "simple_size eChar = 1"
| "simple_size eInt = 4"
| "simple_size eShort = 2"
| "simple_size eLong = 4"
| "simple_size eLongLong = 8"
| "simple_size eUChar = 1"
| "simple_size eUInt = 4"
| "simple_size eUShort = 2"
| "simple_size eULong = 4"
| "simple_size eFloat = 4"
| "simple_size eULongLong = 8"
| "simple_size eInt128 = 16"
| "simple_size eUInt128 = 16"
| "simple_size MAX_SIMPLE_TYPES = 0"

text \<open>\<open>(int)(ceil(bits / 8.0) * 8)\<close> for a bit-field of the given length, and the loops over the
  fields: the maximum in a union, the sum (in an \<open>unsigned int\<close>) in a struct, either stopping at a
  field of unknown size.\<close>

definition bitfield_size :: "int \<Rightarrow> nat" where
  "bitfield_size l = nat ((l + 7) div 8 * 8)"

fun union_size :: "nat \<Rightarrow> nat list \<Rightarrow> nat" where
  "union_size m [] = m"
| "union_size m (sz # szs) =
     (if sz = SIZE_UNKNOWN then sz else union_size (if sz > m then sz else m) szs)"

fun struct_size :: "nat \<Rightarrow> nat list \<Rightarrow> nat" where
  "struct_size tot [] = tot"
| "struct_size tot (sz # szs) =
     (if sz = SIZE_UNKNOWN then sz else struct_size ((tot + sz) mod 2 ^ 32) szs)"

text \<open>
  The loops stop at the first field of unknown size, and the fields behind it are not looked at;
  \<open>sizes_until\<close> computes the sizes the loop sees.  The size of a pointer is computed and dropped
  (the \<open>return\<close> is missing), so that it is 0.
\<close>

fun sizes_until :: "('a \<Rightarrow> nat option) \<Rightarrow> 'a list \<Rightarrow> nat list option" where
  "sizes_until g [] = Some []"
| "sizes_until g (x # xs) =
     do {
       sz \<leftarrow> g x;
       if sz = SIZE_UNKNOWN then Some [sz]
       else map_option ((#) sz) (sizes_until g xs)
     }"

lemma sizes_until_cong [fundef_cong]:
  "xs = ys \<Longrightarrow> (\<And>x. x \<in> set ys \<Longrightarrow> g x = h x) \<Longrightarrow> sizes_until g xs = sizes_until h ys"
proof (induction xs arbitrary: ys)
  case (Cons x xs)
  then show ?case by (cases "h x") auto
qed simp

fun SizeInBytes :: "Type \<Rightarrow> nat option" where
  "SizeInBytes (Type_obj i p fs) = (case ti_eType i of
       eVector \<Rightarrow> Some (simple_size (ti_simple_type i))
     | eSimple \<Rightarrow> Some (simple_size (ti_simple_type i))
     | eUnion \<Rightarrow>
         map_option (union_size 0) (sizes_until (\<lambda>(k, f). do {
             b \<leftarrow> is_bitfield (Type_obj i p fs) k;
             if b then map_option bitfield_size (vec_get (ti_bitfields_length i) k)
             else SizeInBytes f
           }) (enumerate 0 fs))
     | eStruct \<Rightarrow>
         if \<not> ti_packed i then Some SIZE_UNKNOWN
         else do {
           b \<leftarrow> has_bitfields (Type_obj i p fs);
           if b then Some SIZE_UNKNOWN
           else map_option (struct_size 0) (sizes_until SizeInBytes fs)
         }
     | ePointer \<Rightarrow> Some 0
     | MAX_TYPE_DESC \<Rightarrow> Some 0)"

definition signed_overflow_possible :: "CGOptions \<Rightarrow> Type \<Rightarrow> bool option" where
  "signed_overflow_possible c t =
     (if eType t = eSimple \<and> is_signed t
      then map_option (\<lambda>sz. int sz \<ge> opt_int_size c) (SizeInBytes t) else Some False)"

section \<open>Conversions\<close>

definition is_convertable :: "CGOptions \<Rightarrow> Type \<Rightarrow> Type \<Rightarrow> bool option" where
  "is_convertable c this t =
     (if same_type this t then Some True
      else if eType this = eSimple \<and> eType t = eSimple
      then if is_float t \<and> \<not> is_float this then Some False
           else Some ((simple_type this \<noteq> eVoid \<and> simple_type t \<noteq> eVoid) \<or>
                      simple_type this = simple_type t)
      else if eType this = ePointer \<and> eType t = ePointer
      then do {
        a \<leftarrow> ptr_type this;
        b \<leftarrow> ptr_type t;
        if same_type a b then Some True
        else if eType a = eSimple \<and> eType b = eSimple
        then if simple_type a = simple_type b then Some True
             else if opt_strict_float c \<and>
                     ((simple_type a = eFloat \<and> simple_type b \<noteq> eFloat) \<or>
                      (simple_type a \<noteq> eFloat \<and> simple_type b = eFloat)) then Some False
             else if opt_lang_cpp c then Some False
             else do { m \<leftarrow> SizeInBytes a; n \<leftarrow> SizeInBytes b; Some (m = n) }
        else Some False
      }
      else Some False)"

definition is_equivalent :: "Type \<Rightarrow> Type \<Rightarrow> bool option" where
  "is_equivalent this t =
     (if same_type this t then Some True
      else if eType this = eSimple
      then if is_signed this = is_signed t
           then do { m \<leftarrow> SizeInBytes this; n \<leftarrow> SizeInBytes t; Some (m = n) } else Some False
      else Some False)"

definition needs_cast :: "Type \<Rightarrow> Type \<Rightarrow> bool option" where
  "needs_cast this t =
     (if eType this = ePointer
      then map_option Not (is_equivalent (get_base_type this) (get_base_type t)) else Some False)"

definition is_derivable :: "CGOptions \<Rightarrow> Type \<Rightarrow> Type \<Rightarrow> bool option" where
  "is_derivable c this t =
     (if same_type this t then Some True
      else do {
        cv \<leftarrow> is_convertable c this t;
        Some (cv \<or> is_dereferenced_from this t \<or>
              (case ptr_type this of None \<Rightarrow> False | Some p \<Rightarrow> same_type p t))
      })"

datatype eMatchType = eExact | eConvert | eDereference | eDerefExact | eFlexible

definition Type_match :: "CGOptions \<Rightarrow> Type \<Rightarrow> Type \<Rightarrow> eMatchType \<Rightarrow> bool option" where
  "Type_match c this t mt = (case mt of
       eExact \<Rightarrow> Some (same_type this t)
     | eConvert \<Rightarrow> is_convertable c this t
     | eDereference \<Rightarrow> Some (is_dereferenced_from this t)
     | eDerefExact \<Rightarrow> Some (same_type t this \<or> is_dereferenced_from this t)
     | eFlexible \<Rightarrow> is_derivable c this t)"

section \<open>Printed forms\<close>

text \<open>\<open>Vector::OutputVectorType\<close>: the demoted type has the simple type of the vector; \<open>None\<close> is the
  runtime error for elements without a HIP vector.\<close>

definition OutputVectorType :: "Type \<Rightarrow> int \<Rightarrow> string option" where
  "OutputVectorType t vector_size =
     (let demoted = (if eType t = eVector then Type_simple 0 (simple_type t) else t) in
      if eType demoted = eSimple
      then do {
        s \<leftarrow> (if simple_type demoted = eFloat then Some ''float''
             else do {
               bytes \<leftarrow> SizeInBytes demoted;
               let prefix = (if is_signed demoted then [] else ''u'');
               if bytes = 1 then Some (prefix @ ''char'')
               else if bytes = 2 then Some (prefix @ ''short'')
               else if bytes = 4 then Some (prefix @ ''int'')
               else if bytes = 8 then Some (prefix @ ''long'')
               else None
             });
        Some (s @ int2str vector_size)
      }
      else None)"

definition OutputSimple :: "Type \<Rightarrow> string option" where
  "OutputSimple t =
     (if simple_type t = eVoid then Some ''void''
      else if simple_type t = eFloat then Some ''float''
      else do {
        sz \<leftarrow> SizeInBytes t;
        let bits = int2str (int (sz * 8));
        if simple_type t = eInt128 then Some (''__int'' @ bits)
        else if simple_type t = eUInt128 then Some (''unsigned __int'' @ bits)
        else Some ((if is_signed t then ''int'' else ''uint'') @ bits @ ''_t'')
      })"

fun Type_Output :: "Type \<Rightarrow> string option" where
  "Type_Output (Type_obj i p fs) = (case ti_eType i of
       eVector \<Rightarrow> OutputVectorType (Type_obj i p fs) (ti_vector_length i)
     | eSimple \<Rightarrow> OutputSimple (Type_obj i p fs)
     | ePointer \<Rightarrow> (case p of None \<Rightarrow> None | Some q \<Rightarrow> map_option (\<lambda>s. s @ ''*'') (Type_Output q))
     | eUnion \<Rightarrow> Some (''union U'' @ int2str (int (ti_sid i)))
     | eStruct \<Rightarrow> Some (''struct S'' @ int2str (int (ti_sid i)))
     | MAX_TYPE_DESC \<Rightarrow> Some [])"

definition get_type_sizeof_string :: "Type \<Rightarrow> string option" where
  "get_type_sizeof_string t = map_option (\<lambda>s. ''sizeof('' @ s @ '')'') (Type_Output t)"

fun comma_list :: "string list \<Rightarrow> string" where
  "comma_list [] = []"
| "comma_list [s] = s"
| "comma_list (s # ss) = s @ '', '' @ comma_list ss"

fun printf_directive :: "Type \<Rightarrow> string option" where
  "printf_directive (Type_obj i p fs) =
     (if ti_eType i = eVector \<or> ti_eType i = eSimple
      then map_option (\<lambda>sz. if 8 \<le> sz
             then (if is_signed (Type_obj i p fs) then ''%lld'' else ''%llu'')
             else (if is_signed (Type_obj i p fs) then ''%d'' else ''%u'')) (SizeInBytes (Type_obj i p fs))
      else if ti_eType i = ePointer then Some ''0x%0x''
      else if ti_eType i = eUnion \<or> ti_eType i = eStruct
      then map_option (\<lambda>ss. ''{'' @ comma_list ss @ ''}'') (map_opt printf_directive fs)
      else Some [])"

text \<open>
  \<open>get_int_subfield_names\<close>: the names and types of the scalar leaves under a prefix.  The counter
  \<open>j\<close> numbers the fields that are not padding, and only the outermost call excludes fields.
\<close>

fun get_int_subfield_names :: "Type \<Rightarrow> string \<Rightarrow> int list \<Rightarrow> (string \<times> Type) list option" where
  "get_int_subfield_names (Type_obj i p fs) prefix excluded =
     (if ti_eType i = eSimple then Some [(prefix, Type_obj i p fs)]
      else if is_aggregate (Type_obj i p fs)
      then map_option snd (fold_opt (\<lambda>(k, f) (j, out).
          do {
            pad \<leftarrow> is_unamed_padding (Type_obj i p fs) k;
            if pad then Some (j, out)
            else if j \<in> set excluded then Some (j + 1, out)
            else do {
              sub \<leftarrow> get_int_subfield_names f (prefix @ ''.f'' @ int2str j) [];
              Some (j + 1, out @ sub)
            }
          }) (enumerate 0 fs) (0, []))
      else Some [])"

section \<open>Well-formed types\<close>

text \<open>
  The invariant of every type the generator builds: a pointer has a pointee and nothing else, a
  struct or union has one qualifier entry with as many levels as the type of the field and one
  length for each field, and bit-fields are simple.
\<close>

definition qfer_fits :: "Type \<Rightarrow> CVQualifiers \<Rightarrow> bool" where
  "qfer_fits t q \<longleftrightarrow> length (is_consts q) = get_indirect_level t + 1 \<and>
     length (is_volatiles q) = get_indirect_level t + 1"

fun type_ok :: "Type \<Rightarrow> bool" where
  "type_ok (Type_obj i p fs) = (case ti_eType i of
       eSimple \<Rightarrow> p = None \<and> fs = [] \<and> ti_simple_type i \<noteq> MAX_SIMPLE_TYPES
     | eVector \<Rightarrow> p = None \<and> fs = [] \<and> ti_simple_type i \<notin> {MAX_SIMPLE_TYPES, eVoid}
     | ePointer \<Rightarrow> fs = [] \<and> (case p of None \<Rightarrow> False | Some q \<Rightarrow> type_ok q)
     | MAX_TYPE_DESC \<Rightarrow> False
     | _ \<Rightarrow> p = None \<and> (\<forall>f \<in> set fs. type_ok f)
             \<and> list_all2 qfer_fits fs (ti_qfers i) \<and> length (ti_bitfields_length i) = length fs
             \<and> (\<forall>(f, l) \<in> set (zip fs (ti_bitfields_length i)). 0 \<le> l \<longrightarrow> eType f = eSimple))"

lemma level_after_deref_total: "bs \<noteq> [] \<Longrightarrow> runs (level_after_deref bs 0)"
  by (auto simp: level_after_deref_def intro!: defined)

lemma qfer_fits_total:
  assumes "qfer_fits t q"
  shows "runs (qfer_is_const q)" "runs (qfer_is_volatile q)"
proof -
  from assms have "is_consts q \<noteq> []" "is_volatiles q \<noteq> []" by (auto simp: qfer_fits_def)
  then show "runs (qfer_is_const q)" "runs (qfer_is_volatile q)"
    by (simp_all add: qfer_is_const_def qfer_is_volatile_def is_const_after_deref_def
        is_volatile_after_deref_def level_after_deref_total)
qed

lemma sizes_until_defined [defined]: "(\<And>x. x \<in> set xs \<Longrightarrow> runs (g x)) \<Longrightarrow> runs (sizes_until g xs)"
proof (induction xs)
  case (Cons x xs)
  from Cons show ?case by (auto intro!: defined)
qed simp

text \<open>What the induction over a well-formed aggregate offers for each field.\<close>

lemma type_ok_fields:
  assumes "type_ok (Type_obj i p fs)" "is_aggregate (Type_obj i p fs)"
  shows "length fs = length (ti_qfers i)" "length (ti_bitfields_length i) = length fs"
    "f \<in> set fs \<Longrightarrow> type_ok f" "(f, q) \<in> set (zip fs (ti_qfers i)) \<Longrightarrow> qfer_fits f q"
    "(f, l) \<in> set (zip fs (ti_bitfields_length i)) \<Longrightarrow> 0 \<le> l \<Longrightarrow> eType f = eSimple"
  using assms by (auto simp: is_aggregate_def list_all2_iff)

lemma type_ok_no_fields: "type_ok t \<Longrightarrow> \<not> is_aggregate t \<Longrightarrow> fields t = []"
  by (cases t) (auto simp: is_aggregate_def split: eTypeDesc.splits)

lemma const_struct_union_defined: "type_ok t \<Longrightarrow> runs (is_const_struct_union t)"
proof (induction t)
  case (Type_obj i p fs)
  note ok = type_ok_fields [OF Type_obj.prems]
  have "runs (is_const_struct_union f) \<and> runs (qfer_is_const q)"
    if "(f, q) \<in> set (zip fs (ti_qfers i))" "is_aggregate (Type_obj i p fs)" for f q
    using Type_obj.IH(2) [of f] ok(3,4) that qfer_fits_total set_zip_leftD by meson
  with ok(1) show ?case by (auto intro!: defined split: prod.splits)
qed

lemma volatile_struct_union_defined: "type_ok t \<Longrightarrow> runs (is_volatile_struct_union t)"
proof (induction t)
  case (Type_obj i p fs)
  note ok = type_ok_fields [OF Type_obj.prems]
  have "runs (is_volatile_struct_union f) \<and> runs (qfer_is_volatile q)"
    if "(f, q) \<in> set (zip fs (ti_qfers i))" "is_aggregate (Type_obj i p fs)" for f q
    using Type_obj.IH(2) [of f] ok(3,4) that qfer_fits_total set_zip_leftD by meson
  with ok(1) show ?case by (auto intro!: defined split: prod.splits)
qed

lemma field_positions:
  assumes "type_ok (Type_obj i p fs)" "(k, f) \<in> set (enumerate 0 fs)"
  shows "k < length fs" "fs ! k = f" "f \<in> set fs" "type_ok f" "k < length (ti_bitfields_length i)"
proof -
  from assms(2) show k: "k < length fs" "fs ! k = f" by (auto simp: in_set_enumerate_eq)
  then show f: "f \<in> set fs" by auto
  with type_ok_no_fields [OF assms(1)] have "is_aggregate (Type_obj i p fs)" by fastforce
  with type_ok_fields [OF assms(1)] f k show "type_ok f" "k < length (ti_bitfields_length i)" by auto
qed

lemma has_bitfields_defined: "type_ok t \<Longrightarrow> runs (has_bitfields t)"
proof (induction t)
  case (Type_obj i p fs)
  note pos = field_positions [OF Type_obj.prems]
  show ?case using Type_obj.IH(2) pos
    by (auto intro!: defined split: prod.splits)
qed

lemma is_bitfield_defined [defined]: "k < length (bitfields_length t) \<Longrightarrow> runs (is_bitfield t k)"
  by (auto simp: is_bitfield_def intro!: defined)

lemma has_padding_defined: "type_ok t \<Longrightarrow> runs (has_padding t)"
proof (induction t)
  case (Type_obj i p fs)
  note pos = field_positions [OF Type_obj.prems]
  show ?case using Type_obj.IH(2) pos
    by (auto intro!: defined split: prod.splits)
qed

lemma SizeInBytes_defined: "type_ok t \<Longrightarrow> runs (SizeInBytes t)"
proof (induction t)
  case (Type_obj i p fs)
  note pos = field_positions [OF Type_obj.prems]
  note bits = has_bitfields_defined [OF Type_obj.prems]
  have fs: "runs (SizeInBytes f)" if "f \<in> set fs" for f
  proof -
    from that obtain k where "(k, f) \<in> set (enumerate 0 fs)"
      by (force simp: in_set_conv_nth [of f] in_set_enumerate_eq)
    with pos Type_obj.IH(2) that show ?thesis by blast
  qed
  show ?case using pos bits fs
    by (auto intro!: defined split: prod.splits eTypeDesc.splits)
qed

lemma printf_directive_defined: "type_ok t \<Longrightarrow> runs (printf_directive t)"
proof (induction t)
  case (Type_obj i p fs)
  have "runs (printf_directive f)" if "f \<in> set fs" "is_aggregate (Type_obj i p fs)" for f
    using type_ok_fields(3) [OF Type_obj.prems that(2,1)] Type_obj.IH(2) that(1) by blast
  moreover have "is_aggregate (Type_obj i p fs) \<longleftrightarrow> ti_eType i = eUnion \<or> ti_eType i = eStruct"
    by (auto simp: is_aggregate_def)
  ultimately show ?case using SizeInBytes_defined [OF Type_obj.prems]
    by (auto intro!: defined simp del: SizeInBytes.simps)
qed

lemma is_unamed_padding_defined [defined]:
  "length (bitfields_length t) = 0 \<or> k < length (bitfields_length t) \<Longrightarrow> runs (is_unamed_padding t k)"
  by (auto simp: is_unamed_padding_def intro!: defined)

lemma subfield_names_defined: "type_ok t \<Longrightarrow> runs (get_int_subfield_names t prefix ex)"
proof (induction t arbitrary: prefix ex)
  case (Type_obj i p fs)
  note pos = field_positions [OF Type_obj.prems]
  show ?case using Type_obj.IH(2) pos
    by (auto intro!: defined split: prod.splits)
qed

text \<open>
  C0: On well-formed types none of the recursive queries of \<open>Type.cpp\<close> aborts: no assertion on the
  parallel vectors \<open>fields\<close>, \<open>qfers_\<close> and \<open>bitfields_length_\<close> fails and no index leaves them.
\<close>
theorem type_queries_defined:
  assumes "type_ok t"
  shows "runs (is_const_struct_union t) \<and> runs (is_volatile_struct_union t) \<and> runs (has_bitfields t)
    \<and> runs (has_padding t) \<and> runs (SizeInBytes t) \<and> runs (printf_directive t)
    \<and> runs (get_int_subfield_names t prefix excluded)"
  using assms const_struct_union_defined volatile_struct_union_defined has_bitfields_defined
    has_padding_defined SizeInBytes_defined printf_directive_defined subfield_names_defined by simp

text \<open>A struct of a bit-field, a pointer and a nested packed struct.\<close>

definition plain_qfer :: CVQualifiers where
  "plain_qfer = \<lparr>wildcard = False, accept_stricter = False, is_consts = [False], is_volatiles = [True]\<rparr>"

definition example_struct :: Type where
  "example_struct =
     Type_aggregate 7 1
       [Type_simple 1 eInt, Type_pointer 2 (Type_simple 3 eShort),
        Type_aggregate 6 0 [Type_simple 4 eChar, Type_simple 5 eLongLong] True True
          [plain_qfer, plain_qfer] [- 1, - 1] False False]
       True False
       [plain_qfer, plain_qfer\<lparr>is_consts := [True, False], is_volatiles := [False, False]\<rparr>, plain_qfer]
       [3, - 1, - 1] False False"

lemma example_struct_ok: "type_ok example_struct"
  by (simp add: example_struct_def Type_aggregate_def Type_simple_def Type_pointer_def plain_info_def
      qfer_fits_def plain_qfer_def)

theorem type_queries_defined_witness:
  "runs (SizeInBytes example_struct) \<and>
     map_option (map fst) (get_int_subfield_names example_struct ''s'' []) =
       Some [''s.f0'', ''s.f2.f0'', ''s.f2.f1'']"
  using type_queries_defined [OF example_struct_ok, of "''s''" "[]"]
  by (simp add: example_struct_def Type_aggregate_def Type_simple_def Type_pointer_def plain_info_def
      is_aggregate_def is_unamed_padding_def vec_get_def int2str_def digits10.simps char_of_def bit_0)

section \<open>Conversions between well-formed types\<close>

text \<open>
  Promotion never narrows: an integer type that is promotable to another simple type is at most
  as wide as it.
\<close>
lemma is_promotable_widens:
  assumes "is_promotable a b" "simple_type a \<noteq> eFloat" "SizeInBytes a = Some m" "SizeInBytes b = Some n"
  shows "m \<le> n \<or> simple_type b = MAX_SIMPLE_TYPES"
proof -
  obtain i p fs j q gs where ab: "a = Type_obj i p fs" "b = Type_obj j q gs"
    by (cases a; cases b)
  show ?thesis using assms unfolding ab
    by (cases "ti_simple_type i"; cases "ti_simple_type j") (simp_all add: is_promotable_def split: if_splits)
qed

end
