(* ===== verification/Quals.thy ===== *)
theory Quals
  imports Types Probs DepthSpec Enumerator "HOL-Library.List_Lexorder" "HOL-Library.Char_ord"
begin

text \<open>
  Const and volatile qualifiers (\<open>CVQualifiers.cpp\<close>).  Level 0 of the two vectors belongs to the
  object at the end of the pointer chain, the last level to the variable itself.  The instance of
  \<open>Probabilities\<close> is the argument \<open>P\<close>; the one question the functions ask a \<open>CGContext\<close>, whether its
  effect context is free of side effects, is the argument \<open>sef\<close>.
\<close>

section \<open>Construction and access\<close>

definition CVQualifiers_empty :: CVQualifiers where
  "CVQualifiers_empty = \<lparr>wildcard = False, accept_stricter = False, is_consts = [], is_volatiles = []\<rparr>"

definition CVQualifiers_wild :: "bool \<Rightarrow> bool \<Rightarrow> CVQualifiers" where
  "CVQualifiers_wild wild stricter =
     \<lparr>wildcard = wild, accept_stricter = stricter, is_consts = [], is_volatiles = []\<rparr>"

definition CVQualifiers_of :: "bool list \<Rightarrow> bool list \<Rightarrow> CVQualifiers" where
  "CVQualifiers_of isConsts isVolatiles =
     \<lparr>wildcard = False, accept_stricter = False, is_consts = isConsts, is_volatiles = isVolatiles\<rparr>"

text \<open>\<open>set_const\<close> and \<open>set_volatile\<close> write \<open>v[len - pos - 1]\<close> unless the vector is empty.\<close>

definition set_level :: "bool list \<Rightarrow> bool \<Rightarrow> int \<Rightarrow> bool list option" where
  "set_level bs b pos =
     (let k = int (length bs) - pos - 1 in
      if length bs = 0 then Some bs
      else if k < 0 then None else vec_set bs (nat k) b)"

definition set_const :: "bool \<Rightarrow> int \<Rightarrow> CVQualifiers \<Rightarrow> CVQualifiers option" where
  "set_const b pos q = map_option (\<lambda>v. q\<lparr>is_consts := v\<rparr>) (set_level (is_consts q) b pos)"

definition set_volatile :: "bool \<Rightarrow> int \<Rightarrow> CVQualifiers \<Rightarrow> CVQualifiers option" where
  "set_volatile b pos q = map_option (\<lambda>v. q\<lparr>is_volatiles := v\<rparr>) (set_level (is_volatiles q) b pos)"

definition add_qualifiers :: "bool \<Rightarrow> bool \<Rightarrow> CVQualifiers \<Rightarrow> CVQualifiers" where
  "add_qualifiers c v q = q\<lparr>is_consts := is_consts q @ [c], is_volatiles := is_volatiles q @ [v]\<rparr>"

text \<open>\<open>pop_back\<close> of an empty vector is undefined.\<close>

definition remove_qualifiers :: "int \<Rightarrow> CVQualifiers \<Rightarrow> CVQualifiers option" where
  "remove_qualifiers len q =
     (if len \<le> 0 then Some q
      else if int (length (is_consts q)) < len \<or> int (length (is_volatiles q)) < len then None
      else Some (q\<lparr>is_consts := take (length (is_consts q) - nat len) (is_consts q),
                   is_volatiles := take (length (is_volatiles q) - nat len) (is_volatiles q)\<rparr>))"

definition indirect_qualifiers :: "int \<Rightarrow> CVQualifiers \<Rightarrow> CVQualifiers option" where
  "indirect_qualifiers level q =
     (if level = 0 \<or> wildcard q then Some q
      else if level < 0 then do { assert_opt (level = - 1); Some (add_qualifiers False False q) }
      else remove_qualifiers level q)"

definition sanity_check :: "Type option \<Rightarrow> CVQualifiers \<Rightarrow> bool option" where
  "sanity_check t q =
     (case t of
        None \<Rightarrow> None
      | Some t \<Rightarrow> Some (wildcard q \<or> (length (is_consts q) = length (is_volatiles q)
                  \<and> get_indirect_level t + 1 = length (is_consts q))))"

datatype Access = READ | WRITE

text \<open>\<open>restrict\<close>\<close>

definition restrict_qualifiers :: "Access \<Rightarrow> bool \<Rightarrow> CVQualifiers \<Rightarrow> CVQualifiers option" where
  "restrict_qualifiers access sef q =
     do {
       q1 \<leftarrow> (if access = WRITE then set_const False 0 q else Some q);
       if \<not> sef then set_volatile False 0 q1 else Some q1
     }"

section \<open>Comparison\<close>

text \<open>The loops check the levels from 0; a mismatch returns at once.\<close>

definition level_stricter :: "nat \<Rightarrow> nat \<Rightarrow> bool \<Rightarrow> bool \<Rightarrow> bool" where
  "level_stricter depth i mine yours \<longleftrightarrow> (depth - i > 2 \<longrightarrow> mine = yours) \<and> (yours \<longrightarrow> mine)"

definition levels_stricter :: "bool list \<Rightarrow> bool list \<Rightarrow> bool" where
  "levels_stricter mine yours \<longleftrightarrow>
     (\<forall>i < length mine. level_stricter (length mine) i (mine ! i) (yours ! i))"

definition stricter_than :: "CVQualifiers \<Rightarrow> CVQualifiers \<Rightarrow> bool option" where
  "stricter_than this q =
     do {
       assert_opt (length (is_consts this) = length (is_volatiles this));
       if length (is_consts this) \<noteq> length (is_consts q) \<or>
          length (is_volatiles this) \<noteq> length (is_volatiles q) then Some False
       else if \<not> levels_stricter (is_consts this) (is_consts q) then Some False
       else if length (is_consts this) > 1 \<and> is_volatiles this ! 0 \<noteq> is_volatiles q ! 0 then Some False
       else Some (levels_stricter (is_volatiles this) (is_volatiles q))
     }"

definition CVQualifiers_match :: "CGOptions \<Rightarrow> CVQualifiers \<Rightarrow> CVQualifiers \<Rightarrow> bool option" where
  "CVQualifiers_match c this q =
     (if wildcard this then Some True
      else if opt_match_exact_qualifiers c
      then Some (is_consts this = is_consts q \<and> is_volatiles this = is_volatiles q)
      else if length (is_consts this) = length (is_consts q) \<and> length (is_consts this) = 1
      then do { assert_opt (length (is_consts this) = length (is_volatiles this)); Some True }
      else if \<not> accept_stricter this then stricter_than this q
      else stricter_than q this)"

definition match_indirect :: "CGOptions \<Rightarrow> CVQualifiers \<Rightarrow> CVQualifiers \<Rightarrow> bool option" where
  "match_indirect c this q =
     (if wildcard this then Some True
      else if length (is_consts this) = length (is_consts q) then CVQualifiers_match c this q
      else let deref = int (length (is_consts q)) - int (length (is_consts this)) in
        if deref < - 1 then Some False
        else do { q1 \<leftarrow> indirect_qualifiers deref q; CVQualifiers_match c this q1 })"

section \<open>Random qualifiers\<close>

text \<open>\<open>for (i = 1; ...) v[i] = false\<close>\<close>

definition clear_tail :: "bool list \<Rightarrow> bool list" where
  "clear_tail bs = (case bs of [] \<Rightarrow> [] | b # r \<Rightarrow> b # replicate (length r) False)"

definition make_scalar_volatiles :: "CGOptions \<Rightarrow> bool list \<Rightarrow> bool list" where
  "make_scalar_volatiles c v =
     (if \<not> opt_volatile_pointers c \<or> \<not> opt_global_variables c then clear_tail v else v)"

definition make_scalar_consts :: "CGOptions \<Rightarrow> bool list \<Rightarrow> bool list" where
  "make_scalar_consts c v = (if \<not> opt_const_pointers c then clear_tail v else v)"

text \<open>A coin whose percentage is the named probability.\<close>

definition flip_named :: "'z Probabilities \<Rightarrow> ProbName \<Rightarrow> 'z world_scheme \<Rightarrow> (bool \<times> 'z world_scheme) option" where
  "flip_named P pname w = do { p \<leftarrow> get_prob P pname; rnd_flipcoin p None None w }"

text \<open>
  The four generators of a vector share their loop: at each level the bit is either kept or decided
  (\<open>Some b\<close>), or drawn (\<open>None\<close>) after a depth guard and before an error guard.  Both guards return
  the bits so far; the first component of the result tells that the loop came to its end.
\<close>

fun levels_loop ::
    "'z Probabilities \<Rightarrow> ProbName \<Rightarrow> bool option list \<Rightarrow> bool list \<Rightarrow> 'z world_scheme \<Rightarrow>
     (bool \<times> bool list \<times> 'z world_scheme) option" where
  "levels_loop P pname [] acc w = Some (True, acc, w)"
| "levels_loop P pname (Some b # ds) acc w = levels_loop P pname ds (acc @ [b]) w"
| "levels_loop P pname (None # ds) acc w =
     do {
       (g, w1) \<leftarrow> depth_guard_by_depth 1 w;
       if g \<noteq> GOOD_DEPTH then Some (False, acc, w1)
       else do {
         (index, w2) \<leftarrow> flip_named P pname w1;
         if w_err w2 \<noteq> SUCCESS then Some (False, acc, w2)
         else levels_loop P pname ds (acc @ [index]) w2
       }
     }"

definition decide_stricter_consts :: "CGOptions \<Rightarrow> CVQualifiers \<Rightarrow> nat \<Rightarrow> bool option" where
  "decide_stricter_consts c q i =
     (if is_consts q ! i \<or> length (is_consts q) - i > 2 then Some (is_consts q ! i)
      else if is_volatiles q ! i \<and> \<not> opt_allow_const_volatile c then Some False
      else None)"

definition decide_stricter_volatiles :: "CGOptions \<Rightarrow> CVQualifiers \<Rightarrow> nat \<Rightarrow> bool option" where
  "decide_stricter_volatiles c q i =
     (let depth = length (is_volatiles q) in
      if is_volatiles q ! i \<or> (i = 0 \<and> depth > 1) \<or> depth - i > 2 then Some (is_volatiles q ! i)
      else if is_consts q ! i \<and> \<not> opt_allow_const_volatile c then Some False
      else None)"

definition decide_looser_consts :: "CVQualifiers \<Rightarrow> nat \<Rightarrow> bool option" where
  "decide_looser_consts q i =
     (if \<not> is_consts q ! i \<or> length (is_consts q) - i > 2 then Some (is_consts q ! i) else None)"

definition decide_looser_volatiles :: "CVQualifiers \<Rightarrow> nat \<Rightarrow> bool option" where
  "decide_looser_volatiles q i =
     (let depth = length (is_volatiles q) in
      if \<not> is_volatiles q ! i \<or> (i = 0 \<and> depth > 1) \<or> depth - i > 2 then Some (is_volatiles q ! i)
      else None)"

text \<open>The two vectors have the same length in every object; reading the other one past its end is
  undefined.\<close>

definition random_stricter_consts ::
    "'z Probabilities \<Rightarrow> CVQualifiers \<Rightarrow> 'z world_scheme \<Rightarrow> (bool list \<times> 'z world_scheme) option" where
  "random_stricter_consts P q w =
     (if opt_match_exact_qualifiers (w_opts w) then Some (is_consts q, w)
      else if length (is_volatiles q) < length (is_consts q) then None
      else map_option snd (levels_loop P pStricterConstProb
             (map (decide_stricter_consts (w_opts w) q) [0..<length (is_consts q)]) [] w))"

definition random_stricter_volatiles ::
    "'z Probabilities \<Rightarrow> CVQualifiers \<Rightarrow> 'z world_scheme \<Rightarrow> (bool list \<times> 'z world_scheme) option" where
  "random_stricter_volatiles P q w =
     (if opt_match_exact_qualifiers (w_opts w) then Some (is_volatiles q, w)
      else if length (is_consts q) < length (is_volatiles q) then None
      else map_option (\<lambda>(done, v, w1). (if done then make_scalar_volatiles (w_opts w) v else v, w1))
             (levels_loop P pRegularVolatileProb
               (map (decide_stricter_volatiles (w_opts w) q) [0..<length (is_volatiles q)]) [] w))"

definition random_looser_consts ::
    "'z Probabilities \<Rightarrow> CVQualifiers \<Rightarrow> 'z world_scheme \<Rightarrow> (bool list \<times> 'z world_scheme) option" where
  "random_looser_consts P q w =
     (if opt_match_exact_qualifiers (w_opts w) then Some (is_consts q, w)
      else map_option snd (levels_loop P pLooserConstProb
             (map (decide_looser_consts q) [0..<length (is_consts q)]) [] w))"

definition random_looser_volatiles ::
    "'z Probabilities \<Rightarrow> CVQualifiers \<Rightarrow> 'z world_scheme \<Rightarrow> (bool list \<times> 'z world_scheme) option" where
  "random_looser_volatiles P q w =
     (if opt_match_exact_qualifiers (w_opts w) then Some (is_volatiles q, w)
      else map_option (\<lambda>(done, v, w1). (if done then make_scalar_volatiles (w_opts w) v else v, w1))
             (levels_loop P pRegularVolatileProb
               (map (decide_looser_volatiles q) [0..<length (is_volatiles q)]) [] w))"

text \<open>\<open>v[v.size() - 1] = false\<close>\<close>

definition clear_last :: "bool list \<Rightarrow> bool list option" where
  "clear_last v = (if v = [] then None else Some (v[length v - 1 := False]))"

text \<open>The common body of \<open>random_qualifiers\<close> and \<open>random_loose_qualifiers\<close>, which differ in the
  vector generators they call.\<close>

definition volatiles_from_this ::
    "('z world_scheme \<Rightarrow> (bool list \<times> 'z world_scheme) option) \<Rightarrow> bool \<Rightarrow> bool \<Rightarrow> CVQualifiers \<Rightarrow>
     'z world_scheme \<Rightarrow> (bool list \<times> 'z world_scheme) option" where
  "volatiles_from_this gen_volatiles no_volatile sef q w =
     (if no_volatile then Some (replicate (length (is_volatiles q)) False, w)
      else do {
        (v, w1) \<leftarrow> gen_volatiles w;
        if w_err w1 \<noteq> SUCCESS then Some (v, w1)
        else if \<not> sef then map_option (\<lambda>v. (v, w1)) (clear_last v) else Some (v, w1)
      })"

definition random_from_this ::
    "('z world_scheme \<Rightarrow> (bool list \<times> 'z world_scheme) option) \<Rightarrow>
     ('z world_scheme \<Rightarrow> (bool list \<times> 'z world_scheme) option) \<Rightarrow>
     bool \<Rightarrow> Access \<Rightarrow> bool \<Rightarrow> CVQualifiers \<Rightarrow> 'z world_scheme \<Rightarrow> (CVQualifiers \<times> 'z world_scheme) option" where
  "random_from_this gen_volatiles gen_consts no_volatile access sef q w =
     (if wildcard q then Some (CVQualifiers_wild True (accept_stricter q), w)
      else do {
        (volatiles, w1) \<leftarrow> volatiles_from_this gen_volatiles no_volatile sef q w;
        if w_err w1 \<noteq> SUCCESS then Some (CVQualifiers_of [] volatiles, w1)
        else do {
          let volatiles = make_scalar_volatiles (w_opts w1) volatiles;
          (cs, w2) \<leftarrow> gen_consts w1;
          let consts = make_scalar_consts (w_opts w2) cs;
          if w_err w2 \<noteq> SUCCESS then Some (CVQualifiers_of consts volatiles, w2)
          else do {
            consts \<leftarrow> (if access = WRITE then clear_last consts else Some consts);
            Some (CVQualifiers_of consts volatiles, w2)
          }
        }
      })"

definition random_qualifiers_from ::
    "'z Probabilities \<Rightarrow> bool \<Rightarrow> Access \<Rightarrow> bool \<Rightarrow> CVQualifiers \<Rightarrow> 'z world_scheme \<Rightarrow>
     (CVQualifiers \<times> 'z world_scheme) option" where
  "random_qualifiers_from P no_volatile access sef q =
     random_from_this
       (if \<not> accept_stricter q then random_looser_volatiles P q else random_stricter_volatiles P q)
       (if \<not> accept_stricter q then random_looser_consts P q else random_stricter_consts P q)
       no_volatile access sef q"

definition random_loose_qualifiers ::
    "'z Probabilities \<Rightarrow> bool \<Rightarrow> Access \<Rightarrow> bool \<Rightarrow> CVQualifiers \<Rightarrow> 'z world_scheme \<Rightarrow>
     (CVQualifiers \<times> 'z world_scheme) option" where
  "random_loose_qualifiers P no_volatile access sef q =
     random_from_this (random_looser_volatiles P q) (random_looser_consts P q) no_volatile access sef q"

section \<open>Random qualifiers for a type\<close>

text \<open>A union field of a union is looked into, a struct field is refused.\<close>

fun is_volatile_ok_on_one_level :: "CGOptions \<Rightarrow> Type \<Rightarrow> bool" where
  "is_volatile_ok_on_one_level c (Type_obj i p fs) =
     (if \<not> opt_lang_cpp c then True
      else if ti_eType i \<noteq> eStruct \<and> ti_eType i \<noteq> eUnion then True
      else if \<not> ti_assign_ops i then False
      else if ti_eType i = eStruct then True
      else (\<forall>f \<in> set fs. eType f \<noteq> eStruct \<and> (eType f = eUnion \<longrightarrow> is_volatile_ok_on_one_level c f)))"

text \<open>Const gives way when both were drawn and \<open>const volatile\<close> is not allowed.\<close>

definition resolve_const :: "CGOptions \<Rightarrow> bool \<Rightarrow> bool \<Rightarrow> bool" where
  "resolve_const c isConst isVolatile =
     (if isVolatile \<and> isConst \<and> \<not> opt_allow_const_volatile c then False else isConst)"

text \<open>The loop over the pointees: the bits of the nearest pointee belong to the highest level but
  one, so the vectors are filled from the back.\<close>

fun pointer_levels ::
    "nat \<Rightarrow> nat \<Rightarrow> Type list \<Rightarrow> bool list \<Rightarrow> bool list \<Rightarrow> 'z world_scheme \<Rightarrow>
     (bool list \<times> bool list \<times> 'z world_scheme) option" where
  "pointer_levels const_prob volatile_prob [] cs vs w = Some (cs, vs, w)"
| "pointer_levels const_prob volatile_prob (t # ts) cs vs w =
     do {
       (isVolatile, w1) \<leftarrow> (if is_volatile_ok_on_one_level (w_opts w) t
                           then rnd_flipcoin volatile_prob None None w else Some (False, w));
       (isConst, w2) \<leftarrow> rnd_flipcoin const_prob None None w1;
       pointer_levels const_prob volatile_prob ts
         (resolve_const (w_opts w2) isConst isVolatile # cs) (isVolatile # vs) w2
     }"

definition random_qualifiers_prob ::
    "Type option \<Rightarrow> Access \<Rightarrow> bool \<Rightarrow> bool \<Rightarrow> nat \<Rightarrow> nat \<Rightarrow> 'z world_scheme \<Rightarrow>
     (CVQualifiers \<times> 'z world_scheme) option" where
  "random_qualifiers_prob t access sef no_volatile const_prob volatile_prob w =
     (case t of
        None \<Rightarrow> Some (CVQualifiers_empty, w)
      | Some t \<Rightarrow>
          do {
            (cs, vs, w1) \<leftarrow> pointer_levels const_prob volatile_prob (pointees t) [] [] w;
            (isVolatile, w2) \<leftarrow> (if sef \<and> is_volatile_ok_on_one_level (w_opts w1) t
                                then rnd_flipcoin volatile_prob None None w1 else Some (False, w1));
            (isConst, w3) \<leftarrow> (if access \<noteq> WRITE then rnd_flipcoin const_prob None None w2
                             else Some (False, w2));
            let consts = cs @ [resolve_const (w_opts w3) isConst isVolatile];
            let volatiles = vs @ [isVolatile];
            let volatiles = (if no_volatile then replicate (length volatiles) False else volatiles);
            Some (CVQualifiers_of (make_scalar_consts (w_opts w3) consts)
                   (make_scalar_volatiles (w_opts w3) volatiles), w3)
          })"

definition random_qualifiers_access ::
    "'z Probabilities \<Rightarrow> Type option \<Rightarrow> Access \<Rightarrow> bool \<Rightarrow> bool \<Rightarrow> 'z world_scheme \<Rightarrow>
     (CVQualifiers \<times> 'z world_scheme) option" where
  "random_qualifiers_access P t access sef no_volatile w =
     do {
       cp \<leftarrow> get_prob P pRegularConstProb;
       vp \<leftarrow> get_prob P pRegularVolatileProb;
       random_qualifiers_prob t access sef no_volatile cp vp w
     }"

text \<open>Without a context: the empty one is free of side effects.\<close>

definition random_qualifiers ::
    "'z Probabilities \<Rightarrow> Type option \<Rightarrow> 'z world_scheme \<Rightarrow> (CVQualifiers \<times> 'z world_scheme) option" where
  "random_qualifiers P t w = random_qualifiers_access P t READ True True w"

definition random_field_qualifiers ::
    "Type option \<Rightarrow> nat \<Rightarrow> nat \<Rightarrow> 'z world_scheme \<Rightarrow> (CVQualifiers \<times> 'z world_scheme) option" where
  "random_field_qualifiers t const_prob volatile_prob w =
     random_qualifiers_prob t READ True False const_prob volatile_prob w"

definition random_add_qualifiers ::
    "'z Probabilities \<Rightarrow> bool \<Rightarrow> CVQualifiers \<Rightarrow> 'z world_scheme \<Rightarrow> (CVQualifiers \<times> 'z world_scheme) option" where
  "random_add_qualifiers P no_volatile q w =
     (if opt_match_exact_qualifiers (w_opts w) then Some (add_qualifiers False False q, w)
      else do {
        (g, w1) \<leftarrow> depth_guard_by_depth (if no_volatile then 1 else 2) w;
        if g \<noteq> GOOD_DEPTH then Some (q, w1)
        else do {
          (is_const, w2) \<leftarrow> (if \<not> opt_const_pointers (w_opts w1) then Some (False, w1)
                            else flip_named P pRegularConstProb w1);
          if w_err w2 \<noteq> SUCCESS then Some (q, w2)
          else do {
            (is_volatile, w3) \<leftarrow> (if no_volatile \<or> \<not> opt_volatile_pointers (w_opts w2)
                                 then Some (False, w2) else flip_named P pRegularVolatileProb w2);
            if w_err w3 \<noteq> SUCCESS then Some (q, w3)
            else Some (add_qualifiers is_const is_volatile q, w3)
          }
        }
      })"

section \<open>All qualifiers of one level\<close>

partial_function (option) all_qualifiers_loop ::
    "bool \<times> string Enumerator \<Rightarrow> CVQualifiers list \<Rightarrow> CVQualifiers list option" where
  "all_qualifiers_loop s quals =
     (case s of (going, i) \<Rightarrow>
       if \<not> going then Some quals
       else do {
         c \<leftarrow> get_elem ''const_prob'' i;
         v \<leftarrow> get_elem ''volatile_prob'' i;
         s1 \<leftarrow> enum_next i;
         all_qualifiers_loop s1 (quals @ [CVQualifiers_of [c \<noteq> 0] [v \<noteq> 0]])
       })"

declare all_qualifiers_loop.simps [code]

definition get_all_qualifiers :: "int \<Rightarrow> int \<Rightarrow> CVQualifiers list \<Rightarrow> CVQualifiers list option" where
  "get_all_qualifiers const_prob volatile_prob quals =
     do {
       e \<leftarrow> add_bool_elem ''const_prob'' const_prob Enumerator_new;
       e \<leftarrow> add_bool_elem ''volatile_prob'' volatile_prob e;
       s \<leftarrow> enum_begin e;
       all_qualifiers_loop s quals
     }"

section \<open>Printing\<close>

definition qualifier_word :: "bool \<Rightarrow> bool \<Rightarrow> bool \<Rightarrow> string \<Rightarrow> string option" where
  "qualifier_word on allowed space kw =
     (if on then do { assert_opt allowed; Some ((if space then '' '' else []) @ kw) } else Some [])"

text \<open>The loop body of \<open>output_qualified_type\<close> at level \<open>i\<close>.\<close>

definition output_level :: "CGOptions \<Rightarrow> Type \<Rightarrow> CVQualifiers \<Rightarrow> nat \<Rightarrow> string option" where
  "output_level c base q i =
     do {
       k \<leftarrow> qualifier_word (is_consts q ! i) (opt_consts c) (i > 0) ''const '';
       v \<leftarrow> vec_get (is_volatiles q) i;
       m \<leftarrow> qualifier_word v (opt_volatiles c) (i > 0) ''volatile '';
       b \<leftarrow> (if i = 0 then map_option (\<lambda>s. s @ '' '') (Type_Output base) else Some []);
       Some ((if i > 0 then ''*'' else []) @ k @ m @ b)
     }"

definition output_qualified_type :: "CGOptions \<Rightarrow> Type option \<Rightarrow> CVQualifiers \<Rightarrow> string option" where
  "output_qualified_type c t q =
     do {
       ty \<leftarrow> t;
       ok \<leftarrow> sanity_check t q;
       assert_opt ok;
       map_option concat (map_opt (output_level c (get_base_type ty) q) [0..<length (is_consts q)])
     }"

definition OutputFirstQuals :: "CGOptions \<Rightarrow> CVQualifiers \<Rightarrow> string option" where
  "OutputFirstQuals c q =
     do {
       k \<leftarrow> qualifier_word (is_consts q \<noteq> [] \<and> is_consts q ! 0) (opt_consts c) False ''const '';
       v \<leftarrow> qualifier_word (is_volatiles q \<noteq> [] \<and> is_volatiles q ! 0) (opt_volatiles c) False ''volatile '';
       Some (k @ v)
     }"

definition output_bits :: "bool list \<Rightarrow> string" where
  "output_bits bs = concat (map (\<lambda>b. (if b then ''1'' else ''0'') @ '' '') bs)"

definition CVQualifiers_output :: "CVQualifiers \<Rightarrow> string" where
  "CVQualifiers_output q = output_bits (is_consts q) @ '', '' @ output_bits (is_volatiles q) @ [CHR 0x0A]"

section \<open>Guards and draws\<close>

lemma depth_guard_error:
  "depth_guard_by_depth k w = Some (g, w') \<Longrightarrow> g \<noteq> GOOD_DEPTH \<Longrightarrow> w_err w' \<noteq> SUCCESS"
  by (auto simp: depth_guard_by_depth_def backtracking_def eager_backtracking_def bind_eq_Some_conv
      error_codes split: if_splits)

lemma depth_guard_keeps:
  assumes "depth_guard_by_depth k w = Some (g, w')" "source_inv c w"
  shows "source_inv c w'"
proof -
  have "source_inv c w1" if "eager_backtracking k w = Some (b, w1)" for b w1
    using that assms(2)
    by (auto simp: eager_backtracking_def bind_eq_Some_conv split: if_splits
        dest!: dfs_upd_states_inv [where c = c])
  with assms show ?thesis
    by (auto simp: depth_guard_by_depth_def backtracking_def bind_eq_Some_conv split: if_splits)
qed

lemma flip_named_keeps: "flip_named P pname w = Some (b, w') \<Longrightarrow> source_inv c w \<Longrightarrow> source_inv c w'"
  by (auto simp: flip_named_def bind_eq_Some_conv intro: rnd.flip_keeps [OF _ keeps_None])

definition follows :: "bool option list \<Rightarrow> bool list \<Rightarrow> bool" where
  "follows ds bits \<longleftrightarrow> list_all2 (\<lambda>d b. \<forall>x. d = Some x \<longrightarrow> b = x) ds bits"

lemma levels_loop_spec:
  assumes "levels_loop P pname ds acc w = Some (complete, v, w')" "rnd_inv c w"
  shows "rnd_inv c w' \<and> (w_err w' = SUCCESS \<longrightarrow> complete) \<and>
    (complete \<longrightarrow> (\<exists>bits. v = acc @ bits \<and> follows ds bits))"
  using assms
proof (induction P pname ds acc w rule: levels_loop.induct)
  case (1 P pname acc w)
  then show ?case by (auto simp: follows_def)
next
  case (2 P pname b ds acc w)
  from 2(1) [OF 2(2)[simplified] 2(3)] show ?case by (force simp: follows_def)
next
  case (3 P pname ds acc w)
  from 3(2) obtain g w1 where g: "depth_guard_by_depth 1 w = Some (g, w1)"
    by (auto simp: bind_eq_Some_conv)
  note k1 = depth_guard_keeps [OF g 3(3)]
  show ?case
  proof (cases "g = GOOD_DEPTH")
    case False
    with 3(2) g k1 depth_guard_error [OF g] show ?thesis by auto
  next
    case True
    with 3(2) g obtain b w2 where b: "flip_named P pname w1 = Some (b, w2)"
      by (auto simp: bind_eq_Some_conv)
    note k2 = flip_named_keeps [OF b k1]
    show ?thesis
    proof (cases "w_err w2 = SUCCESS")
      case False
      with True 3(2) g b k2 show ?thesis by auto
    next
      case err: True
      have "levels_loop P pname ds (acc @ [b]) w2 = Some (complete, v, w')"
        using True 3(2) g b err by simp
      from 3(1) [OF g refl _ b refl _ this k2] True err show ?thesis by (force simp: follows_def)
    qed
  qed
qed

lemma follows_at: "follows (map f [0..<n]) bits \<Longrightarrow> length bits = n \<and> (\<forall>i < n. \<forall>x. f i = Some x \<longrightarrow> bits ! i = x)"
  by (auto simp: follows_def list_all2_conv_all_nth)

lemma follows_first: "follows (map f [0..<n]) bits \<Longrightarrow> Suc 0 < n \<Longrightarrow> f 0 = Some x \<Longrightarrow> bits ! 0 = x"
  using follows_at [of f n bits] by auto

section \<open>Random qualifiers match the qualifiers they are made from\<close>

text \<open>What \<open>stricter_than\<close> asks of the volatile bits, and vectors without qualified pointers.\<close>

definition storage_stricter :: "bool list \<Rightarrow> bool list \<Rightarrow> bool" where
  "storage_stricter mine yours \<longleftrightarrow> levels_stricter mine yours \<and> (length mine > 1 \<longrightarrow> mine ! 0 = yours ! 0)"

definition scalar_bits :: "bool list \<Rightarrow> bool" where
  "scalar_bits bs \<longleftrightarrow> (\<forall>i < length bs. 0 < i \<longrightarrow> \<not> bs ! i)"

definition scalar_qfer :: "CGOptions \<Rightarrow> CVQualifiers \<Rightarrow> bool" where
  "scalar_qfer c q \<longleftrightarrow>
     (opt_volatile_pointers c \<and> opt_global_variables c \<or> scalar_bits (is_volatiles q)) \<and>
     (opt_const_pointers c \<or> scalar_bits (is_consts q))"

lemma length_clear_tail [simp]: "length (clear_tail bs) = length bs"
  by (cases bs) (auto simp: clear_tail_def)

lemma nth_clear_tail: "i < length bs \<Longrightarrow> clear_tail bs ! i = (if i = 0 then bs ! 0 else False)"
  by (cases bs; cases i) (auto simp: clear_tail_def)

lemma length_make_scalar [simp]:
  "length (make_scalar_consts c v) = length v" "length (make_scalar_volatiles c v) = length v"
  by (simp_all add: make_scalar_consts_def make_scalar_volatiles_def)

lemma stricter_than_bits:
  assumes "length (is_consts a) = length (is_volatiles a)" "length (is_consts b) = length (is_consts a)"
    "length (is_volatiles b) = length (is_volatiles a)"
    "levels_stricter (is_consts a) (is_consts b)" "storage_stricter (is_volatiles a) (is_volatiles b)"
  shows "stricter_than a b = Some True"
  using assms by (auto simp: stricter_than_def storage_stricter_def)

lemma clear_tail_first [simp]: "Suc 0 < length bs \<Longrightarrow> clear_tail bs ! 0 = bs ! 0"
  by (subst nth_clear_tail) auto

text \<open>Clearing bits keeps a vector looser than another, and clearing the tail of a vector keeps it
  stricter than one without qualified pointers.\<close>

lemma nth_clear_last:
  "clear_last v = Some u \<Longrightarrow> i < length v \<Longrightarrow> u ! i = (if Suc i = length v then False else v ! i)"
  by (auto simp: clear_last_def nth_list_update split: if_splits)

lemma clear_last_looser:
  assumes "clear_last v = Some u" "length v = length bs"
  shows "levels_stricter bs v \<Longrightarrow> levels_stricter bs u" "storage_stricter bs v \<Longrightarrow> storage_stricter bs u"
    "length u = length v"
proof -
  have u: "u ! i = (if Suc i = length bs then False else v ! i)" if "i < length bs" for i
    using nth_clear_last [OF assms(1)] that assms(2) by simp
  show l: "levels_stricter bs v \<Longrightarrow> levels_stricter bs u"
    by (auto simp: levels_stricter_def level_stricter_def u)
  show "storage_stricter bs v \<Longrightarrow> storage_stricter bs u"
    using l u [of 0] by (cases bs) (auto simp: storage_stricter_def)
  show "length u = length v" using assms(1) by (auto simp: clear_last_def split: if_splits)
qed

lemma clear_tail_looser:
  assumes "scalar_bits bs" "length v = length bs"
  shows "levels_stricter bs v \<Longrightarrow> levels_stricter bs (clear_tail v)"
    "storage_stricter bs v \<Longrightarrow> storage_stricter bs (clear_tail v)"
    "levels_stricter v bs \<Longrightarrow> levels_stricter (clear_tail v) bs"
    "storage_stricter v bs \<Longrightarrow> storage_stricter (clear_tail v) bs"
  using assms
  by (auto simp: levels_stricter_def level_stricter_def storage_stricter_def scalar_bits_def
      nth_clear_tail)

lemma make_scalar_stricter:
  assumes "scalar_qfer c q" "length v = length (is_volatiles q)" "length u = length (is_consts q)"
  shows "storage_stricter (is_volatiles q) v \<Longrightarrow> storage_stricter (is_volatiles q) (make_scalar_volatiles c v)"
    "storage_stricter v (is_volatiles q) \<Longrightarrow> storage_stricter (make_scalar_volatiles c v) (is_volatiles q)"
    "levels_stricter (is_consts q) u \<Longrightarrow> levels_stricter (is_consts q) (make_scalar_consts c u)"
    "levels_stricter u (is_consts q) \<Longrightarrow> levels_stricter (make_scalar_consts c u) (is_consts q)"
  using assms clear_tail_looser
  by (auto simp: scalar_qfer_def make_scalar_volatiles_def make_scalar_consts_def)

text \<open>The four vector generators.\<close>

lemma looser_volatiles_spec:
  assumes "random_looser_volatiles P q w = Some (v, w')" "rnd_inv c w" "w_err w' = SUCCESS"
    and "\<not> opt_match_exact_qualifiers c" "scalar_qfer c q"
  shows "length v = length (is_volatiles q)" "storage_stricter (is_volatiles q) v" "rnd_inv c w'"
proof -
  from assms(2) have o: "w_opts w = c" by (simp add: source_inv_def)
  with assms(1,4) obtain complete u where
    l: "levels_loop P pRegularVolatileProb
        (map (decide_looser_volatiles q) [0..<length (is_volatiles q)]) [] w = Some (complete, u, w')"
      "v = (if complete then make_scalar_volatiles c u else u)"
    by (auto simp: random_looser_volatiles_def)
  from levels_loop_spec [OF l(1) assms(2)] assms(3) have
    s: complete "follows (map (decide_looser_volatiles q) [0..<length (is_volatiles q)]) u" "rnd_inv c w'"
    by auto
  from follows_at [OF s(2)] have u: "length u = length (is_volatiles q)"
    "storage_stricter (is_volatiles q) u"
    using follows_first [OF s(2)]
    by (auto simp: storage_stricter_def levels_stricter_def level_stricter_def decide_looser_volatiles_def
        Let_def split: if_splits)
  with l(2) s(1,3) make_scalar_stricter(1) [OF assms(5) u(1) refl]
  show "length v = length (is_volatiles q)" "storage_stricter (is_volatiles q) v" "rnd_inv c w'"
    by simp_all
qed

lemma stricter_volatiles_spec:
  assumes "random_stricter_volatiles P q w = Some (v, w')" "rnd_inv c w" "w_err w' = SUCCESS"
    and "\<not> opt_match_exact_qualifiers c" "scalar_qfer c q"
  shows "length v = length (is_volatiles q)" "storage_stricter v (is_volatiles q)" "rnd_inv c w'"
proof -
  from assms(2) have o: "w_opts w = c" by (simp add: source_inv_def)
  with assms(1,4) obtain complete u where
    l: "levels_loop P pRegularVolatileProb
        (map (decide_stricter_volatiles c q) [0..<length (is_volatiles q)]) [] w = Some (complete, u, w')"
      "v = (if complete then make_scalar_volatiles c u else u)"
    by (cases "length (is_consts q) < length (is_volatiles q)") (auto simp: random_stricter_volatiles_def)
  from levels_loop_spec [OF l(1) assms(2)] assms(3) have
    s: complete "follows (map (decide_stricter_volatiles c q) [0..<length (is_volatiles q)]) u" "rnd_inv c w'"
    by auto
  from follows_at [OF s(2)] have u: "length u = length (is_volatiles q)"
    "storage_stricter u (is_volatiles q)"
    using follows_first [OF s(2)]
    by (auto simp: storage_stricter_def levels_stricter_def level_stricter_def decide_stricter_volatiles_def
        Let_def split: if_splits)
  with l(2) s(1,3) make_scalar_stricter(2) [OF assms(5) u(1) refl]
  show "length v = length (is_volatiles q)" "storage_stricter v (is_volatiles q)" "rnd_inv c w'"
    by simp_all
qed

lemma looser_consts_spec:
  assumes "random_looser_consts P q w = Some (v, w')" "rnd_inv c w" "w_err w' = SUCCESS"
    and "\<not> opt_match_exact_qualifiers c"
  shows "length v = length (is_consts q)" "levels_stricter (is_consts q) v" "rnd_inv c w'"
proof -
  from assms(2) have o: "w_opts w = c" by (simp add: source_inv_def)
  with assms(1,4) obtain complete where
    l: "levels_loop P pLooserConstProb (map (decide_looser_consts q) [0..<length (is_consts q)]) [] w
      = Some (complete, v, w')"
    by (auto simp: random_looser_consts_def)
  from levels_loop_spec [OF l assms(2)] assms(3) have
    s: "follows (map (decide_looser_consts q) [0..<length (is_consts q)]) v" "rnd_inv c w'"
    by auto
  from follows_at [OF s(1)] s(2)
  show "length v = length (is_consts q)" "levels_stricter (is_consts q) v" "rnd_inv c w'"
    by (auto simp: levels_stricter_def level_stricter_def decide_looser_consts_def split: if_splits)
qed

lemma stricter_consts_spec:
  assumes "random_stricter_consts P q w = Some (v, w')" "rnd_inv c w" "w_err w' = SUCCESS"
    and "\<not> opt_match_exact_qualifiers c"
  shows "length v = length (is_consts q)" "levels_stricter v (is_consts q)" "rnd_inv c w'"
proof -
  from assms(2) have o: "w_opts w = c" by (simp add: source_inv_def)
  with assms(1,4) obtain complete where
    l: "levels_loop P pStricterConstProb (map (decide_stricter_consts c q) [0..<length (is_consts q)]) [] w
      = Some (complete, v, w')"
    by (auto simp: random_stricter_consts_def split: if_splits)
  from levels_loop_spec [OF l assms(2)] assms(3) have
    s: "follows (map (decide_stricter_consts c q) [0..<length (is_consts q)]) v" "rnd_inv c w'"
    by auto
  from follows_at [OF s(1)] s(2)
  show "length v = length (is_consts q)" "levels_stricter v (is_consts q)" "rnd_inv c w'"
    by (auto simp: levels_stricter_def level_stricter_def decide_stricter_consts_def split: if_splits)
qed

lemma clear_last_const:
  assumes "(if access = WRITE then clear_last v else Some v) = Some u" "length v = length bs"
    "levels_stricter bs v"
  shows "levels_stricter bs u" "length u = length bs"
  using assms clear_last_looser [of v u bs] by (auto split: if_splits)

definition no_volatile_ok :: "bool \<Rightarrow> CVQualifiers \<Rightarrow> bool" where
  "no_volatile_ok no_volatile q \<longleftrightarrow> (no_volatile \<longrightarrow> (\<forall>b \<in> set (is_volatiles q). \<not> b))"

lemma no_volatile_same:
  "no_volatile_ok True q \<Longrightarrow> replicate (length (is_volatiles q)) False = is_volatiles q"
  by (rule replicate_length_same) (simp add: no_volatile_ok_def)

lemma storage_stricter_refl [simp]: "storage_stricter bs bs"
  by (simp add: storage_stricter_def levels_stricter_def level_stricter_def)

text \<open>The shared body: whatever the two vector generators promise of their vectors (\<open>V\<close> and \<open>C\<close>,
  closed under the adjustments that follow), the result has it.\<close>

lemma random_from_this_cases:
  assumes "random_from_this gv gc no_volatile access sef q w = Some (r, w')" "\<not> wildcard q"
    and "rnd_inv c w" "w_err w' = SUCCESS" "no_volatile_ok no_volatile q"
    and V: "\<And>v w1. gv w = Some (v, w1) \<Longrightarrow> w_err w1 = SUCCESS \<Longrightarrow> rnd_inv c w1 \<and> V v"
    and C: "\<And>v w1 w2. gc w1 = Some (v, w2) \<Longrightarrow> rnd_inv c w1 \<Longrightarrow> w_err w2 = SUCCESS \<Longrightarrow> rnd_inv c w2 \<and> C v"
    and last: "\<And>v u. \<not> sef \<Longrightarrow> V v \<Longrightarrow> clear_last v = Some u \<Longrightarrow> V u"
    and clear: "V (is_volatiles q)"
  shows "\<exists>v u u'. V v \<and> C u \<and> (if access = WRITE then clear_last (make_scalar_consts c u)
      else Some (make_scalar_consts c u)) = Some u' \<and> r = CVQualifiers_of u' (make_scalar_volatiles c v)"
proof -
  from assms(1,2) obtain v w1 where v: "volatiles_from_this gv no_volatile sef q w = Some (v, w1)"
    unfolding random_from_this_def
    by (cases "volatiles_from_this gv no_volatile sef q w") (simp_all, force)
  with assms(1,2) have rest:
    "(if w_err w1 \<noteq> SUCCESS then Some (CVQualifiers_of [] v, w1)
      else do {
        let volatiles = make_scalar_volatiles (w_opts w1) v;
        (cs, w2) \<leftarrow> gc w1;
        let consts = make_scalar_consts (w_opts w2) cs;
        if w_err w2 \<noteq> SUCCESS then Some (CVQualifiers_of consts volatiles, w2)
        else do {
          consts \<leftarrow> (if access = WRITE then clear_last consts else Some consts);
          Some (CVQualifiers_of consts volatiles, w2)
        }
      }) = Some (r, w')"
    by (simp add: random_from_this_def)
  with assms(4) have e1: "w_err w1 = SUCCESS" by (cases "w_err w1 = SUCCESS") auto
  have v1: "V v \<and> rnd_inv c w1"
  proof (cases no_volatile)
    case True
    with v assms(3,5) clear show ?thesis by (auto simp: no_volatile_same volatiles_from_this_def)
  next
    case False
    with v e1 obtain v0 where "gv w = Some (v0, w1)"
      "(if \<not> sef then clear_last v0 else Some v0) = Some v"
      by (auto simp: volatiles_from_this_def bind_eq_Some_conv split: if_splits)
    with V e1 last show ?thesis by (auto split: if_splits)
  qed
  from rest e1 obtain cs w2 where c: "gc w1 = Some (cs, w2)"
    by (auto simp: Let_def bind_eq_Some_conv)
  with rest e1 assms(4) have e2: "w_err w2 = SUCCESS"
    by (cases "w_err w2 = SUCCESS") (auto simp: Let_def)
  from C [OF c _ e2] v1 have c1: "C cs" "rnd_inv c w2" by auto
  with v1 have o: "w_opts w1 = c" "w_opts w2 = c" by (auto simp: source_inv_def)
  from rest e1 e2 c o obtain u' where "(if access = WRITE then clear_last (make_scalar_consts c cs)
      else Some (make_scalar_consts c cs)) = Some u'" "r = CVQualifiers_of u' (make_scalar_volatiles c v)"
    by (auto simp: Let_def bind_eq_Some_conv cong: if_cong)
  with v1 c1(1) show ?thesis by blast
qed

lemma random_qualifiers_from_matches:
  assumes "random_qualifiers_from P no_volatile READ True q w = Some (r, w')" "w_err w' = SUCCESS"
    and "rnd_inv c w" "\<not> opt_match_exact_qualifiers c" "scalar_qfer c q"
    and "length (is_consts q) = length (is_volatiles q)" "no_volatile_ok no_volatile q" "\<not> wildcard q"
  shows "if accept_stricter q then stricter_than r q = Some True else stricter_than q r = Some True"
proof (cases "accept_stricter q")
  case True
  have "\<exists>v u u'. (length v = length (is_volatiles q) \<and> storage_stricter v (is_volatiles q)) \<and>
      (length u = length (is_consts q) \<and> levels_stricter u (is_consts q)) \<and>
      (if READ = WRITE then clear_last (make_scalar_consts c u) else Some (make_scalar_consts c u)) = Some u' \<and>
      r = CVQualifiers_of u' (make_scalar_volatiles c v)"
    by (rule random_from_this_cases [OF assms(1) [unfolded random_qualifiers_from_def] assms(8,3,2,7)])
      (use True stricter_volatiles_spec [OF _ _ _ assms(4,5)] stricter_consts_spec [OF _ _ _ assms(4)]
        assms(3) in auto)
  then show ?thesis using True assms(6) make_scalar_stricter [OF assms(5)]
    by (auto simp: CVQualifiers_of_def intro!: stricter_than_bits)
next
  case False
  have "\<exists>v u u'. (length v = length (is_volatiles q) \<and> storage_stricter (is_volatiles q) v) \<and>
      (length u = length (is_consts q) \<and> levels_stricter (is_consts q) u) \<and>
      (if READ = WRITE then clear_last (make_scalar_consts c u) else Some (make_scalar_consts c u)) = Some u' \<and>
      r = CVQualifiers_of u' (make_scalar_volatiles c v)"
    by (rule random_from_this_cases [OF assms(1) [unfolded random_qualifiers_from_def] assms(8,3,2,7)])
      (use False looser_volatiles_spec [OF _ _ _ assms(4,5)] looser_consts_spec [OF _ _ _ assms(4)]
        assms(3) in auto)
  then show ?thesis using False assms(6) make_scalar_stricter [OF assms(5)]
    by (auto simp: CVQualifiers_of_def intro!: stricter_than_bits)
qed

lemma random_loose_matches:
  assumes "random_loose_qualifiers P no_volatile access sef q w = Some (r, w')" "w_err w' = SUCCESS"
    and "rnd_inv c w" "\<not> opt_match_exact_qualifiers c" "scalar_qfer c q"
    and "length (is_consts q) = length (is_volatiles q)" "no_volatile_ok no_volatile q" "\<not> wildcard q"
  shows "stricter_than q r = Some True"
proof -
  have "\<exists>v u u'. (length v = length (is_volatiles q) \<and> storage_stricter (is_volatiles q) v) \<and>
      (length u = length (is_consts q) \<and> levels_stricter (is_consts q) u) \<and>
      (if access = WRITE then clear_last (make_scalar_consts c u) else Some (make_scalar_consts c u)) = Some u' \<and>
      r = CVQualifiers_of u' (make_scalar_volatiles c v)"
    by (rule random_from_this_cases [OF assms(1) [unfolded random_loose_qualifiers_def] assms(8,3,2,7)])
      (use looser_volatiles_spec [OF _ _ _ assms(4,5)] looser_consts_spec [OF _ _ _ assms(4)]
        clear_last_looser assms(3) in auto)
  then obtain v u u' where v: "length v = length (is_volatiles q)" "storage_stricter (is_volatiles q) v"
    and u: "length u = length (is_consts q)" "levels_stricter (is_consts q) u"
    and u': "(if access = WRITE then clear_last (make_scalar_consts c u)
        else Some (make_scalar_consts c u)) = Some u'"
    and r: "r = CVQualifiers_of u' (make_scalar_volatiles c v)" by blast
  note ms = make_scalar_stricter [OF assms(5) v(1) u(1)]
  from clear_last_const [OF u' _ ms(3) [OF u(2)]] u(1)
  have "levels_stricter (is_consts q) u'" "length u' = length (is_consts q)" by simp_all
  with r ms(1) [OF v(2)] v(1) assms(6) show ?thesis
    by (auto simp: CVQualifiers_of_def intro!: stricter_than_bits)
qed


text \<open>
  Qualifiers loosened at random for an access of any kind, in any context, are never stricter
  than the original: a variable with the original qualifiers can be read through them.
\<close>
lemma random_loose_qualifiers_looser:
  assumes "random_loose_qualifiers P no_volatile access sef q w = Some (r, w')" "w_err w' = SUCCESS"
    and "rnd_inv c w" "\<not> opt_match_exact_qualifiers c" "scalar_qfer c q"
    and "length (is_consts q) = length (is_volatiles q)" "no_volatile_ok no_volatile q" "\<not> wildcard q"
  shows "stricter_than q r = Some True"
  by (rule random_loose_matches [OF assms])

lemma example_opts:
  "w_opts (example_world g) = CGOptions_static\<lparr>opt_max_exhaustive_depth := 2, opt_random_based := False\<rparr>"
  "w_err (example_world g) = SUCCESS" "w_default (example_world g) = Some default_new"
  "w_curr (example_world g) = Some g"
  by (simp_all add: example_world_def Let_def)

lemma example_inv: "rnd_inv (w_opts (example_world g)) (example_world g)"
  by (auto simp: source_inv_def example_world_def Let_def dfs_new_def init_states_def SearchState_new_def)


section \<open>All qualifiers\<close>

definition qualifier_bits :: "int \<Rightarrow> bool list" where
  "qualifier_bits p = (if p = 0 then [False] else if p = 100 then [True] else [False, True])"

text \<open>
  C0: \<open>get_all_qualifiers\<close> appends every combination of const and volatile that the two
  probabilities leave possible, each once: a probability of 0 or 100 fixes its bit.
\<close>
theorem get_all_qualifiers_complete:
  "get_all_qualifiers cp vp quals =
     Some (quals @ [CVQualifiers_of [k] [v]. k \<leftarrow> qualifier_bits cp, v \<leftarrow> qualifier_bits vp])"
proof -
  note defs = get_all_qualifiers_def add_bool_elem_def EnumObject_new_def insert_elem_def
    Enumerator_new_def enum_begin_def reset_pos_def all_qualifiers_loop.simps get_elem_def enum_next.simps
    roll_back_current_pos_def EnumObject_next_def set_obj_def reset_after_backward_pos_def
    clear_value_def qualifier_bits_def reset_all_changed_def reset_changed_def good_value_def
  consider "cp = 0" | "cp = 100" | "cp \<noteq> 0" "cp \<noteq> 100" by blast
  then show ?thesis
    by cases (cases "vp = 0"; cases "vp = 100"; simp add: defs)+
qed

section \<open>The order of qualifiers\<close>

lemma stricter_thanD:
  assumes "stricter_than a b = Some True"
  shows "length (is_consts a) = length (is_volatiles a)" "length (is_consts b) = length (is_consts a)"
    "length (is_volatiles b) = length (is_volatiles a)" "levels_stricter (is_consts a) (is_consts b)"
    "storage_stricter (is_volatiles a) (is_volatiles b)"
  using assms by (auto simp: stricter_than_def storage_stricter_def split: if_splits)

lemma levels_stricter_trans:
  "levels_stricter x y \<Longrightarrow> levels_stricter y z \<Longrightarrow> length y = length x \<Longrightarrow> levels_stricter x z"
  by (auto simp: levels_stricter_def level_stricter_def)

lemma levels_stricter_antisym:
  assumes "levels_stricter x y" "levels_stricter y x" "length y = length x"
  shows "x = y"
  using assms by (intro nth_equalityI) (auto simp: levels_stricter_def level_stricter_def)

lemma storage_stricter_trans:
  "storage_stricter x y \<Longrightarrow> storage_stricter y z \<Longrightarrow> length y = length x \<Longrightarrow> storage_stricter x z"
  using levels_stricter_trans by (auto simp: storage_stricter_def)

lemma levels_stricter_take:
  "levels_stricter x y \<Longrightarrow> length y = length x \<Longrightarrow> levels_stricter (take n x) (take n y)"
  by (auto simp: levels_stricter_def level_stricter_def)

text \<open>
  \<open>stricter_than\<close> is a partial order on qualifiers: it is transitive, and qualifiers that are
  stricter than each other have the same bits.
\<close>
lemma stricter_than_order:
  assumes "stricter_than a b = Some True" "stricter_than b d = Some True"
  shows "stricter_than a d = Some True
    \<and> (stricter_than b a = Some True \<longrightarrow> is_consts a = is_consts b \<and> is_volatiles a = is_volatiles b)"
proof -
  note ab = stricter_thanD [OF assms(1)] and bd = stricter_thanD [OF assms(2)]
  have "stricter_than a d = Some True"
    by (rule stricter_than_bits [OF ab(1) trans [OF bd(2) ab(2)] trans [OF bd(3) ab(3)]
          levels_stricter_trans [OF ab(4) bd(4) ab(2)] storage_stricter_trans [OF ab(5) bd(5) ab(3)]])
  moreover have "is_consts a = is_consts b \<and> is_volatiles a = is_volatiles b"
    if "stricter_than b a = Some True"
    using levels_stricter_antisym [OF ab(4) stricter_thanD(4) [OF that] ab(2)]
      levels_stricter_antisym [of "is_volatiles a" "is_volatiles b"] ab(3,5) stricter_thanD(5) [OF that]
    by (simp add: storage_stricter_def)
  ultimately show ?thesis by blast
qed

text \<open>
  Dereferencing respects the order: qualifiers that are stricter before stay stricter when the
  same number of levels, less than all, is removed from both.
\<close>
lemma deref_keeps_stricter:
  assumes "stricter_than a b = Some True" "0 < n" "n < int (length (is_consts a))"
    and "\<not> wildcard a" "\<not> wildcard b"
  shows "\<exists>a' b'. indirect_qualifiers n a = Some a' \<and> indirect_qualifiers n b = Some b'
    \<and> stricter_than a' b' = Some True"
proof -
  note ab = stricter_thanD [OF assms(1)]
  let ?k = "length (is_consts a) - nat n"
  have v: "storage_stricter (take ?k (is_volatiles a)) (take ?k (is_volatiles b))"
    using ab(3,5) levels_stricter_take [of "is_volatiles a" "is_volatiles b"]
    by (auto simp: storage_stricter_def)
  have "stricter_than (a\<lparr>is_consts := take ?k (is_consts a), is_volatiles := take ?k (is_volatiles a)\<rparr>)
      (b\<lparr>is_consts := take ?k (is_consts b), is_volatiles := take ?k (is_volatiles b)\<rparr>) = Some True"
    using ab v levels_stricter_take [OF ab(4,2)] by (intro stricter_than_bits) auto
  with ab assms(2-5) show ?thesis by (auto simp: indirect_qualifiers_def remove_qualifiers_def)
qed

end
