(* ===== verification/Variables.thy ===== *)
theory Variables
  imports Types "HOL-Library.Word"
begin

text \<open>
  Variables of the generated program (\<open>Variable.cpp\<close>, and the queries of \<open>ArrayVariable.cpp\<close> that
  override them).  Variables point at each other (a field at its container, a container at its
  fields, an array member at the collective array), so they live in a store: a list of records,
  whose index is the address of the object.  \<open>'e\<close> is the type of the expressions that initialise
  and index variables; nothing here looks into them.

  A container is constructed before its fields, so its address is smaller.  The walks along the
  pointers check this (and that no pointer dangles) as they go, and are undefined (\<open>None\<close>) on other
  stores; \<open>store_ok\<close> says that the check cannot fail.
\<close>

section \<open>The store\<close>

record 'e Variable =
  v_name :: string
  v_type :: "Type option"
  v_init :: "'e option"
  v_isAuto :: bool
  v_isStatic :: bool
  v_isHipShared :: bool
  v_isRegister :: bool
  v_isBitfield :: bool
  v_isAddrTaken :: bool
  v_isAccessOnce :: bool
  v_field_vars :: "nat list"
  v_field_var_of :: "nat option"
  v_qfer :: CVQualifiers
  v_isArray :: bool
  v_isVector :: bool
  v_collective :: "nat option"
  v_parent :: "nat option"
  v_sizes :: "nat list"
  v_indices :: "'e list"
  v_init_values :: "'e list"

type_synonym 'e vars = "'e Variable list"

text \<open>The first group of members is that of class \<open>Variable\<close>; the last six, from \<open>v_isVector\<close>
  on, exist when \<open>v_isArray\<close> is set.\<close>

definition container_of :: "'e vars \<Rightarrow> nat \<Rightarrow> nat option option" where
  "container_of vs a =
     do {
       v \<leftarrow> vec_get vs a;
       case v_field_var_of v of
         None \<Rightarrow> Some None
       | Some p \<Rightarrow> do { assert_opt (p < a); Some (Some p) }
     }"

definition fields_of :: "'e vars \<Rightarrow> nat \<Rightarrow> nat list option" where
  "fields_of vs a =
     do {
       v \<leftarrow> vec_get vs a;
       assert_opt (\<forall>c \<in> set (v_field_vars v). a < c \<and> c < length vs);
       Some (v_field_vars v)
     }"

lemma container_smaller [termination_simp]: "container_of vs a = Some (Some p) \<Longrightarrow> p < a"
  by (auto simp: container_of_def bind_eq_Some_conv split: option.splits)

lemma fields_larger [termination_simp]:
  "fields_of vs a = Some cs \<Longrightarrow> c \<in> set cs \<Longrightarrow> length vs - c < length vs - a"
  by (auto simp: fields_of_def bind_eq_Some_conv)

definition type_of :: "'e vars \<Rightarrow> nat \<Rightarrow> Type option" where
  "type_of vs a = do { v \<leftarrow> vec_get vs a; v_type v }"

section \<open>Containers\<close>

definition is_field_var :: "'e vars \<Rightarrow> nat \<Rightarrow> bool option" where
  "is_field_var vs a = map_option (\<lambda>p. p \<noteq> None) (container_of vs a)"

text \<open>\<open>type && type->is_aggregate()\<close>\<close>

definition var_is_aggregate :: "'e vars \<Rightarrow> nat \<Rightarrow> bool option" where
  "var_is_aggregate vs a =
     map_option (\<lambda>v. case v_type v of None \<Rightarrow> False | Some t \<Rightarrow> is_aggregate t) (vec_get vs a)"

definition is_pointer :: "'e vars \<Rightarrow> nat \<Rightarrow> bool option" where
  "is_pointer vs a =
     map_option (\<lambda>v. case v_type v of None \<Rightarrow> False | Some t \<Rightarrow> eType t = ePointer) (vec_get vs a)"

function get_top_container :: "'e vars \<Rightarrow> nat \<Rightarrow> nat option" where
  "get_top_container vs a =
     do { po \<leftarrow> container_of vs a; case po of None \<Rightarrow> Some a | Some p \<Rightarrow> get_top_container vs p }"
  by pat_completeness auto
termination by (relation "measure snd") (auto simp: termination_simp)

text \<open>The walk of \<open>has_field_var\<close>, from the variable asked about up to its containers.\<close>

function inside_of :: "'e vars \<Rightarrow> nat \<Rightarrow> nat \<Rightarrow> bool option" where
  "inside_of vs this tmp =
     (if tmp = this then Some True
      else do { po \<leftarrow> container_of vs tmp; case po of None \<Rightarrow> Some False | Some p \<Rightarrow> inside_of vs this p })"
  by pat_completeness auto
termination by (relation "measure (\<lambda>(vs, this, tmp). tmp)") (auto simp: termination_simp)

declare get_top_container.simps [simp del] inside_of.simps [simp del]

definition has_field_var :: "'e vars \<Rightarrow> nat \<Rightarrow> nat \<Rightarrow> bool option" where
  "has_field_var vs this v =
     do {
       t \<leftarrow> type_of vs this;
       if is_aggregate t then inside_of vs this v else Some False
     }"

definition var_match :: "'e vars \<Rightarrow> nat \<Rightarrow> nat \<Rightarrow> bool option" where
  "var_match vs this v =
     do {
       x \<leftarrow> vec_get vs this;
       y \<leftarrow> vec_get vs v;
       (case (v_type x, v_type y) of
          (Some t, Some u) \<Rightarrow>
            if is_aggregate t
            then (if this = v then Some True else has_field_var vs this v)
            else Some (this = v)
        | _ \<Rightarrow> Some (this = v))
     }"

text \<open>The walk of \<open>get_container_union\<close>; a container without a type cannot be asked for its kind.\<close>

function union_above :: "'e vars \<Rightarrow> nat \<Rightarrow> nat option option" where
  "union_above vs p =
     do {
       t \<leftarrow> type_of vs p;
       if eType t = eUnion then Some (Some p)
       else do { po \<leftarrow> container_of vs p; case po of None \<Rightarrow> Some None | Some q \<Rightarrow> union_above vs q }
     }"
  by pat_completeness auto
termination by (relation "measure snd") (auto simp: termination_simp)

declare union_above.simps [simp del]

definition get_container_union :: "'e vars \<Rightarrow> nat \<Rightarrow> nat option option" where
  "get_container_union vs a =
     do {
       v \<leftarrow> vec_get vs a;
       case v_type v of None \<Rightarrow> Some None | Some t \<Rightarrow> union_above vs a
     }"

definition is_union_field :: "'e vars \<Rightarrow> nat \<Rightarrow> bool option" where
  "is_union_field vs a =
     do {
       po \<leftarrow> container_of vs a;
       case po of None \<Rightarrow> Some False | Some p \<Rightarrow> map_option (\<lambda>t. eType t = eUnion) (type_of vs p)
     }"

function is_inside_union_field :: "'e vars \<Rightarrow> nat \<Rightarrow> bool option" where
  "is_inside_union_field vs a =
     do {
       b \<leftarrow> is_union_field vs a;
       if b then Some True
       else do {
         po \<leftarrow> container_of vs a;
         case po of None \<Rightarrow> Some False | Some p \<Rightarrow> is_inside_union_field vs p
       }
     }"
  by pat_completeness auto
termination by (relation "measure snd") (auto simp: termination_simp)

function is_packed_aggregate_field_var :: "'e vars \<Rightarrow> nat \<Rightarrow> bool option" where
  "is_packed_aggregate_field_var vs a =
     do {
       po \<leftarrow> container_of vs a;
       (case po of
          None \<Rightarrow> Some False
        | Some p \<Rightarrow>
            do {
              t \<leftarrow> type_of vs p;
              if packed t then Some True else is_packed_aggregate_field_var vs p
            })
     }"
  by pat_completeness auto
termination by (relation "measure snd") (auto simp: termination_simp)

function is_array_field :: "'e vars \<Rightarrow> nat \<Rightarrow> bool option" where
  "is_array_field vs a =
     do {
       po \<leftarrow> container_of vs a;
       case po of None \<Rightarrow> map_option v_isArray (vec_get vs a) | Some p \<Rightarrow> is_array_field vs p
     }"
  by pat_completeness auto
termination by (relation "measure snd") (auto simp: termination_simp)

function is_virtual :: "'e vars \<Rightarrow> nat \<Rightarrow> bool option" where
  "is_virtual vs a =
     do {
       po \<leftarrow> container_of vs a;
       case po of
         None \<Rightarrow> map_option (\<lambda>v. if v_isArray v then v_collective v = None else False) (vec_get vs a)
       | Some p \<Rightarrow> is_virtual vs p
     }"
  by pat_completeness auto
termination by (relation "measure snd") (auto simp: termination_simp)

declare is_inside_union_field.simps [simp del] is_packed_aggregate_field_var.simps [simp del]
  is_array_field.simps [simp del] is_virtual.simps [simp del]

definition get_field_id :: "'e vars \<Rightarrow> nat \<Rightarrow> int option" where
  "get_field_id vs a =
     do {
       po \<leftarrow> container_of vs a;
       case po of
         None \<Rightarrow> Some (- 1)
       | Some p \<Rightarrow> map_option (\<lambda>v. find_pos (\<lambda>c. c = a) (v_field_vars v)) (vec_get vs p)
     }"

section \<open>Sets of variables\<close>

text \<open>\<open>find_variable_in_set\<close>: the position of the first variable of the vector that matches.\<close>

fun find_variable_from :: "'e vars \<Rightarrow> nat list \<Rightarrow> nat \<Rightarrow> int \<Rightarrow> int option" where
  "find_variable_from vs [] v i = Some (- 1)"
| "find_variable_from vs (x # xs) v i =
     do { b \<leftarrow> var_match vs x v; if b then Some i else find_variable_from vs xs v (i + 1) }"

definition find_variable_in_set :: "'e vars \<Rightarrow> nat list \<Rightarrow> nat \<Rightarrow> int option" where
  "find_variable_in_set vs xs v = find_variable_from vs xs v 0"

fun first_found :: "('a \<Rightarrow> int option) \<Rightarrow> 'a list \<Rightarrow> int option" where
  "first_found f [] = Some (- 1)"
| "first_found f (x # xs) = do { pos \<leftarrow> f x; if pos \<noteq> - 1 then Some pos else first_found f xs }"

lemma first_found_cong [fundef_cong]:
  "xs = ys \<Longrightarrow> (\<And>x. x \<in> set ys \<Longrightarrow> f x = g x) \<Longrightarrow> first_found f xs = first_found g ys"
proof (induction xs arbitrary: ys)
  case (Cons x xs)
  then show ?case by (cases "g x") auto
qed simp

function find_field_variable_in_set :: "'e vars \<Rightarrow> nat list \<Rightarrow> nat \<Rightarrow> int option" where
  "find_field_variable_in_set vs xs v =
     do {
       agg \<leftarrow> var_is_aggregate vs v;
       if agg
       then do {
         cs \<leftarrow> fields_of vs v;
         first_found (\<lambda>field. do {
             pos \<leftarrow> find_variable_in_set vs xs field;
             if pos \<noteq> - 1 then Some pos else find_field_variable_in_set vs xs field
           }) cs
       }
       else Some (- 1)
     }"
  by pat_completeness auto
termination by (relation "measure (\<lambda>(vs, xs, v). length vs - v)") (auto simp: termination_simp)

declare find_field_variable_in_set.simps [simp del]

definition is_variable_in_set :: "nat list \<Rightarrow> nat \<Rightarrow> bool" where
  "is_variable_in_set xs v \<longleftrightarrow> v \<in> set xs"

definition add_variable_to_set :: "nat list \<Rightarrow> nat \<Rightarrow> bool \<times> nat list" where
  "add_variable_to_set xs v = (if \<not> is_variable_in_set xs v then (True, xs @ [v]) else (False, xs))"

definition add_variables_to_set :: "nat list \<Rightarrow> nat list \<Rightarrow> bool \<times> nat list" where
  "add_variables_to_set xs new_set =
     foldl (\<lambda>(changed, xs) v. let (c, xs1) = add_variable_to_set xs v in (changed \<or> c, xs1))
       (False, xs) new_set"

definition equal_variable_sets :: "nat list \<Rightarrow> nat list \<Rightarrow> bool" where
  "equal_variable_sets set1 set2 \<longleftrightarrow>
     length set1 = length set2 \<and> (\<forall>v \<in> set set1. is_variable_in_set set2 v)"

definition sub_variable_sets :: "nat list \<Rightarrow> nat list \<Rightarrow> bool" where
  "sub_variable_sets set1 set2 \<longleftrightarrow>
     length set1 \<le> length set2 \<and> (\<forall>v \<in> set set1. is_variable_in_set set2 v)"

text \<open>Only \<open>set1\<close> is searched, not what was pushed before.\<close>

definition combine_variable_sets :: "'e vars \<Rightarrow> nat list \<Rightarrow> nat list \<Rightarrow> nat list option" where
  "combine_variable_sets vs set1 set2 =
     fold_opt (\<lambda>v set_all. do {
         pos \<leftarrow> find_variable_in_set vs set1 v;
         Some (if pos = - 1 then set_all @ [v] else set_all)
       }) set2 set1"

lemma top_container_no_field: "get_top_container vs a = Some t \<Longrightarrow> container_of vs t = Some None"
proof (induction vs a rule: get_top_container.induct)
  case (1 vs a)
  from 1(2) obtain po where po: "container_of vs a = Some po"
    by (auto simp: get_top_container.simps [of vs a] bind_eq_Some_conv)
  show ?case
  proof (cases po)
    case None
    with po 1(2) show ?thesis by (simp add: get_top_container.simps [of vs a])
  next
    case (Some p)
    with po 1(2) have "get_top_container vs p = Some t" by (simp add: get_top_container.simps [of vs a])
    with 1(1) po Some show ?thesis by simp
  qed
qed

text \<open>\<open>remove_field_vars\<close>: \<open>acc\<close> is the part of the vector before the index, where no field is left.\<close>

function remove_field_loop :: "'e vars \<Rightarrow> nat list \<Rightarrow> nat list \<Rightarrow> nat list option" where
  "remove_field_loop vs acc [] = Some acc"
| "remove_field_loop vs acc (v # rest) =
     do {
       po \<leftarrow> container_of vs v;
       (case po of
          None \<Rightarrow> remove_field_loop vs (acc @ [v]) rest
        | Some p \<Rightarrow>
            do {
              t \<leftarrow> get_top_container vs v;
              if is_variable_in_set (acc @ rest) t then remove_field_loop vs acc rest
              else remove_field_loop vs acc (rest @ [t])
            })
     }"
  by pat_completeness auto
termination
proof (relation "inv_image (less_than <*lex*> less_than)
    (\<lambda>(vs, acc, rest). (length (filter (\<lambda>v. container_of vs v \<noteq> Some None) rest), length rest))")
qed (auto dest: top_container_no_field)

definition remove_field_vars :: "'e vars \<Rightarrow> nat list \<Rightarrow> nat list option" where
  "remove_field_vars vs xs = remove_field_loop vs [] xs"

section \<open>Names\<close>

definition has_prefix :: "string \<Rightarrow> string \<Rightarrow> bool" where
  "has_prefix p s \<longleftrightarrow> take (length p) s = p"

definition is_hip_const :: "'e vars \<Rightarrow> nat \<Rightarrow> bool option" where
  "is_hip_const vs a = map_option (\<lambda>v. has_prefix ''hip_const_'' (v_name v)) (vec_get vs a)"

definition is_hip_managed :: "'e vars \<Rightarrow> nat \<Rightarrow> bool option" where
  "is_hip_managed vs a = map_option (\<lambda>v. has_prefix ''hip_managed_'' (v_name v)) (vec_get vs a)"

definition is_hip_device :: "'e vars \<Rightarrow> nat \<Rightarrow> bool option" where
  "is_hip_device vs a = map_option (\<lambda>v. has_prefix ''hip_device_'' (v_name v)) (vec_get vs a)"

definition hip_builtins :: "string list" where
  "hip_builtins = [''threadIdx.x'', ''threadIdx.y'', ''threadIdx.z'', ''blockIdx.x'', ''blockIdx.y'',
     ''blockIdx.z'', ''blockDim.x'', ''blockDim.y'', ''blockDim.z'', ''gridDim.x'', ''gridDim.y'',
     ''gridDim.z'', ''warpSize'']"

definition is_hip_builtin :: "'e vars \<Rightarrow> nat \<Rightarrow> bool option" where
  "is_hip_builtin vs a = map_option (\<lambda>v. v_name v \<in> set hip_builtins) (vec_get vs a)"

definition is_local :: "'e vars \<Rightarrow> nat \<Rightarrow> bool option" where
  "is_local vs a = map_option (\<lambda>v. has_prefix ''l_'' (v_name v)) (vec_get vs a)"

definition is_argument :: "'e vars \<Rightarrow> nat \<Rightarrow> bool option" where
  "is_argument vs a = map_option (\<lambda>v. has_prefix ''p_'' (v_name v)) (vec_get vs a)"

definition is_tmp_var :: "'e vars \<Rightarrow> nat \<Rightarrow> bool option" where
  "is_tmp_var vs a = map_option (\<lambda>v. has_prefix ''t'' (v_name v)) (vec_get vs a)"

text \<open>\<open>name.find("_rv") != npos\<close>\<close>

fun has_substring :: "string \<Rightarrow> string \<Rightarrow> bool" where
  "has_substring p [] \<longleftrightarrow> p = []"
| "has_substring p (c # s) \<longleftrightarrow> has_prefix p (c # s) \<or> has_substring p s"

definition is_rv :: "'e vars \<Rightarrow> nat \<Rightarrow> bool option" where
  "is_rv vs a = map_option (\<lambda>v. has_substring ''_rv'' (v_name v)) (vec_get vs a)"

definition get_seq_num :: "'e vars \<Rightarrow> nat \<Rightarrow> int option" where
  "get_seq_num vs a =
     do {
       v \<leftarrow> vec_get vs a;
       index \<leftarrow> find_first_of (v_name v) (CHR ''_'') 0;
       str2int (drop (index + 1) (v_name v))
     }"

text \<open>The virtual \<open>is_global\<close>: an array variable, whatever its name, is global without a block.\<close>

function is_global :: "'e vars \<Rightarrow> nat \<Rightarrow> bool option" where
  "is_global vs a =
     do {
       v \<leftarrow> vec_get vs a;
       if v_isArray v then Some (v_parent v = None)
       else if has_prefix ''g_'' (v_name v) \<or> has_prefix ''hip_const_'' (v_name v) \<or>
               has_prefix ''hip_device_'' (v_name v) then Some True
       else do {
         po \<leftarrow> container_of vs a;
         case po of None \<Rightarrow> Some False | Some p \<Rightarrow> is_global vs p
       }
     }"
  by pat_completeness auto
termination by (relation "measure snd") (auto simp: termination_simp)

declare is_global.simps [simp del]

section \<open>Qualifiers after dereferencing\<close>

text \<open>\<open>for (i = 0; i < deref_level; i++) t = t->ptr_type; assert(t);\<close>\<close>

fun deref_type :: "nat \<Rightarrow> Type \<Rightarrow> Type option" where
  "deref_type 0 t = Some t"
| "deref_type (Suc n) t = (case ptr_type t of None \<Rightarrow> None | Some p \<Rightarrow> deref_type n p)"

definition var_is_const_after_deref :: "'e vars \<Rightarrow> nat \<Rightarrow> int \<Rightarrow> bool option" where
  "var_is_const_after_deref vs a deref_level =
     (if deref_level < 0 then Some False
      else do {
        v \<leftarrow> vec_get vs a;
        b \<leftarrow> is_const_after_deref (v_qfer v) deref_level;
        if b then Some True
        else (case v_type v of
            None \<Rightarrow> Some False
          | Some t \<Rightarrow> do { u \<leftarrow> deref_type (nat deref_level) t; is_const_struct_union u })
      })"

definition var_is_volatile_after_deref :: "'e vars \<Rightarrow> nat \<Rightarrow> int \<Rightarrow> bool option" where
  "var_is_volatile_after_deref vs a deref_level =
     (if deref_level < 0 then Some False
      else do {
        v \<leftarrow> vec_get vs a;
        b \<leftarrow> is_volatile_after_deref (v_qfer v) deref_level;
        if b then Some True
        else (case v_type v of
            None \<Rightarrow> Some False
          | Some t \<Rightarrow> do { u \<leftarrow> deref_type (nat deref_level) t; is_volatile_struct_union u })
      })"

definition is_partial_volatile_after_deref :: "'e vars \<Rightarrow> nat \<Rightarrow> int \<Rightarrow> bool option" where
  "is_partial_volatile_after_deref vs a deref_level =
     (if deref_level < 0 then Some False
      else do {
        v \<leftarrow> vec_get vs a;
        b \<leftarrow> is_volatile_after_deref (v_qfer v) deref_level;
        if b then Some False
        else (case v_type v of
            None \<Rightarrow> Some False
          | Some t \<Rightarrow> do { u \<leftarrow> deref_type (nat deref_level) t; is_volatile_struct_union u })
      })"

definition var_is_const :: "'e vars \<Rightarrow> nat \<Rightarrow> bool option" where
  "var_is_const vs a =
     do { h \<leftarrow> is_hip_const vs a; if h then Some True else var_is_const_after_deref vs a 0 }"

definition var_is_volatile :: "'e vars \<Rightarrow> nat \<Rightarrow> bool option" where
  "var_is_volatile vs a = var_is_volatile_after_deref vs a 0"

definition is_access_once :: "'e vars \<Rightarrow> nat \<Rightarrow> bool option" where
  "is_access_once vs a = map_option v_isAccessOnce (vec_get vs a)"

section \<open>Arrays\<close>

text \<open>The nearest array above a field, and the collective of an array variable.\<close>

function array_above :: "'e vars \<Rightarrow> nat \<Rightarrow> nat option" where
  "array_above vs p =
     do {
       v \<leftarrow> vec_get vs p;
       if v_isArray v then Some p
       else do { po \<leftarrow> container_of vs p; case po of None \<Rightarrow> None | Some q \<Rightarrow> array_above vs q }
     }"
  by pat_completeness auto
termination by (relation "measure snd") (auto simp: termination_simp)

declare array_above.simps [simp del]

definition array_collective :: "'e vars \<Rightarrow> nat \<Rightarrow> nat option" where
  "array_collective vs a =
     map_option (\<lambda>v. case v_collective v of None \<Rightarrow> a | Some c \<Rightarrow> c) (vec_get vs a)"

text \<open>
  The field names behind the last \<open>]\<close> of the name of a field of an array member, as in
  \<open>g_3[1].f0.f2\<close>: after each dot comes the letter \<open>f\<close>, then the index.  A dot at the end of the
  name makes \<open>substr\<close> throw; two dots in a row, which no name has, are left undefined too.
\<close>

definition after_last_bracket :: "string \<Rightarrow> string option" where
  "after_last_bracket s =
     (if CHR '']'' \<in> set s then Some (rev (takeWhile (\<lambda>c. c \<noteq> CHR '']'') (rev s))) else None)"

fun dot_pieces :: "string \<Rightarrow> string \<Rightarrow> string list" where
  "dot_pieces acc [] = [acc]"
| "dot_pieces acc (c # s) = (if c = CHR ''.'' then acc # dot_pieces [] s else dot_pieces (acc @ [c]) s)"

definition field_index :: "string \<Rightarrow> int option" where
  "field_index s = (case s of [] \<Rightarrow> None | c # ds \<Rightarrow> str2int ds)"

fun follow_fields :: "'e vars \<Rightarrow> nat \<Rightarrow> string list \<Rightarrow> nat option" where
  "follow_fields vs coll [] = Some coll"
| "follow_fields vs coll (s # ss) =
     do {
       index \<leftarrow> field_index s;
       v \<leftarrow> vec_get vs coll;
       assert_opt (0 \<le> index \<and> index < int (length (v_field_vars v)));
       follow_fields vs (v_field_vars v ! nat index) ss
     }"

text \<open>\<open>ArrayVariable::get_collective\<close> and \<open>Variable::get_collective\<close>.\<close>

definition get_collective :: "'e vars \<Rightarrow> nat \<Rightarrow> nat option" where
  "get_collective vs a =
     do {
       v \<leftarrow> vec_get vs a;
       if v_isArray v then array_collective vs a
       else do {
         af \<leftarrow> is_array_field vs a;
         if \<not> af then Some a
         else do {
           po \<leftarrow> container_of vs a;
           p \<leftarrow> po;
           parent \<leftarrow> array_above vs p;
           coll \<leftarrow> array_collective vs parent;
           if coll = parent then Some a
           else do {
             field_names \<leftarrow> after_last_bracket (v_name v);
             follow_fields vs coll (tl (dot_pieces [] field_names))
           }
         }
       }
     }"

definition loose_match :: "'e vars \<Rightarrow> nat \<Rightarrow> nat \<Rightarrow> bool option" where
  "loose_match vs this v =
     do {
       me \<leftarrow> get_collective vs this;
       you \<leftarrow> get_collective vs v;
       m \<leftarrow> var_match vs me you;
       if m then Some True
       else do {
         me_u \<leftarrow> get_container_union vs me;
         you_u \<leftarrow> get_container_union vs you;
         Some (me_u \<noteq> None \<and> you_u \<noteq> None \<and> me_u = you_u)
       }
     }"

definition get_named_var :: "'e vars \<Rightarrow> nat \<Rightarrow> nat option" where
  "get_named_var vs a = do { v \<leftarrow> get_top_container vs a; get_collective vs v }"

text \<open>\<open>get_size\<close>; the products are \<open>unsigned long\<close>.\<close>

definition get_size :: "'e Variable \<Rightarrow> 64 word" where
  "get_size av = foldl (\<lambda>len n. len * of_nat n) 1 (v_sizes av)"

definition size_in_bytes :: "'e Variable \<Rightarrow> 64 word option" where
  "size_in_bytes av =
     do {
       t \<leftarrow> v_type av;
       sz \<leftarrow> SizeInBytes t;
       Some (foldl (\<lambda>len n. len * of_nat n) (of_nat sz) (v_sizes av))
     }"

definition GetMaxArrayDimension :: "'e vars \<Rightarrow> nat list \<Rightarrow> nat option" where
  "GetMaxArrayDimension vs xs =
     fold_opt (\<lambda>a dimen. do {
         v \<leftarrow> vec_get vs a;
         Some (if v_isArray v \<and> length (v_sizes v) > dimen then length (v_sizes v) else dimen)
       }) xs 0"

section \<open>Field trees\<close>

function find_pointer_fields :: "'e vars \<Rightarrow> nat \<Rightarrow> nat list \<Rightarrow> nat list option" where
  "find_pointer_fields vs a ptr_fields =
     do {
       cs \<leftarrow> fields_of vs a;
       fold_opt (\<lambda>c out. do {
           p \<leftarrow> is_pointer vs c;
           if p then Some (out @ [c])
           else do {
             g \<leftarrow> var_is_aggregate vs c;
             if g then find_pointer_fields vs c out else Some out
           }
         }) cs ptr_fields
     }"
  by pat_completeness auto
termination by (relation "measure (\<lambda>(vs, a, out). length vs - a)") (auto simp: termination_simp)

text \<open>The loop over the fields before this one; the index counts field variables, not the fields of
  the type, between which there can be unnamed padding.\<close>

fun bitfield_before :: "'e vars \<Rightarrow> Type \<Rightarrow> nat \<Rightarrow> nat list \<Rightarrow> nat \<Rightarrow> bool option" where
  "bitfield_before vs pt this [] i = Some False"
| "bitfield_before vs pt this (c # cs) i =
     (if c = this then Some False
      else do {
        b \<leftarrow> is_bitfield pt i;
        if b then Some True
        else do {
          t \<leftarrow> type_of vs c;
          h \<leftarrow> has_bitfields t;
          if h then Some True else bitfield_before vs pt this cs (i + 1)
        }
      })"

function is_packed_after_bitfield :: "'e vars \<Rightarrow> nat \<Rightarrow> bool option" where
  "is_packed_after_bitfield vs a =
     do {
       po \<leftarrow> container_of vs a;
       (case po of
          None \<Rightarrow> Some False
        | Some p \<Rightarrow>
            do {
              v \<leftarrow> vec_get vs p;
              t \<leftarrow> v_type v;
              b \<leftarrow> (if eType t = eStruct \<and> packed t then bitfield_before vs t a (v_field_vars v) 0
                   else Some False);
              if b then Some True else is_packed_after_bitfield vs p
            })
     }"
  by pat_completeness auto
termination by (relation "measure snd") (auto simp: termination_simp)

declare find_pointer_fields.simps [simp del] is_packed_after_bitfield.simps [simp del]

definition compatible :: "CGOptions \<Rightarrow> 'e vars \<Rightarrow> nat \<Rightarrow> nat \<Rightarrow> bool option" where
  "compatible c vs this v =
     do {
       a \<leftarrow> var_is_volatile vs this;
       b \<leftarrow> (if a then Some True else var_is_volatile vs v);
       if b then Some False
       else if this = v then Some True
       else if opt_expand_struct c
       then do {
         f \<leftarrow> is_field_var vs v;
         if f then Some False else map_option Not (is_field_var vs this)
       }
       else Some False
     }"

section \<open>Well-formed stores\<close>

text \<open>
  Fields and containers point at each other, a container is older than its fields and has a struct
  or union type, and every type is well-formed and fits its qualifiers.
\<close>

definition var_ok :: "'e vars \<Rightarrow> nat \<Rightarrow> bool" where
  "var_ok vs a \<longleftrightarrow>
     (let v = vs ! a in
      (case v_field_var_of v of
         None \<Rightarrow> True
       | Some p \<Rightarrow> p < a \<and> (case v_type (vs ! p) of None \<Rightarrow> False | Some t \<Rightarrow> is_aggregate t)) \<and>
      (\<forall>c \<in> set (v_field_vars v). a < c \<and> c < length vs \<and> v_field_var_of (vs ! c) = Some a) \<and>
      (case v_type v of None \<Rightarrow> True | Some t \<Rightarrow> type_ok t \<and> qfer_fits t (v_qfer v)))"

definition store_ok :: "'e vars \<Rightarrow> bool" where
  "store_ok vs \<longleftrightarrow> (\<forall>a < length vs. var_ok vs a)"

lemma store_ok_container:
  assumes "store_ok vs" "a < length vs"
  shows "container_of vs a = Some (v_field_var_of (vs ! a))"
    and "v_field_var_of (vs ! a) = Some p \<Longrightarrow> p < a \<and> p < length vs \<and>
      (\<exists>t. v_type (vs ! p) = Some t \<and> is_aggregate t)"
proof -
  from assms have ok: "var_ok vs a" by (simp add: store_ok_def)
  then show "v_field_var_of (vs ! a) = Some p \<Longrightarrow> p < a \<and> p < length vs \<and>
      (\<exists>t. v_type (vs ! p) = Some t \<and> is_aggregate t)"
    using assms(2) by (auto simp: var_ok_def Let_def split: option.splits)
  show "container_of vs a = Some (v_field_var_of (vs ! a))"
    using ok assms(2)
    by (cases "v_field_var_of (vs ! a)") (simp_all add: var_ok_def container_of_def Let_def)
qed

lemma store_ok_fields:
  assumes "store_ok vs" "a < length vs"
  shows "fields_of vs a = Some (v_field_vars (vs ! a))"
    "c \<in> set (v_field_vars (vs ! a)) \<Longrightarrow> a < c \<and> c < length vs \<and> v_field_var_of (vs ! c) = Some a"
proof -
  from assms have "var_ok vs a" by (simp add: store_ok_def)
  then show "fields_of vs a = Some (v_field_vars (vs ! a))"
    "c \<in> set (v_field_vars (vs ! a)) \<Longrightarrow> a < c \<and> c < length vs \<and> v_field_var_of (vs ! c) = Some a"
    using assms(2) by (simp_all add: var_ok_def fields_of_def Let_def)
qed

text \<open>The containers of a variable, itself first.\<close>

function chain :: "'e vars \<Rightarrow> nat \<Rightarrow> nat list" where
  "chain vs a = a # (case container_of vs a of Some (Some p) \<Rightarrow> chain vs p | _ \<Rightarrow> [])"
  by pat_completeness auto
termination by (relation "measure snd") (auto simp: termination_simp)

declare chain.simps [simp del]

lemma chain_parts: "a \<in> set (chain vs a)" "chain vs a \<noteq> []"
  by (simp_all add: chain.simps [of vs a])

lemma chain_trans: "b \<in> set (chain vs a) \<Longrightarrow> c \<in> set (chain vs b) \<Longrightarrow> c \<in> set (chain vs a)"
proof (induction vs a rule: chain.induct)
  case (1 vs a)
  then show ?case
    by (auto simp: chain.simps [of vs a] split: option.splits)
qed

lemma chain_le: "b \<in> set (chain vs a) \<Longrightarrow> b \<le> a"
proof (induction vs a rule: chain.induct)
  case (1 vs a)
  show ?case
  proof (cases "\<exists>p. container_of vs a = Some (Some p) \<and> b \<in> set (chain vs p)")
    case True
    then obtain p where p: "container_of vs a = Some (Some p)" "b \<in> set (chain vs p)" by blast
    from 1(1) [OF p(1) refl p(2)] container_smaller [OF p(1)] show ?thesis by simp
  next
    case False
    with 1(2) show ?thesis by (auto simp: chain.simps [of vs a] split: option.splits)
  qed
qed

lemma inside_of_chain:
  assumes "store_ok vs" "a < length vs"
  shows "inside_of vs b a = Some (b \<in> set (chain vs a))"
  using assms(2)
proof (induction a rule: less_induct)
  case (less a)
  note c = store_ok_container [OF assms(1) less.prems]
  show ?case
  proof (cases "v_field_var_of (vs ! a)")
    case None
    with c(1) show ?thesis by (auto simp: inside_of.simps [of vs b a] chain.simps [of vs a])
  next
    case (Some p)
    with c less.IH [of p] have "inside_of vs b p = Some (b \<in> set (chain vs p))" by simp
    with c(1) Some show ?thesis by (auto simp: inside_of.simps [of vs b a] chain.simps [of vs a])
  qed
qed

lemma chain_aggregate:
  assumes "store_ok vs" "b \<in> set (chain vs a)" "b \<noteq> a" "a < length vs"
  shows "b < length vs \<and> (\<exists>t. v_type (vs ! b) = Some t \<and> is_aggregate t)"
  using assms(2-4)
proof (induction a rule: less_induct)
  case (less a)
  note c = store_ok_container [OF assms(1) less.prems(3)]
  from less.prems(1,2) c(1) obtain p where p: "v_field_var_of (vs ! a) = Some p" "b \<in> set (chain vs p)"
    by (cases "v_field_var_of (vs ! a)") (auto simp: chain.simps [of vs a])
  with c(2) less.IH [of p] show ?case by (cases "b = p") auto
qed

text \<open>What \<open>match\<close> decides.\<close>

lemma var_match_iff:
  assumes "store_ok vs" "x < length vs" "y < length vs"
    and "v_type (vs ! x) \<noteq> None" "v_type (vs ! y) \<noteq> None"
  shows "var_match vs x y = Some (x \<in> set (chain vs y))"
proof -
  obtain t u where tu: "v_type (vs ! x) = Some t" "v_type (vs ! y) = Some u" using assms(4,5) by auto
  have "x = y" if "x \<in> set (chain vs y)" "\<not> is_aggregate t"
    using chain_aggregate [OF assms(1) that(1)] assms(3) tu(1) that(2) by auto
  with tu assms(2,3) inside_of_chain [OF assms(1,3)] chain_parts(1) [of y vs] show ?thesis
    by (auto simp: var_match_def has_field_var_def type_of_def)
qed

text \<open>
  C0: In a well-formed store \<open>match\<close> is the containment order of variables: \<open>x\<close> matches \<open>y\<close>
  exactly when \<open>y\<close> is \<open>x\<close> itself or a field, at any depth, of \<open>x\<close>.  Hence it is transitive.
\<close>
theorem match_is_containment:
  assumes "store_ok vs" "x < length vs" "y < length vs" "z < length vs"
    and "v_type (vs ! x) \<noteq> None" "v_type (vs ! y) \<noteq> None" "v_type (vs ! z) \<noteq> None"
  shows "var_match vs x y = Some (x \<in> set (chain vs y))
    \<and> (var_match vs x y = Some True \<longrightarrow> var_match vs y z = Some True \<longrightarrow> var_match vs x z = Some True)"
  using var_match_iff [OF assms(1,2,3,5,6)] var_match_iff [OF assms(1,3,4,6,7)]
    var_match_iff [OF assms(1,2,4,5,7)] chain_trans [of y vs z x] by simp

definition example_var :: "string \<Rightarrow> Type \<Rightarrow> nat option \<Rightarrow> nat list \<Rightarrow> CVQualifiers \<Rightarrow> unit Variable" where
  "example_var nm t p fs q = \<lparr>v_name = nm, v_type = Some t, v_init = None, v_isAuto = False,
     v_isStatic = False, v_isHipShared = False, v_isRegister = False, v_isBitfield = False,
     v_isAddrTaken = False, v_isAccessOnce = False, v_field_vars = fs, v_field_var_of = p, v_qfer = q,
     v_isArray = False, v_isVector = False, v_collective = None, v_parent = None, v_sizes = [],
     v_indices = [], v_init_values = []\<rparr>"

text \<open>A struct \<open>g_1\<close> whose only field is a struct of one integer, and a scalar.\<close>

definition inner_struct :: Type where
  "inner_struct = Type_aggregate 2 0 [Type_simple 1 eInt] True False [plain_qfer] [- 1] False False"

definition outer_struct :: Type where
  "outer_struct = Type_aggregate 3 1 [inner_struct] True False [plain_qfer] [- 1] False False"

definition example_store :: "unit vars" where
  "example_store =
     [example_var ''g_1'' outer_struct None [1] plain_qfer,
      example_var ''g_1.f0'' inner_struct (Some 0) [2] plain_qfer,
      example_var ''g_1.f0.f0'' (Type_simple 1 eInt) (Some 1) [] plain_qfer,
      example_var ''g_2'' (Type_simple 1 eInt) None [] plain_qfer]"

lemmas example_store_defs = example_store_def example_var_def outer_struct_def inner_struct_def
  Type_aggregate_def Type_simple_def plain_info_def plain_qfer_def

lemma example_store_ok: "store_ok example_store"
  by (simp add: store_ok_def var_ok_def example_store_defs All_less_Suc is_aggregate_def
      qfer_fits_def numeral_eq_Suc Let_def)

theorem match_is_containment_witness:
  "var_match example_store 0 1 = Some True \<and> var_match example_store 0 2 = Some True
    \<and> var_match example_store 0 3 = Some (0 \<in> set (chain example_store 3))"
proof -
  have len: "length example_store = 4" by (simp add: example_store_def)
  have t: "v_type (example_store ! a) \<noteq> None" if "a < 4" for a
    using that by (auto simp: example_store_def example_var_def nth_Cons split: nat.splits)
  have c: "chain example_store 2 = [2, 1, 0]" "chain example_store 1 = [1, 0]"
    by (simp_all add: chain.simps [of _ 2] chain.simps [of _ 1] chain.simps [of _ 0] container_of_def
        chain.simps [of _ "Suc 0"] example_store_def example_var_def vec_get_def)
  note m = match_is_containment [OF example_store_ok]
  show ?thesis
    using m [of 0 1 2] m [of 1 2 2] m [of 0 3 3] t [of 0] t [of 1] t [of 2] t [of 3] c len by simp
qed

text \<open>Stores where every field has a type; the dummies that stand for special addresses have none.\<close>

definition typed_store :: "'e vars \<Rightarrow> bool" where
  "typed_store vs \<longleftrightarrow> store_ok vs \<and> (\<forall>v \<in> set vs. v_type v \<noteq> None \<or> v_field_var_of v = None)"

lemma typed_store_ok [simp]: "typed_store vs \<Longrightarrow> store_ok vs"
  by (simp add: typed_store_def)

lemma typed_match:
  assumes "typed_store vs" "x < length vs" "y < length vs"
  shows "var_match vs x y = Some (x \<in> set (chain vs y))"
proof (cases "v_type (vs ! x) \<noteq> None \<and> v_type (vs ! y) \<noteq> None")
  case True
  with assms show ?thesis by (intro var_match_iff) auto
next
  case False
  then have "var_match vs x y = Some (x = y)"
    using assms(2,3) by (auto simp: var_match_def split: option.splits)
  moreover have "x \<in> set (chain vs y) \<longleftrightarrow> x = y"
  proof (cases "v_type (vs ! x) = None")
    case True
    with chain_aggregate [OF typed_store_ok [OF assms(1)], of x y] assms(3) show ?thesis
      by (auto simp: chain_parts)
  next
    case no: False
    have "v_type (vs ! y) = None" using no False by simp
    moreover have "v_type (vs ! y) \<noteq> None \<or> v_field_var_of (vs ! y) = None"
      using conjunct2 [OF assms(1) [unfolded typed_store_def]] nth_mem [OF assms(3)] by (rule bspec)
    ultimately have "v_field_var_of (vs ! y) = None" by simp
    with store_ok_container(1) [OF typed_store_ok [OF assms(1)] assms(3)] show ?thesis
      by (simp add: chain.simps [of vs y])
  qed
  ultimately show ?thesis by simp
qed

lemma find_variable_from_typed:
  assumes "typed_store vs" "v < length vs" "\<forall>x \<in> set xs. x < length vs"
  shows "find_variable_from vs xs v i = Some (find_pos_from (\<lambda>x. x \<in> set (chain vs v)) xs i)"
  using assms(3) by (induction xs arbitrary: i) (simp_all add: typed_match [OF assms(1) _ assms(2)])

lemma find_variable_typed:
  assumes "typed_store vs" "v < length vs" "\<forall>x \<in> set xs. x < length vs"
  shows "find_variable_in_set vs xs v = Some (find_pos (\<lambda>x. x \<in> set (chain vs v)) xs)"
  using find_variable_from_typed [OF assms] by (simp add: find_variable_in_set_def)

lemma chain_bound: "a < length vs \<Longrightarrow> b \<in> set (chain vs a) \<Longrightarrow> b < length vs"
  using chain_le [of b vs a] by simp

lemma container_bound: "container_of vs a = Some (Some p) \<Longrightarrow> a < length vs \<Longrightarrow> p < length vs"
  using container_smaller [of vs a p] by simp

lemma example_store_typed: "typed_store example_store"
  using example_store_ok by (auto simp: typed_store_def example_store_def example_var_def)

lemma top_container_chain:
  assumes "store_ok vs" "a < length vs"
  shows "get_top_container vs a = Some (last (chain vs a))"
  using assms(2)
proof (induction a rule: less_induct)
  case (less a)
  note c = store_ok_container [OF assms(1) less.prems]
  show ?case
  proof (cases "v_field_var_of (vs ! a)")
    case None
    with c(1) show ?thesis by (simp add: get_top_container.simps [of vs a] chain.simps [of vs a])
  next
    case (Some p)
    with c less.IH [of p] have "get_top_container vs p = Some (last (chain vs p))" by simp
    with c(1) Some chain_parts(2) [of vs p] show ?thesis
      by (simp add: get_top_container.simps [of vs a] chain.simps [of vs a])
  qed
qed

lemma last_chain_bound: "last (chain vs a) \<le> a"
  using chain_le [OF last_in_set [OF chain_parts(2)]] .

lemma chain_no_field: "container_of vs a = Some None \<Longrightarrow> chain vs a = [a]"
  by (simp add: chain.simps [of vs a])

lemma remove_field_loop_spec:
  assumes "store_ok vs" "\<forall>v \<in> set rest. v < length vs" "\<forall>v \<in> set acc. container_of vs v = Some None"
  shows "\<exists>ys. remove_field_loop vs acc rest = Some ys
    \<and> set ys = set acc \<union> (\<lambda>v. last (chain vs v)) ` set rest
    \<and> (\<forall>y \<in> set ys. container_of vs y = Some None) \<and> (distinct (acc @ rest) \<longrightarrow> distinct ys)"
  using assms
proof (induction vs acc rest rule: remove_field_loop.induct)
  case (1 vs acc)
  then show ?case by simp
next
  case (2 vs acc v rest)
  then have v: "v < length vs" and rest: "\<forall>u \<in> set rest. u < length vs" by simp_all
  note c = store_ok_container(1) [OF 2(4) v]
  show ?case
  proof (cases "v_field_var_of (vs ! v)")
    case None
    with c have n: "container_of vs v = Some None" by simp
    with 2(6) have "\<forall>u \<in> set (acc @ [v]). container_of vs u = Some None" by simp
    from 2(1) [OF n refl 2(4) rest this] n chain_no_field [OF n] show ?thesis by auto
  next
    case (Some p)
    let ?t = "last (chain vs v)"
    have t: "get_top_container vs v = Some ?t" by (rule top_container_chain [OF 2(4) v])
    note nt = top_container_no_field [OF t]
    have tl: "?t < length vs" using last_chain_bound [of vs v] v by simp
    show ?thesis
    proof (cases "?t \<in> set (acc @ rest)")
      case True
      then have "is_variable_in_set (acc @ rest) ?t" by (simp add: is_variable_in_set_def)
      from 2(2) [OF _ Some t this 2(4) rest 2(6)] c Some obtain ys where
        ys: "remove_field_loop vs acc rest = Some ys"
          "set ys = set acc \<union> (\<lambda>v. last (chain vs v)) ` set rest"
          "\<forall>y \<in> set ys. container_of vs y = Some None" "distinct (acc @ rest) \<longrightarrow> distinct ys" by auto
      have "last (chain vs ?t) = ?t" using chain_no_field [OF nt] by simp
      with True have "?t \<in> set ys" unfolding ys(2) by (auto intro: image_eqI [of _ _ ?t])
      moreover have "remove_field_loop vs acc (v # rest) = Some ys"
        using c Some t ys(1) \<open>is_variable_in_set (acc @ rest) ?t\<close> by simp
      ultimately show ?thesis using ys(2-4) by auto
    next
      case False
      then have nin: "\<not> is_variable_in_set (acc @ rest) ?t" by (simp add: is_variable_in_set_def)
      have "\<forall>u \<in> set (rest @ [?t]). u < length vs" using rest tl by simp
      from 2(3) [OF _ Some t nin 2(4) this 2(6)] c Some t nin False chain_no_field [OF nt]
      show ?thesis by auto
    qed
  qed
qed

text \<open>
  C0: \<open>remove_field_vars\<close> replaces every field variable of a set by the outermost variable that
  contains it: the loop ends, the result has exactly the outermost containers of the old members,
  no field is left in it, and a set without duplicates stays one.
\<close>
theorem remove_field_vars_top:
  assumes "store_ok vs" "\<forall>v \<in> set xs. v < length vs"
  shows "\<exists>ys. remove_field_vars vs xs = Some ys \<and> set ys = (\<lambda>v. last (chain vs v)) ` set xs
    \<and> (\<forall>y \<in> set ys. is_field_var vs y = Some False) \<and> (distinct xs \<longrightarrow> distinct ys)"
  using remove_field_loop_spec [OF assms, of "[]"] by (auto simp: remove_field_vars_def is_field_var_def)

theorem remove_field_vars_top_witness:
  "\<exists>ys. remove_field_vars example_store [2, 3] = Some ys \<and> (\<forall>y \<in> set ys. is_field_var example_store y = Some False)
    \<and> distinct ys"
  using remove_field_vars_top [OF example_store_ok, of "[2, 3]"] by (auto simp: example_store_def)

text \<open>
  On sets kept without duplicates the comparison by length and membership is set equality.
\<close>
lemma equal_variable_sets_iff:
  assumes "distinct set1" "distinct set2"
  shows "equal_variable_sets set1 set2 \<longleftrightarrow> set set1 = set set2"
proof -
  have "set set1 = set set2" if "length set1 = length set2" "set set1 \<subseteq> set set2"
    using that assms by (metis card_subset_eq distinct_card finite_set)
  moreover have "length set1 = length set2" if "set set1 = set set2"
    using that assms by (metis distinct_card)
  ultimately show ?thesis by (auto simp: equal_variable_sets_def is_variable_in_set_def)
qed

end
