(* ===== verification/Scopes.thy ===== *)
theory Scopes
  imports Variables
begin

text \<open>
  What a variable can be seen from: the part of class \<open>Block\<close> (\<open>Block.h\<close>, \<open>Statement.h\<close>) and of class
  \<open>Function\<close> (\<open>Function.h\<close>) that holds their variables, with \<open>Block::is_var_on_stack\<close> and the virtual
  \<open>is_visible_local\<close> of \<open>Variable.cpp\<close> and \<open>ArrayVariable.cpp\<close>.  Both records are extended by later
  members; the functions here work on every extension.  A block is created with its parent given, so
  the address of the parent is smaller.
\<close>

record func_scope =
  f_name :: string
  f_param :: "nat list"

record block_scope =
  b_parent :: "nat option"
  b_func :: "nat option"
  b_local_vars :: "nat list"

definition parent_of :: "'b block_scope_scheme list \<Rightarrow> nat \<Rightarrow> nat option option" where
  "parent_of bs b =
     do {
       blk \<leftarrow> vec_get bs b;
       case b_parent blk of
         None \<Rightarrow> Some None
       | Some p \<Rightarrow> do { assert_opt (p < b); Some (Some p) }
     }"

lemma parent_smaller [termination_simp]: "parent_of bs b = Some (Some p) \<Longrightarrow> p < b"
  by (auto simp: parent_of_def bind_eq_Some_conv split: option.splits)

text \<open>The parameters of \<open>blk->func\<close>; without a function the access is a null dereference.\<close>

definition block_params :: "'f func_scope_scheme list \<Rightarrow> 'b block_scope_scheme list \<Rightarrow> nat \<Rightarrow> nat list option" where
  "block_params fs bs b =
     do { blk \<leftarrow> vec_get bs b; f \<leftarrow> b_func blk; fn \<leftarrow> vec_get fs f; Some (f_param fn) }"

text \<open>\<open>while (b) { if (find_variable_in_set(b->local_vars, var) != -1) return true; b = b->parent; }\<close>\<close>

function declared_above :: "'e vars \<Rightarrow> 'b block_scope_scheme list \<Rightarrow> nat \<Rightarrow> nat \<Rightarrow> bool option" where
  "declared_above vs bs b var =
     do {
       blk \<leftarrow> vec_get bs b;
       pos \<leftarrow> find_variable_in_set vs (b_local_vars blk) var;
       if pos \<noteq> - 1 then Some True
       else do {
         po \<leftarrow> parent_of bs b;
         case po of None \<Rightarrow> Some False | Some p \<Rightarrow> declared_above vs bs p var
       }
     }"
  by pat_completeness auto
termination by (relation "measure (\<lambda>(vs, bs, b, var). b)") (auto simp: termination_simp)

declare declared_above.simps [simp del]

definition is_var_on_stack ::
    "'e vars \<Rightarrow> 'f func_scope_scheme list \<Rightarrow> 'b block_scope_scheme list \<Rightarrow> nat \<Rightarrow> nat \<Rightarrow> bool option" where
  "is_var_on_stack vs fs bs b var =
     do {
       params \<leftarrow> block_params fs bs b;
       p \<leftarrow> any_opt (\<lambda>x. var_match vs x var) params;
       if p then Some True else declared_above vs bs b var
     }"

text \<open>\<open>ArrayVariable::is_visible_local\<close>: the block of the array is this block or above it.\<close>

function block_within :: "'b block_scope_scheme list \<Rightarrow> nat option \<Rightarrow> nat \<Rightarrow> bool option" where
  "block_within bs parent b =
     (if parent = Some b then Some True
      else do {
        po \<leftarrow> parent_of bs b;
        case po of None \<Rightarrow> Some False | Some p \<Rightarrow> block_within bs parent p
      })"
  by pat_completeness auto
termination by (relation "measure (\<lambda>(bs, parent, b). b)") (auto simp: termination_simp)

declare block_within.simps [simp del]

text \<open>The virtual \<open>is_visible_local\<close>; a field asks its container, an array variable its own block.\<close>

function is_visible_local ::
    "'e vars \<Rightarrow> 'f func_scope_scheme list \<Rightarrow> 'b block_scope_scheme list \<Rightarrow> nat option \<Rightarrow> nat \<Rightarrow> bool option" where
  "is_visible_local vs fs bs blk a =
     do {
       v \<leftarrow> vec_get vs a;
       if v_isArray v
       then (case blk of None \<Rightarrow> Some False | Some b \<Rightarrow> block_within bs (v_parent v) b)
       else (case blk of
           None \<Rightarrow> is_global vs a
         | Some b \<Rightarrow>
             do {
               po \<leftarrow> container_of vs a;
               (case po of
                  Some p \<Rightarrow> is_visible_local vs fs bs blk p
                | None \<Rightarrow> is_var_on_stack vs fs bs b a)
             })
     }"
  by pat_completeness auto
termination by (relation "measure (\<lambda>(vs, fs, bs, blk, a). a)") (auto simp: termination_simp)

declare is_visible_local.simps [simp del]

definition is_visible ::
    "'e vars \<Rightarrow> 'f func_scope_scheme list \<Rightarrow> 'b block_scope_scheme list \<Rightarrow> nat option \<Rightarrow> nat \<Rightarrow> bool option" where
  "is_visible vs fs bs blk a =
     do { g \<leftarrow> is_global vs a; if g then Some True else is_visible_local vs fs bs blk a }"

section \<open>Visibility by reference\<close>

text \<open>The blocks around a block, itself first.\<close>

function enclosing :: "'b block_scope_scheme list \<Rightarrow> nat \<Rightarrow> nat list" where
  "enclosing bs b = b # (case parent_of bs b of Some (Some p) \<Rightarrow> enclosing bs p | _ \<Rightarrow> [])"
  by pat_completeness auto
termination by (relation "measure snd") (auto simp: termination_simp)

declare enclosing.simps [simp del]

definition blocks_ok :: "'f func_scope_scheme list \<Rightarrow> 'b block_scope_scheme list \<Rightarrow> bool" where
  "blocks_ok fs bs \<longleftrightarrow>
     (\<forall>b < length bs. (case b_parent (bs ! b) of None \<Rightarrow> True | Some p \<Rightarrow> p < b) \<and>
       (case b_func (bs ! b) of None \<Rightarrow> False | Some f \<Rightarrow> f < length fs))"

lemma blocks_ok_parent:
  assumes "blocks_ok fs bs" "b < length bs"
  shows "parent_of bs b = Some (b_parent (bs ! b))" "b_parent (bs ! b) = Some p \<Longrightarrow> p < length bs"
    "\<exists>f < length fs. b_func (bs ! b) = Some f"
proof -
  from assms have ok: "case b_parent (bs ! b) of None \<Rightarrow> True | Some p \<Rightarrow> p < b"
    "case b_func (bs ! b) of None \<Rightarrow> False | Some f \<Rightarrow> f < length fs"
    by (simp_all add: blocks_ok_def)
  then show "parent_of bs b = Some (b_parent (bs ! b))" "b_parent (bs ! b) = Some p \<Longrightarrow> p < length bs"
    "\<exists>f < length fs. b_func (bs ! b) = Some f"
    using assms(2) by (auto simp: parent_of_def split: option.splits)
qed

lemma block_within_enclosing:
  assumes "blocks_ok fs bs" "b < length bs"
  shows "block_within bs (Some q) b = Some (q \<in> set (enclosing bs b))"
  using assms(2)
proof (induction b rule: less_induct)
  case (less b)
  note p = blocks_ok_parent(1,2) [OF assms(1) less.prems]
  show ?case
  proof (cases "b_parent (bs ! b)")
    case None
    with p(1) show ?thesis by (auto simp: block_within.simps [of bs _ b] enclosing.simps [of bs b])
  next
    case (Some c)
    with p have c: "c < length bs" "parent_of bs b = Some (Some c)" by auto
    with less.IH [of c] parent_smaller [OF c(2)]
    have "block_within bs (Some q) c = Some (q \<in> set (enclosing bs c))" by simp
    with c show ?thesis by (auto simp: block_within.simps [of bs _ b] enclosing.simps [of bs b])
  qed
qed

definition scope_ok ::
    "'e vars \<Rightarrow> 'f func_scope_scheme list \<Rightarrow> 'b block_scope_scheme list \<Rightarrow> bool" where
  "scope_ok vs fs bs \<longleftrightarrow> typed_store vs \<and> blocks_ok fs bs \<and>
     (\<forall>f \<in> set fs. \<forall>x \<in> set (f_param f). x < length vs) \<and>
     (\<forall>b \<in> set bs. \<forall>x \<in> set (b_local_vars b). x < length vs)"

text \<open>The variables declared by a block, a block around it, or as parameters of its function.\<close>

definition declared_in ::
    "'f func_scope_scheme list \<Rightarrow> 'b block_scope_scheme list \<Rightarrow> nat \<Rightarrow> nat set" where
  "declared_in fs bs b = set (the (block_params fs bs b)) \<union> (\<Union>c \<in> set (enclosing bs b). set (b_local_vars (bs ! c)))"

lemma declared_above_iff:
  assumes "scope_ok vs fs bs" "b < length bs" "v < length vs"
  shows "declared_above vs bs b v =
    Some (\<exists>c \<in> set (enclosing bs b). \<exists>x \<in> set (b_local_vars (bs ! c)). x \<in> set (chain vs v))"
  using assms(2)
proof (induction b rule: less_induct)
  case (less b)
  have ok: "blocks_ok fs bs" "typed_store vs" "\<forall>x \<in> set (b_local_vars (bs ! b)). x < length vs"
    using assms(1) less.prems nth_mem by (fastforce simp: scope_ok_def)+
  note p = blocks_ok_parent(1,2) [OF ok(1) less.prems]
  note f = find_variable_typed [OF ok(2) assms(3) ok(3)]
  show ?case
  proof (cases "b_parent (bs ! b)")
    case None
    with p(1) f less.prems show ?thesis
      by (auto simp: declared_above.simps [of vs bs b] enclosing.simps [of bs b])
  next
    case (Some c)
    with p have c: "c < length bs" "parent_of bs b = Some (Some c)" by auto
    with less.IH [of c] parent_smaller [OF c(2)] f less.prems show ?thesis
      by (auto simp: declared_above.simps [of vs bs b] enclosing.simps [of bs b])
  qed
qed

lemma block_params_defined:
  assumes "scope_ok vs fs bs" "b < length bs"
  shows "\<exists>ps. block_params fs bs b = Some ps \<and> (\<forall>x \<in> set ps. x < length vs)"
proof -
  from assms blocks_ok_parent(3) [of fs bs b] obtain f where f: "f < length fs" "b_func (bs ! b) = Some f"
    by (auto simp: scope_ok_def)
  with assms nth_mem have "\<forall>x \<in> set (f_param (fs ! f)). x < length vs" by (fastforce simp: scope_ok_def)
  with f assms(2) show ?thesis by (simp add: block_params_def)
qed

lemma any_match_iff:
  assumes "typed_store vs" "v < length vs" "\<forall>x \<in> set xs. x < length vs"
  shows "any_opt (\<lambda>x. var_match vs x v) xs = Some (\<exists>x \<in> set xs. x \<in> set (chain vs v))"
  using assms(3) by (induction xs) (simp_all add: typed_match [OF assms(1) _ assms(2)])

lemma is_var_on_stack_iff:
  assumes "scope_ok vs fs bs" "b < length bs" "v < length vs"
  shows "is_var_on_stack vs fs bs b v = Some (\<exists>x \<in> declared_in fs bs b. x \<in> set (chain vs v))"
proof -
  obtain ps where ps: "block_params fs bs b = Some ps" "\<forall>x \<in> set ps. x < length vs"
    using block_params_defined [OF assms(1,2)] by blast
  have "typed_store vs" using assms(1) by (simp add: scope_ok_def)
  from any_match_iff [OF this assms(3) ps(2)] ps(1) declared_above_iff [OF assms]
  show ?thesis by (auto simp: is_var_on_stack_def declared_in_def)
qed

text \<open>The container whose block decides whether a field is visible: an array on the way, or the outermost.\<close>

function scope_owner :: "'e vars \<Rightarrow> nat \<Rightarrow> nat" where
  "scope_owner vs a =
     (if a < length vs \<and> v_isArray (vs ! a) then a
      else (case container_of vs a of Some (Some p) \<Rightarrow> scope_owner vs p | _ \<Rightarrow> a))"
  by pat_completeness auto
termination by (relation "measure snd") (auto simp: termination_simp)

declare scope_owner.simps [simp del]

lemma is_visible_local_owner:
  assumes "scope_ok vs fs bs" "b < length bs" "a < length vs"
  shows "is_visible_local vs fs bs (Some b) a =
    Some (let w = scope_owner vs a in
      if v_isArray (vs ! w) then (\<exists>c \<in> set (enclosing bs b). v_parent (vs ! w) = Some c)
      else (\<exists>x \<in> declared_in fs bs b. x \<in> set (chain vs w)))"
  using assms(3)
proof (induction a rule: less_induct)
  case (less a)
  have ok: "blocks_ok fs bs" "store_ok vs" using assms(1) by (simp_all add: scope_ok_def)
  note c = store_ok_container [OF ok(2) less.prems]
  show ?case
  proof (cases "v_isArray (vs ! a)")
    case True
    have "block_within bs None b = Some False"
      using assms(2)
    proof (induction b rule: less_induct)
      case (less b)
      note p = blocks_ok_parent(1,2) [OF ok(1) less.prems]
      with less.IH parent_smaller [of bs b] show ?case
        by (cases "b_parent (bs ! b)") (simp_all add: block_within.simps [of bs None b])
    qed
    with True less.prems block_within_enclosing [OF ok(1) assms(2)] show ?thesis
      by (cases "v_parent (vs ! a)")
        (auto simp: is_visible_local.simps [of vs fs bs _ a] scope_owner.simps [of vs a] Let_def)
  next
    case False
    show ?thesis
    proof (cases "v_field_var_of (vs ! a)")
      case None
      with False c(1) less.prems is_var_on_stack_iff [OF assms(1,2) less.prems] show ?thesis
        by (simp add: is_visible_local.simps [of vs fs bs _ a] scope_owner.simps [of vs a] Let_def)
    next
      case (Some p)
      with False c less.prems less.IH [of p] show ?thesis
        by (simp add: is_visible_local.simps [of vs fs bs _ a] scope_owner.simps [of vs a])
    qed
  qed
qed

text \<open>
  A variable is visible in a block exactly when the array or outermost variable it belongs to is
  declared there: an array in this block or one around it, any other variable as a parameter of the
  function of the block or a local variable of this block or one around it.  The walk never fails.
\<close>
lemma is_visible_local_spec:
  assumes "scope_ok vs fs bs" "b < length bs" "a < length vs"
  shows "is_visible_local vs fs bs (Some b) a =
    Some (let w = scope_owner vs a in
      if v_isArray (vs ! w) then (\<exists>c \<in> set (enclosing bs b). v_parent (vs ! w) = Some c)
      else (\<exists>x \<in> declared_in fs bs b. x \<in> set (chain vs w)))"
  by (rule is_visible_local_owner [OF assms])

text \<open>A function with one parameter and two nested blocks, the outer one with a local variable.\<close>

definition example_funcs :: "func_scope list" where
  "example_funcs = [\<lparr>f_name = ''func_1'', f_param = [3]\<rparr>]"

definition example_blocks :: "block_scope list" where
  "example_blocks = [\<lparr>b_parent = None, b_func = Some 0, b_local_vars = [0]\<rparr>,
     \<lparr>b_parent = Some 0, b_func = Some 0, b_local_vars = []\<rparr>]"

lemma example_scope_ok: "scope_ok example_store example_funcs example_blocks"
  using example_store_typed
  by (simp add: scope_ok_def blocks_ok_def example_funcs_def example_blocks_def All_less_Suc
      numeral_eq_Suc example_store_def)

end
