(* ===== verification/Effects.thy ===== *)
theory Effects
  imports Scopes Options
begin

text \<open>
  The read and write effects of generated code (\<open>Effect.cpp\<close>, \<open>Effect.h\<close>), over the store of
  variables.  \<open>None\<close> is an abort, as for the variables themselves.
\<close>

section \<open>The state\<close>

record Effect =
  read_vars :: "nat list"
  write_vars :: "nat list"
  lhs_write_vars :: "nat list"
  pure :: bool
  side_effect_free :: bool

definition empty_effect :: Effect where
  "empty_effect = \<lparr>read_vars = [], write_vars = [], lhs_write_vars = [], pure = True,
     side_effect_free = True\<rparr>"

text \<open>The copy constructor and the assignment do not mention \<open>lhs_write_vars\<close>.\<close>

definition Effect_copy :: "Effect \<Rightarrow> Effect" where
  "Effect_copy e = \<lparr>read_vars = read_vars e, write_vars = write_vars e, lhs_write_vars = [],
     pure = pure e, side_effect_free = side_effect_free e\<rparr>"

definition Effect_assign :: "Effect \<Rightarrow> Effect \<Rightarrow> Effect" where
  "Effect_assign this e = this\<lparr>read_vars := read_vars e, write_vars := write_vars e, pure := pure e,
     side_effect_free := side_effect_free e\<rparr>"

definition Effect_clear :: "Effect \<Rightarrow> Effect" where
  "Effect_clear this = this\<lparr>read_vars := [], write_vars := [], pure := True, side_effect_free := True\<rparr>"

definition set_lhs_write_vars :: "nat list \<Rightarrow> Effect \<Rightarrow> Effect" where
  "set_lhs_write_vars xs this = this\<lparr>lhs_write_vars := xs\<rparr>"

definition effect_is_empty :: "Effect \<Rightarrow> bool" where
  "effect_is_empty e \<longleftrightarrow> length (read_vars e) = 0 \<and> length (write_vars e) = 0"

section \<open>Lookups\<close>

text \<open>A field of a struct is read with the struct, a field of a union is not.\<close>

function read_in :: "'e vars \<Rightarrow> nat list \<Rightarrow> nat \<Rightarrow> bool option" where
  "read_in vs reads v =
     (if v \<in> set reads then Some True
      else do {
        po \<leftarrow> container_of vs v;
        (case po of
           None \<Rightarrow> Some False
         | Some p \<Rightarrow>
             do { t \<leftarrow> type_of vs p; if eType t = eStruct then read_in vs reads p else Some False })
      })"
  by pat_completeness auto
termination by (relation "measure (\<lambda>(vs, reads, v). v)") (auto simp: termination_simp)

function written_in :: "'e vars \<Rightarrow> nat list \<Rightarrow> nat \<Rightarrow> bool option" where
  "written_in vs writes v =
     (if v \<in> set writes then Some True
      else do {
        po \<leftarrow> container_of vs v;
        case po of None \<Rightarrow> Some False | Some p \<Rightarrow> written_in vs writes p
      })"
  by pat_completeness auto
termination by (relation "measure (\<lambda>(vs, writes, v). v)") (auto simp: termination_simp)

declare read_in.simps [simp del] written_in.simps [simp del]

definition is_read :: "'e vars \<Rightarrow> Effect \<Rightarrow> nat \<Rightarrow> bool option" where
  "is_read vs e v = read_in vs (read_vars e) v"

definition is_written :: "'e vars \<Rightarrow> Effect \<Rightarrow> nat \<Rightarrow> bool option" where
  "is_written vs e v = written_in vs (write_vars e) v"

text \<open>
  The lookups by name: the name itself, or one obtained from the other by cutting it at a dot.  The
  loop of the code compares the shortest piece a second time before it stops.
\<close>

definition before_last_dot :: "string \<Rightarrow> string" where
  "before_last_dot s = rev (drop 1 (dropWhile (\<lambda>c. c \<noteq> CHR ''.'') (rev s)))"

lemma before_last_dot_shorter: "CHR ''.'' \<in> set s \<Longrightarrow> length (before_last_dot s) < length s"
proof -
  assume "CHR ''.'' \<in> set s"
  then have "s \<noteq> []" by auto
  moreover have "length (dropWhile (\<lambda>c. c \<noteq> CHR ''.'') (rev s)) \<le> length s"
    using length_dropWhile_le [of _ "rev s"] by simp
  ultimately show ?thesis by (cases s) (auto simp: before_last_dot_def)
qed

function cut_matches :: "string \<Rightarrow> string \<Rightarrow> bool" where
  "cut_matches tmp nm \<longleftrightarrow>
     (if CHR ''.'' \<in> set tmp
      then (let t = before_last_dot tmp in t = nm \<or> cut_matches t nm)
      else tmp = nm)"
  by pat_completeness auto
termination by (relation "measure (\<lambda>(tmp, nm). length tmp)") (auto simp: before_last_dot_shorter)

declare cut_matches.simps [simp del]

definition name_overlaps :: "string \<Rightarrow> string \<Rightarrow> bool" where
  "name_overlaps rname vname \<longleftrightarrow>
     rname = vname \<or>
     (CHR ''.'' \<in> set vname \<and> cut_matches vname rname) \<or>
     (CHR ''.'' \<in> set rname \<and> cut_matches rname vname)"

definition is_read_name :: "'e vars \<Rightarrow> Effect \<Rightarrow> string \<Rightarrow> bool option" where
  "is_read_name vs e vname =
     any_opt (\<lambda>r. map_option (\<lambda>x. name_overlaps (v_name x) vname) (vec_get vs r)) (read_vars e)"

definition is_written_name :: "'e vars \<Rightarrow> Effect \<Rightarrow> string \<Rightarrow> bool option" where
  "is_written_name vs e vname =
     any_opt (\<lambda>r. map_option (\<lambda>x. name_overlaps (v_name x) vname) (vec_get vs r)) (write_vars e)"

function field_is_read :: "'e vars \<Rightarrow> Effect \<Rightarrow> nat \<Rightarrow> bool option" where
  "field_is_read vs e v =
     do {
       agg \<leftarrow> var_is_aggregate vs v;
       if agg
       then do {
         cs \<leftarrow> fields_of vs v;
         any_opt (\<lambda>c. do { b \<leftarrow> is_read vs e c; if b then Some True else field_is_read vs e c }) cs
       }
       else Some False
     }"
  by pat_completeness auto
termination by (relation "measure (\<lambda>(vs, e, v). length vs - v)") (auto simp: termination_simp)

function field_is_written :: "'e vars \<Rightarrow> Effect \<Rightarrow> nat \<Rightarrow> bool option" where
  "field_is_written vs e v =
     do {
       agg \<leftarrow> var_is_aggregate vs v;
       if agg
       then do {
         cs \<leftarrow> fields_of vs v;
         any_opt (\<lambda>c. do { b \<leftarrow> is_written vs e c; if b then Some True else field_is_written vs e c }) cs
       }
       else Some False
     }"
  by pat_completeness auto
termination by (relation "measure (\<lambda>(vs, e, v). length vs - v)") (auto simp: termination_simp)

declare field_is_read.simps [simp del] field_is_written.simps [simp del]

definition collective_union :: "'e vars \<Rightarrow> nat \<Rightarrow> nat option option" where
  "collective_union vs v = do { c \<leftarrow> get_collective vs v; get_container_union vs c }"

definition sibling_union_field :: "'e vars \<Rightarrow> nat list \<Rightarrow> nat \<Rightarrow> bool option" where
  "sibling_union_field vs xs v =
     do {
       uo \<leftarrow> collective_union vs v;
       (case uo of
          None \<Rightarrow> Some False
        | Some you \<Rightarrow> any_opt (\<lambda>x. map_option (\<lambda>me. me = Some you) (collective_union vs x)) xs)
     }"

definition sibling_union_field_is_read :: "'e vars \<Rightarrow> Effect \<Rightarrow> nat \<Rightarrow> bool option" where
  "sibling_union_field_is_read vs e v = sibling_union_field vs (read_vars e) v"

definition sibling_union_field_is_written :: "'e vars \<Rightarrow> Effect \<Rightarrow> nat \<Rightarrow> bool option" where
  "sibling_union_field_is_written vs e v = sibling_union_field vs (write_vars e) v"

definition is_read_partially :: "'e vars \<Rightarrow> Effect \<Rightarrow> nat \<Rightarrow> bool option" where
  "is_read_partially vs e v =
     do {
       a \<leftarrow> is_read vs e v;
       if a then Some True
       else do {
         b \<leftarrow> field_is_read vs e v;
         if b then Some True else sibling_union_field_is_read vs e v
       }
     }"

definition is_written_partially :: "'e vars \<Rightarrow> Effect \<Rightarrow> nat \<Rightarrow> bool option" where
  "is_written_partially vs e v =
     do {
       a \<leftarrow> is_written vs e v;
       if a then Some True
       else do {
         b \<leftarrow> field_is_written vs e v;
         if b then Some True else sibling_union_field_is_written vs e v
       }
     }"

definition union_field_is_read :: "'e vars \<Rightarrow> Effect \<Rightarrow> bool option" where
  "union_field_is_read vs e = any_opt (is_inside_union_field vs) (read_vars e)"

definition has_global_effect :: "'e vars \<Rightarrow> Effect \<Rightarrow> bool option" where
  "has_global_effect vs e =
     do {
       r \<leftarrow> any_opt (is_global vs) (read_vars e);
       if r then Some True else any_opt (is_global vs) (write_vars e)
     }"

definition non_empty_intersection :: "'e vars \<Rightarrow> nat list \<Rightarrow> nat list \<Rightarrow> bool option" where
  "non_empty_intersection vs va vb =
     any_opt (\<lambda>a. any_opt (\<lambda>b. do {
         m \<leftarrow> var_match vs a b;
         if m then Some True else var_match vs b a
       }) vb) va"

definition has_race_with :: "'e vars \<Rightarrow> Effect \<Rightarrow> Effect \<Rightarrow> bool option" where
  "has_race_with vs this e =
     do {
       a \<leftarrow> non_empty_intersection vs (read_vars this) (write_vars e);
       if a then Some True
       else do {
         b \<leftarrow> non_empty_intersection vs (write_vars this) (read_vars e);
         if b then Some True else non_empty_intersection vs (write_vars this) (write_vars e)
       }
     }"

section \<open>Operations\<close>

definition read_var :: "'e vars \<Rightarrow> nat \<Rightarrow> Effect \<Rightarrow> Effect option" where
  "read_var vs v e =
     do {
       r \<leftarrow> is_read vs e v;
       c \<leftarrow> var_is_const vs v;
       vol \<leftarrow> var_is_volatile vs v;
       ao \<leftarrow> is_access_once vs v;
       Some (e\<lparr>read_vars := (if r then read_vars e else read_vars e @ [v]),
               pure := (pure e \<and> c \<and> \<not> vol \<and> \<not> ao),
               side_effect_free := (side_effect_free e \<and> \<not> vol \<and> \<not> ao)\<rparr>)
     }"

definition write_var :: "'e vars \<Rightarrow> nat \<Rightarrow> Effect \<Rightarrow> Effect option" where
  "write_var vs v e =
     do {
       w \<leftarrow> is_written vs e v;
       vol \<leftarrow> var_is_volatile vs v;
       ao \<leftarrow> is_access_once vs v;
       Some (e\<lparr>write_vars := (if w then write_vars e else write_vars e @ [v]),
               side_effect_free := (side_effect_free e \<and> \<not> vol \<and> \<not> ao)\<rparr>)
     }"

definition write_var_set :: "'e vars \<Rightarrow> nat list \<Rightarrow> Effect \<Rightarrow> Effect option" where
  "write_var_set vs xs e = fold_opt (write_var vs) xs e"

text \<open>The loop runs \<open>deref_level\<close> down to 1.\<close>

fun volatile_level_below :: "'e vars \<Rightarrow> nat \<Rightarrow> nat \<Rightarrow> bool option" where
  "volatile_level_below vs v 0 = Some False"
| "volatile_level_below vs v (Suc n) =
     do {
       b \<leftarrow> var_is_volatile_after_deref vs v (int (Suc n));
       if b then Some True else volatile_level_below vs v n
     }"

definition access_deref_volatile ::
    "CGOptions \<Rightarrow> 'e vars \<Rightarrow> nat \<Rightarrow> int \<Rightarrow> Effect \<Rightarrow> Effect option" where
  "access_deref_volatile c vs v deref_level e =
     (if \<not> opt_strict_volatile_rule c then Some e
      else do {
        b \<leftarrow> volatile_level_below vs v (nat deref_level);
        Some (if b then e\<lparr>side_effect_free := False\<rparr> else e)
      })"

definition add_read :: "'e vars \<Rightarrow> nat \<Rightarrow> Effect \<Rightarrow> Effect option" where
  "add_read vs v e =
     do { r \<leftarrow> is_read vs e v; Some (if r then e else e\<lparr>read_vars := read_vars e @ [v]\<rparr>) }"

definition add_write :: "'e vars \<Rightarrow> nat \<Rightarrow> Effect \<Rightarrow> Effect option" where
  "add_write vs v e =
     do { w \<leftarrow> is_written vs e v; Some (if w then e else e\<lparr>write_vars := write_vars e @ [v]\<rparr>) }"

text \<open>In the three functions below \<open>same\<close> is the test \<open>this == &e\<close> on the addresses.\<close>

definition add_effect :: "'e vars \<Rightarrow> bool \<Rightarrow> Effect \<Rightarrow> bool \<Rightarrow> Effect \<Rightarrow> Effect option" where
  "add_effect vs same e include_lhs_effects this =
     (if same then Some this
      else do {
        this \<leftarrow> fold_opt (add_read vs) (read_vars e) this;
        this \<leftarrow> fold_opt (add_write vs) (write_vars e) this;
        let this = (if include_lhs_effects
                    then this\<lparr>lhs_write_vars := snd (add_variables_to_set (lhs_write_vars this) (lhs_write_vars e))\<rparr>
                    else this);
        Some (this\<lparr>pure := (pure this \<and> pure e),
                   side_effect_free := (side_effect_free this \<and> side_effect_free e)\<rparr>)
      })"

definition external_read :: "'e vars \<Rightarrow> (nat \<Rightarrow> bool option) \<Rightarrow> nat \<Rightarrow> Effect \<Rightarrow> Effect option" where
  "external_read vs visible v this =
     do {
       g \<leftarrow> is_global vs v;
       if g then read_var vs v this
       else do { b \<leftarrow> visible v; if b then read_var vs v this else Some this }
     }"

definition external_write :: "'e vars \<Rightarrow> (nat \<Rightarrow> bool option) \<Rightarrow> nat \<Rightarrow> Effect \<Rightarrow> Effect option" where
  "external_write vs visible v this =
     do {
       g \<leftarrow> is_global vs v;
       b \<leftarrow> (if g then Some True else visible v);
       if b
       then map_option (\<lambda>e. e\<lparr>pure := False\<rparr>) (write_var vs v this)
       else Some this
     }"

text \<open>The effect that is left when the code is called: on globals, and on the stack of the callers.\<close>

definition add_external_effect ::
    "'e vars \<Rightarrow> 'f func_scope_scheme list \<Rightarrow> 'b block_scope_scheme list \<Rightarrow> bool \<Rightarrow> Effect \<Rightarrow> nat list \<Rightarrow>
     Effect \<Rightarrow> Effect option" where
  "add_external_effect vs fs bs same e call_chain this =
     (if same then Some this
      else do {
        let on_stack = (\<lambda>v. any_opt (\<lambda>b. is_var_on_stack vs fs bs b v) call_chain);
        this \<leftarrow> fold_opt (external_read vs on_stack) (read_vars e) this;
        this \<leftarrow> fold_opt (external_write vs on_stack) (write_vars e) this;
        Some (this\<lparr>side_effect_free := (side_effect_free this \<and> side_effect_free e)\<rparr>)
      })"

definition add_external_effect_global :: "'e vars \<Rightarrow> bool \<Rightarrow> Effect \<Rightarrow> Effect \<Rightarrow> Effect option" where
  "add_external_effect_global vs same e this =
     (if same then Some this
      else do {
        this \<leftarrow> fold_opt (external_read vs (\<lambda>v. Some False)) (read_vars e) this;
        this \<leftarrow> fold_opt (external_write vs (\<lambda>v. Some False)) (write_vars e) this;
        Some (this\<lparr>side_effect_free := (side_effect_free this \<and> side_effect_free e)\<rparr>)
      })"

text \<open>The two loops of \<open>consolidate\<close>; \<open>acc\<close> is the part of the vector before the index.\<close>

fun consolidate_loop :: "'e vars \<Rightarrow> (nat list \<Rightarrow> nat \<Rightarrow> bool option) \<Rightarrow> nat list \<Rightarrow> nat list \<Rightarrow> nat list option" where
  "consolidate_loop vs covered acc [] = Some acc"
| "consolidate_loop vs covered acc (x # rest) =
     do {
       po \<leftarrow> container_of vs x;
       b \<leftarrow> (case po of None \<Rightarrow> Some False | Some p \<Rightarrow> covered (acc @ x # rest) p);
       if b then consolidate_loop vs covered acc rest else consolidate_loop vs covered (acc @ [x]) rest
     }"

definition consolidate :: "'e vars \<Rightarrow> Effect \<Rightarrow> Effect option" where
  "consolidate vs e =
     do {
       rs \<leftarrow> consolidate_loop vs (read_in vs) [] (read_vars e);
       ws \<leftarrow> consolidate_loop vs (written_in vs) [] (write_vars e);
       Some (e\<lparr>read_vars := rs, write_vars := ws\<rparr>)
     }"

definition update_purity :: "'e vars \<Rightarrow> Effect \<Rightarrow> Effect option" where
  "update_purity vs e =
     do { g \<leftarrow> has_global_effect vs e; Some (if g then e\<lparr>pure := False\<rparr> else e) }"

section \<open>What the lookups decide\<close>

text \<open>The containers of a variable that are structs, without a gap, itself first.\<close>

function struct_chain :: "'e vars \<Rightarrow> nat \<Rightarrow> nat list" where
  "struct_chain vs v =
     v # (case container_of vs v of
            Some (Some p) \<Rightarrow>
              (case type_of vs p of
                 Some t \<Rightarrow> (if eType t = eStruct then struct_chain vs p else [])
               | None \<Rightarrow> [])
          | _ \<Rightarrow> [])"
  by pat_completeness auto
termination by (relation "measure snd") (auto simp: termination_simp)

declare struct_chain.simps [simp del]

lemma written_in_chain:
  assumes "store_ok vs" "v < length vs"
  shows "written_in vs ws v = Some (\<exists>u \<in> set (chain vs v). u \<in> set ws)"
  using assms(2)
proof (induction v rule: less_induct)
  case (less v)
  note c = store_ok_container [OF assms(1) less.prems]
  from c less.IH show ?case
    by (cases "v_field_var_of (vs ! v)")
      (auto simp: written_in.simps [of vs ws v] chain.simps [of vs v])
qed

lemma read_in_chain:
  assumes "store_ok vs" "v < length vs"
  shows "read_in vs rs v = Some (\<exists>u \<in> set (struct_chain vs v). u \<in> set rs)"
  using assms(2)
proof (induction v rule: less_induct)
  case (less v)
  note c = store_ok_container [OF assms(1) less.prems]
  show ?case
  proof (cases "v_field_var_of (vs ! v)")
    case None
    with c(1) show ?thesis by (auto simp: read_in.simps [of vs rs v] struct_chain.simps [of vs v])
  next
    case (Some p)
    with c obtain t where p: "container_of vs v = Some (Some p)" "p < v" "p < length vs" "type_of vs p = Some t"
      by (auto simp: type_of_def)
    with less.IH [of p] show ?thesis
      by (auto simp: read_in.simps [of vs rs v] struct_chain.simps [of vs v])
  qed
qed

lemma struct_chainD:
  assumes "u \<in> set (struct_chain vs v)" "u \<noteq> v"
  shows "\<exists>p t. container_of vs v = Some (Some p) \<and> type_of vs p = Some t \<and> eType t = eStruct
    \<and> u \<in> set (struct_chain vs p)"
proof (cases "container_of vs v")
  case (Some po)
  show ?thesis
  proof (cases po)
    case None
    with Some assms show ?thesis by (simp add: struct_chain.simps [of vs v])
  next
    case (Some p)
    with \<open>container_of vs v = Some po\<close> assms show ?thesis
      by (cases "type_of vs p") (simp_all add: struct_chain.simps [of vs v] split: if_splits)
  qed
qed (use assms in \<open>simp add: struct_chain.simps [of vs v]\<close>)

lemma struct_chain_chain: "u \<in> set (struct_chain vs v) \<Longrightarrow> u \<in> set (chain vs v)"
proof (induction v rule: less_induct)
  case (less v)
  show ?case
  proof (cases "u = v")
    case False
    then obtain p where p: "container_of vs v = Some (Some p)" "u \<in> set (struct_chain vs p)"
      using struct_chainD [OF less.prems False] by blast
    with less.IH [OF container_smaller [OF p(1)]] show ?thesis by (simp add: chain.simps [of vs v])
  qed (simp add: chain_parts)
qed

text \<open>Two variables overlap when one contains the other.\<close>

definition overlap :: "'e vars \<Rightarrow> nat \<Rightarrow> nat \<Rightarrow> bool" where
  "overlap vs a b \<longleftrightarrow> a \<in> set (chain vs b) \<or> b \<in> set (chain vs a)"

definition effect_in :: "'e vars \<Rightarrow> Effect \<Rightarrow> bool" where
  "effect_in vs e \<longleftrightarrow> (\<forall>v \<in> set (read_vars e) \<union> set (write_vars e). v < length vs)"

lemma intersection_iff:
  assumes "typed_store vs" "\<forall>a \<in> set va. a < length vs" "\<forall>b \<in> set vb. b < length vs"
  shows "non_empty_intersection vs va vb = Some (\<exists>a \<in> set va. \<exists>b \<in> set vb. overlap vs a b)"
proof -
  have "any_opt (\<lambda>b. do { m \<leftarrow> var_match vs a b; if m then Some True else var_match vs b a }) vb =
      Some (\<exists>b \<in> set vb. overlap vs a b)" if "a < length vs" for a
    using assms(3)
  proof (induction vb)
    case (Cons b vb)
    with typed_match [OF assms(1), of a b] typed_match [OF assms(1), of b a] that
    show ?case by (auto simp: overlap_def)
  qed simp
  with assms(2) show ?thesis by (induction va) (auto simp: non_empty_intersection_def)
qed

lemma race_iff:
  assumes "typed_store vs" "effect_in vs e" "effect_in vs f"
  shows "has_race_with vs e f = Some
    ((\<exists>a \<in> set (read_vars e). \<exists>b \<in> set (write_vars f). overlap vs a b) \<or>
     (\<exists>a \<in> set (write_vars e). \<exists>b \<in> set (read_vars f) \<union> set (write_vars f). overlap vs a b))"
  using assms(2,3)
  by (auto simp: has_race_with_def effect_in_def intersection_iff [OF assms(1)])

text \<open>
  C38: Two effects race exactly when a variable one of them writes overlaps a variable the other one
  reads or writes, where variables overlap when one contains the other; the test never aborts and is
  symmetric.
\<close>
theorem has_race_with_spec:
  assumes "typed_store vs" "effect_in vs e" "effect_in vs f"
  shows "has_race_with vs e f = Some
      ((\<exists>a \<in> set (read_vars e). \<exists>b \<in> set (write_vars f). overlap vs a b) \<or>
       (\<exists>a \<in> set (write_vars e). \<exists>b \<in> set (read_vars f) \<union> set (write_vars f). overlap vs a b))
    \<and> has_race_with vs f e = has_race_with vs e f"
  using race_iff [OF assms] race_iff [OF assms(1,3,2)] by (auto simp: overlap_def)

lemma example_chain:
  "chain example_store 2 = [2, 1, 0]" "chain example_store 1 = [1, 0]" "chain example_store 0 = [0]"
  "chain example_store 3 = [3]"
  by (simp_all add: chain.simps [of _ 3] chain.simps [of _ 2] chain.simps [of _ 0] container_of_def
      chain.simps [of _ "Suc 0"] example_store_def example_var_def vec_get_def)

lemma example_store_length: "length example_store = 4"
  by (simp add: example_store_def)

theorem has_race_with_spec_witness:
  "has_race_with example_store (empty_effect\<lparr>read_vars := [2]\<rparr>) (empty_effect\<lparr>write_vars := [0]\<rparr>) = Some True"
  using has_race_with_spec [OF example_store_typed, of "empty_effect\<lparr>read_vars := [2]\<rparr>" "empty_effect\<lparr>write_vars := [0]\<rparr>"]
  by (simp add: effect_in_def empty_effect_def example_chain overlap_def example_store_length)

section \<open>Adding effects\<close>

lemma is_read_typed:
  "typed_store vs \<Longrightarrow> v < length vs \<Longrightarrow> is_read vs e v = Some (\<exists>u \<in> set (struct_chain vs v). u \<in> set (read_vars e))"
  by (simp add: is_read_def read_in_chain)

lemma is_written_typed:
  "typed_store vs \<Longrightarrow> v < length vs \<Longrightarrow> is_written vs e v = Some (\<exists>u \<in> set (chain vs v). u \<in> set (write_vars e))"
  by (simp add: is_written_def written_in_chain)

lemma struct_chain_trans:
  "u \<in> set (struct_chain vs v) \<Longrightarrow> w \<in> set (struct_chain vs u) \<Longrightarrow> w \<in> set (struct_chain vs v)"
proof (induction v rule: less_induct)
  case (less v)
  show ?case
  proof (cases "u = v")
    case False
    then obtain p t where p: "container_of vs v = Some (Some p)" "type_of vs p = Some t"
      "eType t = eStruct" "u \<in> set (struct_chain vs p)"
      using struct_chainD [OF less.prems(1) False] by blast
    with less.IH [OF container_smaller [OF p(1)]] less.prems(2) show ?thesis
      by (simp add: struct_chain.simps [of vs v])
  qed (use less.prems in simp)
qed

lemma struct_chain_self [simp]: "v \<in> set (struct_chain vs v)"
  by (simp add: struct_chain.simps [of vs v])

lemma chain_self [simp]: "v \<in> set (chain vs v)"
  by (simp add: chain_parts)

lemma add_reads:
  assumes "typed_store vs" "\<forall>x \<in> set xs. x < length vs"
  shows "\<exists>e1. fold_opt (add_read vs) xs e = Some e1
    \<and> write_vars e1 = write_vars e \<and> lhs_write_vars e1 = lhs_write_vars e \<and> pure e1 = pure e
    \<and> side_effect_free e1 = side_effect_free e
    \<and> set (read_vars e) \<subseteq> set (read_vars e1) \<and> set (read_vars e1) \<subseteq> set (read_vars e) \<union> set xs
    \<and> (\<forall>v < length vs. is_read vs e1 v = Some
          (\<exists>u \<in> set (struct_chain vs v). u \<in> set (read_vars e) \<union> set xs))"
  using assms(2)
proof (induction xs arbitrary: e)
  case Nil
  then show ?case by (simp add: is_read_typed [OF assms(1)])
next
  case (Cons x xs)
  let ?e = "if \<exists>u \<in> set (struct_chain vs x). u \<in> set (read_vars e) then e
    else e\<lparr>read_vars := read_vars e @ [x]\<rparr>"
  have step: "add_read vs x e = Some ?e"
    using Cons.prems is_read_typed [OF assms(1), of x e] by (simp add: add_read_def)
  from Cons.prems have "\<forall>x \<in> set xs. x < length vs" by simp
  from Cons.IH [OF this, of ?e] obtain e1 where e1: "fold_opt (add_read vs) xs ?e = Some e1"
    "write_vars e1 = write_vars ?e \<and> lhs_write_vars e1 = lhs_write_vars ?e \<and> pure e1 = pure ?e
     \<and> side_effect_free e1 = side_effect_free ?e"
    "set (read_vars ?e) \<subseteq> set (read_vars e1)" "set (read_vars e1) \<subseteq> set (read_vars ?e) \<union> set xs"
    "\<forall>v < length vs. is_read vs e1 v = Some
       (\<exists>u \<in> set (struct_chain vs v). u \<in> set (read_vars ?e) \<union> set xs)"
    by blast
  have "(\<exists>u \<in> set (struct_chain vs v). u \<in> set (read_vars ?e) \<union> set xs) \<longleftrightarrow>
      (\<exists>u \<in> set (struct_chain vs v). u \<in> set (read_vars e) \<union> set (x # xs))" for v
    using struct_chain_trans [of x vs v] by (simp split: if_splits) blast
  with e1 step show ?case by (auto split: if_splits)
qed

lemma add_writes:
  assumes "typed_store vs" "\<forall>x \<in> set xs. x < length vs"
  shows "\<exists>e1. fold_opt (add_write vs) xs e = Some e1
    \<and> read_vars e1 = read_vars e \<and> lhs_write_vars e1 = lhs_write_vars e \<and> pure e1 = pure e
    \<and> side_effect_free e1 = side_effect_free e
    \<and> set (write_vars e) \<subseteq> set (write_vars e1) \<and> set (write_vars e1) \<subseteq> set (write_vars e) \<union> set xs
    \<and> (\<forall>v < length vs. is_written vs e1 v = Some
          (\<exists>u \<in> set (chain vs v). u \<in> set (write_vars e) \<union> set xs))"
  using assms(2)
proof (induction xs arbitrary: e)
  case Nil
  then show ?case by (simp add: is_written_typed [OF assms(1)])
next
  case (Cons x xs)
  let ?e = "if \<exists>u \<in> set (chain vs x). u \<in> set (write_vars e) then e
    else e\<lparr>write_vars := write_vars e @ [x]\<rparr>"
  have step: "add_write vs x e = Some ?e"
    using Cons.prems is_written_typed [OF assms(1), of x e] by (simp add: add_write_def)
  from Cons.prems have "\<forall>x \<in> set xs. x < length vs" by simp
  from Cons.IH [OF this, of ?e] obtain e1 where e1: "fold_opt (add_write vs) xs ?e = Some e1"
    "read_vars e1 = read_vars ?e \<and> lhs_write_vars e1 = lhs_write_vars ?e \<and> pure e1 = pure ?e
     \<and> side_effect_free e1 = side_effect_free ?e"
    "set (write_vars ?e) \<subseteq> set (write_vars e1)" "set (write_vars e1) \<subseteq> set (write_vars ?e) \<union> set xs"
    "\<forall>v < length vs. is_written vs e1 v = Some
       (\<exists>u \<in> set (chain vs v). u \<in> set (write_vars ?e) \<union> set xs)"
    by blast
  have "(\<exists>u \<in> set (chain vs v). u \<in> set (write_vars ?e) \<union> set xs) \<longleftrightarrow>
      (\<exists>u \<in> set (chain vs v). u \<in> set (write_vars e) \<union> set (x # xs))" for v
    using chain_trans [of x vs v] by (simp split: if_splits) blast
  with e1 step show ?case by (auto split: if_splits)
qed

lemma chain_linear: "a \<in> set (chain vs v) \<Longrightarrow> b \<in> set (chain vs v) \<Longrightarrow> overlap vs a b"
proof (induction v rule: less_induct)
  case (less v)
  show ?case
  proof (cases "a = v \<or> b = v")
    case True
    with less.prems show ?thesis by (auto simp: overlap_def)
  next
    case False
    with less.prems(1) obtain p where p: "container_of vs v = Some (Some p)"
      by (cases "container_of vs v") (auto simp: chain.simps [of vs v] split: option.splits)
    with False less.prems less.IH [OF container_smaller [OF p]] show ?thesis
      by (simp add: chain.simps [of vs v])
  qed
qed

text \<open>Leaving out variables whose container stays in the set changes no overlap.\<close>

definition covers :: "'e vars \<Rightarrow> nat set \<Rightarrow> nat set \<Rightarrow> bool" where
  "covers vs X Y \<longleftrightarrow> X \<subseteq> Y \<and> (\<forall>y \<in> Y. \<exists>x \<in> X. x \<in> set (chain vs y))"

lemma covers_overlap: "covers vs X Y \<Longrightarrow> (\<exists>x \<in> X. overlap vs w x) \<longleftrightarrow> (\<exists>y \<in> Y. overlap vs w y)"
proof
  assume c: "covers vs X Y" and "\<exists>y \<in> Y. overlap vs w y"
  then obtain y x where y: "y \<in> Y" "overlap vs w y" and x: "x \<in> X" "x \<in> set (chain vs y)"
    unfolding covers_def by blast
  from y(2) x(2) have "overlap vs w x"
    using chain_trans [of y vs w x] chain_linear [of w vs y x] by (auto simp: overlap_def)
  with x(1) show "\<exists>x \<in> X. overlap vs w x" by blast
qed (auto simp: covers_def)

lemma covers_overlap_left: "covers vs X Y \<Longrightarrow> (\<exists>x \<in> X. overlap vs x w) \<longleftrightarrow> (\<exists>y \<in> Y. overlap vs y w)"
  using covers_overlap [of vs X Y w] by (simp add: overlap_def disj_commute)

definition races :: "'e vars \<Rightarrow> Effect \<Rightarrow> Effect \<Rightarrow> bool" where
  "races vs e f \<longleftrightarrow> has_race_with vs e f = Some True"

lemma races_iff:
  assumes "typed_store vs" "effect_in vs e" "effect_in vs f"
  shows "races vs e f \<longleftrightarrow>
    (\<exists>a \<in> set (read_vars e). \<exists>b \<in> set (write_vars f). overlap vs a b) \<or>
    (\<exists>a \<in> set (write_vars e). \<exists>b \<in> set (read_vars f). overlap vs a b) \<or>
    (\<exists>a \<in> set (write_vars e). \<exists>b \<in> set (write_vars f). overlap vs a b)"
  unfolding races_def race_iff [OF assms] by blast

lemma races_cover:
  assumes "typed_store vs" "effect_in vs g" "effect_in vs e" "effect_in vs f"
    and "covers vs (set (read_vars f)) (set (read_vars e))"
    and "covers vs (set (write_vars f)) (set (write_vars e))"
  shows "races vs g f \<longleftrightarrow> races vs g e"
  unfolding races_iff [OF assms(1,2,3)] races_iff [OF assms(1,2,4)]
  by (simp add: covers_overlap [OF assms(5)] covers_overlap [OF assms(6)])

lemma add_effect_fields:
  assumes "typed_store vs" "effect_in vs e"
  shows "\<exists>e1. add_effect vs False e lhs this = Some e1
    \<and> pure e1 = (pure this \<and> pure e) \<and> side_effect_free e1 = (side_effect_free this \<and> side_effect_free e)
    \<and> set (read_vars this) \<subseteq> set (read_vars e1)
    \<and> set (read_vars e1) \<subseteq> set (read_vars this) \<union> set (read_vars e)
    \<and> set (write_vars this) \<subseteq> set (write_vars e1)
    \<and> set (write_vars e1) \<subseteq> set (write_vars this) \<union> set (write_vars e)
    \<and> (\<forall>v < length vs. is_read vs e1 v = Some
          (\<exists>u \<in> set (struct_chain vs v). u \<in> set (read_vars this) \<union> set (read_vars e)))
    \<and> (\<forall>v < length vs. is_written vs e1 v = Some
          (\<exists>u \<in> set (chain vs v). u \<in> set (write_vars this) \<union> set (write_vars e)))"
proof -
  from assms(2) have b: "\<forall>x \<in> set (read_vars e). x < length vs" "\<forall>x \<in> set (write_vars e). x < length vs"
    by (simp_all add: effect_in_def)
  obtain e2 where e2: "fold_opt (add_read vs) (read_vars e) this = Some e2"
    "write_vars e2 = write_vars this" "pure e2 = pure this" "side_effect_free e2 = side_effect_free this"
    "set (read_vars this) \<subseteq> set (read_vars e2)"
    "set (read_vars e2) \<subseteq> set (read_vars this) \<union> set (read_vars e)"
    "\<forall>v < length vs. is_read vs e2 v = Some
       (\<exists>u \<in> set (struct_chain vs v). u \<in> set (read_vars this) \<union> set (read_vars e))"
    using add_reads [OF assms(1) b(1), of this] by blast
  obtain e3 where e3: "fold_opt (add_write vs) (write_vars e) e2 = Some e3"
    "read_vars e3 = read_vars e2" "pure e3 = pure e2" "side_effect_free e3 = side_effect_free e2"
    "set (write_vars e2) \<subseteq> set (write_vars e3)"
    "set (write_vars e3) \<subseteq> set (write_vars e2) \<union> set (write_vars e)"
    "\<forall>v < length vs. is_written vs e3 v = Some
       (\<exists>u \<in> set (chain vs v). u \<in> set (write_vars e2) \<union> set (write_vars e))"
    using add_writes [OF assms(1) b(2), of e2] by blast
  from e2 e3 show ?thesis by (simp add: add_effect_def Let_def is_read_def is_written_def)
qed

lemma all_read_covers:
  assumes "X \<subseteq> Y" "\<forall>y \<in> Y. \<exists>u \<in> set (struct_chain vs y). u \<in> X"
  shows "covers vs X Y"
  using assms struct_chain_chain unfolding covers_def by blast

lemma add_effect_covers:
  assumes "typed_store vs" "effect_in vs this" "effect_in vs e" "add_effect vs False e lhs this = Some e1"
  shows "effect_in vs e1"
    "covers vs (set (read_vars e1)) (set (read_vars this) \<union> set (read_vars e))"
    "covers vs (set (write_vars e1)) (set (write_vars this) \<union> set (write_vars e))"
proof -
  from add_effect_fields [OF assms(1,3), of lhs this] assms(4)
  have f: "set (read_vars e1) \<subseteq> set (read_vars this) \<union> set (read_vars e)"
    "set (write_vars e1) \<subseteq> set (write_vars this) \<union> set (write_vars e)"
    "\<forall>v < length vs. is_read vs e1 v = Some
       (\<exists>u \<in> set (struct_chain vs v). u \<in> set (read_vars this) \<union> set (read_vars e))"
    "\<forall>v < length vs. is_written vs e1 v = Some
       (\<exists>u \<in> set (chain vs v). u \<in> set (write_vars this) \<union> set (write_vars e))"
    by auto
  from f(1,2) assms(2,3) show "effect_in vs e1" by (auto simp: effect_in_def)
  have b: "y < length vs" if "y \<in> set (read_vars this) \<union> set (read_vars e) \<union> set (write_vars this) \<union> set (write_vars e)" for y
    using that assms(2,3) by (auto simp: effect_in_def)
  have "\<exists>u \<in> set (struct_chain vs y). u \<in> set (read_vars e1)"
    if "y \<in> set (read_vars this) \<union> set (read_vars e)" for y
    using that f(3) b [of y] struct_chain_self [of y vs] is_read_typed [OF assms(1), of y e1] by auto
  with f(1) show "covers vs (set (read_vars e1)) (set (read_vars this) \<union> set (read_vars e))"
    by (simp add: all_read_covers)
  have "\<exists>u \<in> set (chain vs y). u \<in> set (write_vars e1)"
    if "y \<in> set (write_vars this) \<union> set (write_vars e)" for y
    using that f(4) b [of y] chain_self [of y vs] is_written_typed [OF assms(1), of y e1] by auto
  with f(2) show "covers vs (set (write_vars e1)) (set (write_vars this) \<union> set (write_vars e))"
    unfolding covers_def by blast
qed

lemma races_union:
  assumes "typed_store vs" "effect_in vs g" "effect_in vs e" "effect_in vs f" "effect_in vs h"
    and "covers vs (set (read_vars h)) (set (read_vars e) \<union> set (read_vars f))"
    and "covers vs (set (write_vars h)) (set (write_vars e) \<union> set (write_vars f))"
  shows "races vs g h \<longleftrightarrow> races vs g e \<or> races vs g f"
  unfolding races_iff [OF assms(1,2,3)] races_iff [OF assms(1,2,4)] races_iff [OF assms(1,2,5)]
  by (simp add: covers_overlap [OF assms(6)] covers_overlap [OF assms(7)]) blast

text \<open>
  C39: Adding an effect to another one never aborts and gives their union: a variable is read
  (written) by the sum exactly when one of the two reads (writes) it, the sum is pure and free of side
  effects when both are, and any third effect races with the sum exactly when it races with one of
  them, although variables that are covered by their container are not stored.
\<close>
theorem add_effect_union:
  assumes "typed_store vs" "effect_in vs this" "effect_in vs e" "effect_in vs g"
  shows "\<exists>e1. add_effect vs False e lhs this = Some e1 \<and> effect_in vs e1
    \<and> pure e1 = (pure this \<and> pure e) \<and> side_effect_free e1 = (side_effect_free this \<and> side_effect_free e)
    \<and> (\<forall>v < length vs.
         (is_read vs e1 v = Some True \<longleftrightarrow> is_read vs this v = Some True \<or> is_read vs e v = Some True) \<and>
         (is_written vs e1 v = Some True \<longleftrightarrow>
            is_written vs this v = Some True \<or> is_written vs e v = Some True))
    \<and> (races vs g e1 \<longleftrightarrow> races vs g this \<or> races vs g e)"
proof -
  from add_effect_fields [OF assms(1,3), of lhs this] obtain e1 where
    e1: "add_effect vs False e lhs this = Some e1" "pure e1 = (pure this \<and> pure e)"
      "side_effect_free e1 = (side_effect_free this \<and> side_effect_free e)"
      "\<forall>v < length vs. is_read vs e1 v = Some
          (\<exists>u \<in> set (struct_chain vs v). u \<in> set (read_vars this) \<union> set (read_vars e))"
      "\<forall>v < length vs. is_written vs e1 v = Some
          (\<exists>u \<in> set (chain vs v). u \<in> set (write_vars this) \<union> set (write_vars e))"
    by blast
  note c = add_effect_covers [OF assms(1,2,3) e1(1)]
  have "races vs g e1 \<longleftrightarrow> races vs g this \<or> races vs g e"
    by (rule races_union [OF assms(1,4,2,3) c])
  with c(1) e1 show ?thesis
    by (intro exI [of _ e1]) (auto simp: is_read_typed [OF assms(1)] is_written_typed [OF assms(1)])
qed

theorem add_effect_union_witness:
  "\<exists>e1. add_effect example_store False (empty_effect\<lparr>write_vars := [1]\<rparr>) False (empty_effect\<lparr>write_vars := [3]\<rparr>) = Some e1
    \<and> is_written example_store e1 2 = Some True"
proof -
  have "is_written example_store (empty_effect\<lparr>write_vars := [1]\<rparr>) 2 = Some True"
    by (simp add: is_written_typed [OF example_store_typed] example_store_length example_chain)
  with add_effect_union [OF example_store_typed, of "empty_effect\<lparr>write_vars := [3]\<rparr>"
      "empty_effect\<lparr>write_vars := [1]\<rparr>" empty_effect False]
  show ?thesis by (auto simp: effect_in_def empty_effect_def example_store_length)
qed

section \<open>Consolidation\<close>

lemma covers_trans: "covers vs X Y \<Longrightarrow> covers vs Y Z \<Longrightarrow> covers vs X Z"
  using chain_trans unfolding covers_def by (meson subset_trans)

lemma covers_refl: "covers vs X X"
  unfolding covers_def using chain_self by blast

lemma covers_insert:
  "u \<in> set acc \<union> set rest \<Longrightarrow> u \<in> set (chain vs x) \<Longrightarrow>
     covers vs (set acc \<union> set rest) (set acc \<union> set (x # rest))"
  using covers_refl [of vs "set acc \<union> set rest"] by (auto simp: covers_def)

lemma consolidate_loop_covers:
  assumes "store_ok vs"
    and cov: "\<And>xs p. p < length vs \<Longrightarrow> covered xs p = Some (\<exists>u \<in> ch p. u \<in> set xs)"
    and ch: "\<And>p u. u \<in> ch p \<Longrightarrow> u \<in> set (chain vs p)"
    and "\<forall>x \<in> set rest. x < length vs"
  shows "\<exists>ys. consolidate_loop vs covered acc rest = Some ys \<and> covers vs (set ys) (set acc \<union> set rest)"
  using assms(4)
proof (induction rest arbitrary: acc)
  case Nil
  then show ?case by (simp add: covers_refl)
next
  case (Cons x rest)
  note c = store_ok_container [OF assms(1), of x]
  from Cons.prems have x: "x < length vs" and rest: "\<forall>x \<in> set rest. x < length vs" by simp_all
  note ih = Cons.IH [OF rest]
  have keep: "\<exists>ys. consolidate_loop vs covered (acc @ [x]) rest = Some ys \<and>
      covers vs (set ys) (set acc \<union> set (x # rest))"
    using ih [of "acc @ [x]"] by simp
  show ?case
  proof (cases "v_field_var_of (vs ! x)")
    case None
    with keep c x show ?thesis by simp
  next
    case (Some p)
    with c x have p: "p < x" "p < length vs" "container_of vs x = Some (Some p)" by auto
    show ?thesis
    proof (cases "\<exists>u \<in> ch p. u \<in> set (acc @ x # rest)")
      case False
      with keep p cov [OF p(2)] show ?thesis by simp
    next
      case True
      then obtain u where u: "u \<in> set (chain vs p)" "u \<in> set (acc @ x # rest)" using ch by blast
      with chain_le [OF u(1)] p(1) have u2: "u \<in> set acc \<union> set rest" by auto
      have "u \<in> set (chain vs x)" using u(1) p(3) by (simp add: chain.simps [of vs x])
      from u2 this have "covers vs (set acc \<union> set rest) (set acc \<union> set (x # rest))"
        by (rule covers_insert)
      moreover obtain ys where "consolidate_loop vs covered acc rest = Some ys"
        "covers vs (set ys) (set acc \<union> set rest)" using ih by blast
      ultimately show ?thesis using p True cov [OF p(2)] by (auto intro: covers_trans)
    qed
  qed
qed

text \<open>
  C0: \<open>consolidate\<close> never aborts, and dropping the fields whose container is in the set changes
  neither which variables count as written nor which effects it races with.
\<close>
theorem consolidate_keeps_races:
  assumes "typed_store vs" "effect_in vs e" "effect_in vs g"
  shows "\<exists>e1. consolidate vs e = Some e1 \<and> effect_in vs e1
    \<and> (\<forall>v < length vs. is_written vs e1 v = is_written vs e v) \<and> (races vs g e1 \<longleftrightarrow> races vs g e)"
proof -
  have ok: "store_ok vs" using assms(1) by simp
  have b: "\<forall>x \<in> set (read_vars e). x < length vs" "\<forall>x \<in> set (write_vars e). x < length vs"
    using assms(2) by (simp_all add: effect_in_def)
  obtain rs where rs: "consolidate_loop vs (read_in vs) [] (read_vars e) = Some rs"
    "covers vs (set rs) (set (read_vars e))"
    using consolidate_loop_covers [where covered = "read_in vs" and acc = "[]" and
        ch = "\<lambda>p. set (struct_chain vs p)", OF ok read_in_chain [OF ok] struct_chain_chain b(1)] by auto
  obtain ws where ws: "consolidate_loop vs (written_in vs) [] (write_vars e) = Some ws"
    "covers vs (set ws) (set (write_vars e))"
    using consolidate_loop_covers [where covered = "written_in vs" and acc = "[]" and
        ch = "\<lambda>p. set (chain vs p)", OF ok written_in_chain [OF ok] _ b(2)] by auto
  let ?e1 = "e\<lparr>read_vars := rs, write_vars := ws\<rparr>"
  have i: "effect_in vs ?e1" using rs(2) ws(2) b by (auto simp: effect_in_def covers_def)
  have w: "is_written vs ?e1 v = is_written vs e v" if "v < length vs" for v
    using that ws(2) chain_trans [of _ vs v] unfolding covers_def
    by (simp add: is_written_typed [OF assms(1)]) blast
  have "races vs g ?e1 \<longleftrightarrow> races vs g e"
    by (rule races_cover [OF assms(1,3,2) i]) (use rs(2) ws(2) in simp_all)
  with rs(1) ws(1) i w show ?thesis by (simp add: consolidate_def)
qed

theorem consolidate_keeps_races_witness:
  "\<exists>e1. consolidate example_store (empty_effect\<lparr>write_vars := [2, 0]\<rparr>) = Some e1
    \<and> is_written example_store e1 2 = Some True"
proof -
  let ?e = "empty_effect\<lparr>write_vars := [2, 0]\<rparr>"
  have "is_written example_store ?e 2 = Some True"
    by (simp add: is_written_typed [OF example_store_typed] example_store_length example_chain)
  with consolidate_keeps_races [OF example_store_typed, of ?e empty_effect]
  show ?thesis by (force simp: effect_in_def empty_effect_def example_store_length)
qed

text \<open>What \<open>consolidate\<close> does not keep: a union \<open>g_4\<close> is read as a whole and through its field.\<close>

definition union_store :: "unit vars" where
  "union_store =
     [example_var ''g_4'' (Type_aggregate 2 0 [Type_simple 1 eInt] False False [plain_qfer] [- 1] False False)
        None [1] plain_qfer,
      example_var ''g_4.f0'' (Type_simple 1 eInt) (Some 0) [] plain_qfer]"

definition union_effect :: Effect where
  "union_effect = empty_effect\<lparr>read_vars := [0, 1]\<rparr>"

lemma consolidate_forgets_union_read:
  "is_read union_store union_effect 1 = Some True \<and>
   map_option (\<lambda>e. is_read union_store e 1) (consolidate union_store union_effect) = Some (Some False)"
proof -
  have c: "container_of union_store (Suc 0) = Some (Some 0)" "container_of union_store 0 = Some None"
    by (simp_all add: container_of_def union_store_def example_var_def)
  have t: "type_of union_store 0 = Some (Type_aggregate 2 0 [Type_simple 1 eInt] False False [plain_qfer] [- 1] False False)"
    by (simp add: type_of_def union_store_def example_var_def)
  show ?thesis
    using c t by (simp add: is_read_def union_effect_def empty_effect_def consolidate_def
        read_in.simps [of union_store _ "Suc 0"] read_in.simps [of union_store _ 0] Type_aggregate_def plain_info_def)
qed

lemma Effect_copy_drops_lhs:
  "lhs_write_vars (Effect_copy e) = [] \<and> lhs_write_vars (Effect_assign e f) = lhs_write_vars e"
  by (simp add: Effect_copy_def Effect_assign_def)

section \<open>The flags are sound\<close>

definition quiet_var :: "'e vars \<Rightarrow> nat \<Rightarrow> bool" where
  "quiet_var vs v \<longleftrightarrow> var_is_volatile vs v = Some False \<and> is_access_once vs v = Some False"

definition effect_sound :: "'e vars \<Rightarrow> Effect \<Rightarrow> bool" where
  "effect_sound vs e \<longleftrightarrow>
     (pure e \<longrightarrow> (\<forall>v \<in> set (read_vars e). var_is_const vs v = Some True \<and> quiet_var vs v)) \<and>
     (side_effect_free e \<longrightarrow> (\<forall>v \<in> set (read_vars e) \<union> set (write_vars e). quiet_var vs v))"

lemma read_var_sound: "effect_sound vs e \<Longrightarrow> read_var vs v e = Some e1 \<Longrightarrow> effect_sound vs e1"
  by (auto simp: read_var_def effect_sound_def quiet_var_def bind_eq_Some_conv split: if_splits)

lemma write_var_sound: "effect_sound vs e \<Longrightarrow> write_var vs v e = Some e1 \<Longrightarrow> effect_sound vs e1"
  by (auto simp: write_var_def effect_sound_def quiet_var_def bind_eq_Some_conv split: if_splits)

lemma read_var_writes: "read_var vs v e = Some e1 \<Longrightarrow> write_vars e1 = write_vars e"
  by (auto simp: read_var_def bind_eq_Some_conv)

lemma impure_sound: "effect_sound vs e \<Longrightarrow> effect_sound vs (e\<lparr>pure := False\<rparr>)"
  by (simp add: effect_sound_def)

lemma noisy_sound: "effect_sound vs e \<Longrightarrow> effect_sound vs (e\<lparr>side_effect_free := (side_effect_free e \<and> b)\<rparr>)"
  by (simp add: effect_sound_def)

lemma external_read_sound:
  assumes "effect_sound vs e \<and> write_vars e = ws" "external_read vs vis v e = Some e1"
  shows "effect_sound vs e1 \<and> write_vars e1 = ws"
proof -
  have "read_var vs v e = Some e1 \<or> e1 = e"
    using assms(2) by (auto simp: external_read_def bind_eq_Some_conv split: if_splits)
  with assms(1) show ?thesis using read_var_sound read_var_writes by metis
qed

lemma external_write_sound:
  assumes "effect_sound vs e \<and> (pure e \<longrightarrow> write_vars e = ws)" "external_write vs vis v e = Some e1"
  shows "effect_sound vs e1 \<and> (pure e1 \<longrightarrow> write_vars e1 = ws)"
proof -
  have "(\<exists>e2. write_var vs v e = Some e2 \<and> e1 = e2\<lparr>pure := False\<rparr>) \<or> e1 = e"
    using assms(2) by (auto simp: external_write_def bind_eq_Some_conv split: if_splits)
  then show ?thesis
  proof
    assume "\<exists>e2. write_var vs v e = Some e2 \<and> e1 = e2\<lparr>pure := False\<rparr>"
    then obtain e2 where e2: "write_var vs v e = Some e2" "e1 = e2\<lparr>pure := False\<rparr>" by blast
    with write_var_sound [OF _ e2(1)] impure_sound assms(1) show ?thesis by simp
  qed (use assms(1) in simp)
qed

lemma external_loops_sound:
  assumes "effect_sound vs e"
    and "fold_opt (external_read vs vis) rs e = Some e1" "fold_opt (external_write vs vis) ws e1 = Some e2"
  shows "effect_sound vs e2 \<and> (pure e2 \<longrightarrow> write_vars e2 = write_vars e)"
proof -
  have "effect_sound vs e1 \<and> write_vars e1 = write_vars e"
    by (rule fold_opt_invariant [OF assms(2)]) (use assms(1) external_read_sound in blast)+
  then have "effect_sound vs e1 \<and> (pure e1 \<longrightarrow> write_vars e1 = write_vars e)" by simp
  then show ?thesis
    by (rule fold_opt_invariant [OF assms(3)]) (use external_write_sound in blast)
qed

lemma add_external_effect_sound:
  assumes "effect_sound vs e" "add_external_effect vs fs bs same f chn e = Some e1"
  shows "effect_sound vs e1 \<and> (same \<or> pure e1 \<longrightarrow> write_vars e1 = write_vars e)"
proof (cases same)
  case False
  with assms(2) obtain vis e2 e3 where e: "fold_opt (external_read vs vis) (read_vars f) e = Some e2"
    "fold_opt (external_write vs vis) (write_vars f) e2 = Some e3"
    "e1 = e3\<lparr>side_effect_free := (side_effect_free e3 \<and> side_effect_free f)\<rparr>"
    by (auto simp: add_external_effect_def Let_def bind_eq_Some_conv)
  from external_loops_sound [OF assms(1) e(1,2)] have s: "effect_sound vs e3"
    "pure e3 \<longrightarrow> write_vars e3 = write_vars e" by simp_all
  have "effect_sound vs e1" unfolding e(3) by (rule noisy_sound [OF s(1)])
  with s(2) e(3) False show ?thesis by simp
qed (use assms in \<open>simp add: add_external_effect_def\<close>)

text \<open>\<open>add_effect\<close> on its flags.\<close>

lemma add_loops_flags:
  assumes "fold_opt (add_read vs) rs e = Some e1" "fold_opt (add_write vs) ws e1 = Some e2"
  shows "pure e2 = pure e \<and> side_effect_free e2 = side_effect_free e
    \<and> set (read_vars e2) \<subseteq> set (read_vars e) \<union> set rs \<and> set (write_vars e2) \<subseteq> set (write_vars e) \<union> set ws"
proof -
  let ?I = "\<lambda>x. pure x = pure e \<and> side_effect_free x = side_effect_free e
    \<and> set (read_vars x) \<subseteq> set (read_vars e) \<union> set rs \<and> set (write_vars x) \<subseteq> set (write_vars e) \<union> set ws"
  have "?I e1"
    by (rule fold_opt_invariant [OF assms(1)])
      (auto simp: add_read_def bind_eq_Some_conv split: if_splits)
  then show ?thesis
    by (rule fold_opt_invariant [OF assms(2)])
      (auto simp: add_write_def bind_eq_Some_conv split: if_splits)
qed

lemma add_effect_sound:
  assumes "effect_sound vs e" "effect_sound vs f" "add_effect vs same f lhs e = Some e1"
  shows "effect_sound vs e1"
proof (cases same)
  case False
  with assms(3) obtain e2 e3 where e: "fold_opt (add_read vs) (read_vars f) e = Some e2"
    "fold_opt (add_write vs) (write_vars f) e2 = Some e3"
    "read_vars e1 = read_vars e3" "write_vars e1 = write_vars e3" "pure e1 = (pure e3 \<and> pure f)"
    "side_effect_free e1 = (side_effect_free e3 \<and> side_effect_free f)"
    by (auto simp: add_effect_def Let_def bind_eq_Some_conv)
  from add_loops_flags [OF e(1,2)] e(3-6)
  have "pure e1 \<Longrightarrow> pure e \<and> pure f" "side_effect_free e1 \<Longrightarrow> side_effect_free e \<and> side_effect_free f"
    and r: "set (read_vars e1) \<subseteq> set (read_vars e) \<union> set (read_vars f)"
    and w: "set (write_vars e1) \<subseteq> set (write_vars e) \<union> set (write_vars f)" by simp_all
  with assms(1,2) show ?thesis
    unfolding effect_sound_def using subsetD [OF r] subsetD [OF w] by blast
qed (use assms in \<open>simp add: add_effect_def\<close>)

lemma empty_effect_sound: "effect_sound vs empty_effect"
  by (simp add: effect_sound_def empty_effect_def)

text \<open>
  The flags of an effect stay sound: in a pure effect every variable read is constant, not
  volatile and not accessed once, and in one marked free of side effects no variable read or written
  is volatile or accessed once.  The empty effect is sound; reading, writing, adding another sound
  effect and adding the effect of a call keep it; and a call that leaves the effect pure wrote nothing
  its caller can see.
\<close>
lemma effect_operations_sound:
  assumes "effect_sound vs e" "effect_sound vs f"
  shows "effect_sound vs empty_effect
    \<and> (read_var vs v e = Some e1 \<longrightarrow> effect_sound vs e1)
    \<and> (write_var vs v e = Some e2 \<longrightarrow> effect_sound vs e2)
    \<and> (add_effect vs same f lhs e = Some e3 \<longrightarrow> effect_sound vs e3)
    \<and> (add_external_effect vs fs bs same f call_chain e = Some e4 \<longrightarrow>
         effect_sound vs e4 \<and> (pure e4 \<longrightarrow> write_vars e4 = write_vars e))"
  using empty_effect_sound read_var_sound [OF assms(1)] write_var_sound [OF assms(1)]
    add_effect_sound [OF assms] add_external_effect_sound [OF assms(1)] by blast

lemma example_read:
  "read_var example_store 3 empty_effect =
     Some (empty_effect\<lparr>read_vars := [3], pure := False, side_effect_free := False\<rparr>)"
  by code_simp

end
