(* ===== verification/Bookkeeping.thy ===== *)
theory Bookkeeping
  imports Variables StringUtils
begin

text \<open>
  The statistics of a run (\<open>Bookkeeper.cpp\<close>): the static counters, the functions that record an
  event, and the printed reports that need integers only.  The counters are \<open>int\<close> in the code; a run
  does not come near \<open>2 ^ 31\<close> events, so they are unbounded here.
\<close>

section \<open>The counters\<close>

record bookkeeper =
  struct_depth_cnts :: "int list"
  union_var_cnt :: int
  expr_depth_cnts :: "int list"
  blk_depth_cnts :: "int list"
  dereference_level_cnts :: "int list"
  address_taken_cnt :: int
  read_dereference_cnts :: "int list"
  write_dereference_cnts :: "int list"
  cmp_ptr_to_null :: int
  cmp_ptr_to_ptr :: int
  cmp_ptr_to_addr :: int
  read_volatile_cnt :: int
  write_volatile_cnt :: int
  read_non_volatile_cnt :: int
  write_non_volatile_cnt :: int
  read_volatile_thru_ptr_cnt :: int
  write_volatile_thru_ptr_cnt :: int
  pointer_avail_for_dereference :: int
  volatile_avail :: int
  structs_with_bitfields :: int
  vars_with_bitfields :: "int list"
  vars_with_full_bitfields :: "int list"
  vars_with_bitfields_address_taken_cnt :: int
  bitfields_in_total :: int
  unamed_bitfields_in_total :: int
  const_bitfields_in_total :: int
  volatile_bitfields_in_total :: int
  lhs_bitfields_structs_vars_cnt :: int
  rhs_bitfields_structs_vars_cnt :: int
  lhs_bitfield_cnt :: int
  rhs_bitfield_cnt :: int
  forward_jump_cnt :: int
  backward_jump_cnt :: int
  use_new_var_cnt :: int
  use_old_var_cnt :: int
  oob_cnt :: int
  rely_on_int_size :: bool
  rely_on_ptr_size :: bool

definition bookkeeper_init :: bookkeeper where
  "bookkeeper_init = \<lparr>struct_depth_cnts = [], union_var_cnt = 0, expr_depth_cnts = [],
     blk_depth_cnts = [], dereference_level_cnts = [], address_taken_cnt = 0,
     read_dereference_cnts = [], write_dereference_cnts = [], cmp_ptr_to_null = 0,
     cmp_ptr_to_ptr = 0, cmp_ptr_to_addr = 0, read_volatile_cnt = 0, write_volatile_cnt = 0,
     read_non_volatile_cnt = 0, write_non_volatile_cnt = 0, read_volatile_thru_ptr_cnt = 0,
     write_volatile_thru_ptr_cnt = 0, pointer_avail_for_dereference = 0, volatile_avail = 0,
     structs_with_bitfields = 0, vars_with_bitfields = [], vars_with_full_bitfields = [],
     vars_with_bitfields_address_taken_cnt = 0, bitfields_in_total = 0,
     unamed_bitfields_in_total = 0, const_bitfields_in_total = 0, volatile_bitfields_in_total = 0,
     lhs_bitfields_structs_vars_cnt = 0, rhs_bitfields_structs_vars_cnt = 0, lhs_bitfield_cnt = 0,
     rhs_bitfield_cnt = 0, forward_jump_cnt = 0, backward_jump_cnt = 0, use_new_var_cnt = 0,
     use_old_var_cnt = 0, oob_cnt = 0, rely_on_int_size = False, rely_on_ptr_size = False\<rparr>"

definition Bookkeeper_doFinalization :: "bookkeeper \<Rightarrow> bookkeeper" where
  "Bookkeeper_doFinalization b = b\<lparr>struct_depth_cnts := [], expr_depth_cnts := [],
     dereference_level_cnts := [], address_taken_cnt := 0, write_dereference_cnts := [],
     read_dereference_cnts := [], cmp_ptr_to_null := 0, cmp_ptr_to_ptr := 0, cmp_ptr_to_addr := 0\<rparr>"

text \<open>A negative position becomes a huge \<open>size_t\<close>, for which \<open>resize\<close> throws.\<close>

definition incr_counter :: "int list \<Rightarrow> int \<Rightarrow> int list option" where
  "incr_counter counters pos =
     (if pos < 0 then None
      else let index = nat pos;
               cs = (if length counters \<le> index then counters @ replicate (index + 1 - length counters) 0
                     else counters)
           in Some (cs[index := cs ! index + 1]))"

definition calc_total :: "int list \<Rightarrow> int" where
  "calc_total counters = foldl (\<lambda>total c. total + c) 0 counters"

section \<open>Recording\<close>

text \<open>\<open>var\<close> may not be null and has a type (both asserted); \<open>isAddrTaken\<close> of the variable is set.\<close>

definition record_address_taken :: "nat \<Rightarrow> 'e vars \<Rightarrow> bookkeeper \<Rightarrow> ('e vars \<times> bookkeeper) option" where
  "record_address_taken var vs b =
     do {
       v \<leftarrow> vec_get vs var;
       t \<leftarrow> v_type v;
       h \<leftarrow> has_bitfields t;
       Some (vs[var := v\<lparr>v_isAddrTaken := True\<rparr>],
         b\<lparr>address_taken_cnt := address_taken_cnt b + 1,
           vars_with_bitfields_address_taken_cnt :=
             vars_with_bitfields_address_taken_cnt b + (if h then 1 else 0)\<rparr>)
     }"

definition record_bitfields_reads :: "'e vars \<Rightarrow> nat \<Rightarrow> bookkeeper \<Rightarrow> bookkeeper option" where
  "record_bitfields_reads vs var b =
     do {
       v \<leftarrow> vec_get vs var;
       t \<leftarrow> v_type v;
       h \<leftarrow> has_bitfields t;
       Some (b\<lparr>rhs_bitfields_structs_vars_cnt := rhs_bitfields_structs_vars_cnt b + (if h then 1 else 0),
               rhs_bitfield_cnt := rhs_bitfield_cnt b + (if v_isBitfield v then 1 else 0)\<rparr>)
     }"

definition record_bitfields_writes :: "'e vars \<Rightarrow> nat \<Rightarrow> bookkeeper \<Rightarrow> bookkeeper option" where
  "record_bitfields_writes vs var b =
     do {
       v \<leftarrow> vec_get vs var;
       t \<leftarrow> v_type v;
       h \<leftarrow> has_bitfields t;
       Some (b\<lparr>lhs_bitfields_structs_vars_cnt := lhs_bitfields_structs_vars_cnt b + (if h then 1 else 0),
               lhs_bitfield_cnt := lhs_bitfield_cnt b + (if v_isBitfield v then 1 else 0)\<rparr>)
     }"

definition count_access :: "CVQualifiers \<Rightarrow> bool \<Rightarrow> nat \<Rightarrow> bookkeeper \<Rightarrow> bookkeeper option" where
  "count_access q write i b =
     do {
       vol \<leftarrow> is_volatile_after_deref q (int i);
       Some (if write
             then (if vol
                   then b\<lparr>write_volatile_thru_ptr_cnt := write_volatile_thru_ptr_cnt b + (if i \<noteq> 0 then 1 else 0),
                          write_volatile_cnt := write_volatile_cnt b + 1\<rparr>
                   else b\<lparr>write_non_volatile_cnt := write_non_volatile_cnt b + 1\<rparr>)
             else (if vol
                   then b\<lparr>read_volatile_thru_ptr_cnt := read_volatile_thru_ptr_cnt b + (if i \<noteq> 0 then 1 else 0),
                          read_volatile_cnt := read_volatile_cnt b + 1\<rparr>
                   else b\<lparr>read_non_volatile_cnt := read_non_volatile_cnt b + 1\<rparr>))
     }"

definition record_volatile_access ::
    "'e vars \<Rightarrow> nat \<Rightarrow> int \<Rightarrow> bool \<Rightarrow> bookkeeper \<Rightarrow> bookkeeper option" where
  "record_volatile_access vs var deref_level write b =
     do {
       b \<leftarrow> (if write then record_bitfields_writes vs var b else record_bitfields_reads vs var b);
       v \<leftarrow> vec_get vs var;
       fold_opt (count_access (v_qfer v) write) [0 ..< nat (deref_level + 1)] b
     }"

definition record_vars_with_bitfields :: "Type \<Rightarrow> bookkeeper \<Rightarrow> bookkeeper option" where
  "record_vars_with_bitfields t b =
     (let base = get_base_type t in
      if \<not> is_aggregate base then Some b
      else do {
        h \<leftarrow> has_bitfields base;
        if \<not> h then Some b
        else do {
          let level = int (get_indirect_level t);
          cs \<leftarrow> incr_counter (vars_with_bitfields b) level;
          full \<leftarrow> (if is_full_bitfields_struct t then incr_counter (vars_with_full_bitfields b) level
                  else Some (vars_with_full_bitfields b));
          Some (b\<lparr>vars_with_bitfields := cs, vars_with_full_bitfields := full\<rparr>)
        }
      })"

definition count_bitfield :: "Type \<Rightarrow> nat \<Rightarrow> bookkeeper \<Rightarrow> bookkeeper option" where
  "count_bitfield t i b =
     do {
       bf \<leftarrow> is_bitfield t i;
       if \<not> bf then Some b
       else do {
         q \<leftarrow> vec_get (qfers t) i;
         c \<leftarrow> qfer_is_const q;
         vol \<leftarrow> qfer_is_volatile q;
         Some (b\<lparr>bitfields_in_total := bitfields_in_total b + 1,
                 unamed_bitfields_in_total :=
                   unamed_bitfields_in_total b + (if bitfields_length t ! i = 0 then 1 else 0),
                 const_bitfields_in_total := const_bitfields_in_total b + (if c then 1 else 0),
                 volatile_bitfields_in_total := volatile_bitfields_in_total b + (if vol then 1 else 0)\<rparr>)
       }
     }"

definition record_type_with_bitfields :: "Type \<Rightarrow> bookkeeper \<Rightarrow> bookkeeper option" where
  "record_type_with_bitfields t b =
     (if \<not> is_aggregate t then Some b
      else do {
        h \<leftarrow> has_bitfields t;
        if \<not> h then Some b
        else do {
          let len = length (bitfields_length t);
          assert_opt (len = length (Type.fields t));
          fold_opt (count_bitfield t) [0 ..< len]
            (b\<lparr>structs_with_bitfields := structs_with_bitfields b + 1\<rparr>)
        }
      })"

section \<open>Reports\<close>

definition newline :: string where "newline = [CHR 0x0A]"

definition formated_output :: "string \<Rightarrow> int \<Rightarrow> string" where
  "formated_output msg num = ''XXX '' @ msg @ int2str num @ newline"

definition counter_lines :: "string \<Rightarrow> int list \<Rightarrow> nat \<Rightarrow> string" where
  "counter_lines what counters start =
     concat (map (\<lambda>i. ''   '' @ what @ '': '' @ int2str (int i) @ '', occurrence: '' @
       int2str (counters ! i) @ newline) [start ..< length counters])"

definition output_counters :: "string \<Rightarrow> string \<Rightarrow> int list \<Rightarrow> nat \<Rightarrow> string" where
  "output_counters prefix_msg breakdown_msg counters starting_pos =
     formated_output prefix_msg (calc_total counters) @ ''breakdown:'' @ newline @
     counter_lines breakdown_msg counters starting_pos"

definition output_bitfields :: "CGOptions \<Rightarrow> bookkeeper \<Rightarrow> string" where
  "output_bitfields c b =
     (if opt_bitfields c
      then newline @
        formated_output ''non-zero bitfields defined in structs: '' (bitfields_in_total b) @
        formated_output ''zero bitfields defined in structs: '' (unamed_bitfields_in_total b) @
        formated_output ''const bitfields defined in structs: '' (const_bitfields_in_total b) @
        formated_output ''volatile bitfields defined in structs: '' (volatile_bitfields_in_total b) @
        output_counters ''structs with bitfields in the program: '' ''indirect level'' (vars_with_bitfields b) 0 @
        output_counters ''full-bitfields structs in the program: '' ''indirect level'' (vars_with_full_bitfields b) 0 @
        formated_output ''times a bitfields struct's address is taken: '' (vars_with_bitfields_address_taken_cnt b) @
        formated_output ''times a bitfields struct on LHS: '' (lhs_bitfields_structs_vars_cnt b) @
        formated_output ''times a bitfields struct on RHS: '' (rhs_bitfields_structs_vars_cnt b) @
        formated_output ''times a single bitfield on LHS: '' (lhs_bitfield_cnt b) @
        formated_output ''times a single bitfield on RHS: '' (rhs_bitfield_cnt b)
      else [])"

text \<open>\<open>struct_depth_cnts.size() - 1\<close> is unsigned and converted to \<open>int\<close>: \<open>-1\<close> without structs.\<close>

definition output_struct_union_statistics :: "CGOptions \<Rightarrow> bookkeeper \<Rightarrow> string" where
  "output_struct_union_statistics c b =
     formated_output ''max struct depth: '' (int (length (struct_depth_cnts b)) - 1) @
     ''breakdown:'' @ newline @ counter_lines ''depth'' (struct_depth_cnts b) 0 @
     formated_output ''total union variables: '' (union_var_cnt b) @ output_bitfields c b"

definition output_oob_statistics :: "bookkeeper \<Rightarrow> string" where
  "output_oob_statistics b = formated_output ''total OOB instances added: '' (oob_cnt b)"

definition output_jump_statistics :: "bookkeeper \<Rightarrow> string" where
  "output_jump_statistics b =
     formated_output ''forward jumps: '' (forward_jump_cnt b) @
     formated_output ''backward jumps: '' (backward_jump_cnt b)"

section \<open>What the counters count\<close>

lemma foldl_add_sum: "foldl (\<lambda>total c. total + c) a xs = a + sum_list xs" for xs :: "int list"
  by (induction xs arbitrary: a) simp_all

lemma calc_total_sum: "calc_total xs = sum_list xs"
  by (simp add: calc_total_def foldl_add_sum)

lemma sum_list_bump: "i < length xs \<Longrightarrow> sum_list (xs[i := xs ! i + 1]) = sum_list xs + (1 :: int)"
proof (induction xs arbitrary: i)
  case (Cons x xs)
  then show ?case by (cases i) simp_all
qed simp

lemma incr_counter_total:
  assumes "incr_counter cs pos = Some cs1"
  shows "calc_total cs1 = calc_total cs + 1 \<and> length cs1 = max (length cs) (nat pos + 1)
     \<and> cs1 ! nat pos = (if nat pos < length cs then cs ! nat pos else 0) + 1"
proof -
  let ?cs = "if length cs \<le> nat pos then cs @ replicate (nat pos + 1 - length cs) 0 else cs"
  from assms have cs1: "cs1 = ?cs[nat pos := ?cs ! nat pos + 1]"
    by (simp add: incr_counter_def Let_def split: if_splits)
  have len: "nat pos < length ?cs" "length ?cs = max (length cs) (nat pos + 1)" by auto
  have "sum_list ?cs = sum_list cs" by (simp add: sum_list_replicate)
  with sum_list_bump [OF len(1)] have "calc_total cs1 = calc_total cs + 1"
    unfolding cs1 calc_total_sum by simp
  moreover have "?cs ! nat pos = (if nat pos < length cs then cs ! nat pos else 0)"
    by (simp add: nth_append)
  ultimately show ?thesis using len unfolding cs1 by simp
qed

definition accesses :: "bookkeeper \<Rightarrow> int" where
  "accesses b = read_volatile_cnt b + read_non_volatile_cnt b + write_volatile_cnt b + write_non_volatile_cnt b"

lemma count_access_step:
  assumes "count_access q write i b = Some b1"
  shows "accesses b1 = accesses b + 1"
proof -
  obtain vol where "is_volatile_after_deref q (int i) = Some vol"
    using assms by (cases "is_volatile_after_deref q (int i)") (simp_all add: count_access_def)
  with assms show ?thesis by (cases "write"; cases vol) (auto simp: count_access_def accesses_def)
qed

lemma count_access_loop:
  "fold_opt (count_access q write) [0 ..< n] b = Some b1 \<Longrightarrow> accesses b1 = accesses b + int n"
proof (induction n arbitrary: b1)
  case (Suc n)
  then obtain b2 where "fold_opt (count_access q write) [0 ..< n] b = Some b2"
    "count_access q write n b2 = Some b1"
    by (auto simp: fold_opt_append bind_eq_Some_conv)
  with Suc.IH [of b2] count_access_step [of q "write" n b2 b1] Suc.prems show ?case by simp
qed simp

lemma record_bitfields_accesses:
  "record_bitfields_writes vs var b = Some b1 \<Longrightarrow> accesses b1 = accesses b"
  "record_bitfields_reads vs var b = Some b1 \<Longrightarrow> accesses b1 = accesses b"
  by (auto simp: record_bitfields_writes_def record_bitfields_reads_def accesses_def bind_eq_Some_conv)

text \<open>An access through \<open>n\<close> pointers is counted as \<open>n + 1\<close> accesses.\<close>

lemma record_volatile_access_total:
  "record_volatile_access vs var n write b = Some b1 \<Longrightarrow> 0 \<le> n \<Longrightarrow> accesses b1 = accesses b + n + 1"
  by (auto simp: record_volatile_access_def bind_eq_Some_conv record_bitfields_accesses
      split: if_splits dest!: count_access_loop)

end
