(* ===== verification/TypeGen.thy ===== *)
theory TypeGen
  imports Quals Bookkeeping
begin

text \<open>
  The type environment and its construction (\<open>Type.cpp\<close>): the static tables \<open>AllTypes\<close>,
  \<open>derived_types\<close>, \<open>simple_types\<close> and \<open>void_type\<close>, the filters that choose among them, the random
  structs, unions and pointers, and the exhaustive enumeration of structs.  The environment extends
  the state of the random generators.

  A new type object gets the next free address.  The flag \<open>used\<close> of a type is the membership of its
  address in \<open>tw_used\<close>; \<open>tw_typ\<close> is the member \<open>typ_\<close> of the filter that is being asked.
\<close>

section \<open>The environment\<close>

record tworld = world +
  tw_AllTypes :: "Type list"
  tw_derived :: "Type list"
  tw_simple :: "eSimpleType \<Rightarrow> Type option"
  tw_void :: "Type option"
  tw_sequence :: nat
  tw_next :: nat
  tw_used :: "nat list"
  tw_typ :: "Type option"
  tw_books :: bookkeeper

type_synonym 'z tfilter = "'z tworld_ext filter_fn"
type_synonym 'z tprobs = "'z tworld_ext Probabilities"

text \<open>\<open>new Type(...)\<close>; the constructor of structs and unions also takes a sequence number.\<close>

definition new_simple :: "eSimpleType \<Rightarrow> 'z tworld_scheme \<Rightarrow> Type \<times> 'z tworld_scheme" where
  "new_simple st w = (Type_simple (tw_next w) st, w\<lparr>tw_next := tw_next w + 1\<rparr>)"

definition new_pointer :: "Type \<Rightarrow> 'z tworld_scheme \<Rightarrow> Type \<times> 'z tworld_scheme" where
  "new_pointer t w = (Type_pointer (tw_next w) t, w\<lparr>tw_next := tw_next w + 1\<rparr>)"

definition new_aggregate ::
    "Type list \<Rightarrow> bool \<Rightarrow> bool \<Rightarrow> CVQualifiers list \<Rightarrow> int list \<Rightarrow> bool \<Rightarrow> bool \<Rightarrow> 'z tworld_scheme \<Rightarrow>
     Type \<times> 'z tworld_scheme" where
  "new_aggregate fs isStruct pk qs lens assign implicit w =
     (Type_aggregate (tw_next w) (tw_sequence w) fs isStruct pk qs lens assign implicit,
      w\<lparr>tw_next := tw_next w + 1, tw_sequence := tw_sequence w + 1\<rparr>)"

text \<open>\<open>if (!type->used) { Bookkeeper::record_type_with_bitfields(type); type->used = true; }\<close>\<close>

definition use_type :: "Type \<Rightarrow> 'z tworld_scheme \<Rightarrow> 'z tworld_scheme option" where
  "use_type t w =
     (if t_id t \<in> set (tw_used w) then Some w
      else do {
        b \<leftarrow> record_type_with_bitfields t (tw_books w);
        Some (w\<lparr>tw_books := b, tw_used := t_id t # tw_used w\<rparr>)
      })"

text \<open>The loop keeps the last match.\<close>

definition get_simple_type :: "eSimpleType \<Rightarrow> 'z tworld_scheme \<Rightarrow> (Type \<times> 'z tworld_scheme) option" where
  "get_simple_type st w =
     do {
       assert_opt (st \<noteq> MAX_SIMPLE_TYPES);
       (case tw_simple w st of
          Some t \<Rightarrow> Some (t, w)
        | None \<Rightarrow>
            (case rev (filter (\<lambda>tt. eType tt = eSimple \<and> simple_type tt = st) (tw_AllTypes w)) of
               t # ts \<Rightarrow> Some (t, w\<lparr>tw_simple := (tw_simple w)(st := Some t)\<rparr>)
             | [] \<Rightarrow>
                 let (t, w1) = new_simple st w in
                 Some (t, w1\<lparr>tw_simple := (tw_simple w1)(st := Some t),
                             tw_AllTypes := tw_AllTypes w1 @ [t]\<rparr>)))
     }"

definition get_type_from_string :: "string \<Rightarrow> 'z tworld_scheme \<Rightarrow> (Type option \<times> 'z tworld_scheme) option" where
  "get_type_from_string s w =
     (if s = ''Void'' then Some (tw_void w, w)
      else (case map_of [(''Char'', eChar), (''UChar'', eUChar), (''Short'', eShort),
                  (''UShort'', eUShort), (''Int'', eInt), (''UInt'', eUInt), (''Long'', eLong),
                  (''ULong'', eULong), (''Longlong'', eLongLong), (''ULonglong'', eULongLong),
                  (''Float'', eFloat), (''Int128'', eInt128), (''UInt128'', eUInt128)] s of
          None \<Rightarrow> None
        | Some st \<Rightarrow> map_option (\<lambda>(t, w1). (Some t, w1)) (get_simple_type st w)))"

definition get_int_type :: "'z tworld_scheme \<Rightarrow> (Type \<times> 'z tworld_scheme) option" where
  "get_int_type w = get_simple_type eInt w"

definition find_type :: "Type \<Rightarrow> 'z tworld_scheme \<Rightarrow> Type option" where
  "find_type t w = find (\<lambda>x. same_type x t) (tw_AllTypes w)"

definition points_to :: "Type \<Rightarrow> Type \<Rightarrow> bool" where
  "points_to d t \<longleftrightarrow> (case ptr_type d of None \<Rightarrow> False | Some p \<Rightarrow> same_type p t)"

definition find_pointer_type :: "Type \<Rightarrow> bool \<Rightarrow> 'z tworld_scheme \<Rightarrow> Type option \<times> 'z tworld_scheme" where
  "find_pointer_type t add w =
     (case find (\<lambda>d. points_to d t) (tw_derived w) of
        Some d \<Rightarrow> (Some d, w)
      | None \<Rightarrow>
          if add
          then let (p, w1) = new_pointer t w in (Some p, w1\<lparr>tw_derived := tw_derived w1 @ [p]\<rparr>)
          else (None, w))"

text \<open>The result is null for types that are neither simple nor vectors, and for \<open>void\<close> and \<open>float\<close>.\<close>

definition to_unsigned :: "Type \<Rightarrow> 'z tworld_scheme \<Rightarrow> (Type option \<times> 'z tworld_scheme) option" where
  "to_unsigned t w =
     (let simple = (\<lambda>st. map_option (\<lambda>(u, w1). (Some u, w1)) (get_simple_type st w)) in
      if eType t = eSimple \<or> eType t = eVector
      then (case simple_type t of
          eUChar \<Rightarrow> Some (Some t, w)
        | eUInt \<Rightarrow> Some (Some t, w)
        | eUShort \<Rightarrow> Some (Some t, w)
        | eULong \<Rightarrow> Some (Some t, w)
        | eULongLong \<Rightarrow> Some (Some t, w)
        | eChar \<Rightarrow> simple eUChar
        | eInt \<Rightarrow> simple eUInt
        | eShort \<Rightarrow> simple eUShort
        | eLong \<Rightarrow> simple eULong
        | eLongLong \<Rightarrow> simple eULongLong
        | eInt128 \<Rightarrow> simple eInt128
        | eUInt128 \<Rightarrow> simple eUInt128
        | _ \<Rightarrow> Some (None, w))
      else Some (None, w))"

definition has_pointer_type :: "'z tworld_scheme \<Rightarrow> bool" where
  "has_pointer_type w \<longleftrightarrow> length (tw_derived w) > 0"

definition Type_doFinalization :: "'z tworld_scheme \<Rightarrow> 'z tworld_scheme" where
  "Type_doFinalization w = w\<lparr>tw_AllTypes := [], tw_derived := []\<rparr>"

section \<open>Filters\<close>

text \<open>\<open>SIMPLE_TYPES_PROB_FILTER->filter(t->simple_type)\<close>, on a filter that is not null.\<close>

definition simple_types_filter :: "'z tprobs \<Rightarrow> Type \<Rightarrow> 'z tworld_scheme \<Rightarrow> (bool \<times> 'z tworld_scheme) option" where
  "simple_types_filter P t w =
     do { f \<leftarrow> get_prob_filter P pSimpleTypesProb; f (int (simple_type_num (simple_type t))) w }"

definition choose_typ :: "'z tprobs \<Rightarrow> Type \<Rightarrow> 'z tworld_scheme \<Rightarrow> (bool \<times> 'z tworld_scheme) option" where
  "choose_typ P t w =
     do {
       w1 \<leftarrow> use_type t w;
       let w2 = w1\<lparr>tw_typ := Some t\<rparr>;
       if eType t = eSimple then simple_types_filter P t w2 else Some (False, w2)
     }"

definition is_void :: "Type \<Rightarrow> bool" where
  "is_void t \<longleftrightarrow> eType t = eSimple \<and> simple_type t = eVoid"

definition nonvoid_filter :: "'z tprobs \<Rightarrow> 'z tfilter" where
  "nonvoid_filter P v w =
     do {
       assert_opt (0 \<le> v);
       t \<leftarrow> vec_get (tw_AllTypes w) (nat v);
       if is_void t then Some (True, w) else choose_typ P t w
     }"

definition nonvoid_nonvolatile_filter :: "'z tprobs \<Rightarrow> 'z tfilter" where
  "nonvoid_nonvolatile_filter P v w =
     do {
       assert_opt (0 \<le> v);
       t \<leftarrow> vec_get (tw_AllTypes w) (nat v);
       if is_void t then Some (True, w)
       else do {
         vol \<leftarrow> (if is_aggregate t then is_volatile_struct_union t else Some False);
         if vol then Some (True, w)
         else if eType t = eStruct \<and> \<not> opt_arg_structs (w_opts w) then Some (True, w)
         else if eType t = eUnion \<and> \<not> opt_arg_unions (w_opts w) then Some (True, w)
         else choose_typ P t w
       }
     }"

definition choose_random_type_filter :: "'z tprobs \<Rightarrow> bool \<Rightarrow> bool \<Rightarrow> 'z tfilter" where
  "choose_random_type_filter P for_field_var struct_has_assign_ops v w =
     do {
       assert_opt (0 \<le> v);
       t \<leftarrow> vec_get (tw_AllTypes w) (nat v);
       let w1 = w\<lparr>tw_typ := Some t\<rparr>;
       if eType t = eSimple then simple_types_filter P t w1
       else if eType t = eStruct \<and> \<not> opt_return_structs (w_opts w1) then Some (True, w1)
       else if for_field_var \<and> struct_has_assign_ops \<and> \<not> ti_assign_ops (info t)
       then do { assert_opt (opt_lang_cpp (w_opts w1)); Some (True, w1) }
       else if for_field_var \<and> get_struct_depth t \<ge> opt_max_nested_struct_level (w_opts w1)
       then Some (True, w1)
       else Some (False, w1)
     }"

section \<open>Choosing a type\<close>

definition choose_random :: "'z tprobs \<Rightarrow> 'z tworld_scheme \<Rightarrow> (Type option \<times> 'z tworld_scheme) option" where
  "choose_random P w =
     do {
       (r, w1) \<leftarrow> rnd_upto (length (tw_AllTypes w)) (Some (choose_random_type_filter P False False)) None
                  (w\<lparr>tw_typ := None\<rparr>);
       if w_err w1 \<noteq> SUCCESS then Some (None, w1)
       else do {
         t \<leftarrow> tw_typ w1;
         w2 \<leftarrow> use_type t w1;
         Some (Some t, w2)
       }
     }"

definition choose_by_filter ::
    "'z tfilter \<Rightarrow> 'z tworld_scheme \<Rightarrow> (Type option \<times> 'z tworld_scheme) option" where
  "choose_by_filter f w =
     do {
       (g, w1) \<leftarrow> depth_guard_by_depth 1 w;
       if g \<noteq> GOOD_DEPTH then Some (None, w1)
       else do {
         (r, w2) \<leftarrow> rnd_upto (length (tw_AllTypes w1)) (Some f) None (w1\<lparr>tw_typ := None\<rparr>);
         if w_err w2 \<noteq> SUCCESS then Some (None, w2)
         else do { t \<leftarrow> tw_typ w2; Some (Some t, w2) }
       }
     }"

definition choose_random_nonvoid ::
    "'z tprobs \<Rightarrow> 'z tworld_scheme \<Rightarrow> (Type option \<times> 'z tworld_scheme) option" where
  "choose_random_nonvoid P = choose_by_filter (nonvoid_filter P)"

definition choose_random_nonvoid_nonvolatile ::
    "'z tprobs \<Rightarrow> 'z tworld_scheme \<Rightarrow> (Type option \<times> 'z tworld_scheme) option" where
  "choose_random_nonvoid_nonvolatile P = choose_by_filter (nonvoid_nonvolatile_filter P)"

text \<open>The enumerator with a given number; \<open>None\<close> when there is none.\<close>

definition simple_type_of_num :: "nat \<Rightarrow> eSimpleType option" where
  "simple_type_of_num n =
     find (\<lambda>st. simple_type_num st = n) [eVoid, eChar, eInt, eShort, eLong, eLongLong, eUChar,
       eUInt, eUShort, eULong, eFloat, eULongLong, eInt128, eUInt128, MAX_SIMPLE_TYPES]"

definition choose_random_nonvoid_simple ::
    "'z tprobs \<Rightarrow> 'z tworld_scheme \<Rightarrow> (nat \<times> 'z tworld_scheme) option" where
  "choose_random_nonvoid_simple P w =
     rnd_upto (simple_type_num MAX_SIMPLE_TYPES) (get_prob_filter P pSimpleTypesProb) None w"

definition choose_random_simple ::
    "'z tprobs \<Rightarrow> 'z tworld_scheme \<Rightarrow> (Type option \<times> 'z tworld_scheme) option" where
  "choose_random_simple P w =
     do {
       (g, w1) \<leftarrow> depth_guard_by_type dtTypeChooseSimple no_flag w;
       if g \<noteq> GOOD_DEPTH then Some (None, w1)
       else do {
         (n, w2) \<leftarrow> choose_random_nonvoid_simple P w1;
         if w_err w2 \<noteq> SUCCESS then Some (None, w2)
         else do {
           ty \<leftarrow> simple_type_of_num n;
           assert_opt (ty \<noteq> eVoid);
           (t, w3) \<leftarrow> get_simple_type ty w2;
           Some (Some t, w3)
         }
       }
     }"

definition choose_random_pointer_type :: "'z tworld_scheme \<Rightarrow> (Type option \<times> 'z tworld_scheme) option" where
  "choose_random_pointer_type w =
     do {
       (index, w1) \<leftarrow> rnd_upto (length (tw_derived w)) None None w;
       if w_err w1 \<noteq> SUCCESS then Some (None, w1)
       else do { t \<leftarrow> vec_get (tw_derived w1) index; Some (Some t, w1) }
     }"

definition choose_random_struct_union_type ::
    "Type list \<Rightarrow> 'z tworld_scheme \<Rightarrow> (Type option \<times> 'z tworld_scheme) option" where
  "choose_random_struct_union_type ok_types w =
     do {
       assert_opt (length ok_types > 0);
       (index, w1) \<leftarrow> rnd_upto (length ok_types) None None w;
       if w_err w1 \<noteq> SUCCESS then Some (None, w1)
       else do {
         t \<leftarrow> vec_get ok_types index;
         w2 \<leftarrow> use_type t w1;
         Some (Some t, w2)
       }
     }"

definition ok_struct_union :: "bool \<Rightarrow> bool \<Rightarrow> bool \<Rightarrow> bool \<Rightarrow> Type \<Rightarrow> bool option" where
  "ok_struct_union no_const no_volatile need_int_field bStruct t =
     (if bStruct \<and> eType t \<noteq> eStruct then Some False
      else if \<not> bStruct \<and> eType t \<noteq> eUnion then Some False
      else do {
        a \<leftarrow> (if no_const then is_const_struct_union t else Some False);
        b \<leftarrow> (if a then Some True else if no_volatile then is_volatile_struct_union t else Some False);
        Some (\<not> (b \<or> (need_int_field \<and> \<not> has_int_field t)))
      })"

text \<open>The matching types are appended to the vector the caller gives.\<close>

definition get_all_ok_struct_union_types ::
    "Type list \<Rightarrow> bool \<Rightarrow> bool \<Rightarrow> bool \<Rightarrow> bool \<Rightarrow> 'z tworld_scheme \<Rightarrow> Type list option" where
  "get_all_ok_struct_union_types ok_types no_const no_volatile need_int_field bStruct w =
     fold_opt (\<lambda>t acc. map_option (\<lambda>b. if b then acc @ [t] else acc)
         (ok_struct_union no_const no_volatile need_int_field bStruct t)) (tw_AllTypes w) ok_types"

text \<open>The call passes \<open>no_volatile\<close> in the place of \<open>no_const\<close>.\<close>

definition choose_random_struct_from_type ::
    "Type option \<Rightarrow> bool \<Rightarrow> 'z tworld_scheme \<Rightarrow> (Type option \<times> 'z tworld_scheme) option" where
  "choose_random_struct_from_type type no_volatile w =
     (case type of
        None \<Rightarrow> Some (None, w)
      | Some t \<Rightarrow>
          do {
            ok \<leftarrow> get_all_ok_struct_union_types [] no_volatile False True True w;
            if length ok > 0
            then do {
              (g, w1) \<leftarrow> depth_guard_by_depth 1 w;
              if g \<noteq> GOOD_DEPTH then Some (None, w1)
              else choose_random_struct_union_type ok w1
            }
            else Some (Some t, w)
          })"

text \<open>A null \<open>type\<close> is replaced by a random one in \<open>t\<close>, and dereferenced all the same afterwards.\<close>

definition random_type_from_type ::
    "'z tprobs \<Rightarrow> Type option \<Rightarrow> bool \<Rightarrow> bool \<Rightarrow> 'z tworld_scheme \<Rightarrow> (Type option \<times> 'z tworld_scheme) option" where
  "random_type_from_type P type no_volatile strict_simple_type w =
     do {
       (g, w1) \<leftarrow> depth_guard_by_type dtRandomTypeFromType no_flag w;
       if g \<noteq> GOOD_DEPTH then Some (None, w1)
       else do {
         (t, w2) \<leftarrow> (case type of
             Some t \<Rightarrow> Some (Some t, w1)
           | None \<Rightarrow> if no_volatile then choose_random_nonvoid_nonvolatile P w1
                     else choose_random_nonvoid P w1);
         if type = None \<and> w_err w2 \<noteq> SUCCESS then Some (None, w2)
         else do {
           ty \<leftarrow> type;
           (t, w3) \<leftarrow> (if eType ty = eSimple \<and> \<not> strict_simple_type then choose_random_simple P w2
                      else Some (t, w2));
           if eType ty = eSimple \<and> \<not> strict_simple_type \<and> w_err w3 \<noteq> SUCCESS then Some (None, w3)
           else do {
             u \<leftarrow> t;
             assert_opt (\<not> is_void u);
             Some (Some u, w3)
           }
         }
       }
     }"

section \<open>Random structs, unions and pointers\<close>

definition if_struct_will_have_assign_ops ::
    "'z tprobs \<Rightarrow> 'z tworld_scheme \<Rightarrow> (bool \<times> 'z tworld_scheme) option" where
  "if_struct_will_have_assign_ops P w =
     (if \<not> opt_lang_cpp (w_opts w) then Some (False, w) else flip_named P pRegularVolatileProb w)"

definition if_union_will_have_assign_ops ::
    "'z tprobs \<Rightarrow> 'z tworld_scheme \<Rightarrow> (bool \<times> 'z tworld_scheme) option" where
  "if_union_will_have_assign_ops P w =
     (if \<not> opt_lang_cpp (w_opts w) then Some (False, w) else flip_named P pRegularVolatileProb w)"

definition MoreTypesProbability :: "'z tprobs \<Rightarrow> 'z tworld_scheme \<Rightarrow> (bool \<times> 'z tworld_scheme) option" where
  "MoreTypesProbability P w =
     (if length (tw_AllTypes w) < 10 then Some (True, w) else flip_named P pMoreStructUnionProb w)"

text \<open>
  The three vectors that describe the fields of a type under construction.  An \<open>ERROR_RETURN()\<close>
  leaves them as they are at that moment; whoever builds the type checks the error flag.
\<close>

type_synonym field_vectors = "Type list \<times> CVQualifiers list \<times> int list"

definition field_qualifiers ::
    "'z tprobs \<Rightarrow> Type \<Rightarrow> 'z tworld_scheme \<Rightarrow> (CVQualifiers \<times> 'z tworld_scheme) option" where
  "field_qualifiers P t w =
     do {
       cp \<leftarrow> get_prob P pFieldConstProb;
       vp \<leftarrow> get_prob P pFieldVolatileProb;
       random_field_qualifiers (Some t) cp vp w
     }"

definition bitfield_length ::
    "int \<Rightarrow> int list \<Rightarrow> 'z tworld_scheme \<Rightarrow> (int \<times> 'z tworld_scheme) option" where
  "bitfield_length max_length lens w =
     do {
       (r, w1) \<leftarrow> rnd_upto (nat max_length) None None w;
       let len = int r;
       if w_err w1 \<noteq> SUCCESS then Some (len, w1)
       else let no_zero_len = (lens = [] \<or> last lens = 0) in
         if len = 0 \<and> no_zero_len
         then (if max_length \<le> 2 then Some (1, w1)
               else do { (r, w2) \<leftarrow> rnd_upto (nat (max_length - 1)) None None w1; Some (int r + 1, w2) })
         else Some (len, w1)
     }"

definition make_one_bitfield ::
    "'z tprobs \<Rightarrow> field_vectors \<Rightarrow> 'z tworld_scheme \<Rightarrow> (field_vectors \<times> 'z tworld_scheme) option" where
  "make_one_bitfield P fv w =
     (case fv of (fs, qs, lens) \<Rightarrow>
       do {
         let max_length = opt_int_size (w_opts w) * 8;
         (sign, w1) \<leftarrow> flip_named P pBitFieldsSignedProb w;
         if w_err w1 \<noteq> SUCCESS then Some ((fs, qs, lens), w1)
         else do {
           (t, w2) \<leftarrow> get_simple_type (if sign then eInt else eUInt) w1;
           let fs = fs @ [t];
           (qual, w3) \<leftarrow> field_qualifiers P t w2;
           if w_err w3 \<noteq> SUCCESS then Some ((fs, qs, lens), w3)
           else do {
             let qs = qs @ [qual];
             (len, w4) \<leftarrow> bitfield_length max_length lens w3;
             if w_err w4 \<noteq> SUCCESS then Some ((fs, qs, lens), w4)
             else Some ((fs, qs, lens @ [len]), w4)
           }
         }
       })"

definition make_one_struct_field ::
    "'z tprobs \<Rightarrow> bool \<Rightarrow> field_vectors \<Rightarrow> 'z tworld_scheme \<Rightarrow> (field_vectors \<times> 'z tworld_scheme) option" where
  "make_one_struct_field P structHasAssignOps fv w =
     (case fv of (fs, qs, lens) \<Rightarrow>
       do {
         (i, w1) \<leftarrow> rnd_upto (length (tw_AllTypes w)) (Some (choose_random_type_filter P True structHasAssignOps))
                    None (w\<lparr>tw_typ := None\<rparr>);
         if w_err w1 \<noteq> SUCCESS then Some ((fs, qs, lens), w1)
         else do {
           t \<leftarrow> vec_get (tw_AllTypes w1) i;
           (qual, w2) \<leftarrow> field_qualifiers P t w1;
           if w_err w2 \<noteq> SUCCESS then Some ((fs @ [t], qs, lens), w2)
           else Some ((fs @ [t], qs @ [qual], lens @ [- 1]), w2)
         }
       })"

fun make_normal_struct_fields ::
    "'z tprobs \<Rightarrow> nat \<Rightarrow> bool \<Rightarrow> field_vectors \<Rightarrow> 'z tworld_scheme \<Rightarrow> (field_vectors \<times> 'z tworld_scheme) option" where
  "make_normal_struct_fields P 0 structHasAssignOps fv w = Some (fv, w)"
| "make_normal_struct_fields P (Suc field_cnt) structHasAssignOps fv w =
     do {
       (is_bitfield, w1) \<leftarrow> (if opt_bitfields (w_opts w) then flip_named P pBitFieldInNormalStructProb w
                            else Some (False, w));
       (fv1, w2) \<leftarrow> (if is_bitfield then make_one_bitfield P fv w1
                    else make_one_struct_field P structHasAssignOps fv w1);
       make_normal_struct_fields P field_cnt structHasAssignOps fv1 w2
     }"

fun make_full_bitfields_struct_fields ::
    "'z tprobs \<Rightarrow> nat \<Rightarrow> bool \<Rightarrow> field_vectors \<Rightarrow> 'z tworld_scheme \<Rightarrow> (field_vectors \<times> 'z tworld_scheme) option" where
  "make_full_bitfields_struct_fields P 0 structHasAssignOps fv w = Some (fv, w)"
| "make_full_bitfields_struct_fields P (Suc field_cnt) structHasAssignOps fv w =
     do {
       (is_non_bitfield, w1) \<leftarrow> flip_named P pScalarFieldInFullBitFieldsProb w;
       (fv1, w2) \<leftarrow> (if is_non_bitfield then make_one_struct_field P structHasAssignOps fv w1
                    else make_one_bitfield P fv w1);
       make_full_bitfields_struct_fields P field_cnt structHasAssignOps fv1 w2
     }"

text \<open>What the loop of \<open>make_one_union_field\<close> collects: the types that are not structs or unions, and
  the structs, each without pointers; structs with bit-fields or assignment operators are left out.\<close>

definition union_candidates :: "Type list \<Rightarrow> (Type list \<times> Type list) option" where
  "union_candidates types =
     fold_opt (\<lambda>t (nonstruct, structs).
         if contain_pointer_field t then Some (nonstruct, structs)
         else if eType t \<noteq> eStruct \<and> eType t \<noteq> eUnion then Some (nonstruct @ [t], structs)
         else do {
           b \<leftarrow> has_bitfields t;
           Some (if b \<or> ti_implicit_assign_ops (info t) then (nonstruct, structs)
                 else if eType t = eStruct then (nonstruct, structs @ [t])
                 else (nonstruct, structs))
         }) types ([], [])"

partial_function (option) pick_union_field ::
    "'z tprobs \<Rightarrow> Type list \<Rightarrow> Type list \<Rightarrow> 'z tworld_scheme \<Rightarrow> (Type \<times> 'z tworld_scheme) option" where
  "pick_union_field tb nonstruct structs w =
     do {
       (s, w1) \<leftarrow> (if structs \<noteq> [] then pure_rnd_flipcoin 15 None None w else Some (False, w));
       if s
       then do {
         (i, w2) \<leftarrow> pure_rnd_upto (length structs) None None w1;
         t \<leftarrow> vec_get structs i;
         assert_opt (eType t = eStruct);
         Some (t, w2)
       }
       else do {
         (i, w2) \<leftarrow> pure_rnd_upto (length nonstruct) None None w1;
         t \<leftarrow> vec_get nonstruct i;
         (out, w3) \<leftarrow> (if eType t = eSimple then simple_types_filter tb t w2 else Some (False, w2));
         if out then pick_union_field tb nonstruct structs w3 else Some (t, w3)
       }
     }"

declare pick_union_field.simps [code]

definition make_one_union_field ::
    "'z tprobs \<Rightarrow> field_vectors \<Rightarrow> 'z tworld_scheme \<Rightarrow> (field_vectors \<times> 'z tworld_scheme) option" where
  "make_one_union_field P fv w =
     (case fv of (fs, qs, lens) \<Rightarrow>
       do {
         (is_bitfield, w1) \<leftarrow> (if opt_bitfields (w_opts w) \<and> \<not> opt_ccomp (w_opts w)
                              then flip_named P pBitFieldInNormalStructProb w else Some (False, w));
         if is_bitfield then make_one_bitfield P fv w1
         else do {
           (nonstruct, structs) \<leftarrow> union_candidates (tw_AllTypes w1);
           (t, w2) \<leftarrow> pick_union_field P nonstruct structs w1;
           (qual, w3) \<leftarrow> field_qualifiers P t w2;
           if w_err w3 \<noteq> SUCCESS then Some ((fs @ [t], qs, lens), w3)
           else Some ((fs @ [t], qs @ [qual], lens @ [- 1]), w3)
         }
       })"

definition struct_is_packed ::
    "'z tprobs \<Rightarrow> Type list \<Rightarrow> 'z tworld_scheme \<Rightarrow> (bool \<times> 'z tworld_scheme) option" where
  "struct_is_packed P fs w =
     (if opt_packed_struct (w_opts w)
      then (if opt_ccomp (w_opts w) \<and> (has_aggregate_field fs \<or> has_longlong_field fs)
            then Some (False, w) else rnd_flipcoin 50 None None w)
      else Some (False, w))"

definition make_random_struct_type :: "'z tprobs \<Rightarrow> 'z tworld_scheme \<Rightarrow> (Type option \<times> 'z tworld_scheme) option" where
  "make_random_struct_type P w =
     do {
       let max_cnt = nat (opt_max_struct_fields (w_opts w));
       (field_cnt, w1) \<leftarrow> (if opt_fixed_struct_fields (w_opts w) then Some (max_cnt, w)
                          else map_option (\<lambda>(r, w1). (r + 1, w1)) (rnd_upto max_cnt None None w));
       if w_err w1 \<noteq> SUCCESS then Some (None, w1)
       else do {
         (is_bitfields, w2) \<leftarrow> (if opt_bitfields (w_opts w1) then flip_named P pBitFieldsCreationProb w1
                               else Some (False, w1));
         if w_err w2 \<noteq> SUCCESS then Some (None, w2)
         else do {
           (hasAssignOps, w3) \<leftarrow> if_struct_will_have_assign_ops P w2;
           ((fs, qs, lens), w4) \<leftarrow>
             (if is_bitfields then make_full_bitfields_struct_fields P field_cnt hasAssignOps ([], [], []) w3
              else make_normal_struct_fields P field_cnt hasAssignOps ([], [], []) w3);
           if w_err w4 \<noteq> SUCCESS then Some (None, w4)
           else do {
             (pk, w5) \<leftarrow> struct_is_packed P fs w4;
             if w_err w5 \<noteq> SUCCESS then Some (None, w5)
             else do {
               implicit \<leftarrow> (if hasAssignOps then Some True else checkImplicitNontrivialAssignOps (w_opts w5) fs);
               let (t, w6) = new_aggregate fs True pk qs lens hasAssignOps implicit w5;
               Some (Some t, w6)
             }
           }
         }
       }
     }"

fun make_union_fields ::
    "'z tprobs \<Rightarrow> nat \<Rightarrow> field_vectors \<Rightarrow> 'z tworld_scheme \<Rightarrow> (field_vectors \<times> 'z tworld_scheme) option" where
  "make_union_fields P 0 fv w = Some (fv, w)"
| "make_union_fields P (Suc n) fv w =
     do {
       (fv1, w1) \<leftarrow> make_one_union_field P fv w;
       assert_opt (fst fv1 \<noteq> []);
       b \<leftarrow> has_bitfields (last (fst fv1));
       assert_opt (\<not> b);
       make_union_fields P n fv1 w1
     }"

text \<open>No error guard after the loop.\<close>

definition make_random_union_type :: "'z tprobs \<Rightarrow> 'z tworld_scheme \<Rightarrow> (Type option \<times> 'z tworld_scheme) option" where
  "make_random_union_type P w =
     do {
       (r, w1) \<leftarrow> rnd_upto (nat (opt_max_union_fields (w_opts w))) None None w;
       if w_err w1 \<noteq> SUCCESS then Some (None, w1)
       else do {
         ((fs, qs, lens), w2) \<leftarrow> make_union_fields P (r + 1) ([], [], []) w1;
         (hasAssignOps, w3) \<leftarrow> if_union_will_have_assign_ops P w2;
         implicit \<leftarrow> (if hasAssignOps then Some True else checkImplicitNontrivialAssignOps (w_opts w3) fs);
         let (t, w4) = new_aggregate fs False False qs lens hasAssignOps implicit w3;
         Some (Some t, w4)
       }
     }"

definition pointer_to_basic :: "'z tprobs \<Rightarrow> 'z tworld_scheme \<Rightarrow> (Type option \<times> 'z tworld_scheme) option" where
  "pointer_to_basic P w =
     do {
       (t, w1) \<leftarrow> choose_random P w;
       if w_err w1 \<noteq> SUCCESS then Some (None, w1)
       else do {
         t \<leftarrow> t;
         (t, w2) \<leftarrow> (if eType t = eSimple then get_int_type w1 else Some (t, w1));
         Some (find_pointer_type t True w2)
       }
     }"

definition make_random_pointer_type :: "'z tprobs \<Rightarrow> 'z tworld_scheme \<Rightarrow> (Type option \<times> 'z tworld_scheme) option" where
  "make_random_pointer_type P w =
     do {
       (b, w1) \<leftarrow> rnd_flipcoin 20 None None w;
       if b
       then (if w_err w1 \<noteq> SUCCESS then Some (None, w1)
             else if length (tw_derived w1) > 0
             then do {
               (rnd_num, w2) \<leftarrow> rnd_upto (length (tw_derived w1)) None None w1;
               if w_err w2 \<noteq> SUCCESS then Some (None, w2)
               else do {
                 t \<leftarrow> vec_get (tw_derived w2) rnd_num;
                 if int (get_indirect_level t) < opt_max_indirect_level (w_opts w2)
                 then Some (find_pointer_type t True w2)
                 else pointer_to_basic P w2
               }
             }
             else pointer_to_basic P w1)
       else pointer_to_basic P w1
     }"

section \<open>All types of a program\<close>

definition GenerateSimpleTypes :: "'z tworld_scheme \<Rightarrow> 'z tworld_scheme" where
  "GenerateSimpleTypes w =
     (let w1 = foldl (\<lambda>w st. let (t, w1) = new_simple st w in w1\<lparr>tw_AllTypes := tw_AllTypes w1 @ [t]\<rparr>) w
                 [eChar, eInt, eShort, eLong, eLongLong, eUChar, eUInt, eUShort, eULong, eFloat,
                  eULongLong, eInt128, eUInt128];
          (v, w2) = new_simple eVoid w1
      in w2\<lparr>tw_void := Some v\<rparr>)"

text \<open>\<open>while (MoreTypesProbability()) AllTypes.push_back(make());\<close>; a null type in the vector is
  dereferenced by the next use, so it is an abort here.\<close>

partial_function (option) more_types ::
    "'z tprobs \<Rightarrow> ('z tworld_scheme \<Rightarrow> (Type option \<times> 'z tworld_scheme) option) \<Rightarrow> 'z tworld_scheme \<Rightarrow>
     'z tworld_scheme option" where
  "more_types tb mk w =
     do {
       (b, w1) \<leftarrow> MoreTypesProbability tb w;
       if \<not> b then Some w1
       else do {
         (ty, w2) \<leftarrow> mk w1;
         t \<leftarrow> ty;
         more_types tb mk (w2\<lparr>tw_AllTypes := tw_AllTypes w2 @ [t]\<rparr>)
       }
     }"

declare more_types.simps [code]

subsection \<open>The exhaustive mode\<close>

definition field_key :: "string \<Rightarrow> nat \<Rightarrow> string" where
  "field_key s i = s @ int2str (int i)"

definition max_fields :: "'z tworld_scheme \<Rightarrow> nat" where
  "max_fields w = nat (opt_max_struct_fields (w_opts w))"

definition init_is_bitfield_enumerator ::
    "int \<Rightarrow> string Enumerator \<Rightarrow> 'z tworld_scheme \<Rightarrow> string Enumerator option" where
  "init_is_bitfield_enumerator bitfield_prob e w =
     fold_opt (\<lambda>i e. add_bool_elem (field_key ''bitfield'' i)
         (if opt_bitfields (w_opts w) then bitfield_prob else 0) e) [0 ..< max_fields w] e"

definition init_fields_enumerator ::
    "string Enumerator \<Rightarrow> string Enumerator \<Rightarrow> int \<Rightarrow> int \<Rightarrow> int \<Rightarrow> 'z tworld_scheme \<Rightarrow>
     string Enumerator option" where
  "init_fields_enumerator e bitfield_enumerator type_bound qual_bound bitfield_qual_bound w =
     do {
       e \<leftarrow> fold_opt (\<lambda>i e. do {
           b \<leftarrow> get_elem (field_key ''bitfield'' i) bitfield_enumerator;
           if b \<noteq> 0
           then do {
             e \<leftarrow> add_bool_elem_of_bool (field_key ''bitfield_sign'' i) False e;
             e \<leftarrow> add_elem (field_key ''bitfield_qualifier'' i) bitfield_qual_bound e;
             add_elem (field_key ''bitfield_length'' i) 2 e
           }
           else do {
             e \<leftarrow> add_elem (field_key ''field'' i) type_bound e;
             add_elem (field_key ''qualifier'' i) qual_bound e
           }
         }) [0 ..< max_fields w] e;
       add_bool_elem_of_bool ''packed'' (opt_packed_struct (w_opts w)) e
     }"

text \<open>\<open>ZERO_BITFIELD\<close> is 0, \<open>RANDOM_BITFIELD\<close> is 1.\<close>

definition get_bitfield_length :: "int \<Rightarrow> 'z tworld_scheme \<Rightarrow> (int \<times> 'z tworld_scheme) option" where
  "get_bitfield_length length_flag w =
     do {
       let max_length = opt_int_size (w_opts w) * 8;
       assert_opt (max_length > 0);
       if length_flag = 0 then Some (0, w)
       else if length_flag = 1
       then map_option (\<lambda>(r, w1). (int r, w1)) (pure_rnd_upto (nat max_length) None None w)
       else None
     }"

definition make_one_bitfield_by_enum ::
    "string Enumerator \<Rightarrow> CVQualifiers list \<Rightarrow> field_vectors \<Rightarrow> nat \<Rightarrow> bool \<Rightarrow> 'z tworld_scheme \<Rightarrow>
     (bool \<times> field_vectors \<times> bool \<times> 'z tworld_scheme) option" where
  "make_one_bitfield_by_enum e all_bitfield_quals fv index last_is_zero w =
     (case fv of (fs, qs, lens) \<Rightarrow>
       do {
         s \<leftarrow> get_elem (field_key ''bitfield_sign'' index) e;
         (coin, w1) \<leftarrow> pure_rnd_flipcoin 50 None None w;
         let sign = (s \<noteq> 0 \<or> coin);
         (t, w2) \<leftarrow> get_simple_type (if sign then eInt else eUInt) w1;
         qual_index \<leftarrow> get_elem (field_key ''bitfield_qualifier'' index) e;
         assert_opt (qual_index \<ge> 0);
         qual \<leftarrow> vec_get all_bitfield_quals (nat qual_index);
         length_flag \<leftarrow> get_elem (field_key ''bitfield_length'' index) e;
         (len, w3) \<leftarrow> get_bitfield_length length_flag w2;
         if (index = 0 \<or> last_is_zero) \<and> len = 0
         then Some (False, (fs @ [t], qs @ [qual], lens), last_is_zero, w3)
         else Some (True, (fs @ [t], qs @ [qual], lens @ [len]), len = 0, w3)
       })"

definition make_one_normal_field_by_enum ::
    "'z tprobs \<Rightarrow> string Enumerator \<Rightarrow> Type list \<Rightarrow> CVQualifiers list \<Rightarrow> field_vectors \<Rightarrow> nat \<Rightarrow>
     'z tworld_scheme \<Rightarrow> (bool \<times> field_vectors \<times> 'z tworld_scheme) option" where
  "make_one_normal_field_by_enum P e all_types all_quals fv i w =
     (case fv of (fs, qs, lens) \<Rightarrow>
       do {
         typ_index \<leftarrow> get_elem (field_key ''field'' i) e;
         assert_opt (typ_index \<ge> 0);
         typ \<leftarrow> vec_get all_types (nat typ_index);
         assert_opt (\<not> is_void typ);
         (out, w1) \<leftarrow> (if eType typ = eSimple then simple_types_filter P typ w else Some (False, w));
         if out then Some (False, (fs, qs, lens), w1)
         else do {
           qual_index \<leftarrow> get_elem (field_key ''qualifier'' i) e;
           assert_opt (qual_index \<ge> 0);
           qual \<leftarrow> vec_get all_quals (nat qual_index);
           Some (True, (fs @ [typ], qs @ [qual], lens @ [- 1]), w1)
         }
       })"

text \<open>The loop over the fields of one combination; the flag tells that every field was made.\<close>

fun fields_by_enum ::
    "'z tprobs \<Rightarrow> string Enumerator \<Rightarrow> string Enumerator \<Rightarrow> Type list \<Rightarrow> CVQualifiers list \<Rightarrow>
     CVQualifiers list \<Rightarrow> nat list \<Rightarrow> field_vectors \<Rightarrow> bool \<Rightarrow> nat \<Rightarrow> nat \<Rightarrow> 'z tworld_scheme \<Rightarrow>
     (bool \<times> field_vectors \<times> nat \<times> nat \<times> 'z tworld_scheme) option" where
  "fields_by_enum P e be types quals bquals [] fv last_is_zero nbit nnormal w =
     Some (True, fv, nbit, nnormal, w)"
| "fields_by_enum P e be types quals bquals (i # is) fv last_is_zero nbit nnormal w =
     do {
       b \<leftarrow> get_elem (field_key ''bitfield'' i) be;
       if b \<noteq> 0
       then do {
         (rv, fv1, lz, w1) \<leftarrow> make_one_bitfield_by_enum e bquals fv i last_is_zero w;
         if \<not> rv then Some (False, fv1, nbit + 1, nnormal, w1)
         else fields_by_enum P e be types quals bquals is fv1 lz (nbit + 1) nnormal w1
       }
       else do {
         (rv, fv1, w1) \<leftarrow> make_one_normal_field_by_enum P e types quals fv i w;
         if \<not> rv then Some (False, fv1, nbit, nnormal + 1, w1)
         else fields_by_enum P e be types quals bquals is fv1 False nbit (nnormal + 1) w1
       }
     }"

definition make_all_struct_types_with_bitfields ::
    "'z tprobs \<Rightarrow> string Enumerator \<Rightarrow> string Enumerator \<Rightarrow> Type list \<Rightarrow> Type list \<Rightarrow> CVQualifiers list \<Rightarrow>
     CVQualifiers list \<Rightarrow> 'z tworld_scheme \<Rightarrow> (Type list \<times> 'z tworld_scheme) option" where
  "make_all_struct_types_with_bitfields P e be accum_types types quals bquals w =
     do {
       let field_cnt = max_fields w;
       (complete, (fs, qs, lens), nbit, nnormal, w1) \<leftarrow>
         fields_by_enum P e be types quals bquals [0 ..< field_cnt] ([], [], []) False 0 0 w;
       if \<not> complete then Some (accum_types, w1)
       else do {
         p \<leftarrow> get_prob P pExhaustiveBitFieldsProb;
         if p > 0 \<and> p < 100 \<and> (nbit = field_cnt \<or> nnormal = field_cnt) then Some (accum_types, w1)
         else do {
           pk \<leftarrow> get_elem ''packed'' e;
           (hasAssignOps, w2) \<leftarrow> if_struct_will_have_assign_ops P w1;
           implicit \<leftarrow> (if hasAssignOps then Some True else checkImplicitNontrivialAssignOps (w_opts w2) fs);
           let (t, w3) = new_aggregate fs True (pk \<noteq> 0) qs lens hasAssignOps implicit w2;
           Some (accum_types @ [t], w3\<lparr>tw_used := t_id t # tw_used w3\<rparr>)
         }
       }
     }"

text \<open>\<open>for (i = e.begin(); i != e.end(); i = i->next()) body(*i)\<close>\<close>

partial_function (option) enum_loop ::
    "(string Enumerator \<Rightarrow> 's \<Rightarrow> 's option) \<Rightarrow> bool \<times> string Enumerator \<Rightarrow> 's \<Rightarrow> 's option" where
  "enum_loop body ie s =
     (case ie of (going, e) \<Rightarrow>
       if \<not> going then Some s
       else do {
         s1 \<leftarrow> body e s;
         ie1 \<leftarrow> enum_next e;
         enum_loop body ie1 s1
       })"

declare enum_loop.simps [code]

definition for_enum :: "(string Enumerator \<Rightarrow> 's \<Rightarrow> 's option) \<Rightarrow> string Enumerator \<Rightarrow> 's \<Rightarrow> 's option" where
  "for_enum body e s = do { ie \<leftarrow> enum_begin e; enum_loop body ie s }"

definition make_all_struct_types_for ::
    "'z tprobs \<Rightarrow> string Enumerator \<Rightarrow> Type list \<Rightarrow> CVQualifiers list \<Rightarrow> CVQualifiers list \<Rightarrow>
     Type list \<times> 'z tworld_scheme \<Rightarrow> (Type list \<times> 'z tworld_scheme) option" where
  "make_all_struct_types_for P be types quals bquals s =
     do {
       e \<leftarrow> init_fields_enumerator Enumerator_new be (int (length types)) (int (length quals))
              (int (length bquals)) (snd s);
       for_enum (\<lambda>e (accum, w). make_all_struct_types_with_bitfields P e be accum types quals bquals w) e s
     }"

text \<open>A struct of the level below takes the place of the newly copied entry at its position.\<close>

definition delete_useless_structs :: "Type list \<Rightarrow> Type list \<Rightarrow> Type list option" where
  "delete_useless_structs all_types accum_types =
     do {
       assert_opt (length all_types \<le> length accum_types);
       Some (map (\<lambda>(t, a). if eType t = eStruct then t else a) (zip all_types accum_types) @
             drop (length all_types) accum_types)
     }"

fun make_all_struct_types ::
    "'z tprobs \<Rightarrow> nat \<Rightarrow> Type list \<Rightarrow> 'z tworld_scheme \<Rightarrow> (Type list \<times> 'z tworld_scheme) option" where
  "make_all_struct_types P level accum_types w =
     do {
       (accum, w1) \<leftarrow> (case level of 0 \<Rightarrow> Some (accum_types, w)
                      | Suc l \<Rightarrow> make_all_struct_types P l accum_types w);
       let all_types = accum;
       cp \<leftarrow> get_prob P pRegularConstProb;
       vp \<leftarrow> get_prob P pRegularVolatileProb;
       quals \<leftarrow> get_all_qualifiers (int cp) (int vp) [];
       fcp \<leftarrow> get_prob P pFieldConstProb;
       fvp \<leftarrow> get_prob P pFieldVolatileProb;
       bquals \<leftarrow> get_all_qualifiers (int fcp) (int fvp) [];
       p \<leftarrow> get_prob P pExhaustiveBitFieldsProb;
       e \<leftarrow> init_is_bitfield_enumerator (int p) Enumerator_new w1;
       (accum2, w2) \<leftarrow> for_enum (\<lambda>be s. make_all_struct_types_for P be all_types quals bquals s) e
                        (tw_AllTypes w1, w1);
       accum3 \<leftarrow> delete_useless_structs all_types accum2;
       Some (accum3, w2)
     }"

definition make_all_struct_union_types :: "'z tprobs \<Rightarrow> 'z tworld_scheme \<Rightarrow> 'z tworld_scheme option" where
  "make_all_struct_union_types P w =
     (if opt_dfs_exhaustive (w_opts w)
      then do {
        (accum, w1) \<leftarrow> make_all_struct_types P (nat (opt_max_nested_struct_level (w_opts w)))
                        (tw_AllTypes w) w;
        assert_opt (length accum \<ge> length (tw_AllTypes w1));
        Some (w1\<lparr>tw_AllTypes := tw_AllTypes w1 @ drop (length (tw_AllTypes w1)) accum\<rparr>)
      }
      else Some w)"

definition GenerateAllTypes :: "'z tprobs \<Rightarrow> 'z tworld_scheme \<Rightarrow> 'z tworld_scheme option" where
  "GenerateAllTypes P w =
     (let w1 = GenerateSimpleTypes w in
      if opt_dfs_exhaustive (w_opts w)
      then (if opt_use_struct (w_opts w) \<and> opt_expand_struct (w_opts w)
            then make_all_struct_union_types P w1 else Some w1)
      else do {
        w2 \<leftarrow> (if opt_use_struct (w_opts w1) then more_types P (make_random_struct_type P) w1 else Some w1);
        if opt_use_union (w_opts w2) then more_types P (make_random_union_type P) w2 else Some w2
      })"

end
