(* ===== verification/TypeEnv.thy ===== *)
theory TypeEnv
  imports TypeGen
begin

text \<open>
  What the construction of types promises in random mode: every type of the environment is
  well-formed, structs stay within the configured depth and number of fields, bit-fields within the
  width of an \<open>int\<close> and never zero in first place or twice in a row, types have addresses of their
  own, and there is one pointer type for each type.  The locale \<open>default_property\<close> is the interface
  to the default generator: a property of the state that does not depend on the members the generator
  changes survives every draw.
\<close>

section \<open>Properties that the default generator keeps\<close>

locale default_property =
  fixes I :: "'z world_scheme \<Rightarrow> bool"
  assumes current: "I w \<Longrightarrow> w_curr w = Some rDefaultRndNumGenerator"
    and random_mode: "I w \<Longrightarrow> is_random (w_opts w)"
    and blind: "I (w\<lparr>w_rand48 := s\<rparr>) = I w" "I (w\<lparr>w_default := d\<rparr>) = I w"
begin

lemma gen_blind:
  assumes "genrand w = (g, w')"
  shows "I w' = I w"
proof -
  have "w' = w\<lparr>w_rand48 := snd (lrand48 (w_rand48 w))\<rparr>"
    using assms unfolding genrand_def case_prod_beta Let_def prod.inject by blast
  then show ?thesis by (simp only: blind)
qed

lemma mod_blind [simp]:
  "I (default_mod h w) = I w" "I (inc_rand_depth w) = I w" "I (append_trace wh w) = I w"
  "I (default_add_number v n k w) = I w"
proof -
  show m: "I (default_mod h w) = I w" for h w unfolding default_mod_def by (rule blind(2))
  show "I (inc_rand_depth w) = I w" "I (append_trace wh w) = I w" "I (default_add_number v n k w) = I w"
    by (simp_all add: inc_rand_depth_def append_trace_def default_add_number_def m split: option.split)
qed

lemma reject_keeps:
  assumes "reject_loop n f ld v w = Some y"
  shows "keeps I (Some f) \<longrightarrow> I w \<longrightarrow>
    I (snd y) \<and> (v < n \<longrightarrow> fst y < n) \<and> (\<exists>w0. I w0 \<and> f (int (fst y)) w0 = Some (False, snd y))"
proof (rule reject_loop.raw_induct [where P = "\<lambda>n f ld v w y. keeps I (Some f) \<longrightarrow> I w \<longrightarrow>
    I (snd y) \<and> (v < n \<longrightarrow> fst y < n) \<and> (\<exists>w0. I w0 \<and> f (int (fst y)) w0 = Some (False, snd y))",
    OF _ assms])
  fix rl n f ld v w y
  assume ih: "\<And>n f ld v w y. rl n f ld v w = Some y \<Longrightarrow> keeps I (Some f) \<longrightarrow> I w \<longrightarrow>
      I (snd y) \<and> (v < n \<longrightarrow> fst y < n) \<and> (\<exists>w0. I w0 \<and> f (int (fst y)) w0 = Some (False, snd y))"
    and body: "do {
       (rejected, w1) \<leftarrow> f (int v) w;
       if \<not> rejected then Some (v, w1)
       else let (g, w2) = genrand (default_mod (\<lambda>d. d\<lparr>dg_rand_depth := ld + 1\<rparr>) w1)
            in rl n f ld (g mod n) w2 } = Some y"
  show "keeps I (Some f) \<longrightarrow> I w \<longrightarrow>
      I (snd y) \<and> (v < n \<longrightarrow> fst y < n) \<and> (\<exists>w0. I w0 \<and> f (int (fst y)) w0 = Some (False, snd y))"
  proof (intro impI)
    assume k: "keeps I (Some f)" and w: "I w"
    from body obtain rej w1 where f: "f (int v) w = Some (rej, w1)" by (auto simp: bind_eq_Some_conv)
    have w1: "I w1" by (rule keepsD [OF k f w])
    show "I (snd y) \<and> (v < n \<longrightarrow> fst y < n) \<and> (\<exists>w0. I w0 \<and> f (int (fst y)) w0 = Some (False, snd y))"
    proof (cases rej)
      case False
      with body f w w1 show ?thesis by auto
    next
      case True
      obtain g w2 where g: "genrand (default_mod (\<lambda>d. d\<lparr>dg_rand_depth := ld + 1\<rparr>) w1) = (g, w2)"
        by fastforce
      with w1 have "I w2" by (simp add: gen_blind)
      with body f True g k ih [of n f ld "g mod n" w2 y] show ?thesis by (cases "n = 0") auto
    qed
  qed
qed

lemma upto_spec:
  assumes "rnd_upto n f wh w = Some (r, w')" "keeps I f" "I w"
  shows "I w' \<and> r < n \<and> (\<forall>g. f = Some g \<longrightarrow>
    (\<exists>w0 w1. I w0 \<and> g (int r) w0 = Some (False, w1) \<and> w' = append_trace wh w1))"
proof -
  obtain g w1 where g: "genrand w = (g, w1)" by fastforce
  with assms(3) have w1: "I (inc_rand_depth w1)" by (simp add: gen_blind)
  have n: "0 < n" and u: "default_rnd_upto n f wh w = Some (r, w')"
    using assms(1) current [OF assms(3)] by (auto simp: rnd_upto_def default_rnd_upto_def)
  show ?thesis
  proof (cases f)
    case None
    with u g w1 n show ?thesis
      by (auto simp: default_rnd_upto_def default_add_number_def bind_eq_Some_conv)
  next
    case (Some ff)
    with u g obtain d y where y: "reject_loop n ff d (g mod n) (inc_rand_depth w1) = Some y"
      "r = fst y" "w' = append_trace wh (snd y)"
      by (auto simp: default_rnd_upto_def default_add_number_def bind_eq_Some_conv)
    from reject_keeps [OF y(1)] assms(2) w1 n Some y show ?thesis by auto
  qed
qed

lemma upto_keeps: "rnd_upto n None wh w = Some (r, w') \<Longrightarrow> I w \<Longrightarrow> I w' \<and> r < n"
  using upto_spec [of n None wh w r w'] by simp

lemma flip_keeps: "rnd_flipcoin p None wh w = Some (b, w') \<Longrightarrow> I w \<Longrightarrow> I w'"
  using current [of w] gen_blind [of "inc_rand_depth w" "fst (genrand (inc_rand_depth w))" "snd (genrand (inc_rand_depth w))"]
  by (auto simp: rnd_flipcoin_def default_rnd_flipcoin_def flip_by_filter_def bind_eq_Some_conv Let_def
      case_prod_beta)

lemma named_keeps: "flip_named P pname w = Some (b, w') \<Longrightarrow> I w \<Longrightarrow> I w'"
  by (auto simp: flip_named_def bind_eq_Some_conv dest: flip_keeps)

lemma pure_keeps:
  "pure_rnd_upto n None wh w = Some (r, w') \<Longrightarrow> I w \<Longrightarrow> I w' \<and> (r < n \<or> n = 0)"
  "pure_rnd_flipcoin p None wh w = Some (b, w') \<Longrightarrow> I w \<Longrightarrow> I w'"
  using random_mode [of w] upto_keeps [of n wh w r w'] flip_keeps [of p wh w b w']
  by (auto simp: pure_rnd_upto_def pure_rnd_flipcoin_def purely_def split: if_splits)

lemma pointer_levels_keeps:
  "pointer_levels cp vp ts cs vs w = Some (cs', vs', w') \<Longrightarrow> I w \<Longrightarrow> I w'"
proof (induction cp vp ts cs vs w rule: pointer_levels.induct)
  case (2 cp vp t ts cs vs w)
  from 2(2) obtain v w1 c w2 where d:
    "(if is_volatile_ok_on_one_level (w_opts w) t then rnd_flipcoin vp None None w else Some (False, w)) = Some (v, w1)"
    "rnd_flipcoin cp None None w1 = Some (c, w2)"
    "pointer_levels cp vp ts (resolve_const (w_opts w2) c v # cs) (v # vs) w2 = Some (cs', vs', w')"
    by (auto simp: bind_eq_Some_conv)
  have "I w1" using d(1) 2(3) flip_keeps [of vp None w v w1] by (auto split: if_splits)
  then have "I w2" using flip_keeps [OF d(2)] by simp
  with 2(1) [OF d(1) refl d(2) refl d(3)] show ?case by blast
qed simp

lemma field_qualifiers_keeps:
  "random_field_qualifiers t cp vp w = Some (q, w') \<Longrightarrow> I w \<Longrightarrow> I w'"
  by (cases t)
    (auto simp: random_field_qualifiers_def random_qualifiers_prob_def bind_eq_Some_conv Let_def
      split: if_splits dest!: pointer_levels_keeps flip_keeps)

end

section \<open>Filters of the probability tables\<close>

lemma prob_filter_silent:
  "pb_extra_filters P = Map.empty \<Longrightarrow> get_prob_filter P pname = Some f \<Longrightarrow> f v w = Some (b, w') \<Longrightarrow> w' = w"
  by (auto simp: get_prob_filter_def prob_filter_def check_extra_filter_def bind_eq_Some_conv
      split: if_splits option.splits ProbElem.splits)

lemma simple_types_filter_silent:
  "pb_extra_filters P = Map.empty \<Longrightarrow> simple_types_filter P t w = Some (b, w') \<Longrightarrow> w' = w"
  by (auto simp: simple_types_filter_def bind_eq_Some_conv dest: prob_filter_silent)

section \<open>Qualifiers of fields\<close>

lemma length_pointees: "length (pointees t) = get_indirect_level t"
  by (induction t rule: pointees.induct) (auto split: option.splits)

lemma pointer_levels_length:
  "pointer_levels cp vp ts cs vs w = Some (cs', vs', w') \<Longrightarrow>
     length cs' = length cs + length ts \<and> length vs' = length vs + length ts"
proof (induction cp vp ts cs vs w rule: pointer_levels.induct)
  case (2 cp vp t ts cs vs w)
  from 2(2) obtain v w1 c w2 where d:
    "(if is_volatile_ok_on_one_level (w_opts w) t then rnd_flipcoin vp None None w else Some (False, w)) = Some (v, w1)"
    "rnd_flipcoin cp None None w1 = Some (c, w2)"
    "pointer_levels cp vp ts (resolve_const (w_opts w2) c v # cs) (v # vs) w2 = Some (cs', vs', w')"
    by (auto simp: bind_eq_Some_conv)
  from 2(1) [OF d(1) refl d(2) refl d(3)] show ?case by simp
qed simp

lemma make_scalar_length [simp]:
  "length (make_scalar_consts c bs) = length bs" "length (make_scalar_volatiles c bs) = length bs"
  by (simp_all add: make_scalar_consts_def make_scalar_volatiles_def)

lemma random_field_qualifiers_fit:
  assumes "random_field_qualifiers (Some t) cp vp w = Some (q, w')"
  shows "qfer_fits t q"
proof -
  from assms obtain cs vs w1 bc bv c2 c3 where p: "pointer_levels cp vp (pointees t) [] [] w = Some (cs, vs, w1)"
    and q: "q = CVQualifiers_of (make_scalar_consts c2 (cs @ [bc])) (make_scalar_volatiles c3 (vs @ [bv]))"
    by (fastforce simp: random_field_qualifiers_def random_qualifiers_prob_def bind_eq_Some_conv Let_def)
  from pointer_levels_length [OF p] show ?thesis
    by (simp add: q qfer_fits_def CVQualifiers_of_def length_pointees)
qed

section \<open>What the filters accept and keep\<close>

text \<open>The part of the environment that the filters never change.\<close>

definition same_env :: "'z tworld_scheme \<Rightarrow> 'z tworld_scheme \<Rightarrow> bool" where
  "same_env w w' \<longleftrightarrow> tw_AllTypes w' = tw_AllTypes w \<and> tw_derived w' = tw_derived w \<and>
     tw_simple w' = tw_simple w \<and> tw_next w' = tw_next w \<and> w_opts w' = w_opts w \<and>
     w_curr w' = w_curr w \<and> w_err w' = w_err w"

lemma same_env_refl [simp]: "same_env w w"
  by (simp add: same_env_def)

lemma same_env_trans: "same_env a b \<Longrightarrow> same_env b c \<Longrightarrow> same_env a c"
  by (simp add: same_env_def)

lemma same_env_typ [simp]: "same_env w (w\<lparr>tw_typ := t\<rparr>)"
  by (simp add: same_env_def)

lemma use_type_env: "use_type t w = Some w' \<Longrightarrow> same_env w w'"
  by (auto simp: use_type_def same_env_def bind_eq_Some_conv split: if_splits)

lemma choose_typ_env:
  assumes "pb_extra_filters P = Map.empty" "choose_typ P t w = Some (b, w')"
  shows "same_env w w' \<and> tw_typ w' = Some t"
proof -
  from assms(2) obtain w1 where w1: "use_type t w = Some w1"
    "eType t = eSimple \<and> simple_types_filter P t (w1\<lparr>tw_typ := Some t\<rparr>) = Some (b, w') \<or>
     w' = w1\<lparr>tw_typ := Some t\<rparr>"
    by (auto simp: choose_typ_def bind_eq_Some_conv Let_def split: if_splits)
  then have "w' = w1\<lparr>tw_typ := Some t\<rparr>" using simple_types_filter_silent [OF assms(1)] by blast
  with use_type_env [OF w1(1)] show ?thesis by (simp add: same_env_def)
qed

lemma choose_random_filter_env:
  assumes "pb_extra_filters P = Map.empty" "choose_random_type_filter P fv ao v w = Some (b, w')"
  shows "same_env w w'"
proof -
  from assms(2) obtain t where t: "vec_get (tw_AllTypes w) (nat v) = Some t"
    by (auto simp: choose_random_type_filter_def bind_eq_Some_conv)
  have "w' = w\<lparr>tw_typ := Some t\<rparr>"
    using assms(2) t simple_types_filter_silent [OF assms(1), of t "w\<lparr>tw_typ := Some t\<rparr>" b w']
    by (auto simp: choose_random_type_filter_def bind_eq_Some_conv Let_def split: if_splits)
  then show ?thesis by simp
qed

lemma choose_random_filter_accepts:
  assumes "choose_random_type_filter P True ao v w = Some (False, w')"
  shows "0 \<le> v \<and> nat v < length (tw_AllTypes w) \<and>
    (eType (tw_AllTypes w ! nat v) \<noteq> eSimple \<longrightarrow>
       get_struct_depth (tw_AllTypes w ! nat v) < opt_max_nested_struct_level (w_opts w))"
  using assms by (auto simp: choose_random_type_filter_def bind_eq_Some_conv Let_def split: if_splits)

lemma nonvoid_filter_env:
  assumes "pb_extra_filters P = Map.empty" "nonvoid_nonvolatile_filter P v w = Some (b, w')"
  shows "same_env w w'"
  using assms(2)
  by (auto simp: nonvoid_nonvolatile_filter_def bind_eq_Some_conv split: if_splits
      dest: choose_typ_env [OF assms(1)])

lemma nonvoid_filter_accepts:
  assumes "pb_extra_filters P = Map.empty" "nonvoid_nonvolatile_filter P v w = Some (False, w')"
  shows "0 \<le> v \<and> nat v < length (tw_AllTypes w) \<and> tw_typ w' = Some (tw_AllTypes w ! nat v) \<and>
    (let t = tw_AllTypes w ! nat v in
      \<not> is_void t \<and> (is_aggregate t \<longrightarrow> is_volatile_struct_union t = Some False) \<and>
      (eType t = eStruct \<longrightarrow> opt_arg_structs (w_opts w)) \<and> (eType t = eUnion \<longrightarrow> opt_arg_unions (w_opts w)))"
  using assms(2)
  by (auto simp: nonvoid_nonvolatile_filter_def bind_eq_Some_conv Let_def split: if_splits
      dest: choose_typ_env [OF assms(1)])

section \<open>The environment\<close>

text \<open>
  Bit-field lengths, where \<open>- 1\<close> stands for a field that is not a bit-field: below the width, the
  first one not zero, no two zeros in a row.
\<close>

definition lens_ok :: "int \<Rightarrow> int list \<Rightarrow> bool" where
  "lens_ok m lens \<longleftrightarrow> (\<forall>l \<in> set lens. - 1 \<le> l \<and> l < m) \<and> successively (\<lambda>a b. a \<noteq> 0 \<or> b \<noteq> 0) (0 # lens)"

text \<open>The types of \<open>AllTypes\<close>.  The depth counts structs only: a union has depth 0 whatever it holds.\<close>

definition built_ok :: "CGOptions \<Rightarrow> Type \<Rightarrow> bool" where
  "built_ok c t \<longleftrightarrow> type_ok t \<and> (eType t = eSimple \<or> is_aggregate t) \<and> \<not> contain_pointer_field t \<and>
     (is_aggregate t \<longrightarrow> lens_ok (opt_int_size c * 8) (bitfields_length t)) \<and>
     (eType t = eStruct \<longrightarrow> get_struct_depth t \<le> max 1 (opt_max_nested_struct_level c) \<and>
        length (Type.fields t) \<le> nat (opt_max_struct_fields c)) \<and>
     (eType t = eUnion \<longrightarrow> Type.fields t \<noteq> [] \<and> length (Type.fields t) \<le> nat (opt_max_union_fields c) \<and>
        (\<forall>f \<in> set (Type.fields t). eType f \<noteq> eUnion \<and> has_bitfields f = Some False))"

text \<open>A pointer type of the environment.\<close>

definition pointer_ok :: "Type \<Rightarrow> bool" where
  "pointer_ok d \<longleftrightarrow> type_ok d \<and> eType d = ePointer \<and> ptr_type d \<noteq> None"

definition pointee_id :: "Type \<Rightarrow> nat" where
  "pointee_id d = (case ptr_type d of None \<Rightarrow> 0 | Some p \<Rightarrow> t_id p)"

definition env_ok :: "CGOptions \<Rightarrow> 'z tworld_scheme \<Rightarrow> bool" where
  "env_ok c w \<longleftrightarrow> w_opts w = c \<and> is_random c \<and> 0 < opt_int_size c \<and>
     w_curr w = Some rDefaultRndNumGenerator \<and> w_err w = SUCCESS \<and>
     (\<forall>t \<in> set (tw_AllTypes w). built_ok c t) \<and>
     (\<forall>st t. tw_simple w st = Some t \<longrightarrow> t \<in> set (tw_AllTypes w) \<and> eType t = eSimple \<and> simple_type t = st) \<and>
     distinct (map t_id (tw_AllTypes w @ tw_derived w)) \<and>
     (\<forall>t \<in> set (tw_AllTypes w @ tw_derived w). t_id t < tw_next w) \<and>
     (\<forall>d \<in> set (tw_derived w). pointer_ok d) \<and> distinct (map pointee_id (tw_derived w))"

lemma env_ok_sel:
  assumes "env_ok c w"
  shows "w_opts w = c" "is_random c" "0 < opt_int_size c" "w_curr w = Some rDefaultRndNumGenerator"
    "w_err w = SUCCESS" "t \<in> set (tw_AllTypes w) \<Longrightarrow> built_ok c t"
    "tw_simple w st = Some t \<Longrightarrow> t \<in> set (tw_AllTypes w) \<and> eType t = eSimple \<and> simple_type t = st"
    "distinct (map pointee_id (tw_derived w))" "d \<in> set (tw_derived w) \<Longrightarrow> pointer_ok d"
  using assms by (auto simp: env_ok_def)

lemma same_env_ok: "same_env w w' \<Longrightarrow> env_ok c w \<Longrightarrow> env_ok c w'"
  unfolding same_env_def env_ok_def by simp

lemma env_ok_typ [simp]: "env_ok c (w\<lparr>tw_typ := t\<rparr>) = env_ok c w"
  by (simp add: env_ok_def)

interpretation env: default_property "env_ok c" for c
  by unfold_locales (auto simp: env_ok_def)

lemma filter_keeps_env:
  assumes "\<And>v w b w'. f v w = Some (b, w') \<Longrightarrow> same_env w w'"
  shows "keeps (env_ok c) (Some f)"
  unfolding keeps_def using assms same_env_ok by blast

lemma built_ok_simple:
  "st \<noteq> MAX_SIMPLE_TYPES \<Longrightarrow> built_ok c (Type_simple a st)"
  by (simp add: built_ok_def Type_simple_def plain_info_def is_aggregate_def)

subsection \<open>New types\<close>

lemma env_add:
  assumes "env_ok c w" "built_ok c t" "t_id t = tw_next w"
  shows "env_ok c (w\<lparr>tw_next := tw_next w + 1, tw_AllTypes := tw_AllTypes w @ [t]\<rparr>)"
proof -
  have less: "\<forall>u \<in> set (tw_AllTypes w @ tw_derived w). t_id u < tw_next w"
    using assms(1) by (simp add: env_ok_def)
  then have "t_id t \<notin> t_id ` set (tw_AllTypes w)" "t_id t \<notin> t_id ` set (tw_derived w)"
    using assms(3) by auto
  moreover from less have "\<forall>u \<in> set (tw_AllTypes w @ tw_derived w). t_id u < tw_next w + 1"
    by (metis Suc_eq_plus1 less_SucI)
  ultimately show ?thesis using assms by (simp add: env_ok_def)
qed

lemma get_simple_type_env:
  assumes "get_simple_type st w = Some (t, w')" "env_ok c w"
  shows "env_ok c w' \<and> built_ok c t \<and> eType t = eSimple \<and> simple_type t = st"
proof (cases "tw_simple w st")
  case (Some t1)
  with assms show ?thesis
    by (auto simp: get_simple_type_def bind_eq_Some_conv dest: env_ok_sel(6,7))
next
  case None
  have st: "st \<noteq> MAX_SIMPLE_TYPES" using assms(1) by (auto simp: get_simple_type_def)
  define ts where "ts = rev (filter (\<lambda>tt. eType tt = eSimple \<and> simple_type tt = st) (tw_AllTypes w))"
  show ?thesis
  proof (cases ts)
    case (Cons t1 more_ts)
    then have "t1 \<in> set ts" by simp
    then have t1: "t1 \<in> set (tw_AllTypes w)" "eType t1 = eSimple" "simple_type t1 = st"
      unfolding ts_def by auto
    have r: "t = t1" "w' = w\<lparr>tw_simple := (tw_simple w)(st := Some t1)\<rparr>"
      using assms(1) None Cons st by (auto simp: get_simple_type_def ts_def)
    have "env_ok c w'" using assms(2) t1 by (auto simp: r env_ok_def)
    with t1 env_ok_sel(6) [OF assms(2) t1(1)] show ?thesis by (simp add: r)
  next
    case Nil
    let ?t = "Type_simple (tw_next w) st"
    let ?w1 = "w\<lparr>tw_next := tw_next w + 1, tw_AllTypes := tw_AllTypes w @ [?t]\<rparr>"
    have t: "built_ok c ?t" "eType ?t = eSimple" "simple_type ?t = st" "t_id ?t = tw_next w"
      using built_ok_simple [OF st] by (simp_all add: Type_simple_def plain_info_def)
    have "env_ok c ?w1" by (rule env_add [OF assms(2) t(1,4)])
    then have "env_ok c (?w1\<lparr>tw_simple := (tw_simple ?w1)(st := Some ?t)\<rparr>)"
      using t unfolding env_ok_def by (auto simp del: map_append distinct_append)
    moreover have "t = ?t" "w' = ?w1\<lparr>tw_simple := (tw_simple ?w1)(st := Some ?t)\<rparr>"
      using assms(1) None Nil st by (auto simp: get_simple_type_def ts_def new_simple_def)
    ultimately show ?thesis using t by simp
  qed
qed


subsection \<open>Fields\<close>

text \<open>The vectors under construction, with \<open>Q\<close> for what the fields promise besides.\<close>

definition vectors_ok :: "CGOptions \<Rightarrow> (Type \<Rightarrow> bool) \<Rightarrow> field_vectors \<Rightarrow> bool" where
  "vectors_ok c Q fv \<longleftrightarrow> (case fv of (fs, qs, lens) \<Rightarrow>
     list_all2 qfer_fits fs qs \<and> length lens = length fs \<and> lens_ok (opt_int_size c * 8) lens \<and>
     (\<forall>(f, l) \<in> set (zip fs lens). 0 \<le> l \<longrightarrow> eType f = eSimple) \<and>
     (\<forall>f \<in> set fs. type_ok f \<and> \<not> contain_pointer_field f \<and> Q f))"

lemma vectors_ok_Nil [simp]: "vectors_ok c Q ([], [], [])"
  by (simp add: vectors_ok_def lens_ok_def)

lemma vectors_ok_snoc:
  assumes "vectors_ok c Q (fs, qs, lens)" "qfer_fits t q" "lens_ok (opt_int_size c * 8) (lens @ [l])"
    "type_ok t" "\<not> contain_pointer_field t" "Q t" "0 \<le> l \<Longrightarrow> eType t = eSimple"
  shows "vectors_ok c Q (fs @ [t], qs @ [q], lens @ [l])"
  using assms by (simp add: vectors_ok_def list_all2_appendI)

lemma lens_ok_snoc:
  "lens_ok m (lens @ [l]) \<longleftrightarrow> lens_ok m lens \<and> - 1 \<le> l \<and> l < m \<and> (last (0 # lens) \<noteq> 0 \<or> l \<noteq> 0)"
  using successively_append_iff [of "\<lambda>a b :: int. a \<noteq> 0 \<or> b \<noteq> 0" "0 # lens" "[l]"]
  by (auto simp: lens_ok_def)

lemma field_qualifiers_env:
  assumes "field_qualifiers P t w = Some (q, w')" "env_ok c w"
  shows "env_ok c w' \<and> qfer_fits t q"
  using assms
  by (auto simp: field_qualifiers_def bind_eq_Some_conv dest: random_field_qualifiers_fit
      env.field_qualifiers_keeps)

lemma bitfield_length_env:
  assumes "bitfield_length m lens w = Some (len, w')" "env_ok c w" "lens_ok m lens"
    and m: "m = opt_int_size c * 8"
  shows "env_ok c w' \<and> 0 \<le> len \<and> lens_ok m (lens @ [len])"
proof -
  have pos: "8 \<le> m" using env_ok_sel(3) [OF assms(2)] m by simp
  from assms(1) obtain r w1 where r: "rnd_upto (nat m) None None w = Some (r, w1)"
    by (auto simp: bitfield_length_def bind_eq_Some_conv)
  from env.upto_keeps [OF r assms(2)] pos have w1: "env_ok c w1" "int r < m" by auto
  have e1: "w_err w1 = SUCCESS" by (rule env_ok_sel(5) [OF w1(1)])
  have last0: "last (0 # lens) = 0 \<longleftrightarrow> lens = [] \<or> last lens = 0" by simp
  show ?thesis
  proof (cases "r = 0 \<and> (lens = [] \<or> last lens = 0)")
    case False
    have "len = int r" "w' = w1"
      using assms(1) r e1 False by (auto simp: bitfield_length_def bind_eq_Some_conv Let_def)
    with w1 False assms(3) last0 show ?thesis by (auto simp: lens_ok_snoc)
  next
    case True
    have "\<exists>r2. rnd_upto (nat (m - 1)) None None w1 = Some (r2, w') \<and> len = int r2 + 1"
      using assms(1) r e1 True pos by (auto simp: bitfield_length_def bind_eq_Some_conv Let_def)
    then obtain r2 where r2: "rnd_upto (nat (m - 1)) None None w1 = Some (r2, w')" "len = int r2 + 1"
      by blast
    from env.upto_keeps [OF r2(1) w1(1)] pos have "env_ok c w'" "int r2 < m - 1" by auto
    with r2(2) assms(3) show ?thesis by (simp add: lens_ok_snoc)
  qed
qed

lemma simple_field: "eType t = eSimple \<Longrightarrow> built_ok c t \<Longrightarrow> type_ok t \<and> \<not> contain_pointer_field t"
  by (simp add: built_ok_def)

lemma make_one_bitfield_env:
  assumes "make_one_bitfield P fv w = Some (fv', w')" "env_ok c w" "vectors_ok c Q fv"
    and Q: "\<And>t. type_ok t \<Longrightarrow> eType t = eSimple \<Longrightarrow> Q t"
  shows "env_ok c w' \<and> vectors_ok c Q fv' \<and> length (fst fv') = Suc (length (fst fv))"
proof -
  obtain fs qs lens where fv: "fv = (fs, qs, lens)" by (cases fv)
  from assms(1) obtain sign w1 where s: "flip_named P pBitFieldsSignedProb w = Some (sign, w1)"
    by (auto simp: make_one_bitfield_def fv bind_eq_Some_conv)
  have w1: "env_ok c w1" by (rule env.named_keeps [OF s assms(2)])
  note step = assms(1) [unfolded make_one_bitfield_def fv prod.case Let_def s bind_simps env_ok_sel(5) [OF w1]]
  from step s env_ok_sel(5) [OF w1] obtain t w2 where t: "get_simple_type (if sign then eInt else eUInt) w1 = Some (t, w2)"
    by (auto simp: bind_eq_Some_conv)
  from get_simple_type_env [OF t w1] have w2: "env_ok c w2" "built_ok c t" "eType t = eSimple" by simp_all
  from step s t env_ok_sel(5) [OF w1] obtain q w3 where q: "field_qualifiers P t w2 = Some (q, w3)"
    by (auto simp: bind_eq_Some_conv)
  from field_qualifiers_env [OF q w2(1)] have w3: "env_ok c w3" "qfer_fits t q" by simp_all
  from step s t q env_ok_sel(5) [OF w1] env_ok_sel(5) [OF w3(1)]
  obtain len w4 where l: "bitfield_length (opt_int_size (w_opts w) * 8) lens w3 = Some (len, w4)"
    by (auto simp: bind_eq_Some_conv)
  have m: "opt_int_size (w_opts w) * 8 = opt_int_size c * 8" by (simp add: env_ok_sel(1) [OF assms(2)])
  have lens: "lens_ok (opt_int_size c * 8) lens" using assms(3) by (simp add: vectors_ok_def fv)
  from bitfield_length_env [OF l w3(1) _ m] lens m
  have w4: "env_ok c w4" "0 \<le> len" "lens_ok (opt_int_size c * 8) (lens @ [len])" by auto
  have r: "fv' = (fs @ [t], qs @ [q], lens @ [len])" "w' = w4"
    using step s t q l env_ok_sel(5) [OF w1] env_ok_sel(5) [OF w3(1)] env_ok_sel(5) [OF w4(1)]
    by auto
  with w4(1) vectors_ok_snoc [OF assms(3) [unfolded fv] w3(2) w4(3)] simple_field [OF w2(3,2)] w2(3) Q [of t]
  show ?thesis by (simp add: fv)
qed


text \<open>What a field of a struct promises besides.\<close>

definition struct_field :: "CGOptions \<Rightarrow> Type \<Rightarrow> bool" where
  "struct_field c f \<longleftrightarrow> get_struct_depth f < max 1 (opt_max_nested_struct_level c)"

lemma depth_nonneg: "0 \<le> foldr max xs (0 :: int)"
  by (induction xs) auto

lemma depth_not_struct: "eType t \<noteq> eStruct \<Longrightarrow> get_struct_depth t = 0"
  by (cases t) simp

lemma foldr_max_le: "\<forall>x \<in> set xs. x \<le> b \<Longrightarrow> 0 \<le> b \<Longrightarrow> foldr max xs (0 :: int) \<le> b"
  by (induction xs) auto

lemma make_one_struct_field_env:
  assumes "make_one_struct_field P ao fv w = Some (fv', w')" "env_ok c w"
    "vectors_ok c (struct_field c) fv" "pb_extra_filters P = Map.empty"
  shows "env_ok c w' \<and> vectors_ok c (struct_field c) fv' \<and> length (fst fv') = Suc (length (fst fv))"
proof -
  obtain fs qs lens where fv: "fv = (fs, qs, lens)" by (cases fv)
  let ?f = "choose_random_type_filter P True ao"
  let ?w = "w\<lparr>tw_typ := None\<rparr>"
  have k: "keeps (env_ok c) (Some ?f)"
    by (rule filter_keeps_env) (rule choose_random_filter_env [OF assms(4)])
  from assms(1) obtain i w1 where i: "rnd_upto (length (tw_AllTypes w)) (Some ?f) None ?w = Some (i, w1)"
    by (auto simp: make_one_struct_field_def fv bind_eq_Some_conv)
  have w: "env_ok c ?w" using assms(2) by simp
  from env.upto_spec [OF i k w] obtain w0 where w1: "env_ok c w1" and w0: "env_ok c w0"
    "?f (int i) w0 = Some (False, w1)"
    by (auto simp: append_trace_def)
  from choose_random_filter_env [OF assms(4) w0(2)] have e: "tw_AllTypes w1 = tw_AllTypes w0"
    by (simp add: same_env_def)
  define t where "t = tw_AllTypes w0 ! i"
  from choose_random_filter_accepts [OF w0(2)] have t: "i < length (tw_AllTypes w0)"
    "eType t \<noteq> eSimple \<longrightarrow> get_struct_depth t < opt_max_nested_struct_level c"
    by (simp_all add: env_ok_sel(1) [OF w0(1)] t_def)
  have b: "built_ok c t" by (rule env_ok_sel(6) [OF w0(1)]) (simp add: t_def t(1))
  from assms(1) i env_ok_sel(5) [OF w1] t(1) e obtain q w2 where q: "field_qualifiers P t w1 = Some (q, w2)"
    by (auto simp: make_one_struct_field_def fv bind_eq_Some_conv t_def)
  from field_qualifiers_env [OF q w1] have w2: "env_ok c w2" "qfer_fits t q" by simp_all
  have r: "fv' = (fs @ [t], qs @ [q], lens @ [- 1])" "w' = w2"
    using assms(1) i env_ok_sel(5) [OF w1] env_ok_sel(5) [OF w2(1)] t(1) e q
    by (auto simp: make_one_struct_field_def fv t_def)
  have "lens_ok (opt_int_size c * 8) (lens @ [- 1])"
    using assms(3) env_ok_sel(3) [OF w1] by (simp add: vectors_ok_def fv lens_ok_snoc)
  moreover have "struct_field c t"
    using t(2) depth_not_struct [of t] by (cases "eType t = eSimple") (auto simp: struct_field_def)
  ultimately show ?thesis
    using vectors_ok_snoc [OF assms(3) [unfolded fv] w2(2)] b w2(1) by (simp add: r fv built_ok_def)
qed

lemma struct_field_simple: "type_ok t \<Longrightarrow> eType t = eSimple \<Longrightarrow> struct_field c t"
  by (simp add: struct_field_def depth_not_struct)

lemma make_normal_struct_fields_env:
  "make_normal_struct_fields P n ao fv w = Some (fv', w') \<Longrightarrow> env_ok c w \<Longrightarrow>
   vectors_ok c (struct_field c) fv \<Longrightarrow> pb_extra_filters P = Map.empty \<Longrightarrow>
   env_ok c w' \<and> vectors_ok c (struct_field c) fv' \<and> length (fst fv') = length (fst fv) + n"
proof (induction P n ao fv w rule: make_normal_struct_fields.induct)
  case (2 P n ao fv w)
  from 2(2) obtain b w1 fv1 w2 where d:
    "(if opt_bitfields (w_opts w) then flip_named P pBitFieldInNormalStructProb w else Some (False, w)) = Some (b, w1)"
    "(if b then make_one_bitfield P fv w1 else make_one_struct_field P ao fv w1) = Some (fv1, w2)"
    "make_normal_struct_fields P n ao fv1 w2 = Some (fv', w')"
    by (auto simp: bind_eq_Some_conv)
  have w1: "env_ok c w1" using d(1) 2(3) by (auto split: if_splits dest: env.named_keeps)
  have "env_ok c w2 \<and> vectors_ok c (struct_field c) fv1 \<and> length (fst fv1) = Suc (length (fst fv))"
    using d(2) make_one_bitfield_env [OF _ w1 2(4) struct_field_simple]
      make_one_struct_field_env [OF _ w1 2(4,5)] by (cases b) auto
  with 2(1) [OF d(1) refl d(2) refl d(3) _ _ 2(5)] show ?case by auto
qed simp

lemma make_full_bitfields_struct_fields_env:
  "make_full_bitfields_struct_fields P n ao fv w = Some (fv', w') \<Longrightarrow> env_ok c w \<Longrightarrow>
   vectors_ok c (struct_field c) fv \<Longrightarrow> pb_extra_filters P = Map.empty \<Longrightarrow>
   env_ok c w' \<and> vectors_ok c (struct_field c) fv' \<and> length (fst fv') = length (fst fv) + n"
proof (induction P n ao fv w rule: make_full_bitfields_struct_fields.induct)
  case (2 P n ao fv w)
  from 2(2) obtain b w1 fv1 w2 where d: "flip_named P pScalarFieldInFullBitFieldsProb w = Some (b, w1)"
    "(if b then make_one_struct_field P ao fv w1 else make_one_bitfield P fv w1) = Some (fv1, w2)"
    "make_full_bitfields_struct_fields P n ao fv1 w2 = Some (fv', w')"
    by (auto simp: bind_eq_Some_conv)
  have w1: "env_ok c w1" by (rule env.named_keeps [OF d(1) 2(3)])
  have "env_ok c w2 \<and> vectors_ok c (struct_field c) fv1 \<and> length (fst fv1) = Suc (length (fst fv))"
    using d(2) make_one_bitfield_env [OF _ w1 2(4) struct_field_simple]
      make_one_struct_field_env [OF _ w1 2(4,5)] by (cases b) auto
  with 2(1) [OF d(1) refl d(2) refl d(3) _ _ 2(5)] show ?case by auto
qed simp

subsection \<open>Structs\<close>

lemma built_struct:
  assumes "vectors_ok c (struct_field c) (fs, qs, lens)" "length fs \<le> nat (opt_max_struct_fields c)"
  shows "built_ok c (Type_aggregate a seq fs True pk qs lens ao im)"
proof -
  have d: "foldr max (map get_struct_depth fs) 0 \<le> max 1 (opt_max_nested_struct_level c) - 1"
    using assms(1) by (intro foldr_max_le) (auto simp: vectors_ok_def struct_field_def)
  from assms show ?thesis
    by (auto simp: built_ok_def Type_aggregate_def plain_info_def vectors_ok_def is_aggregate_def)
      (use d in simp)
qed

lemma new_aggregate_env:
  assumes "new_aggregate fs isStruct pk qs lens ao im w = (t, w')" "env_ok c w"
    "built_ok c (Type_aggregate (tw_next w) (tw_sequence w) fs isStruct pk qs lens ao im)"
  shows "env_ok c (w'\<lparr>tw_AllTypes := tw_AllTypes w' @ [t]\<rparr>) \<and> env_ok c w' \<and> built_ok c t"
proof -
  have t: "t = Type_aggregate (tw_next w) (tw_sequence w) fs isStruct pk qs lens ao im"
    "w' = w\<lparr>tw_next := tw_next w + 1, tw_sequence := tw_sequence w + 1\<rparr>"
    using assms(1) by (auto simp: new_aggregate_def)
  let ?w1 = "w\<lparr>tw_next := tw_next w + 1, tw_AllTypes := tw_AllTypes w @ [t]\<rparr>"
  have id: "t_id t = tw_next w" by (simp add: t Type_aggregate_def plain_info_def)
  have "env_ok c ?w1" by (rule env_add [OF assms(2) _ id]) (use assms(3) t in simp)
  moreover have "env_ok c w'" using assms(2) by (auto simp: t(2) env_ok_def less_SucI)
  ultimately show ?thesis using assms(3) by (simp add: t env_ok_def)
qed

lemma make_random_struct_type_env:
  assumes "make_random_struct_type P w = Some (ty, w')" "env_ok c w" "pb_extra_filters P = Map.empty"
  shows "\<exists>t. ty = Some t \<and> eType t = eStruct \<and> built_ok c t \<and> env_ok c w' \<and>
    env_ok c (w'\<lparr>tw_AllTypes := tw_AllTypes w' @ [t]\<rparr>)"
proof -
  let ?m = "nat (opt_max_struct_fields (w_opts w))"
  from assms(1) obtain n w1 where n: "(if opt_fixed_struct_fields (w_opts w) then Some (?m, w)
      else map_option (\<lambda>(r, w1). (r + 1, w1)) (rnd_upto ?m None None w)) = Some (n, w1)"
    by (auto simp: make_random_struct_type_def bind_eq_Some_conv Let_def)
  have w1: "env_ok c w1" "n \<le> nat (opt_max_struct_fields c)"
    using n assms(2) env.upto_keeps [of ?m None w _ w1] env_ok_sel(1) [OF assms(2)]
    by (auto split: if_splits simp: Suc_leI)
  note step1 = assms(1) [unfolded make_random_struct_type_def Let_def n]
  from step1 env_ok_sel(5) [OF w1(1)] obtain b w2 where b: "(if opt_bitfields (w_opts w1)
      then flip_named P pBitFieldsCreationProb w1 else Some (False, w1)) = Some (b, w2)"
    by (auto simp: bind_eq_Some_conv)
  have w2: "env_ok c w2" using b w1 by (auto split: if_splits dest: env.named_keeps)
  from step1 env_ok_sel(5) [OF w1(1)] b env_ok_sel(5) [OF w2] obtain ao w3 fv w4
    where a: "if_struct_will_have_assign_ops P w2 = Some (ao, w3)" and
      f: "(if b then make_full_bitfields_struct_fields P n ao ([], [], []) w3
           else make_normal_struct_fields P n ao ([], [], []) w3) = Some (fv, w4)"
    by (auto simp: bind_eq_Some_conv)
  have w3: "env_ok c w3"
    using a w2 by (auto simp: if_struct_will_have_assign_ops_def split: if_splits dest: env.named_keeps)
  obtain fs qs lens where fv: "fv = (fs, qs, lens)" by (cases fv)
  have w4: "env_ok c w4" "vectors_ok c (struct_field c) (fs, qs, lens)" "length fs = n"
    using f make_full_bitfields_struct_fields_env [OF _ w3 _ assms(3)]
      make_normal_struct_fields_env [OF _ w3 _ assms(3)] by (cases b; force simp: fv)+
  from step1 env_ok_sel(5) [OF w1(1)] b env_ok_sel(5) [OF w2] a f fv env_ok_sel(5) [OF w4(1)]
  obtain pk w5 where p: "struct_is_packed P fs w4 = Some (pk, w5)" by (auto simp: bind_eq_Some_conv)
  have w5: "env_ok c w5"
    using p w4(1) by (auto simp: struct_is_packed_def split: if_splits dest: env.flip_keeps)
  from step1 env_ok_sel(5) [OF w1(1)] b env_ok_sel(5) [OF w2] a f fv env_ok_sel(5) [OF w4(1)] p env_ok_sel(5) [OF w5]
  obtain im where "(let (t, w6) = new_aggregate fs True pk qs lens ao im w5 in Some (Some t, w6)) = Some (ty, w')"
    by (auto simp: bind_eq_Some_conv)
  then obtain t where t: "new_aggregate fs True pk qs lens ao im w5 = (t, w')" "ty = Some t"
    by (auto simp: Let_def split: prod.splits)
  have "built_ok c (Type_aggregate (tw_next w5) (tw_sequence w5) fs True pk qs lens ao im)"
    by (rule built_struct [OF w4(2)]) (simp add: w4(3) w1(2))
  from new_aggregate_env [OF t(1) w5 this] t show ?thesis
    by (auto simp: new_aggregate_def Type_aggregate_def plain_info_def)
qed


subsection \<open>Unions\<close>

definition union_field :: "Type \<Rightarrow> bool" where
  "union_field f \<longleftrightarrow> eType f \<noteq> eUnion \<and> has_bitfields f = Some False"

definition union_candidate :: "Type list \<Rightarrow> Type \<Rightarrow> bool" where
  "union_candidate types t \<longleftrightarrow> t \<in> set types \<and> \<not> contain_pointer_field t \<and> eType t \<noteq> eUnion \<and>
     (eType t = eStruct \<longrightarrow> has_bitfields t = Some False)"

lemma union_candidates_ok:
  assumes "union_candidates types = Some (ns, ss)"
  shows "\<forall>t \<in> set (ns @ ss). union_candidate types t"
proof -
  have "case (ns, ss) of (ns, ss) \<Rightarrow> \<forall>t \<in> set (ns @ ss). union_candidate types t"
    using assms [unfolded union_candidates_def]
  proof (rule fold_opt_invariant)
    fix t s s1
    assume t: "t \<in> set types" and s: "case s of (ns, ss) \<Rightarrow> \<forall>t \<in> set (ns @ ss). union_candidate types t"
      and step: "(case s of (nonstruct, structs) \<Rightarrow>
         if contain_pointer_field t then Some (nonstruct, structs)
         else if eType t \<noteq> eStruct \<and> eType t \<noteq> eUnion then Some (nonstruct @ [t], structs)
         else do {
           b \<leftarrow> has_bitfields t;
           Some (if b \<or> ti_implicit_assign_ops (info t) then (nonstruct, structs)
                 else if eType t = eStruct then (nonstruct, structs @ [t])
                 else (nonstruct, structs))
         }) = Some s1"
    obtain ns ss where ss: "s = (ns, ss)" by (cases s)
    from step t s show "case s1 of (ns, ss) \<Rightarrow> \<forall>t \<in> set (ns @ ss). union_candidate types t"
      by (auto simp: ss union_candidate_def bind_eq_Some_conv split: if_splits)
  qed simp
  then show ?thesis by simp
qed

lemma pick_union_field_spec:
  assumes "pick_union_field P ns ss w = Some y"
  shows "pb_extra_filters P = Map.empty \<longrightarrow> env_ok c w \<longrightarrow> fst y \<in> set (ns @ ss) \<and> env_ok c (snd y)"
proof (rule pick_union_field.raw_induct [where P = "\<lambda>P ns ss w y. pb_extra_filters P = Map.empty \<longrightarrow>
    env_ok c w \<longrightarrow> fst y \<in> set (ns @ ss) \<and> env_ok c (snd y)", OF _ assms])
  fix pk P ns ss w y
  assume ih: "\<And>P ns ss w y. pk P ns ss w = Some y \<Longrightarrow> pb_extra_filters P = Map.empty \<longrightarrow>
      env_ok c w \<longrightarrow> fst y \<in> set (ns @ ss) \<and> env_ok c (snd y)"
    and body: "do {
       (s, w1) \<leftarrow> (if ss \<noteq> [] then pure_rnd_flipcoin 15 None None w else Some (False, w));
       if s
       then do {
         (i, w2) \<leftarrow> pure_rnd_upto (length ss) None None w1;
         t \<leftarrow> vec_get ss i;
         assert_opt (eType t = eStruct);
         Some (t, w2)
       }
       else do {
         (i, w2) \<leftarrow> pure_rnd_upto (length ns) None None w1;
         t \<leftarrow> vec_get ns i;
         (out, w3) \<leftarrow> (if eType t = eSimple then simple_types_filter P t w2 else Some (False, w2));
         if out then pk P ns ss w3 else Some (t, w3)
       }
     } = Some y"
  show "pb_extra_filters P = Map.empty \<longrightarrow> env_ok c w \<longrightarrow> fst y \<in> set (ns @ ss) \<and> env_ok c (snd y)"
  proof (intro impI)
    assume P: "pb_extra_filters P = Map.empty" and w: "env_ok c w"
    from body obtain s w1 where s: "(if ss \<noteq> [] then pure_rnd_flipcoin 15 None None w
        else Some (False, w)) = Some (s, w1)"
      by (auto simp: bind_eq_Some_conv)
    have w1: "env_ok c w1" using s w by (auto split: if_splits dest: env.pure_keeps)
    show "fst y \<in> set (ns @ ss) \<and> env_ok c (snd y)"
    proof (cases s)
      case True
      with body s obtain i w2 where i: "pure_rnd_upto (length ss) None None w1 = Some (i, w2)"
        by (auto simp: bind_eq_Some_conv)
      with body s True have "i < length ss" "y = (ss ! i, w2)" by (auto simp: bind_eq_Some_conv)
      with env.pure_keeps(1) [OF i w1] show ?thesis by simp
    next
      case False
      with body s obtain i w2 where i: "pure_rnd_upto (length ns) None None w1 = Some (i, w2)"
        by (auto simp: bind_eq_Some_conv)
      have w2: "env_ok c w2" using env.pure_keeps(1) [OF i w1] by simp
      from body s False i obtain out w3 where l: "i < length ns" and
        o: "(if eType (ns ! i) = eSimple then simple_types_filter P (ns ! i) w2 else Some (False, w2)) = Some (out, w3)"
        and rest: "(if out then pk P ns ss w3 else Some (ns ! i, w3)) = Some y"
        by (auto simp: bind_eq_Some_conv split del: if_split)
      have "w3 = w2" using o simple_types_filter_silent [OF P] by (auto split: if_splits)
      with rest l w2 ih [of P ns ss w3 y] P show ?thesis by (cases out) auto
    qed
  qed
qed

lemma has_bitfields_simple: "type_ok t \<Longrightarrow> \<not> is_aggregate t \<Longrightarrow> has_bitfields t = Some False"
  using type_ok_no_fields [of t] by (cases t) simp

lemma make_one_union_field_env:
  assumes "make_one_union_field P fv w = Some (fv', w')" "env_ok c w" "vectors_ok c union_field fv"
    "pb_extra_filters P = Map.empty"
  shows "env_ok c w' \<and> vectors_ok c union_field fv' \<and> length (fst fv') = Suc (length (fst fv))"
proof -
  obtain fs qs lens where fv: "fv = (fs, qs, lens)" by (cases fv)
  from assms(1) obtain b w1 where b: "(if opt_bitfields (w_opts w) \<and> \<not> opt_ccomp (w_opts w)
      then flip_named P pBitFieldInNormalStructProb w else Some (False, w)) = Some (b, w1)"
    by (auto simp: make_one_union_field_def fv bind_eq_Some_conv)
  have w1: "env_ok c w1" using b assms(2) by (auto split: if_splits dest: env.named_keeps)
  show ?thesis
  proof (cases b)
    case True
    have Q: "union_field t" if "type_ok t" "eType t = eSimple" for t
      using has_bitfields_simple [OF that(1)] that(2) by (simp add: union_field_def is_aggregate_def)
    from assms(1) b True have "make_one_bitfield P fv w1 = Some (fv', w')"
      by (simp add: make_one_union_field_def fv)
    from make_one_bitfield_env [OF this w1 assms(3) Q] show ?thesis by simp
  next
    case False
    from assms(1) b False obtain ns ss t w2 q w3 where u: "union_candidates (tw_AllTypes w1) = Some (ns, ss)"
      and p: "pick_union_field P ns ss w1 = Some (t, w2)" and q: "field_qualifiers P t w2 = Some (q, w3)"
      by (auto simp: make_one_union_field_def fv bind_eq_Some_conv)
    from pick_union_field_spec [OF p, of c] assms(4) w1 have t: "t \<in> set (ns @ ss)" "env_ok c w2" by simp_all
    from union_candidates_ok [OF u] t(1) have tc: "union_candidate (tw_AllTypes w1) t" by blast
    with env_ok_sel(6) [OF w1, of t] have bt: "built_ok c t" by (simp add: union_candidate_def)
    from field_qualifiers_env [OF q t(2)] have w3: "env_ok c w3" "qfer_fits t q" by simp_all
    have r: "fv' = (fs @ [t], qs @ [q], lens @ [- 1])" "w' = w3"
      using assms(1) b False u p q env_ok_sel(5) [OF w3(1)] by (auto simp: make_one_union_field_def fv)
    have "lens_ok (opt_int_size c * 8) (lens @ [- 1])"
      using assms(3) env_ok_sel(3) [OF w1] by (simp add: vectors_ok_def fv lens_ok_snoc)
    moreover have "union_field t"
      using tc bt has_bitfields_simple [of t]
      by (cases "eType t = eStruct") (auto simp: union_field_def union_candidate_def built_ok_def is_aggregate_def)
    ultimately show ?thesis
      using vectors_ok_snoc [OF assms(3) [unfolded fv] w3(2)] bt w3(1) by (simp add: r fv built_ok_def)
  qed
qed

lemma make_union_fields_env:
  "make_union_fields P n fv w = Some (fv', w') \<Longrightarrow> env_ok c w \<Longrightarrow> vectors_ok c union_field fv \<Longrightarrow>
   pb_extra_filters P = Map.empty \<Longrightarrow>
   env_ok c w' \<and> vectors_ok c union_field fv' \<and> length (fst fv') = length (fst fv) + n"
proof (induction P n fv w rule: make_union_fields.induct)
  case (2 P n fv w)
  from 2(2) obtain fv1 w1 b where d: "make_one_union_field P fv w = Some (fv1, w1)" "fst fv1 \<noteq> []"
    "has_bitfields (last (fst fv1)) = Some b" "\<not> b" "make_union_fields P n fv1 w1 = Some (fv', w')"
    by (auto simp: bind_eq_Some_conv)
  from make_one_union_field_env [OF d(1) 2(3,4,5)] d 2(1) [OF d(1) refl _ d(3) _ d(5) _ _ 2(5)]
  show ?case by auto
qed simp


lemma built_union:
  assumes "vectors_ok c union_field (fs, qs, lens)" "length fs \<le> nat (opt_max_union_fields c)" "fs \<noteq> []"
  shows "built_ok c (Type_aggregate a seq fs False pk qs lens ao im)"
  using assms
  by (auto simp: built_ok_def Type_aggregate_def plain_info_def vectors_ok_def is_aggregate_def union_field_def)

lemma make_random_union_type_env:
  assumes "make_random_union_type P w = Some (ty, w')" "env_ok c w" "pb_extra_filters P = Map.empty"
  shows "\<exists>t. ty = Some t \<and> eType t = eUnion \<and> built_ok c t \<and> env_ok c w' \<and>
    env_ok c (w'\<lparr>tw_AllTypes := tw_AllTypes w' @ [t]\<rparr>)"
proof -
  let ?m = "nat (opt_max_union_fields (w_opts w))"
  from assms(1) obtain r w1 where r: "rnd_upto ?m None None w = Some (r, w1)"
    by (auto simp: make_random_union_type_def bind_eq_Some_conv)
  from env.upto_keeps [OF r assms(2)] env_ok_sel(1) [OF assms(2)]
  have w1: "env_ok c w1" "r < nat (opt_max_union_fields c)" by simp_all
  from assms(1) r env_ok_sel(5) [OF w1(1)] obtain fv w2 ao w3
    where f: "make_union_fields P (Suc r) ([], [], []) w1 = Some (fv, w2)"
      and a: "if_union_will_have_assign_ops P w2 = Some (ao, w3)"
    by (auto simp: make_random_union_type_def bind_eq_Some_conv simp del: make_union_fields.simps)
  obtain fs qs lens where fv: "fv = (fs, qs, lens)" by (cases fv)
  from make_union_fields_env [OF f w1(1) _ assms(3)]
  have w2: "env_ok c w2" "vectors_ok c union_field (fs, qs, lens)" "length fs = Suc r" by (simp_all add: fv)
  have w3: "env_ok c w3"
    using a w2(1) by (auto simp: if_union_will_have_assign_ops_def split: if_splits dest: env.named_keeps)
  from assms(1) r env_ok_sel(5) [OF w1(1)] f a fv
  obtain im where "(let (t, w4) = new_aggregate fs False False qs lens ao im w3 in Some (Some t, w4)) = Some (ty, w')"
    by (auto simp: make_random_union_type_def bind_eq_Some_conv simp del: make_union_fields.simps)
  then obtain t where t: "new_aggregate fs False False qs lens ao im w3 = (t, w')" "ty = Some t"
    by (auto simp: Let_def split: prod.splits)
  have "built_ok c (Type_aggregate (tw_next w3) (tw_sequence w3) fs False False qs lens ao im)"
    by (rule built_union [OF w2(2)]) (use w2(3) w1(2) in auto)
  from new_aggregate_env [OF t(1) w3 this] t show ?thesis
    by (auto simp: new_aggregate_def Type_aggregate_def plain_info_def)
qed

subsection \<open>All types\<close>

lemma more_types_env:
  assumes "more_types P mk w = Some w'" "env_ok c w"
    and mk: "\<And>w ty w'. mk w = Some (ty, w') \<Longrightarrow> env_ok c w \<Longrightarrow>
      \<exists>t. ty = Some t \<and> env_ok c (w'\<lparr>tw_AllTypes := tw_AllTypes w' @ [t]\<rparr>)"
  shows "env_ok c w'"
proof -
  have "(\<forall>w ty w'. mk w = Some (ty, w') \<longrightarrow> env_ok c w \<longrightarrow>
      (\<exists>t. ty = Some t \<and> env_ok c (w'\<lparr>tw_AllTypes := tw_AllTypes w' @ [t]\<rparr>))) \<longrightarrow>
      env_ok c w \<longrightarrow> env_ok c w'"
  proof (rule more_types.raw_induct [where P = "\<lambda>tb mk w w'. (\<forall>w ty w'. mk w = Some (ty, w') \<longrightarrow> env_ok c w \<longrightarrow>
      (\<exists>t. ty = Some t \<and> env_ok c (w'\<lparr>tw_AllTypes := tw_AllTypes w' @ [t]\<rparr>))) \<longrightarrow>
      env_ok c w \<longrightarrow> env_ok c w'", OF _ assms(1)], intro impI)
    fix mt tb mk w w'
    assume ih: "\<And>tb mk w w'. mt tb mk w = Some w' \<Longrightarrow> (\<forall>w ty w'. mk w = Some (ty, w') \<longrightarrow> env_ok c w \<longrightarrow>
        (\<exists>t. ty = Some t \<and> env_ok c (w'\<lparr>tw_AllTypes := tw_AllTypes w' @ [t]\<rparr>))) \<longrightarrow> env_ok c w \<longrightarrow> env_ok c w'"
      and body: "do {
       (b, w1) \<leftarrow> MoreTypesProbability tb w;
       if \<not> b then Some w1
       else do {
         (ty, w2) \<leftarrow> mk w1;
         t \<leftarrow> ty;
         mt tb mk (w2\<lparr>tw_AllTypes := tw_AllTypes w2 @ [t]\<rparr>)
       } } = Some w'"
      and mk: "\<forall>w ty w'. mk w = Some (ty, w') \<longrightarrow> env_ok c w \<longrightarrow>
        (\<exists>t. ty = Some t \<and> env_ok c (w'\<lparr>tw_AllTypes := tw_AllTypes w' @ [t]\<rparr>))"
      and w: "env_ok c w"
    from body obtain b w1 where b: "MoreTypesProbability tb w = Some (b, w1)" by (auto simp: bind_eq_Some_conv)
    have w1: "env_ok c w1"
      using b w by (auto simp: MoreTypesProbability_def split: if_splits dest: env.named_keeps)
    show "env_ok c w'"
    proof (cases b)
      case False
      with body b w1 show ?thesis by simp
    next
      case True
      with body b obtain t w2 where m: "mk w1 = Some (Some t, w2)"
        "mt tb mk (w2\<lparr>tw_AllTypes := tw_AllTypes w2 @ [t]\<rparr>) = Some w'"
        by (auto simp: bind_eq_Some_conv)
      with mk w1 have "env_ok c (w2\<lparr>tw_AllTypes := tw_AllTypes w2 @ [t]\<rparr>)" by blast
      with ih [OF m(2)] mk show ?thesis by blast
    qed
  qed
  with assms(2) mk show ?thesis by blast
qed

lemma generate_simple_env:
  assumes "env_ok c w"
  shows "env_ok c (GenerateSimpleTypes w)"
proof -
  let ?add = "\<lambda>w st. let (t, w1) = new_simple st w in w1\<lparr>tw_AllTypes := tw_AllTypes w1 @ [t]\<rparr>"
  have step: "env_ok c (?add w st)" if "env_ok c w" "st \<noteq> MAX_SIMPLE_TYPES" for st and w :: "'a tworld_scheme"
    using env_add [OF that(1) built_ok_simple [OF that(2)], of "tw_next w"]
    by (simp add: new_simple_def Type_simple_def plain_info_def)
  have all: "env_ok c (foldl ?add w sts)" if "env_ok c w" "MAX_SIMPLE_TYPES \<notin> set sts" for sts and w :: "'a tworld_scheme"
    using that
  proof (induction sts arbitrary: w)
    case (Cons st sts)
    then have "env_ok c (?add w st)" by (intro step) auto
    from Cons.IH [OF this] Cons.prems(2) show ?case by simp
  qed simp
  have "\<exists>sts. MAX_SIMPLE_TYPES \<notin> set sts \<and> GenerateSimpleTypes w =
      (let w1 = foldl ?add w sts; (v, w2) = new_simple eVoid w1 in w2\<lparr>tw_void := Some v\<rparr>)"
    by (intro exI conjI [rotated], rule GenerateSimpleTypes_def) simp
  then obtain sts where sts: "MAX_SIMPLE_TYPES \<notin> set sts" "GenerateSimpleTypes w =
      (let w1 = foldl ?add w sts; (v, w2) = new_simple eVoid w1 in w2\<lparr>tw_void := Some v\<rparr>)"
    by blast
  from all [OF assms sts(1)] show ?thesis
    by (auto simp: sts(2) Let_def new_simple_def env_ok_def less_SucI)
qed

lemma generate_all_env:
  assumes "GenerateAllTypes P w = Some w'" "env_ok c w" "pb_extra_filters P = Map.empty"
    "\<not> opt_dfs_exhaustive c"
  shows "env_ok c w'"
proof -
  let ?w = "GenerateSimpleTypes w"
  have o: "w_opts x = c" if "env_ok c x" for x :: "'a tworld_scheme" by (rule env_ok_sel(1) [OF that])
  have w: "env_ok c ?w" by (rule generate_simple_env [OF assms(2)])
  from assms(1,4) o [OF w] o [OF assms(2)] obtain w2 where
    s: "(if opt_use_struct c then more_types P (make_random_struct_type P) ?w else Some ?w) = Some w2"
    and u: "(if opt_use_union (w_opts w2) then more_types P (make_random_union_type P) w2 else Some w2) = Some w'"
    by (auto simp: GenerateAllTypes_def Let_def bind_eq_Some_conv)
  have "env_ok c w2"
    using s w more_types_env [of P "make_random_struct_type P" ?w w2 c]
      make_random_struct_type_env [OF _ _ assms(3)] by (auto split: if_splits) blast
  then show ?thesis
    using u more_types_env [of P "make_random_union_type P" w2 w' c]
      make_random_union_type_env [OF _ _ assms(3)] by (auto split: if_splits) blast
qed


section \<open>Pointers\<close>

definition pointers_bounded :: "CGOptions \<Rightarrow> 'z tworld_scheme \<Rightarrow> bool" where
  "pointers_bounded c w \<longleftrightarrow>
     (\<forall>d \<in> set (tw_derived w). int (get_indirect_level d) \<le> max 1 (opt_max_indirect_level c))"

lemma same_env_bounded: "same_env w w' \<Longrightarrow> pointers_bounded c w \<Longrightarrow> pointers_bounded c w'"
  by (simp add: same_env_def pointers_bounded_def)

lemma points_to_id: "pointer_ok d \<Longrightarrow> points_to d t \<longleftrightarrow> pointee_id d = t_id t"
  by (auto simp: pointer_ok_def points_to_def pointee_id_def same_type_def)

lemma new_pointer_sel [simp]:
  "t_id (Type_pointer a t) = a" "pointee_id (Type_pointer a t) = t_id t" "points_to (Type_pointer a t) t"
  "get_indirect_level (Type_pointer a t) = Suc (get_indirect_level t)"
  "pointer_ok (Type_pointer a t) \<longleftrightarrow> type_ok t"
  by (simp_all add: Type_pointer_def plain_info_def pointee_id_def points_to_def pointer_ok_def)

lemma find_pointer_type_env:
  assumes "find_pointer_type t True w = (ty, w')" "env_ok c w" "pointers_bounded c w" "type_ok t"
    "int (get_indirect_level t) < max 1 (opt_max_indirect_level c)"
  shows "\<exists>p \<in> set (tw_derived w'). ty = Some p \<and> points_to p t \<and> env_ok c w' \<and> pointers_bounded c w'"
proof (cases "find (\<lambda>d. points_to d t) (tw_derived w)")
  case (Some d)
  from Some have "d \<in> set (tw_derived w)" "points_to d t" by (auto simp: find_Some_iff)
  moreover have "ty = Some d" "w' = w" using Some assms(1) by (simp_all add: find_pointer_type_def)
  ultimately show ?thesis using assms(2,3) by blast
next
  case None
  let ?p = "Type_pointer (tw_next w) t"
  have r: "ty = Some ?p" "w' = w\<lparr>tw_next := tw_next w + 1, tw_derived := tw_derived w @ [?p]\<rparr>"
    using assms(1) None by (auto simp: find_pointer_type_def new_pointer_def)
  have fresh: "pointee_id d \<noteq> t_id t" if "d \<in> set (tw_derived w)" for d
    using None that points_to_id [of d t] env_ok_sel(9) [OF assms(2) that] by (auto simp: find_None_iff)
  have less: "\<forall>u \<in> set (tw_AllTypes w @ tw_derived w). t_id u < tw_next w"
    using assms(2) by (simp add: env_ok_def)
  then have "tw_next w \<notin> t_id ` set (tw_AllTypes w)" "tw_next w \<notin> t_id ` set (tw_derived w)" by auto
  moreover from less have "\<forall>u \<in> set (tw_AllTypes w @ tw_derived w). t_id u < tw_next w + 1"
    by (metis Suc_eq_plus1 less_SucI)
  moreover have "t_id t \<notin> pointee_id ` set (tw_derived w)" using fresh by (metis imageE)
  ultimately have "env_ok c w'" using assms(2,4) by (simp add: r(2) env_ok_def)
  moreover have "pointers_bounded c w'" using assms(3,5) by (auto simp: r(2) pointers_bounded_def)
  ultimately show ?thesis by (simp add: r)
qed

lemma pointee_unique:
  assumes "env_ok c w" "p \<in> set (tw_derived w)" "d \<in> set (tw_derived w)" "points_to p t" "points_to d t"
  shows "p = d"
  using assms env_ok_sel(8) [OF assms(1)] points_to_id [OF env_ok_sel(9)]
  by (metis distinct_map inj_onD)

interpretation ptrs: default_property "\<lambda>w. env_ok c w \<and> pointers_bounded c w" for c
  by unfold_locales (auto simp: env_ok_def pointers_bounded_def)

lemma choose_random_filter_typ:
  assumes "pb_extra_filters P = Map.empty" "choose_random_type_filter P fv ao v w = Some (b, w')"
  shows "nat v < length (tw_AllTypes w) \<and> tw_typ w' = Some (tw_AllTypes w ! nat v)"
  using assms(2)
  by (auto simp: choose_random_type_filter_def bind_eq_Some_conv Let_def split: if_splits
      dest: simple_types_filter_silent [OF assms(1)])

lemma choose_random_env:
  assumes "choose_random P w = Some (ty, w')" "env_ok c w" "pointers_bounded c w"
    "pb_extra_filters P = Map.empty"
  shows "\<exists>t. ty = Some t \<and> built_ok c t \<and> env_ok c w' \<and> pointers_bounded c w'"
proof -
  let ?f = "choose_random_type_filter P False False" and ?w = "w\<lparr>tw_typ := None\<rparr>"
  have k: "keeps (\<lambda>w. env_ok c w \<and> pointers_bounded c w) (Some ?f)"
    unfolding keeps_def using choose_random_filter_env [OF assms(4)] same_env_ok same_env_bounded by blast
  from assms(1) obtain r w1 where r: "rnd_upto (length (tw_AllTypes w)) (Some ?f) None ?w = Some (r, w1)"
    by (auto simp: choose_random_def bind_eq_Some_conv)
  have w: "env_ok c ?w \<and> pointers_bounded c ?w" using assms(2,3) by (simp add: pointers_bounded_def)
  from ptrs.upto_spec [OF r k w] obtain w0 where w1: "env_ok c w1" "pointers_bounded c w1"
    and w0: "env_ok c w0" "?f (int r) w0 = Some (False, w1)"
    by (auto simp: append_trace_def)
  from choose_random_filter_typ [OF assms(4) w0(2)] have t: "r < length (tw_AllTypes w0)"
    "tw_typ w1 = Some (tw_AllTypes w0 ! r)" by simp_all
  then have b: "built_ok c (tw_AllTypes w0 ! r)" using env_ok_sel(6) [OF w0(1)] by simp
  from assms(1) r t env_ok_sel(5) [OF w1(1)] have "ty = Some (tw_AllTypes w0 ! r)"
    "use_type (tw_AllTypes w0 ! r) w1 = Some w'"
    by (auto simp: choose_random_def bind_eq_Some_conv)
  with b use_type_env [of _ w1 w'] same_env_ok [of w1 w' c] same_env_bounded [of w1 w' c] w1
  show ?thesis by blast
qed

lemma get_simple_type_derived: "get_simple_type st w = Some (t, w') \<Longrightarrow> tw_derived w' = tw_derived w"
  by (auto simp: get_simple_type_def new_simple_def split: option.splits list.splits if_splits)

lemma built_level: "built_ok c t \<Longrightarrow> get_indirect_level t = 0"
  by (cases t) (auto simp: built_ok_def is_aggregate_def)

lemma pointer_to_basic_env:
  assumes "pointer_to_basic P w = Some (ty, w')" "env_ok c w" "pointers_bounded c w"
    "pb_extra_filters P = Map.empty"
  shows "\<exists>p \<in> set (tw_derived w'). ty = Some p \<and> env_ok c w' \<and> pointers_bounded c w'"
proof -
  from assms(1) obtain ty1 w1 where c1: "choose_random P w = Some (ty1, w1)"
    by (auto simp: pointer_to_basic_def bind_eq_Some_conv)
  from choose_random_env [OF this assms(2-4)] obtain t where t: "ty1 = Some t" "built_ok c t" and
    w1: "env_ok c w1" "pointers_bounded c w1" by blast
  from assms(1) c1 t(1) env_ok_sel(5) [OF w1(1)] obtain u w2 where
    u: "(if eType t = eSimple then get_int_type w1 else Some (t, w1)) = Some (u, w2)"
    and f: "find_pointer_type u True w2 = (ty, w')"
    by (auto simp: pointer_to_basic_def bind_eq_Some_conv split del: if_split)
  have w2: "env_ok c w2" "built_ok c u" "pointers_bounded c w2"
    using u t(2) w1 get_simple_type_env [of eInt w1 u w2 c] get_simple_type_derived [of eInt w1 u w2]
    by (auto simp: get_int_type_def pointers_bounded_def split: if_splits)
  have "type_ok u" using w2(2) by (simp add: built_ok_def)
  moreover have "int (get_indirect_level u) < max 1 (opt_max_indirect_level c)"
    by (simp add: built_level [OF w2(2)])
  ultimately show ?thesis using find_pointer_type_env [OF f w2(1,3)] by blast
qed

lemma make_random_pointer_type_env:
  assumes "make_random_pointer_type P w = Some (ty, w')" "env_ok c w" "pointers_bounded c w"
    "pb_extra_filters P = Map.empty"
  shows "\<exists>p \<in> set (tw_derived w'). ty = Some p \<and> env_ok c w' \<and> pointers_bounded c w'"
proof -
  from assms(1) obtain b w1 where b: "rnd_flipcoin 20 None None w = Some (b, w1)"
    by (auto simp: make_random_pointer_type_def bind_eq_Some_conv)
  have w1: "env_ok c w1" "pointers_bounded c w1" using ptrs.flip_keeps [OF b] assms(2,3) by blast+
  show ?thesis
  proof (cases "b \<and> length (tw_derived w1) > 0")
    case False
    with assms(1) b env_ok_sel(5) [OF w1(1)] have "pointer_to_basic P w1 = Some (ty, w')"
      by (auto simp: make_random_pointer_type_def split: if_splits)
    from pointer_to_basic_env [OF this w1 assms(4)] show ?thesis .
  next
    case True
    with assms(1) b env_ok_sel(5) [OF w1(1)] obtain r w2 where
      r: "rnd_upto (length (tw_derived w1)) None None w1 = Some (r, w2)"
      by (auto simp: make_random_pointer_type_def bind_eq_Some_conv)
    from ptrs.upto_keeps [OF r] w1 have w2: "env_ok c w2" "pointers_bounded c w2" by blast+
    from assms(1) b True env_ok_sel(5) [OF w1(1)] r env_ok_sel(5) [OF w2(1)] obtain t where
      t: "vec_get (tw_derived w2) r = Some t" "(if int (get_indirect_level t) < opt_max_indirect_level (w_opts w2)
         then Some (find_pointer_type t True w2) else pointer_to_basic P w2) = Some (ty, w')"
      by (auto simp: make_random_pointer_type_def bind_eq_Some_conv split del: if_split)
    from t(1) have "type_ok t" using env_ok_sel(9) [OF w2(1), of t] by (auto simp: pointer_ok_def)
    with t(2) w2 find_pointer_type_env [of t w2 ty w' c] pointer_to_basic_env [OF _ w2 assms(4)]
    show ?thesis by (auto simp: env_ok_sel(1) [OF w2(1)] split: if_splits)
  qed
qed

section \<open>What the environment promises\<close>

text \<open>
  C0: in random mode the types of a program are well-formed: \<open>GenerateAllTypes\<close> adds to a well-formed
  environment simple types, structs and unions only; every struct has at most \<open>max_struct_fields\<close>
  fields and is nested at most \<open>max_nested_struct_level\<close> deep (or flat), no field is or contains a
  pointer, a union has no union and no struct with bit-fields as a field, bit-field lengths are below
  the width of an \<open>int\<close> with no zero in front or after another zero, the qualifiers of each field
  have as many levels as its type, and every type has its own address.
\<close>

theorem GenerateAllTypes_well_formed:
  assumes "GenerateAllTypes P w = Some w'" "env_ok c w" "pb_extra_filters P = Map.empty"
    "\<not> opt_dfs_exhaustive c"
  shows "(\<forall>t \<in> set (tw_AllTypes w'). built_ok c t) \<and> distinct (map t_id (tw_AllTypes w'))"
  using generate_all_env [OF assms] by (simp add: env_ok_def)

text \<open>
  C0: in random mode a random pointer type is one of the derived types of the environment, of at most
  \<open>max_indirect_level\<close> levels (one level where no pointer is asked for), and the environment
  keeps its invariant: there is one pointer type for each type pointed to.
\<close>

theorem make_random_pointer_type_unique:
  assumes "make_random_pointer_type P w = Some (ty, w')" "env_ok c w" "pointers_bounded c w"
    "pb_extra_filters P = Map.empty"
  shows "env_ok c w' \<and> pointers_bounded c w' \<and> (\<exists>p. ty = Some p \<and> eType p = ePointer \<and>
    {d \<in> set (tw_derived w'). pointee_id d = pointee_id p} = {p} \<and>
    int (get_indirect_level p) \<le> max 1 (opt_max_indirect_level c))"
proof -
  from make_random_pointer_type_env [OF assms] obtain p where p: "p \<in> set (tw_derived w')" "ty = Some p"
    and w': "env_ok c w'" "pointers_bounded c w'" by blast
  have "d = p" if "d \<in> set (tw_derived w')" "pointee_id d = pointee_id p" for d
    using that p(1) env_ok_sel(8) [OF w'(1)] by (metis distinct_map inj_onD)
  with p(1) have "{d \<in> set (tw_derived w'). pointee_id d = pointee_id p} = {p}" by blast
  with p w' env_ok_sel(9) [OF w'(1) p(1)] show ?thesis
    by (auto simp: pointer_ok_def pointers_bounded_def)
qed

subsection \<open>Witnesses\<close>

text \<open>An empty environment with the default options, and probabilities that never ask for more.\<close>

definition example_env :: "CGOptions \<Rightarrow> Type list \<Rightarrow> nat \<Rightarrow> tworld" where
  "example_env c ts n = world.extend
     \<lparr>w_opts = c, w_err = SUCCESS, w_rand48 = srand48 0, w_seed = 0, w_default = Some default_new,
      w_dfs = None, w_generators = [rDefaultRndNumGenerator], w_curr = Some rDefaultRndNumGenerator\<rparr>
     (tworld.fields ts [] (\<lambda>st. None) None 0 n [] None bookkeeper_init)"

definition example_probs :: "'z Probabilities" where
  "example_probs = Probabilities_empty\<lparr>pb_probabilities := [(pMoreStructUnionProb,
     Single \<lparr>se_sname = [], se_pname = pMoreStructUnionProb, se_default_val = 0, se_val = 0\<rparr>)]\<rparr>"

definition example_options :: CGOptions where
  "example_options = CGOptions_static\<lparr>opt_random_based := True, opt_dfs_exhaustive := False,
     opt_use_struct := True, opt_use_union := True, opt_int_size := 4,
     opt_max_struct_fields := 10, opt_max_union_fields := 5, opt_max_nested_struct_level := 3\<rparr>"

lemma example_env_sel [simp]:
  "w_opts (example_env c ts n) = c" "w_err (example_env c ts n) = SUCCESS"
  "w_curr (example_env c ts n) = Some rDefaultRndNumGenerator"
  "w_default (example_env c ts n) = Some default_new"
  "tw_AllTypes (example_env c ts n) = ts" "tw_derived (example_env c ts n) = []"
  "tw_simple (example_env c ts n) = (\<lambda>st. None)" "tw_next (example_env c ts n) = n"
  by (simp_all add: example_env_def world.defs tworld.defs)

lemma example_options_sel [simp]:
  "is_random example_options" "0 < opt_int_size example_options"
  "\<not> opt_dfs_exhaustive example_options"
  "opt_use_struct example_options" "opt_use_union example_options"
  by (simp_all add: example_options_def is_random_def)

lemma flip_zero:
  assumes "w_curr w = Some rDefaultRndNumGenerator" "w_default w = Some d"
  shows "\<exists>s. rnd_flipcoin 0 None None w = Some (False, inc_rand_depth w\<lparr>w_rand48 := s\<rparr>)"
proof -
  have "\<exists>g s. genrand (inc_rand_depth w) = (g, inc_rand_depth w\<lparr>w_rand48 := s\<rparr>)"
    unfolding genrand_def case_prod_beta Let_def by blast
  then show ?thesis using assms
    by (auto simp: rnd_flipcoin_def default_rnd_flipcoin_def flip_by_filter_def default_add_number_def)
qed

theorem GenerateAllTypes_well_formed_witness:
  "\<exists>w'. GenerateAllTypes (example_probs :: unit tprobs) (example_env example_options [] 0) = Some w' \<and>
     (\<forall>t \<in> set (tw_AllTypes w'). built_ok example_options t)"
proof -
  let ?P = "example_probs :: unit tprobs" and ?w = "example_env example_options [] 0"
  have p: "get_prob ?P pMoreStructUnionProb = Some 0" "pb_extra_filters ?P = Map.empty"
    by (simp_all add: example_probs_def Probabilities_empty_def get_prob_def elem_get_prob_def
        Single_get_prob_def)
  have ok: "env_ok example_options ?w" by (simp add: env_ok_def)
  define w1 where "w1 = GenerateSimpleTypes ?w"
  have w1: "env_ok example_options w1" using generate_simple_env [OF ok] by (simp add: w1_def)
  have l1: "length (tw_AllTypes w1) = 13" "w_default w1 = Some default_new"
    by (simp_all add: w1_def GenerateSimpleTypes_def new_simple_def Let_def)
  have stop: "\<exists>w2. more_types ?P mk w = Some w2 \<and> w_default w2 \<noteq> None \<and> env_ok example_options w2
      \<and> length (tw_AllTypes w2) = 13"
    if w: "env_ok example_options w" "w_default w = Some d" "length (tw_AllTypes w) = 13" for w d mk
  proof -
    from flip_zero [OF env_ok_sel(4) [OF w(1)] w(2)] obtain s where
      f: "rnd_flipcoin 0 None None w = Some (False, inc_rand_depth w\<lparr>w_rand48 := s\<rparr>)" (is "_ = Some (_, ?w')")
      by blast
    have "tw_AllTypes ?w' = tw_AllTypes w" "w_default ?w' \<noteq> None"
      using w(2) by (simp_all add: inc_rand_depth_def default_mod_def)
    then show ?thesis using f w env.flip_keeps [OF f w(1)]
      by (subst more_types.simps) (simp add: MoreTypesProbability_def flip_named_def p)
  qed
  from stop [OF w1 l1(2,1), of "make_random_struct_type ?P"] obtain w2 d where
    w2: "more_types ?P (make_random_struct_type ?P) w1 = Some w2" "w_default w2 = Some d"
      "env_ok example_options w2" "length (tw_AllTypes w2) = 13" by blast
  from stop [OF w2(3,2,4), of "make_random_union_type ?P"] obtain w3 where
    w3: "more_types ?P (make_random_union_type ?P) w2 = Some w3" by blast
  have "GenerateAllTypes ?P ?w = Some w3"
    using w2(1) w3 env_ok_sel(1) [OF w1] env_ok_sel(1) [OF w2(3)]
    by (simp add: GenerateAllTypes_def w1_def [symmetric] Let_def)
  with GenerateAllTypes_well_formed [OF this ok p(2)] show ?thesis by simp
qed

lemma flip_some:
  assumes "w_curr w = Some rDefaultRndNumGenerator" "w_default w = Some d" "p \<le> 100"
  shows "\<exists>b s. rnd_flipcoin p None None w = Some (b, inc_rand_depth w\<lparr>w_rand48 := s\<rparr>)"
proof -
  have "\<exists>g s. genrand (inc_rand_depth w) = (g, inc_rand_depth w\<lparr>w_rand48 := s\<rparr>)"
    unfolding genrand_def case_prod_beta Let_def by blast
  then show ?thesis using assms
    by (auto simp: rnd_flipcoin_def default_rnd_flipcoin_def flip_by_filter_def default_add_number_def)
qed

lemma draw_below_1:
  assumes "w_curr w = Some rDefaultRndNumGenerator" "w_default w = Some d"
    and f: "\<And>s. f 0 (inc_rand_depth (w\<lparr>w_rand48 := s\<rparr>)) =
      Some (False, h (inc_rand_depth (w\<lparr>w_rand48 := s\<rparr>)))"
  shows "\<exists>s. rnd_upto (Suc 0) (Some f) None w = Some (0, h (inc_rand_depth (w\<lparr>w_rand48 := s\<rparr>)))"
proof -
  obtain g s where g: "genrand w = (g, w\<lparr>w_rand48 := s\<rparr>)"
    unfolding genrand_def case_prod_beta Let_def by blast
  have "rnd_upto (Suc 0) (Some f) None w = Some (0, h (inc_rand_depth (w\<lparr>w_rand48 := s\<rparr>)))"
    using assms(1,2) g f [of s]
    by (simp add: rnd_upto_def default_rnd_upto_def default_add_number_def append_trace_def reject_loop.simps)
  then show ?thesis ..
qed

definition example_record :: Type where
  "example_record = Type_aggregate 1 0 [Type_simple 0 eInt] True False [plain_qfer] [- 1] False False"

lemma example_record_built: "built_ok (example_options\<lparr>opt_return_structs := True\<rparr>) example_record"
  by (simp add: built_ok_def example_record_def Type_aggregate_def Type_simple_def plain_info_def
      is_aggregate_def lens_ok_def qfer_fits_def plain_qfer_def example_options_def CGOptions_static_def)

theorem make_random_pointer_type_unique_witness:
  "\<exists>ty w'. make_random_pointer_type (Probabilities_empty :: unit tprobs)
       (example_env (example_options\<lparr>opt_return_structs := True\<rparr>) [example_record] 2) = Some (Some ty, w') \<and>
     eType ty = ePointer \<and> {d \<in> set (tw_derived w'). pointee_id d = pointee_id ty} = {ty}"
proof -
  let ?c = "example_options\<lparr>opt_return_structs := True\<rparr>" and ?P = "Probabilities_empty :: unit tprobs"
  let ?w = "example_env ?c [example_record] 2"
  have id: "t_id example_record = 1" "eType example_record = eStruct"
    by (simp_all add: example_record_def Type_aggregate_def plain_info_def)
  have no_bitfields: "has_bitfields example_record = Some False" by code_simp
  have ok: "env_ok ?c ?w" "pointers_bounded ?c ?w"
    using example_record_built
    by (simp_all add: env_ok_def pointers_bounded_def id example_options_def is_random_def)
  obtain b s where b: "rnd_flipcoin 20 None None ?w = Some (b, inc_rand_depth ?w\<lparr>w_rand48 := s\<rparr>)"
    (is "_ = Some (b, ?w1)") using flip_some [of ?w default_new 20] by auto
  have w1: "tw_AllTypes ?w1 = [example_record]" "tw_derived ?w1 = []" "w_err ?w1 = SUCCESS"
    "w_curr ?w1 = Some rDefaultRndNumGenerator" "w_default ?w1 \<noteq> None" "w_opts ?w1 = ?c"
    by (simp_all add: inc_rand_depth_def default_mod_def)
  let ?f = "choose_random_type_filter ?P False False" and ?h = "\<lambda>w. w\<lparr>tw_typ := Some example_record\<rparr>"
  have f: "?f 0 x = Some (False, ?h x)" if "tw_AllTypes x = [example_record]" "w_opts x = ?c" for x :: tworld
    using that by (simp add: choose_random_type_filter_def id)
  from draw_below_1 [of "?w1\<lparr>tw_typ := None\<rparr>" _ ?f ?h] w1 obtain s2 where
    r: "rnd_upto (Suc 0) (Some ?f) None (?w1\<lparr>tw_typ := None\<rparr>) =
        Some (0, ?h (inc_rand_depth (?w1\<lparr>tw_typ := None, w_rand48 := s2\<rparr>)))" (is "_ = Some (0, ?w2)")
    by (auto simp: f inc_rand_depth_def default_mod_def)
  have "runs (use_type example_record ?w2)"
    by (simp add: use_type_def record_type_with_bitfields_def no_bitfields)
  then obtain w3 where u: "use_type example_record ?w2 = Some w3" by (auto simp: runs_def)
  have "w_err ?w2 = SUCCESS" "tw_typ ?w2 = Some example_record" using w1 by (simp_all add: inc_rand_depth_def default_mod_def)
  then have c: "choose_random ?P ?w1 = Some (Some example_record, w3)"
    using r u w1(1) by (simp add: choose_random_def)
  have "w_err w3 = SUCCESS" using use_type_env [OF u] \<open>w_err ?w2 = SUCCESS\<close> by (simp add: same_env_def)
  with c have "\<exists>y. pointer_to_basic ?P ?w1 = Some y \<and> fst y \<noteq> None"
    by (auto simp: pointer_to_basic_def id find_pointer_type_def new_pointer_def split: option.splits)
  then obtain p w' where m: "make_random_pointer_type ?P ?w = Some (Some p, w')"
    using b w1 by (auto simp: make_random_pointer_type_def)
  from make_random_pointer_type_unique [OF m ok] m show ?thesis by (auto simp: Probabilities_empty_def)
qed

end
