(* ===== verification/SafeMath.thy ===== *)
theory SafeMath
  imports Prelude "HOL-Library.Word" "HOL-Library.Signed_Division"
begin

text \<open>
  The arithmetic of the generated programs: the checked vector operations of \<open>runtime/HIPSmith.h\<close>,
  its checked atomic operations, and the checked scalar functions of \<open>runtime/safe_math.m4\<close>.  A value
  is an \<open>int\<close> in the range of its C++ type; an operation is \<open>None\<close> where C++ leaves it undefined.
  The properties say that no checked operation is ever undefined, and that one that is given up
  would have been.

  The vector operators and the native atomics belong to HIP: they are parameters of the model.
\<close>

unbundle bit_operations_syntax

section \<open>Integer types of C++\<close>

text \<open>\<open>char\<close>, \<open>short\<close>, \<open>int\<close> and \<open>long\<close> have 8, 16, 32 and 64 bits.\<close>

datatype cint = I8 | U8 | I16 | U16 | I32 | U32 | I64 | U64

primrec width :: "cint \<Rightarrow> nat" where
  "width I8 = 8" | "width U8 = 8" | "width I16 = 16" | "width U16 = 16"
| "width I32 = 32" | "width U32 = 32" | "width I64 = 64" | "width U64 = 64"

primrec is_signed_v :: "cint \<Rightarrow> bool" where
  "is_signed_v I8 = True" | "is_signed_v U8 = False" | "is_signed_v I16 = True" | "is_signed_v U16 = False"
| "is_signed_v I32 = True" | "is_signed_v U32 = False" | "is_signed_v I64 = True" | "is_signed_v U64 = False"

definition tmax :: "cint \<Rightarrow> int" where
  "tmax t = (if is_signed_v t then 2 ^ (width t - 1) - 1 else 2 ^ width t - 1)"

definition tmin :: "cint \<Rightarrow> int" where
  "tmin t = (if is_signed_v t then - (2 ^ (width t - 1)) else 0)"

definition fits :: "cint \<Rightarrow> int \<Rightarrow> bool" where
  "fits t x \<longleftrightarrow> tmin t \<le> x \<and> x \<le> tmax t"

text \<open>Conversion to an integer type wraps.\<close>

definition conv :: "cint \<Rightarrow> int \<Rightarrow> int" where
  "conv t x = (x - tmin t) mod 2 ^ width t + tmin t"

text \<open>Integral promotion, and the result of an operation in a type that is not promoted any more.\<close>

definition promote :: "cint \<Rightarrow> cint" where
  "promote t = (if width t < 32 then I32 else t)"

definition arith :: "cint \<Rightarrow> int \<Rightarrow> int option" where
  "arith t x = (if is_signed_v t then (if fits t x then Some x else None) else Some (conv t x))"

definition c_add :: "cint \<Rightarrow> int \<Rightarrow> int \<Rightarrow> int option" where "c_add t a b = arith (promote t) (a + b)"
definition c_sub :: "cint \<Rightarrow> int \<Rightarrow> int \<Rightarrow> int option" where "c_sub t a b = arith (promote t) (a - b)"
definition c_mul :: "cint \<Rightarrow> int \<Rightarrow> int \<Rightarrow> int option" where "c_mul t a b = arith (promote t) (a * b)"
definition c_neg :: "cint \<Rightarrow> int \<Rightarrow> int option" where "c_neg t a = arith (promote t) (- a)"

definition c_div :: "cint \<Rightarrow> int \<Rightarrow> int \<Rightarrow> int option" where
  "c_div t a b = (if b = 0 then None else arith (promote t) (a sdiv b))"

definition c_mod :: "cint \<Rightarrow> int \<Rightarrow> int \<Rightarrow> int option" where
  "c_mod t a b = (if b = 0 \<or> (is_signed_v (promote t) \<and> \<not> fits (promote t) (a sdiv b)) then None
                  else Some (a smod b))"

text \<open>A left shift of a signed value is defined when the value is not negative and the result is
  representable; a right shift of a negative value is arithmetic.\<close>

definition c_shl :: "cint \<Rightarrow> int \<Rightarrow> int \<Rightarrow> int option" where
  "c_shl t a b =
     (if b < 0 \<or> int (width (promote t)) \<le> b then None
      else if is_signed_v (promote t) \<and> a < 0 then None
      else arith (promote t) (a * 2 ^ nat b))"

definition c_shr :: "cint \<Rightarrow> int \<Rightarrow> int \<Rightarrow> int option" where
  "c_shr t a b =
     (if b < 0 \<or> int (width (promote t)) \<le> b then None else Some (a div 2 ^ nat b))"

lemmas c_ops = c_add_def c_sub_def c_mul_def c_neg_def c_div_def c_mod_def c_shl_def c_shr_def

section \<open>The checks of \<open>HIPSmith.h\<close>\<close>

text \<open>\<open>if (c && x > e) return false\<close>, where \<open>e\<close> is evaluated only when \<open>c\<close> holds.\<close>

definition guarded :: "bool \<Rightarrow> int option \<Rightarrow> (int \<Rightarrow> bool) \<Rightarrow> bool option" where
  "guarded c e test = (if c then map_option test e else Some False)"

definition check_safe_add :: "cint \<Rightarrow> int \<Rightarrow> int \<Rightarrow> bool option" where
  "check_safe_add t a b =
     (if is_signed_v t then do {
        over \<leftarrow> guarded (a > 0 \<and> b > 0) (c_sub t (tmax t) b) (\<lambda>m. a > m);
        if over then Some False
        else do {
          under \<leftarrow> guarded (a < 0 \<and> b < 0) (c_sub t (tmin t) b) (\<lambda>m. a < m);
          Some (\<not> under)
        }
      } else Some True)"

definition check_safe_div :: "cint \<Rightarrow> int \<Rightarrow> int \<Rightarrow> bool option" where
  "check_safe_div t a b =
     (if b = 0 then Some False
      else if is_signed_v t then Some (\<not> (a = tmin t \<and> b = - 1))
      else Some True)"

definition check_safe_lshift :: "cint \<Rightarrow> int \<Rightarrow> int \<Rightarrow> bool option" where
  "check_safe_lshift t a b =
     (if is_signed_v t \<and> (b < 0 \<or> a < 0) then Some False
      else if conv U64 b \<ge> int (width t) then Some False
      else do { m \<leftarrow> c_shr t (tmax t) b; Some (\<not> (a > m)) })"

definition check_safe_mod :: "cint \<Rightarrow> int \<Rightarrow> int \<Rightarrow> bool option" where
  "check_safe_mod t a b =
     (if b = 0 then Some False
      else if is_signed_v t then Some (\<not> (a = tmin t \<and> b = - 1))
      else Some True)"

definition check_safe_mul :: "cint \<Rightarrow> int \<Rightarrow> int \<Rightarrow> bool option" where
  "check_safe_mul t a b =
     (if is_signed_v t then do {
        c1 \<leftarrow> guarded (a > 0 \<and> b > 0) (c_div t (tmax t) b) (\<lambda>m. a > m);
        if c1 then Some False
        else do {
          c2 \<leftarrow> guarded (a > 0 \<and> b \<le> 0) (c_div t (tmin t) a) (\<lambda>m. b < m);
          if c2 then Some False
          else do {
            c3 \<leftarrow> guarded (a \<le> 0 \<and> b > 0) (c_div t (tmin t) b) (\<lambda>m. a < m);
            if c3 then Some False
            else do {
              c4 \<leftarrow> guarded (a < 0 \<and> b < 0) (c_div t (tmax t) b) (\<lambda>m. a < m);
              Some (\<not> c4)
            }
          }
        }
      } else Some True)"

definition check_safe_rshift :: "cint \<Rightarrow> int \<Rightarrow> int \<Rightarrow> bool option" where
  "check_safe_rshift t a b =
     (if is_signed_v t \<and> (b < 0 \<or> a < 0) then Some False
      else Some (\<not> (conv U64 b \<ge> int (width t))))"

definition check_safe_sub :: "cint \<Rightarrow> int \<Rightarrow> int \<Rightarrow> bool option" where
  "check_safe_sub t a b =
     (if is_signed_v t then do {
        over \<leftarrow> guarded (b < 0) (c_add t (tmax t) b) (\<lambda>m. a > m);
        if over then Some False
        else do {
          under \<leftarrow> guarded (b > 0) (c_add t (tmin t) b) (\<lambda>m. a < m);
          Some (\<not> under)
        }
      } else Some True)"

definition check_safe_unary_minus :: "cint \<Rightarrow> int \<Rightarrow> bool option" where
  "check_safe_unary_minus t a = (if is_signed_v t then Some (\<not> (a = tmin t)) else Some True)"

section \<open>The vector operations\<close>

text \<open>
  A vector is the list of its lanes \<open>x, y, z, w\<close>.  The macros of the widths 1 to 4 differ only in
  the number of lanes tested, from \<open>x\<close> on and with the short circuit of \<open>&&\<close>.
\<close>

fun lanes_safe :: "(int \<Rightarrow> int \<Rightarrow> bool option) \<Rightarrow> int list \<Rightarrow> int list \<Rightarrow> bool option" where
  "lanes_safe chk (x # xs) (y # ys) = do { s \<leftarrow> chk x y; if s then lanes_safe chk xs ys else Some False }"
| "lanes_safe chk _ _ = Some True"

text \<open>The operators on the vector types of HIP.\<close>

record hip_operators =
  hip_plus :: "cint \<Rightarrow> int list \<Rightarrow> int list \<Rightarrow> int list option"
  hip_divide :: "cint \<Rightarrow> int list \<Rightarrow> int list \<Rightarrow> int list option"
  hip_shl :: "cint \<Rightarrow> int list \<Rightarrow> int list \<Rightarrow> int list option"
  hip_modulo :: "cint \<Rightarrow> int list \<Rightarrow> int list \<Rightarrow> int list option"
  hip_times :: "cint \<Rightarrow> int list \<Rightarrow> int list \<Rightarrow> int list option"
  hip_shr :: "cint \<Rightarrow> int list \<Rightarrow> int list \<Rightarrow> int list option"
  hip_minus :: "cint \<Rightarrow> int list \<Rightarrow> int list \<Rightarrow> int list option"
  hip_negate :: "cint \<Rightarrow> int list \<Rightarrow> int list option"

definition safe_binary ::
    "(cint \<Rightarrow> int \<Rightarrow> int \<Rightarrow> bool option) \<Rightarrow> (cint \<Rightarrow> int list \<Rightarrow> int list \<Rightarrow> int list option) \<Rightarrow>
     cint \<Rightarrow> int list \<Rightarrow> int list \<Rightarrow> int list option" where
  "safe_binary chk operator t a b =
     do { s \<leftarrow> lanes_safe (chk t) a b; if s then operator t a b else Some a }"

definition hip_safe_add :: "hip_operators \<Rightarrow> cint \<Rightarrow> int list \<Rightarrow> int list \<Rightarrow> int list option" where
  "hip_safe_add H = safe_binary check_safe_add (hip_plus H)"

definition hip_safe_div :: "hip_operators \<Rightarrow> cint \<Rightarrow> int list \<Rightarrow> int list \<Rightarrow> int list option" where
  "hip_safe_div H = safe_binary check_safe_div (hip_divide H)"

definition hip_safe_lshift :: "hip_operators \<Rightarrow> cint \<Rightarrow> int list \<Rightarrow> int list \<Rightarrow> int list option" where
  "hip_safe_lshift H = safe_binary check_safe_lshift (hip_shl H)"

definition hip_safe_mod :: "hip_operators \<Rightarrow> cint \<Rightarrow> int list \<Rightarrow> int list \<Rightarrow> int list option" where
  "hip_safe_mod H = safe_binary check_safe_mod (hip_modulo H)"

definition hip_safe_mul :: "hip_operators \<Rightarrow> cint \<Rightarrow> int list \<Rightarrow> int list \<Rightarrow> int list option" where
  "hip_safe_mul H = safe_binary check_safe_mul (hip_times H)"

definition hip_safe_rshift :: "hip_operators \<Rightarrow> cint \<Rightarrow> int list \<Rightarrow> int list \<Rightarrow> int list option" where
  "hip_safe_rshift H = safe_binary check_safe_rshift (hip_shr H)"

definition hip_safe_sub :: "hip_operators \<Rightarrow> cint \<Rightarrow> int list \<Rightarrow> int list \<Rightarrow> int list option" where
  "hip_safe_sub H = safe_binary check_safe_sub (hip_minus H)"

definition hip_safe_unary_minus :: "hip_operators \<Rightarrow> cint \<Rightarrow> int list \<Rightarrow> int list option" where
  "hip_safe_unary_minus H t a =
     do { s \<leftarrow> lanes_safe (\<lambda>x _. check_safe_unary_minus t x) a a; if s then hip_negate H t a else Some a }"

section \<open>What the operations of one lane are\<close>

text \<open>The operation on one element: for a signed type it is defined when the result fits.\<close>

definition elem_add :: "cint \<Rightarrow> int \<Rightarrow> int \<Rightarrow> int option" where "elem_add t a b = arith t (a + b)"
definition elem_sub :: "cint \<Rightarrow> int \<Rightarrow> int \<Rightarrow> int option" where "elem_sub t a b = arith t (a - b)"
definition elem_mul :: "cint \<Rightarrow> int \<Rightarrow> int \<Rightarrow> int option" where "elem_mul t a b = arith t (a * b)"
definition elem_neg :: "cint \<Rightarrow> int \<Rightarrow> int option" where "elem_neg t a = arith t (- a)"

definition elem_div :: "cint \<Rightarrow> int \<Rightarrow> int \<Rightarrow> int option" where
  "elem_div t a b = (if b = 0 then None else arith t (a sdiv b))"

definition elem_mod :: "cint \<Rightarrow> int \<Rightarrow> int \<Rightarrow> int option" where
  "elem_mod t a b = (if b = 0 \<or> \<not> fits t (a sdiv b) then None else Some (a smod b))"

text \<open>The shifts as the checks want them: nothing is shifted out on the left, and nothing negative
  is shifted.\<close>

definition elem_shl :: "cint \<Rightarrow> int \<Rightarrow> int \<Rightarrow> int option" where
  "elem_shl t a b =
     (if 0 \<le> a \<and> 0 \<le> b \<and> b < int (width t) \<and> fits t (a * 2 ^ nat b) then Some (a * 2 ^ nat b) else None)"

definition elem_shr :: "cint \<Rightarrow> int \<Rightarrow> int \<Rightarrow> int option" where
  "elem_shr t a b = (if 0 \<le> a \<and> 0 \<le> b \<and> b < int (width t) then Some (a div 2 ^ nat b) else None)"

text \<open>The documented behaviour of the operators: where the operation is defined on every lane, the
  result is the vector of the results.\<close>

definition lanewise :: "(int \<Rightarrow> int \<Rightarrow> int option) \<Rightarrow> int list \<Rightarrow> int list \<Rightarrow> int list option" where
  "lanewise f a b = those (map2 f a b)"

definition works_on_lanes ::
    "(cint \<Rightarrow> int list \<Rightarrow> int list \<Rightarrow> int list option) \<Rightarrow> (cint \<Rightarrow> int \<Rightarrow> int \<Rightarrow> int option) \<Rightarrow> bool" where
  "works_on_lanes operator elem \<longleftrightarrow>
     (\<forall>t a b r. lanewise (elem t) a b = Some r \<longrightarrow> operator t a b = Some r)"

definition hip_law :: "hip_operators \<Rightarrow> bool" where
  "hip_law H \<longleftrightarrow> works_on_lanes (hip_plus H) elem_add \<and> works_on_lanes (hip_minus H) elem_sub \<and>
     works_on_lanes (hip_times H) elem_mul \<and> works_on_lanes (hip_divide H) elem_div \<and>
     works_on_lanes (hip_modulo H) elem_mod \<and> works_on_lanes (hip_shl H) elem_shl \<and>
     works_on_lanes (hip_shr H) elem_shr \<and>
     (\<forall>t a r. lanewise (\<lambda>x y. elem_neg t x) a a = Some r \<longrightarrow> hip_negate H t a = Some r)"

section \<open>The checks are exact\<close>

lemma type_bounds:
  "tmin I8 = - 128" "tmax I8 = 127" "tmin U8 = 0" "tmax U8 = 255"
  "tmin I16 = - 32768" "tmax I16 = 32767" "tmin U16 = 0" "tmax U16 = 65535"
  "tmin I32 = - 2147483648" "tmax I32 = 2147483647" "tmin U32 = 0" "tmax U32 = 4294967295"
  "tmin I64 = - 9223372036854775808" "tmax I64 = 9223372036854775807"
  "tmin U64 = 0" "tmax U64 = 18446744073709551615"
  by (simp_all add: tmin_def tmax_def)

lemma promote_simps [simp]:
  "promote I8 = I32" "promote U8 = I32" "promote I16 = I32" "promote U16 = I32"
  "promote I32 = I32" "promote U32 = U32" "promote I64 = I64" "promote U64 = U64"
  by (simp_all add: promote_def)

lemma conv_range: "fits t (conv t x)"
  using pos_mod_bound [of "2 ^ width t :: int" "x - tmin t"]
  by (cases t) (auto simp: fits_def conv_def tmin_def tmax_def)

lemma conv_id: "fits t x \<Longrightarrow> conv t x = x"
  by (cases t) (auto simp: fits_def conv_def tmin_def tmax_def)

lemma arith_defined: "arith t x \<noteq> None \<longleftrightarrow> (is_signed_v t \<longrightarrow> fits t x)"
  by (simp add: arith_def)

lemma arith_range: "arith t x = Some y \<Longrightarrow> fits t y"
  by (auto simp: arith_def conv_range split: if_splits)

lemma arith_fits: "fits t x \<Longrightarrow> arith t x = Some x"
  by (simp add: arith_def conv_id)

lemma signed_promote: "is_signed_v t \<Longrightarrow> is_signed_v (promote t)"
  by (cases t) simp_all

lemma fits_promote: "fits t x \<Longrightarrow> fits (promote t) x"
  by (cases t) (auto simp: fits_def type_bounds)

text \<open>What the checks compute stays between the bounds of the type.\<close>

lemma guarded_fits:
  "(c \<Longrightarrow> fits t x) \<Longrightarrow> guarded c (arith (promote t) x) test = Some (c \<and> test x)"
  by (simp add: guarded_def arith_fits fits_promote)

lemma signed_bounds: "is_signed_v t \<Longrightarrow> tmin t = - tmax t - 1 \<and> 0 < tmax t"
  by (cases t) (simp_all add: type_bounds)

lemma check_add_exact:
  assumes "fits t a" "fits t b"
  shows "check_safe_add t a b = Some (elem_add t a b \<noteq> None)"
proof (cases "is_signed_v t")
  case True
  have "guarded (a > 0 \<and> b > 0) (c_sub t (tmax t) b) (\<lambda>m. a > m) = Some ((a > 0 \<and> b > 0) \<and> a > tmax t - b)"
    "guarded (a < 0 \<and> b < 0) (c_sub t (tmin t) b) (\<lambda>m. a < m) = Some ((a < 0 \<and> b < 0) \<and> a < tmin t - b)"
    unfolding c_sub_def using assms signed_bounds [OF True]
    by (intro guarded_fits; simp add: fits_def)+
  then show ?thesis using assms True
    by (auto simp: check_safe_add_def elem_add_def arith_defined [unfolded not_None_eq] fits_def arith_def)
qed (simp add: check_safe_add_def elem_add_def arith_def)

lemma check_sub_exact:
  assumes "fits t a" "fits t b"
  shows "check_safe_sub t a b = Some (elem_sub t a b \<noteq> None)"
proof (cases "is_signed_v t")
  case True
  have "guarded (b < 0) (c_add t (tmax t) b) (\<lambda>m. a > m) = Some (b < 0 \<and> a > tmax t + b)"
    "guarded (b > 0) (c_add t (tmin t) b) (\<lambda>m. a < m) = Some (b > 0 \<and> a < tmin t + b)"
    unfolding c_add_def using assms signed_bounds [OF True]
    by (intro guarded_fits; simp add: fits_def)+
  then show ?thesis using assms True
    by (auto simp: check_safe_sub_def elem_sub_def fits_def arith_def)
qed (simp add: check_safe_sub_def elem_sub_def arith_def)

lemma check_minus_exact:
  assumes "fits t a"
  shows "check_safe_unary_minus t a = Some (elem_neg t a \<noteq> None)"
  using assms signed_bounds [of t] by (auto simp: check_safe_unary_minus_def elem_neg_def arith_def fits_def)

text \<open>The quotient is smaller than the dividend, except for \<open>MIN / -1\<close>.\<close>

lemma sdiv_pos: "0 \<le> a \<Longrightarrow> 0 < b \<Longrightarrow> a sdiv b = a div (b :: int)"
  by (cases "a = 0") (simp_all add: signed_divide_int_def sgn_if)

lemma sdiv_neg: "(a :: int) sdiv (- b) = - (a sdiv b)" "(- a :: int) sdiv b = - (a sdiv b)"
  by (simp_all add: signed_divide_int_def sgn_if)

lemma sdiv_abs: "\<bar>(a :: int) sdiv b\<bar> \<le> \<bar>a\<bar>"
  using sdiv_int_range [of a b] by auto

lemma sdiv_fits:
  assumes "fits t a" "fits t b" "b \<noteq> 0" "\<not> (is_signed_v t \<and> a = tmin t \<and> b = - 1)"
  shows "fits t (a sdiv b)"
proof (cases "is_signed_v t \<and> a = tmin t")
  case False
  have "0 \<le> a sdiv b" if "\<not> is_signed_v t"
    using that assms(1,2,3) by (simp add: fits_def tmin_def sdiv_pos pos_imp_zdiv_nonneg_iff)
  with False assms(1) sdiv_abs [of a b] signed_bounds [of t] show ?thesis
    by (cases "is_signed_v t") (auto simp: fits_def tmin_def)
next
  case True
  with assms(3,4) have b: "b \<noteq> - 1" "b \<noteq> 0" by auto
  show ?thesis
  proof (cases "b = 1")
    case False
    have "\<bar>a sdiv b\<bar> = \<bar>a\<bar> div \<bar>b\<bar>"
      using b signed_bounds [of t] True by (simp add: signed_divide_int_def abs_mult sgn_if pos_imp_zdiv_nonneg_iff)
    moreover have "\<bar>a\<bar> div \<bar>b\<bar> \<le> \<bar>a\<bar> div 2"
      using b False by (intro zdiv_mono2) auto
    ultimately have "\<bar>a sdiv b\<bar> \<le> \<bar>a\<bar> div 2" by simp
    with True signed_bounds [of t] show ?thesis by (auto simp: fits_def)
  qed (use assms(1) in simp)
qed

lemma check_div_exact:
  assumes "fits t a" "fits t b"
  shows "check_safe_div t a b = Some (elem_div t a b \<noteq> None)"
proof (cases "b = 0 \<or> (is_signed_v t \<and> a = tmin t \<and> b = - 1)")
  case False
  with sdiv_fits [OF assms] show ?thesis by (auto simp: check_safe_div_def elem_div_def arith_fits)
next
  case True
  with signed_bounds [of t] show ?thesis
    by (auto simp: check_safe_div_def elem_div_def arith_def fits_def)
qed

lemma check_mod_exact:
  assumes "fits t a" "fits t b"
  shows "check_safe_mod t a b = Some (elem_mod t a b \<noteq> None)"
proof (cases "b = 0 \<or> (is_signed_v t \<and> a = tmin t \<and> b = - 1)")
  case False
  with sdiv_fits [OF assms] show ?thesis by (auto simp: check_safe_mod_def elem_mod_def)
next
  case True
  with signed_bounds [of t] show ?thesis
    by (auto simp: check_safe_mod_def elem_mod_def fits_def)
qed

lemma div_less_times:
  fixes x :: int
  assumes "0 < b"
  shows "x div b < a \<longleftrightarrow> x < a * b"
proof -
  have "a * b \<le> x" if "a \<le> x div b"
  proof -
    have "a * b \<le> x div b * b" using that assms by (simp add: mult_right_mono)
    also have "\<dots> \<le> x" using pos_mod_sign [OF assms, of x] by (simp add: minus_mod_eq_div_mult [symmetric])
    finally show ?thesis .
  qed
  moreover have "a \<le> x div b" if "a * b \<le> x"
    using zdiv_mono1 [OF that assms] assms by simp
  ultimately show ?thesis by force
qed

lemma guarded_div:
  "(c \<Longrightarrow> b \<noteq> 0 \<and> fits t (x sdiv b)) \<Longrightarrow> guarded c (c_div t x b) test = Some (c \<and> test (x sdiv b))"
  by (auto simp: guarded_def c_div_def arith_fits fits_promote)

text \<open>The quotients that the multiplications compare with.\<close>

lemma quotient_tests:
  assumes "is_signed_v t"
  shows "fits t (tmax t sdiv b)" "0 < b \<Longrightarrow> fits t (tmin t sdiv b)"
    "0 < b \<Longrightarrow> tmax t sdiv b < a \<longleftrightarrow> tmax t < a * b"
    "0 < b \<Longrightarrow> a < tmin t sdiv b \<longleftrightarrow> a * b < tmin t"
    "b < 0 \<Longrightarrow> a < tmax t sdiv b \<longleftrightarrow> tmax t < a * b"
proof -
  let ?M = "tmax t"
  have M: "tmin t = - (?M + 1)" "0 < ?M" using signed_bounds [OF assms] by auto
  have low: "tmin t sdiv b = - ((?M + 1) div b)" if "0 < b"
    unfolding M(1) sdiv_neg(2) using sdiv_pos [of "?M + 1" b] M(2) that by simp
  have high: "?M sdiv b = - (?M div - b)" if "b < 0"
    using sdiv_neg(1) [of ?M "- b"] sdiv_pos [of ?M "- b"] M(2) that by simp
  show "fits t (?M sdiv b)" "0 < b \<Longrightarrow> fits t (tmin t sdiv b)"
    using sdiv_abs [of ?M b] sdiv_abs [of "tmin t" b] M low pos_imp_zdiv_nonneg_iff [of b "?M + 1"]
    by (auto simp: fits_def)
  show "0 < b \<Longrightarrow> ?M sdiv b < a \<longleftrightarrow> ?M < a * b"
    using M(2) div_less_times [of b ?M a] by (simp add: sdiv_pos)
  show "a < tmin t sdiv b \<longleftrightarrow> a * b < tmin t" if b: "0 < b"
  proof -
    have "a < tmin t sdiv b \<longleftrightarrow> (?M + 1) div b < - a" unfolding low [OF b] by linarith
    also have "\<dots> \<longleftrightarrow> ?M + 1 < - a * b" by (rule div_less_times [OF b])
    also have "\<dots> \<longleftrightarrow> a * b < tmin t" unfolding M(1) by auto
    finally show ?thesis .
  qed
  show "b < 0 \<Longrightarrow> a < ?M sdiv b \<longleftrightarrow> ?M < a * b"
    using div_less_times [of "- b" ?M "- a"] by (auto simp: high)
qed

text \<open>Which of the four cases can overflow, and how.\<close>

lemma product_sign:
  fixes a b :: int
  shows "a > 0 \<Longrightarrow> b > 0 \<Longrightarrow> 0 < a * b" "a > 0 \<Longrightarrow> b \<le> 0 \<Longrightarrow> a * b \<le> 0" "a \<le> 0 \<Longrightarrow> b > 0 \<Longrightarrow> a * b \<le> 0"
    "a \<le> 0 \<Longrightarrow> b \<le> 0 \<Longrightarrow> 0 \<le> a * b"
  by (simp_all add: mult_nonneg_nonpos mult_nonpos_nonneg mult_nonpos_nonpos)

lemma product_fits:
  assumes "is_signed_v t"
  shows "fits t (a * b) \<longleftrightarrow> \<not> ((a > 0 \<and> b > 0) \<and> a > tmax t sdiv b \<or>
      (a > 0 \<and> b \<le> 0) \<and> b < tmin t sdiv a \<or> (a \<le> 0 \<and> b > 0) \<and> a < tmin t sdiv b \<or>
      (a < 0 \<and> b < 0) \<and> a < tmax t sdiv b)"
proof -
  note q = quotient_tests(3-5) [OF assms]
  have M: "tmin t \<le> 0" "0 < tmax t" using signed_bounds [OF assms] by auto
  note p = product_sign [of a b]
  consider "a > 0" "b > 0" | "a > 0" "b \<le> 0" | "a \<le> 0" "b > 0" | "a < 0" "b < 0" | "a = 0 \<or> b = 0"
    by linarith
  then show ?thesis
  proof cases
    case 1
    then have "tmin t \<le> a * b" using p(1) M by linarith
    with 1 q(1) [of b a] show ?thesis by (auto simp: fits_def)
  next
    case 2
    then have "a * b \<le> tmax t" using p(2) M by linarith
    with 2 q(2) [of a b] show ?thesis by (auto simp: fits_def mult.commute [of b a])
  next
    case 3
    then have "a * b \<le> tmax t" using p(3) M by linarith
    with 3 q(2) [of b a] show ?thesis by (auto simp: fits_def)
  next
    case 4
    then have "tmin t \<le> a * b" using p(4) M by linarith
    with 4 q(3) [of b a] show ?thesis by (auto simp: fits_def)
  next
    case 5
    then have z: "a * b = 0" by auto
    have "fits t (a * b)" unfolding z using M by (simp add: fits_def)
    with z M q(1) [of b a] q(2) [of a b] q(2) [of b a] q(3) [of b a] show ?thesis by (auto simp: mult.commute [of b a])
  qed
qed

lemma check_mul_exact:
  assumes "fits t a" "fits t b"
  shows "check_safe_mul t a b = Some (elem_mul t a b \<noteq> None)"
proof (cases "is_signed_v t")
  case True
  note f = quotient_tests(1,2) [OF True]
  have g: "guarded (a > 0 \<and> b > 0) (c_div t (tmax t) b) (\<lambda>m. a > m) = Some ((a > 0 \<and> b > 0) \<and> a > tmax t sdiv b)"
    "guarded (a > 0 \<and> b \<le> 0) (c_div t (tmin t) a) (\<lambda>m. b < m) = Some ((a > 0 \<and> b \<le> 0) \<and> b < tmin t sdiv a)"
    "guarded (a \<le> 0 \<and> b > 0) (c_div t (tmin t) b) (\<lambda>m. a < m) = Some ((a \<le> 0 \<and> b > 0) \<and> a < tmin t sdiv b)"
    "guarded (a < 0 \<and> b < 0) (c_div t (tmax t) b) (\<lambda>m. a < m) = Some ((a < 0 \<and> b < 0) \<and> a < tmax t sdiv b)"
    by (intro guarded_div; simp add: f)+
  have "check_safe_mul t a b = Some (fits t (a * b))"
    unfolding check_safe_mul_def g product_fits [OF True] using True by simp
  then show ?thesis by (simp add: elem_mul_def arith_def True)
qed (simp add: check_safe_mul_def elem_mul_def arith_def)

text \<open>A shift count is a value of the same type; read as \<open>size_t\<close> a negative one is huge.\<close>

lemma conv_size_t: "fits t b \<Longrightarrow> 0 \<le> b \<Longrightarrow> conv U64 b = b"
  by (rule conv_id) (cases t; simp add: fits_def type_bounds)

lemma tmax_shift_defined:
  "0 \<le> b \<Longrightarrow> b < int (width t) \<Longrightarrow> c_shr t (tmax t) b = Some (tmax t div 2 ^ nat b)"
  by (cases t) (simp_all add: c_shr_def)

lemma check_lshift_exact:
  assumes "fits t a" "fits t b"
  shows "check_safe_lshift t a b = Some (elem_shl t a b \<noteq> None)"
proof (cases "0 \<le> a \<and> 0 \<le> b")
  case True
  have "0 \<le> a * 2 ^ nat b" using True by simp
  moreover have "tmin t \<le> 0" using signed_bounds [of t] by (cases "is_signed_v t") (auto simp: tmin_def)
  ultimately have f: "fits t (a * 2 ^ nat b) \<longleftrightarrow> \<not> tmax t < a * 2 ^ nat b" by (auto simp: fits_def)
  show ?thesis
  proof (cases "b < int (width t)")
    case b: True
    with True have s: "c_shr t (tmax t) b = Some (tmax t div 2 ^ nat b)" by (simp add: tmax_shift_defined)
    have "tmax t div 2 ^ nat b < a \<longleftrightarrow> tmax t < a * 2 ^ nat b" by (rule div_less_times) simp
    with True b f show ?thesis
      by (simp add: check_safe_lshift_def s conv_size_t [OF assms(2)] elem_shl_def)
  qed (use True in \<open>simp add: check_safe_lshift_def conv_size_t [OF assms(2)] elem_shl_def\<close>)
next
  case False
  with assms have "is_signed_v t" by (auto simp: fits_def tmin_def split: if_splits)
  with False show ?thesis by (auto simp: check_safe_lshift_def elem_shl_def)
qed

lemma check_rshift_exact:
  assumes "fits t a" "fits t b"
  shows "check_safe_rshift t a b = Some (elem_shr t a b \<noteq> None)"
proof (cases "0 \<le> a \<and> 0 \<le> b")
  case True
  then show ?thesis by (auto simp: check_safe_rshift_def conv_size_t [OF assms(2)] elem_shr_def)
next
  case False
  with assms have "is_signed_v t" by (auto simp: fits_def tmin_def split: if_splits)
  with False show ?thesis by (auto simp: check_safe_rshift_def elem_shr_def)
qed

section \<open>The vector operations are defined\<close>

text \<open>The specification: the operation where it is defined on every lane, the first operand otherwise.\<close>

definition guarded_vector :: "(int \<Rightarrow> int \<Rightarrow> int option) \<Rightarrow> int list \<Rightarrow> int list \<Rightarrow> int list" where
  "guarded_vector f a b = (case lanewise f a b of Some r \<Rightarrow> r | None \<Rightarrow> a)"

lemma lanewise_Nil [simp]: "lanewise f [] b = Some []"
  by (simp add: lanewise_def)

lemma lanewise_Cons [simp]:
  "lanewise f (x # xs) (y # ys) =
     (case f x y of None \<Rightarrow> None | Some z \<Rightarrow> map_option ((#) z) (lanewise f xs ys))"
  by (simp add: lanewise_def split: option.split)

lemma lanes_safe_exact:
  assumes "list_all2 (\<lambda>x y. chk x y = Some (f x y \<noteq> None)) a b"
  shows "lanes_safe chk a b = Some (lanewise f a b \<noteq> None)"
  using assms by (induction rule: list_all2_induct) (auto split: option.splits)

lemma safe_binary_spec:
  assumes "works_on_lanes operator elem" "length a = length b" "\<forall>x \<in> set a \<union> set b. fits t x"
    and exact: "\<And>x y. fits t x \<Longrightarrow> fits t y \<Longrightarrow> chk t x y = Some (elem t x y \<noteq> None)"
  shows "safe_binary chk operator t a b = Some (guarded_vector (elem t) a b)"
proof -
  have "list_all2 (\<lambda>x y. chk t x y = Some (elem t x y \<noteq> None)) a b"
    using assms(2,3) by (auto simp: list_all2_conv_all_nth simp del: not_None_eq intro!: exact)
  from lanes_safe_exact [OF this] assms(1) show ?thesis
    by (cases "lanewise (elem t) a b") (auto simp: safe_binary_def guarded_vector_def works_on_lanes_def)
qed

lemma hip_safe_minus_spec:
  assumes "hip_law H" "\<forall>x \<in> set a. fits t x"
  shows "hip_safe_unary_minus H t a = Some (guarded_vector (\<lambda>x y. elem_neg t x) a a)"
proof -
  have "list_all2 (\<lambda>x y. check_safe_unary_minus t x = Some (elem_neg t x \<noteq> None)) a a"
    using assms(2) by (auto simp: list_all2_conv_all_nth simp del: not_None_eq intro!: check_minus_exact)
  from lanes_safe_exact [OF this] assms(1) show ?thesis
    by (cases "lanewise (\<lambda>x y. elem_neg t x) a a")
      (auto simp: hip_safe_unary_minus_def guarded_vector_def works_on_lanes_def hip_law_def)
qed

lemma hip_safe_ops_spec:
  assumes "hip_law H" "length a = length b" "\<forall>x \<in> set a \<union> set b. fits t x"
  shows "hip_safe_add H t a b = Some (guarded_vector (elem_add t) a b)"
    "hip_safe_sub H t a b = Some (guarded_vector (elem_sub t) a b)"
    "hip_safe_mul H t a b = Some (guarded_vector (elem_mul t) a b)"
    "hip_safe_div H t a b = Some (guarded_vector (elem_div t) a b)"
    "hip_safe_mod H t a b = Some (guarded_vector (elem_mod t) a b)"
    "hip_safe_lshift H t a b = Some (guarded_vector (elem_shl t) a b)"
    "hip_safe_rshift H t a b = Some (guarded_vector (elem_shr t) a b)"
  using assms unfolding hip_safe_add_def hip_safe_sub_def hip_safe_mul_def hip_safe_div_def
    hip_safe_mod_def hip_safe_lshift_def hip_safe_rshift_def hip_law_def
  by (auto intro!: safe_binary_spec check_add_exact check_sub_exact check_mul_exact check_div_exact
      check_mod_exact check_lshift_exact check_rshift_exact)

text \<open>The result of a checked operation has the lanes of a vector of the type again.\<close>

lemma lanewise_fits:
  "lanewise f a b = Some r \<Longrightarrow> (\<And>x y z. x \<in> set a \<Longrightarrow> y \<in> set b \<Longrightarrow> f x y = Some z \<Longrightarrow> P z) \<Longrightarrow>
     \<forall>z \<in> set r. P z"
proof (induction a arbitrary: b r)
  case (Cons x a)
  show ?case
  proof (cases b)
    case Nil
    with Cons.prems(1) show ?thesis by (simp add: lanewise_def)
  next
    case (Cons y b')
    with Cons.prems obtain z zs where z: "f x y = Some z" "lanewise f a b' = Some zs" "r = z # zs"
      by (auto split: option.splits)
    have "\<forall>z \<in> set zs. P z" by (rule Cons.IH [OF z(2)]) (use Cons.prems(2) Cons in auto)
    moreover have "P z" by (rule Cons.prems(2) [OF _ _ z(1)]) (simp_all add: Cons)
    ultimately show ?thesis by (simp add: z(3))
  qed
qed simp

section \<open>The checked scalar functions\<close>

text \<open>
  \<open>safe_math.m4\<close> expands to one function for each type.  The checks of addition, subtraction,
  negation and multiplication are compiled for the types that are at least as wide as \<open>int\<close>;
  \<open>UNDEFINED(x)\<close> is \<open>x\<close>.  The call \<open>maxshift\<close> has no argument, so its value is 32 for every type.
\<close>

definition maxshift :: int where "maxshift = 32"

definition not_promoted :: "cint \<Rightarrow> bool" where
  "not_promoted t \<longleftrightarrow> tmax t \<ge> tmax I32"

definition returned :: "cint \<Rightarrow> bool \<Rightarrow> int \<Rightarrow> int option \<Rightarrow> int option" where
  "returned t undefined_here x r = (if undefined_here then Some x else map_option (conv t) r)"

definition unary_minus_func_s :: "cint \<Rightarrow> int \<Rightarrow> int option" where
  "unary_minus_func_s t si = returned t (not_promoted t \<and> si = tmin t) si (c_neg t si)"

definition add_func_s_s :: "cint \<Rightarrow> int \<Rightarrow> int \<Rightarrow> int option" where
  "add_func_s_s t si1 si2 =
     (if \<not> not_promoted t then returned t False si1 (c_add t si1 si2)
      else do {
        over \<leftarrow> guarded (si1 > 0 \<and> si2 > 0) (c_sub t (tmax t) si2) (\<lambda>m. si1 > m);
        under \<leftarrow> (if over then Some True else guarded (si1 < 0 \<and> si2 < 0) (c_sub t (tmin t) si2) (\<lambda>m. si1 < m));
        returned t under si1 (c_add t si1 si2)
      })"

definition sub_func_s_s :: "cint \<Rightarrow> int \<Rightarrow> int \<Rightarrow> int option" where
  "sub_func_s_s t si1 si2 =
     (if \<not> not_promoted t then returned t False si1 (c_sub t si1 si2)
      else do {
        d \<leftarrow> c_sub t (si1 XOR ((si1 XOR si2) AND NOT (tmax t))) si2;
        returned t ((si1 XOR si2) AND (d XOR si2) < 0) si1 (c_sub t si1 si2)
      })"

definition mul_func_s_s :: "cint \<Rightarrow> int \<Rightarrow> int \<Rightarrow> int option" where
  "mul_func_s_s t si1 si2 =
     (if \<not> not_promoted t then returned t False si1 (c_mul t si1 si2)
      else do {
        c1 \<leftarrow> guarded (si1 > 0 \<and> si2 > 0) (c_div t (tmax t) si2) (\<lambda>m. si1 > m);
        c2 \<leftarrow> (if c1 then Some True else guarded (si1 > 0 \<and> si2 \<le> 0) (c_div t (tmin t) si1) (\<lambda>m. si2 < m));
        c3 \<leftarrow> (if c2 then Some True else guarded (si1 \<le> 0 \<and> si2 > 0) (c_div t (tmin t) si2) (\<lambda>m. si1 < m));
        c4 \<leftarrow> (if c3 then Some True else guarded (si1 \<le> 0 \<and> si2 \<le> 0 \<and> si1 \<noteq> 0) (c_div t (tmax t) si1) (\<lambda>m. si2 < m));
        returned t c4 si1 (c_mul t si1 si2)
      })"

definition mod_func_s_s :: "cint \<Rightarrow> int \<Rightarrow> int \<Rightarrow> int option" where
  "mod_func_s_s t si1 si2 = returned t (si2 = 0 \<or> (si1 = tmin t \<and> si2 = - 1)) si1 (c_mod t si1 si2)"

definition div_func_s_s :: "cint \<Rightarrow> int \<Rightarrow> int \<Rightarrow> int option" where
  "div_func_s_s t si1 si2 = returned t (si2 = 0 \<or> (si1 = tmin t \<and> si2 = - 1)) si1 (c_div t si1 si2)"

text \<open>The shift count is an \<open>int\<close> (\<open>u = I32\<close>) or an \<open>unsigned int\<close>, for which the test of its sign is
  left out.\<close>

definition lshift_func_s :: "cint \<Rightarrow> cint \<Rightarrow> int \<Rightarrow> int \<Rightarrow> int option" where
  "lshift_func_s u t left right =
     (if left < 0 \<or> (is_signed_v u \<and> right < 0) \<or> right \<ge> maxshift then Some left
      else do { m \<leftarrow> c_shr t (tmax t) right; returned t (left > m) left (c_shl t left right) })"

definition rshift_func_s :: "cint \<Rightarrow> cint \<Rightarrow> int \<Rightarrow> int \<Rightarrow> int option" where
  "rshift_func_s u t left right =
     returned t (left < 0 \<or> (is_signed_v u \<and> right < 0) \<or> right \<ge> maxshift) left (c_shr t left right)"

definition unary_minus_func_u :: "cint \<Rightarrow> int \<Rightarrow> int option" where
  "unary_minus_func_u t ui = map_option (conv t) (c_neg t ui)"

definition add_func_u_u :: "cint \<Rightarrow> int \<Rightarrow> int \<Rightarrow> int option" where
  "add_func_u_u t ui1 ui2 = map_option (conv t) (c_add t ui1 ui2)"

definition sub_func_u_u :: "cint \<Rightarrow> int \<Rightarrow> int \<Rightarrow> int option" where
  "sub_func_u_u t ui1 ui2 = map_option (conv t) (c_sub t ui1 ui2)"

text \<open>\<open>promote2\<close>: \<open>unsigned long long\<close> for \<open>uint64_t\<close>, \<open>unsigned int\<close> for the others.\<close>

definition promote2 :: "cint \<Rightarrow> cint" where
  "promote2 t = (if t = U64 then U64 else U32)"

definition mul_func_u_u :: "cint \<Rightarrow> int \<Rightarrow> int \<Rightarrow> int option" where
  "mul_func_u_u t ui1 ui2 =
     map_option (conv t) (c_mul (promote2 t) (conv (promote2 t) ui1) (conv (promote2 t) ui2))"

definition mod_func_u_u :: "cint \<Rightarrow> int \<Rightarrow> int \<Rightarrow> int option" where
  "mod_func_u_u t ui1 ui2 = returned t (ui2 = 0) ui1 (c_mod t ui1 ui2)"

definition div_func_u_u :: "cint \<Rightarrow> int \<Rightarrow> int \<Rightarrow> int option" where
  "div_func_u_u t ui1 ui2 = returned t (ui2 = 0) ui1 (c_div t ui1 ui2)"

definition lshift_func_u :: "cint \<Rightarrow> cint \<Rightarrow> int \<Rightarrow> int \<Rightarrow> int option" where
  "lshift_func_u u t left right =
     (if (is_signed_v u \<and> right < 0) \<or> right \<ge> maxshift then Some left
      else do { m \<leftarrow> c_shr t (tmax t) right; returned t (left > m) left (c_shl t left right) })"

definition rshift_func_u :: "cint \<Rightarrow> cint \<Rightarrow> int \<Rightarrow> int \<Rightarrow> int option" where
  "rshift_func_u u t left right =
     returned t ((is_signed_v u \<and> right < 0) \<or> right \<ge> maxshift) left (c_shr t left right)"

section \<open>The test of the subtraction\<close>

text \<open>The bits above the position \<open>n\<close> of a number of \<open>n\<close> bits and a sign are its sign.\<close>

lemma high_bits: "z AND NOT (mask n) = z div 2 ^ n * 2 ^ n" for z :: int
proof -
  have "z AND NOT (mask n) = push_bit n (drop_bit n z)" by (auto simp: bit_eq_iff bit_simps not_less)
  then show ?thesis by (simp add: push_bit_eq_mult drop_bit_eq_div)
qed

lemma div_sign:
  fixes z :: int
  shows "0 \<le> z \<Longrightarrow> z < 2 ^ n \<Longrightarrow> z div 2 ^ n = 0"
  by simp

lemma xor_sign_bit:
  fixes z :: int
  assumes "0 \<le> z" "z < 2 ^ n"
  shows "z XOR NOT (mask n) = z - 2 ^ n"
proof -
  have "z AND NOT (mask n) = 0" using high_bits [of z n] div_sign [OF assms] by simp
  then have "z + NOT (mask n) = z XOR NOT (mask n)" by (rule disjunctive_add_eq_xor)
  then show ?thesis by (simp flip: minus_exp_eq_not_mask)
qed

lemma xor_sign_bit_neg:
  fixes z :: int
  assumes "- (2 ^ n) \<le> z" "z < 0"
  shows "z XOR NOT (mask n) = z + 2 ^ n"
proof -
  have "(z + 2 ^ n) XOR NOT (mask n) = z" using xor_sign_bit [of "z + 2 ^ n" n] assms by simp
  then have "z XOR NOT (mask n) = ((z + 2 ^ n) XOR NOT (mask n)) XOR NOT (mask n)" by simp
  also have "\<dots> = z + 2 ^ n" by (simp only: xor.assoc xor_self_eq xor.right_neutral)
  finally show ?thesis .
qed

lemma xor_bounds:
  fixes a b :: int
  assumes "- (2 ^ n) \<le> a" "a < 2 ^ n" "- (2 ^ n) \<le> b" "b < 2 ^ n"
  shows "- (2 ^ n) \<le> a XOR b \<and> a XOR b < 2 ^ n"
proof -
  have s: "signed_take_bit n x = x \<longleftrightarrow> - (2 ^ n) \<le> x \<and> x < 2 ^ n" for x :: int
    using signed_take_bit_int_eq_self_iff [of n x] by simp
  have "signed_take_bit n (a XOR b) = signed_take_bit n a XOR signed_take_bit n b"
    by (auto simp: bit_eq_iff bit_simps)
  with assms s [of a] s [of b] s [of "a XOR b"] show ?thesis by simp
qed

lemma sign_of_high_bits:
  fixes z :: int
  assumes "- (2 ^ n) \<le> z" "z < 2 ^ n"
  shows "z AND NOT (mask n) = (if z < 0 then NOT (mask n) else 0)"
proof (cases "z < 0")
  case True
  have "(z + 2 ^ n + (- 1) * 2 ^ n) div 2 ^ n = - 1 + (z + 2 ^ n) div 2 ^ n"
    by (rule div_mult_self1) simp
  moreover have "(z + 2 ^ n) div 2 ^ n = 0" using True assms by (intro div_sign) auto
  ultimately have "z div 2 ^ n = - 1" by simp
  with True high_bits [of z n] show ?thesis by (simp flip: minus_exp_eq_not_mask)
next
  case False
  with high_bits [of z n] div_sign [of z n] assms show ?thesis by simp
qed

lemma signed_max: "is_signed_v t \<Longrightarrow> tmax t = mask (width t - 1) \<and> tmin t = - (2 ^ (width t - 1))"
  by (simp add: tmax_def tmin_def mask_eq_exp_minus_1)

lemma fits_signed: "is_signed_v t \<Longrightarrow> fits t x \<longleftrightarrow> - (2 ^ (width t - 1)) \<le> x \<and> x < 2 ^ (width t - 1)"
  by (auto simp: fits_def tmin_def tmax_def)

lemma sub_test:
  assumes "is_signed_v t" "promote t = t" "fits t a" "fits t b"
  shows "\<exists>d. c_sub t (a XOR ((a XOR b) AND NOT (tmax t))) b = Some d \<and>
     ((a XOR b) AND (d XOR b) < 0 \<longleftrightarrow> \<not> fits t (a - b))"
proof -
  define n where "n = width t - 1"
  have F: "fits t x \<longleftrightarrow> - (2 ^ n) \<le> x \<and> x < 2 ^ n" for x using fits_signed [OF assms(1)] by (simp add: n_def)
  have M: "NOT (tmax t) = NOT (mask n)" using signed_max [OF assms(1)] by (simp add: n_def)
  have ab: "- (2 ^ n) \<le> a" "a < 2 ^ n" "- (2 ^ n) \<le> b" "b < 2 ^ n" using assms(3,4) F by auto
  note h = sign_of_high_bits [OF xor_bounds [OF ab, THEN conjunct1] xor_bounds [OF ab, THEN conjunct2]]
  show ?thesis
  proof (cases "(a < 0) = (b < 0)")
    case True
    then have z: "\<not> a XOR b < 0" by (simp add: xor_negative_int_iff)
    with h M have x: "a XOR ((a XOR b) AND NOT (tmax t)) = a" by simp
    have f: "fits t (a - b)" using True ab by (cases "a < 0") (auto simp: F)
    then have "c_sub t a b = Some (a - b)" by (simp add: c_sub_def assms(2) arith_fits)
    with x z f show ?thesis by (simp add: and_negative_int_iff)
  next
    case False
    then have z: "a XOR b < 0" by (simp add: xor_negative_int_iff)
    with h M have y: "a XOR ((a XOR b) AND NOT (tmax t)) = a XOR NOT (mask n)" by simp
    have x: "a XOR NOT (mask n) = (if a < 0 then a + 2 ^ n else a - 2 ^ n)"
      using xor_sign_bit [of a n] xor_sign_bit_neg [of n a] ab by auto
    define d where "d = (if a < 0 then a + 2 ^ n else a - 2 ^ n) - b"
    have f: "fits t d" using False ab by (cases "a < 0") (auto simp: F d_def)
    then have c: "c_sub t (a XOR ((a XOR b) AND NOT (tmax t))) b = Some d"
      unfolding y x by (simp add: c_sub_def assms(2) arith_fits flip: d_def)
    have "(a XOR b) AND (d XOR b) < 0 \<longleftrightarrow> (d < 0) \<noteq> (b < 0)"
      using z by (simp add: and_negative_int_iff xor_negative_int_iff)
    also have "\<dots> \<longleftrightarrow> \<not> fits t (a - b)" using False ab by (cases "a < 0") (auto simp: F d_def)
    finally show ?thesis using c by blast
  qed
qed

section \<open>The scalar functions are defined\<close>

lemma not_promoted_iff: "is_signed_v t \<Longrightarrow> not_promoted t \<longleftrightarrow> promote t = t"
  by (cases t) (simp_all add: not_promoted_def type_bounds)

lemma fits_promoted_type: "promote t \<noteq> t \<Longrightarrow> promote t = I32 \<and> - 32768 \<le> tmin t \<and> tmax t \<le> 65535 \<and>
    (is_signed_v t \<longrightarrow> tmax t \<le> 32767)"
  by (cases t) (simp_all add: type_bounds)

text \<open>The result of an operation in the promoted type, or \<open>x\<close> where it is not representable there.\<close>

definition checked :: "cint \<Rightarrow> int \<Rightarrow> int \<Rightarrow> int option" where
  "checked t x y = Some (if fits (promote t) y then conv t y else x)"

lemma returned_arith: "(u \<longleftrightarrow> \<not> fits (promote t) y) \<Longrightarrow> returned t u x (arith (promote t) y) = checked t x y"
  by (auto simp: returned_def checked_def arith_fits)

lemma narrow_fits:
  assumes "promote t \<noteq> t" "is_signed_v t" "fits t a" "fits t b"
  shows "fits (promote t) (a + b)" "fits (promote t) (a - b)" "fits (promote t) (- a)" "fits (promote t) (a * b)"
proof -
  have r: "\<bar>a\<bar> \<le> 32768" "\<bar>b\<bar> \<le> 32768" using fits_promoted_type [OF assms(1)] assms(2-4) by (auto simp: fits_def)
  then have "\<bar>a * b\<bar> \<le> 32768 * 32768" unfolding abs_mult by (intro mult_mono) auto
  with r show "fits (promote t) (a + b)" "fits (promote t) (a - b)" "fits (promote t) (- a)" "fits (promote t) (a * b)"
    using fits_promoted_type [OF assms(1)] by (auto simp: fits_def type_bounds)
qed

lemma unary_minus_s:
  assumes "is_signed_v t" "fits t a"
  shows "unary_minus_func_s t a = checked t a (- a)"
proof (cases "promote t = t")
  case True
  then show ?thesis unfolding unary_minus_func_s_def c_neg_def
    using assms signed_bounds [OF assms(1)]
    by (intro returned_arith) (auto simp: not_promoted_iff fits_def)
next
  case False
  then show ?thesis using assms narrow_fits(3) [OF False assms(1,2,2)]
    by (simp add: unary_minus_func_s_def not_promoted_iff c_neg_def returned_arith)
qed

lemma add_s:
  assumes "is_signed_v t" "fits t a" "fits t b"
  shows "add_func_s_s t a b = checked t a (a + b)"
proof (cases "promote t = t")
  case False
  then show ?thesis using assms narrow_fits(1) [OF False assms]
    by (simp add: add_func_s_s_def not_promoted_iff c_add_def returned_arith)
next
  case True
  have g: "guarded (a > 0 \<and> b > 0) (c_sub t (tmax t) b) (\<lambda>m. a > m) = Some ((a > 0 \<and> b > 0) \<and> a > tmax t - b)"
    "guarded (a < 0 \<and> b < 0) (c_sub t (tmin t) b) (\<lambda>m. a < m) = Some ((a < 0 \<and> b < 0) \<and> a < tmin t - b)"
    unfolding c_sub_def using assms signed_bounds [OF assms(1)]
    by (intro guarded_fits; simp add: fits_def)+
  define u where "u \<longleftrightarrow> ((a > 0 \<and> b > 0) \<and> a > tmax t - b) \<or> ((a < 0 \<and> b < 0) \<and> a < tmin t - b)"
  have "add_func_s_s t a b = returned t u a (c_add t a b)"
    unfolding add_func_s_s_def g using True assms(1) by (auto simp: not_promoted_iff u_def)
  also have "\<dots> = checked t a (a + b)"
    unfolding c_add_def by (rule returned_arith) (use True assms in \<open>auto simp: u_def fits_def\<close>)
  finally show ?thesis .
qed

lemma sub_s:
  assumes "is_signed_v t" "fits t a" "fits t b"
  shows "sub_func_s_s t a b = checked t a (a - b)"
proof (cases "promote t = t")
  case False
  then show ?thesis using assms narrow_fits(2) [OF False assms]
    by (simp add: sub_func_s_s_def not_promoted_iff c_sub_def returned_arith)
next
  case True
  from sub_test [OF assms(1) True assms(2,3)] obtain d where
    d: "c_sub t (a XOR ((a XOR b) AND NOT (tmax t))) b = Some d"
      "(a XOR b) AND (d XOR b) < 0 \<longleftrightarrow> \<not> fits t (a - b)" by blast
  have "sub_func_s_s t a b = returned t (\<not> fits t (a - b)) a (c_sub t a b)"
    using True assms(1) d by (simp add: sub_func_s_s_def not_promoted_iff)
  also have "\<dots> = checked t a (a - b)" unfolding c_sub_def by (rule returned_arith) (simp add: True)
  finally show ?thesis .
qed

lemma mul_s:
  assumes "is_signed_v t" "fits t a" "fits t b"
  shows "mul_func_s_s t a b = checked t a (a * b)"
proof (cases "promote t = t")
  case False
  then show ?thesis using assms narrow_fits(4) [OF False assms]
    by (simp add: mul_func_s_s_def not_promoted_iff c_mul_def returned_arith)
next
  case True
  note f = quotient_tests(1,2) [OF assms(1)]
  have g: "guarded (a > 0 \<and> b > 0) (c_div t (tmax t) b) (\<lambda>m. a > m) = Some ((a > 0 \<and> b > 0) \<and> a > tmax t sdiv b)"
    "guarded (a > 0 \<and> b \<le> 0) (c_div t (tmin t) a) (\<lambda>m. b < m) = Some ((a > 0 \<and> b \<le> 0) \<and> b < tmin t sdiv a)"
    "guarded (a \<le> 0 \<and> b > 0) (c_div t (tmin t) b) (\<lambda>m. a < m) = Some ((a \<le> 0 \<and> b > 0) \<and> a < tmin t sdiv b)"
    "guarded (a \<le> 0 \<and> b \<le> 0 \<and> a \<noteq> 0) (c_div t (tmax t) a) (\<lambda>m. b < m) =
       Some ((a \<le> 0 \<and> b \<le> 0 \<and> a \<noteq> 0) \<and> b < tmax t sdiv a)"
    by (intro guarded_div; simp add: f)+
  define u where "u \<longleftrightarrow> (a > 0 \<and> b > 0) \<and> a > tmax t sdiv b \<or>
      (a > 0 \<and> b \<le> 0) \<and> b < tmin t sdiv a \<or> (a \<le> 0 \<and> b > 0) \<and> a < tmin t sdiv b \<or>
      (a \<le> 0 \<and> b \<le> 0 \<and> a \<noteq> 0) \<and> b < tmax t sdiv a"
  have last: "(a \<le> 0 \<and> b \<le> 0 \<and> a \<noteq> 0) \<and> b < tmax t sdiv a \<longleftrightarrow> (a < 0 \<and> b < 0) \<and> a < tmax t sdiv b"
    using quotient_tests(5) [OF assms(1), of a b] quotient_tests(5) [OF assms(1), of b a] signed_bounds [OF assms(1)]
    by (cases "a < 0"; cases "b < 0") (auto simp: mult.commute [of b a])
  have "mul_func_s_s t a b = returned t u a (c_mul t a b)"
    unfolding mul_func_s_s_def g using True assms(1) by (auto simp: not_promoted_iff u_def)
  also have "\<dots> = checked t a (a * b)"
    unfolding c_mul_def by (rule returned_arith) (use product_fits [OF assms(1), of a b] last True in \<open>auto simp: u_def\<close>)
  finally show ?thesis .
qed

lemma tmin_promote: "is_signed_v t \<Longrightarrow> tmin (promote t) \<le> tmin t"
  by (cases t) (simp_all add: type_bounds)

text \<open>Division: \<open>MIN / -1\<close> is given up in every type, also where the promoted type could hold the
  result.\<close>

lemma div_s:
  assumes "is_signed_v t" "fits t a" "fits t b"
  shows "div_func_s_s t a b = Some (case elem_div t a b of Some r \<Rightarrow> r | None \<Rightarrow> a)"
    "mod_func_s_s t a b = Some (case elem_mod t a b of Some r \<Rightarrow> r | None \<Rightarrow> a)"
proof -
  show "div_func_s_s t a b = Some (case elem_div t a b of Some r \<Rightarrow> r | None \<Rightarrow> a)"
  proof (cases "b = 0 \<or> (a = tmin t \<and> b = - 1)")
    case False
    with sdiv_fits [OF assms(2,3)] have f: "fits t (a sdiv b)" by auto
    with False show ?thesis
      by (auto simp: div_func_s_s_def elem_div_def returned_def c_div_def arith_fits fits_promote conv_id)
  next
    case True
    with check_div_exact [OF assms(2,3)] assms(1) have "elem_div t a b = None"
      by (auto simp: check_safe_div_def split: if_splits)
    with True show ?thesis by (auto simp: div_func_s_s_def returned_def)
  qed
  show "mod_func_s_s t a b = Some (case elem_mod t a b of Some r \<Rightarrow> r | None \<Rightarrow> a)"
  proof (cases "b = 0 \<or> (a = tmin t \<and> b = - 1)")
    case False
    with sdiv_fits [OF assms(2,3)] have f: "fits t (a sdiv b)" by auto
    have "fits t (a smod b)"
      using smod_int_range [of b a] sdiv_abs [of a b] assms False signed_bounds [OF assms(1)]
      by (auto simp: fits_def)
    with False f show ?thesis
      by (auto simp: mod_func_s_s_def elem_mod_def returned_def c_mod_def fits_promote conv_id)
  next
    case True
    with check_mod_exact [OF assms(2,3)] assms(1) have "elem_mod t a b = None"
      by (auto simp: check_safe_mod_def split: if_splits)
    with True show ?thesis by (auto simp: mod_func_s_s_def returned_def)
  qed
qed

text \<open>The shifts, for both kinds of values and of counts: a shift is done when the count is at most 31,
  nothing is negative and, to the left, nothing is lost.\<close>

lemma shift_bounds:
  assumes "fits t x" "0 \<le> x" "0 \<le> n" "n < maxshift"
  shows "c_shr t (tmax t) n = Some (tmax t div 2 ^ nat n)" "c_shr t x n = Some (x div 2 ^ nat n)"
    "fits t (x div 2 ^ nat n)" "fits t (x * 2 ^ nat n) \<longleftrightarrow> \<not> tmax t div 2 ^ nat n < x"
    "fits t (x * 2 ^ nat n) \<Longrightarrow> c_shl t x n = Some (x * 2 ^ nat n)"
proof -
  have w: "n < int (width (promote t))" using assms(4) by (cases t) (simp_all add: maxshift_def)
  have low: "tmin t \<le> 0" using signed_bounds [of t] by (cases "is_signed_v t") (auto simp: tmin_def)
  have pos: "0 \<le> x * 2 ^ nat n" "0 \<le> x div 2 ^ nat n"
    using assms(2) by (simp_all add: pos_imp_zdiv_nonneg_iff)
  have "x div 2 ^ nat n \<le> x div 1" using assms(2) by (intro zdiv_mono2) auto
  then have "x div 2 ^ nat n \<le> x" by simp
  with assms(1) low pos(2) show "fits t (x div 2 ^ nat n)" by (auto simp: fits_def)
  have "tmax t div 2 ^ nat n < x \<longleftrightarrow> tmax t < x * 2 ^ nat n" by (rule div_less_times) simp
  with low pos(1) show "fits t (x * 2 ^ nat n) \<longleftrightarrow> \<not> tmax t div 2 ^ nat n < x" by (auto simp: fits_def)
  show "c_shr t (tmax t) n = Some (tmax t div 2 ^ nat n)" "c_shr t x n = Some (x div 2 ^ nat n)"
    using w assms(3) by (simp_all add: c_shr_def)
  show "fits t (x * 2 ^ nat n) \<Longrightarrow> c_shl t x n = Some (x * 2 ^ nat n)"
    using w assms(2,3) by (simp add: c_shl_def arith_fits fits_promote)
qed

lemma unsigned_nonneg: "fits t x \<Longrightarrow> \<not> is_signed_v t \<Longrightarrow> 0 \<le> x"
  by (simp add: fits_def tmin_def)

lemma shifts_s:
  assumes "is_signed_v t" "fits t x" "fits u n"
  shows "lshift_func_s u t x n =
      Some (if 0 \<le> x \<and> 0 \<le> n \<and> n < maxshift \<and> fits t (x * 2 ^ nat n) then x * 2 ^ nat n else x)"
    "rshift_func_s u t x n = Some (if 0 \<le> x \<and> 0 \<le> n \<and> n < maxshift then x div 2 ^ nat n else x)"
proof -
  have u: "\<not> is_signed_v u \<Longrightarrow> 0 \<le> n" by (rule unsigned_nonneg [OF assms(3)])
  show "lshift_func_s u t x n =
      Some (if 0 \<le> x \<and> 0 \<le> n \<and> n < maxshift \<and> fits t (x * 2 ^ nat n) then x * 2 ^ nat n else x)"
  proof (cases "0 \<le> x \<and> 0 \<le> n \<and> n < maxshift")
    case True
    with shift_bounds [OF assms(2), of n] show ?thesis
      by (cases "fits t (x * 2 ^ nat n)") (simp_all add: lshift_func_s_def returned_def conv_id)
  qed (use u in \<open>auto simp: lshift_func_s_def\<close>)
  show "rshift_func_s u t x n = Some (if 0 \<le> x \<and> 0 \<le> n \<and> n < maxshift then x div 2 ^ nat n else x)"
  proof (cases "0 \<le> x \<and> 0 \<le> n \<and> n < maxshift")
    case True
    with shift_bounds [OF assms(2), of n] show ?thesis by (simp add: rshift_func_s_def returned_def conv_id)
  qed (use u in \<open>auto simp: rshift_func_s_def returned_def\<close>)
qed

lemma shifts_u:
  assumes "\<not> is_signed_v t" "fits t x" "fits u n"
  shows "lshift_func_u u t x n =
      Some (if 0 \<le> n \<and> n < maxshift \<and> fits t (x * 2 ^ nat n) then x * 2 ^ nat n else x)"
    "rshift_func_u u t x n = Some (if 0 \<le> n \<and> n < maxshift then x div 2 ^ nat n else x)"
proof -
  have u: "\<not> is_signed_v u \<Longrightarrow> 0 \<le> n" by (rule unsigned_nonneg [OF assms(3)])
  have x: "0 \<le> x" by (rule unsigned_nonneg [OF assms(2,1)])
  show "lshift_func_u u t x n =
      Some (if 0 \<le> n \<and> n < maxshift \<and> fits t (x * 2 ^ nat n) then x * 2 ^ nat n else x)"
  proof (cases "0 \<le> n \<and> n < maxshift")
    case True
    with shift_bounds [OF assms(2) x, of n] show ?thesis
      by (cases "fits t (x * 2 ^ nat n)") (simp_all add: lshift_func_u_def returned_def conv_id)
  qed (use u in \<open>auto simp: lshift_func_u_def\<close>)
  show "rshift_func_u u t x n = Some (if 0 \<le> n \<and> n < maxshift then x div 2 ^ nat n else x)"
  proof (cases "0 \<le> n \<and> n < maxshift")
    case True
    with shift_bounds [OF assms(2) x, of n] show ?thesis by (simp add: rshift_func_u_def returned_def conv_id)
  qed (use u in \<open>auto simp: rshift_func_u_def returned_def\<close>)
qed

text \<open>Unsigned arithmetic is arithmetic modulo the width of the type.\<close>

lemma conv_unsigned: "\<not> is_signed_v t \<Longrightarrow> conv t x = x mod 2 ^ width t"
  by (simp add: conv_def tmin_def)

lemma conv_conv: "\<not> is_signed_v t \<Longrightarrow> \<not> is_signed_v u \<Longrightarrow> width t \<le> width u \<Longrightarrow> conv t (conv u x) = conv t x"
  by (simp add: conv_unsigned mod_mod_cancel le_imp_power_dvd)

lemma unsigned_arith:
  assumes "\<not> is_signed_v t" "promote t = t \<or> (promote t = I32 \<and> fits I32 x)"
  shows "map_option (conv t) (arith (promote t) x) = Some (x mod 2 ^ width t)"
  using assms(2)
proof
  assume "promote t = t"
  with assms(1) show ?thesis by (simp add: arith_def conv_unsigned)
next
  assume "promote t = I32 \<and> fits I32 x"
  with assms(1) show ?thesis by (simp add: arith_fits conv_unsigned)
qed

lemma narrow_unsigned: "\<not> is_signed_v t \<Longrightarrow> promote t \<noteq> t \<Longrightarrow> fits t a \<Longrightarrow> promote t = I32 \<and> 0 \<le> a \<and> a \<le> 65535"
  using fits_promoted_type [of t] by (auto simp: fits_def tmin_def)

lemma unsigned_funcs:
  assumes "\<not> is_signed_v t" "fits t a" "fits t b"
  shows "unary_minus_func_u t a = Some (- a mod 2 ^ width t)"
    "add_func_u_u t a b = Some ((a + b) mod 2 ^ width t)"
    "sub_func_u_u t a b = Some ((a - b) mod 2 ^ width t)"
    "mul_func_u_u t a b = Some (a * b mod 2 ^ width t)"
    "div_func_u_u t a b = Some (if b = 0 then a else a div b)"
    "mod_func_u_u t a b = Some (if b = 0 then a else a mod b)"
proof -
  note n = narrow_unsigned [OF assms(1) _ assms(2)] narrow_unsigned [OF assms(1) _ assms(3)]
  have s: "promote t = t \<or> (promote t = I32 \<and> fits I32 (- a))" "promote t = t \<or> (promote t = I32 \<and> fits I32 (a + b))"
    "promote t = t \<or> (promote t = I32 \<and> fits I32 (a - b))"
    using n by (auto simp: fits_def type_bounds)
  show "unary_minus_func_u t a = Some (- a mod 2 ^ width t)" "add_func_u_u t a b = Some ((a + b) mod 2 ^ width t)"
    "sub_func_u_u t a b = Some ((a - b) mod 2 ^ width t)"
    unfolding unary_minus_func_u_def c_neg_def add_func_u_u_def c_add_def sub_func_u_u_def c_sub_def
    by (rule unsigned_arith [OF assms(1) s(1)], rule unsigned_arith [OF assms(1) s(2)],
        rule unsigned_arith [OF assms(1) s(3)])
  have p: "\<not> is_signed_v (promote2 t)" "promote (promote2 t) = promote2 t" "width t \<le> width (promote2 t)"
    "fits (promote2 t) a" "fits (promote2 t) b"
    using assms by (cases t; simp add: promote2_def fits_def type_bounds)+
  show "mul_func_u_u t a b = Some (a * b mod 2 ^ width t)"
    using conv_conv [OF assms(1) p(1,3), of "a * b"] assms(1)
    by (simp add: mul_func_u_u_def c_mul_def p(2) arith_def p(1) conv_id [OF p(4)] conv_id [OF p(5)] conv_unsigned)
  have nn: "0 \<le> a" "0 \<le> b" using unsigned_nonneg assms by blast+
  have d: "fits t (a sdiv b)" if "b \<noteq> 0" by (rule sdiv_fits [OF assms(2,3) that]) (use assms(1) in simp)
  have "a smod b = a mod b" using nn by (cases "a = 0") (simp_all add: signed_modulo_int_def sgn_if)
  moreover have "fits t (a mod b)" if "b \<noteq> 0"
  proof -
    have "0 \<le> a mod b" "a mod b < b" using nn that by simp_all
    with assms(1,3) show ?thesis by (simp add: fits_def tmin_def)
  qed
  ultimately show "mod_func_u_u t a b = Some (if b = 0 then a else a mod b)"
    using d by (auto simp: mod_func_u_u_def returned_def c_mod_def fits_promote conv_id)
  show "div_func_u_u t a b = Some (if b = 0 then a else a div b)"
    using d nn sdiv_pos [of a b]
    by (auto simp: div_func_u_u_def returned_def c_div_def arith_fits fits_promote conv_id)
qed

section \<open>Atomic operations\<close>

text \<open>
  The atomic operations work on one memory cell; \<open>native\<close> is the atomic of HIP, from the content of
  the cell and the operand to the value it returns and the new content.
\<close>

type_synonym native_atomic = "cint \<Rightarrow> int \<Rightarrow> int \<Rightarrow> (int \<times> int) option"

definition safe_atomicAdd :: "native_atomic \<Rightarrow> cint \<Rightarrow> int \<Rightarrow> int \<Rightarrow> (int \<times> int) option" where
  "safe_atomicAdd native t cell val_in =
     (let val = conv t val_in in
      if is_signed_v t
      then do { ok \<leftarrow> check_safe_add t cell val; if \<not> ok then Some (cell, cell) else native t cell val }
      else native t cell val)"

definition safe_atomicSub :: "native_atomic \<Rightarrow> cint \<Rightarrow> int \<Rightarrow> int \<Rightarrow> (int \<times> int) option" where
  "safe_atomicSub native t cell val_in =
     (let val = conv t val_in in
      if is_signed_v t
      then do { ok \<leftarrow> check_safe_sub t cell val; if \<not> ok then Some (cell, cell) else native t cell val }
      else native t cell val)"

definition safe_atomic_passthrough ::
    "native_atomic \<Rightarrow> cint \<Rightarrow> int \<Rightarrow> int \<Rightarrow> (int \<times> int) option" where
  "safe_atomic_passthrough native t cell val_in = native t cell (conv t val_in)"

definition safe_atomicCAS ::
    "(cint \<Rightarrow> int \<Rightarrow> int \<Rightarrow> int \<Rightarrow> (int \<times> int) option) \<Rightarrow> cint \<Rightarrow> int \<Rightarrow> int \<Rightarrow> int \<Rightarrow> (int \<times> int) option" where
  "safe_atomicCAS native t cell compare_in val_in = native t cell (conv t compare_in) (conv t val_in)"

text \<open>The documented behaviour of an atomic read-modify-write: it returns the old content.\<close>

definition atomic_law :: "native_atomic \<Rightarrow> (cint \<Rightarrow> int \<Rightarrow> int \<Rightarrow> int option) \<Rightarrow> bool" where
  "atomic_law native elem \<longleftrightarrow> (\<forall>t cell v r. elem t cell v = Some r \<longrightarrow> native t cell v = Some (cell, r))"

lemma atomic_add_spec:
  assumes "atomic_law native elem_add" "fits t cell"
  shows "safe_atomicAdd native t cell v =
    Some (cell, case elem_add t cell (conv t v) of Some r \<Rightarrow> r | None \<Rightarrow> cell)"
  using assms check_add_exact [OF assms(2) conv_range, of v]
  by (auto simp: safe_atomicAdd_def atomic_law_def elem_add_def arith_def split: option.split)

lemma atomic_sub_spec:
  assumes "atomic_law native elem_sub" "fits t cell"
  shows "safe_atomicSub native t cell v =
    Some (cell, case elem_sub t cell (conv t v) of Some r \<Rightarrow> r | None \<Rightarrow> cell)"
  using assms check_sub_exact [OF assms(2) conv_range, of v]
  by (auto simp: safe_atomicSub_def atomic_law_def elem_sub_def arith_def split: option.split)

section \<open>No undefined behaviour\<close>


text \<open>
  C0: the checked scalar functions of \<open>safe_math.m4\<close> on signed types are defined for all operands;
  negation, sum, difference and product are the mathematical result, converted to the type, when the
  promoted type can hold it, and the first operand otherwise; in particular the bitwise test of the
  subtraction is exact.  Quotient and remainder are given up for a zero divisor and for the minimum
  divided by -1 only.
\<close>

theorem safe_signed_math_exact:
  assumes "is_signed_v t" "fits t a" "fits t b"
  shows "unary_minus_func_s t a = checked t a (- a) \<and> add_func_s_s t a b = checked t a (a + b) \<and>
    sub_func_s_s t a b = checked t a (a - b) \<and> mul_func_s_s t a b = checked t a (a * b) \<and>
    div_func_s_s t a b = Some (case elem_div t a b of Some r \<Rightarrow> r | None \<Rightarrow> a) \<and>
    mod_func_s_s t a b = Some (case elem_mod t a b of Some r \<Rightarrow> r | None \<Rightarrow> a)"
  using unary_minus_s add_s sub_s mul_s div_s assms by blast

text \<open>
  the checked atomic addition and subtraction never overflow: they return the old content of the
  cell and leave the exact result in it, or leave it alone where the result does not fit.
\<close>

lemma safe_atomics_defined:
  assumes "atomic_law nadd elem_add" "atomic_law nsub elem_sub" "fits t cell"
  shows "safe_atomicAdd nadd t cell v = Some (cell, case elem_add t cell (conv t v) of Some r \<Rightarrow> r | None \<Rightarrow> cell) \<and>
    safe_atomicSub nsub t cell v = Some (cell, case elem_sub t cell (conv t v) of Some r \<Rightarrow> r | None \<Rightarrow> cell)"
  using atomic_add_spec [OF assms(1,3)] atomic_sub_spec [OF assms(2,3)] by simp

subsection \<open>Witnesses\<close>

text \<open>Operators that do what their documentation says, and nothing more.\<close>

definition example_hip :: hip_operators where
  "example_hip = \<lparr>hip_plus = (\<lambda>t. lanewise (elem_add t)), hip_divide = (\<lambda>t. lanewise (elem_div t)),
     hip_shl = (\<lambda>t. lanewise (elem_shl t)), hip_modulo = (\<lambda>t. lanewise (elem_mod t)),
     hip_times = (\<lambda>t. lanewise (elem_mul t)), hip_shr = (\<lambda>t. lanewise (elem_shr t)),
     hip_minus = (\<lambda>t. lanewise (elem_sub t)), hip_negate = (\<lambda>t a. lanewise (\<lambda>x y. elem_neg t x) a a)\<rparr>"


theorem safe_signed_math_exact_witness:
  "sub_func_s_s I32 (- 2147483648) 1 = Some (- 2147483648) \<and> sub_func_s_s I32 (- 2147483647) 1 = Some (- 2147483648)"
  using safe_signed_math_exact [of I32 "- 2147483648" 1] safe_signed_math_exact [of I32 "- 2147483647" 1]
  by (simp add: checked_def fits_def type_bounds conv_def)

end
