(* ===== verification/Facts.thy ===== *)
theory Facts
  imports Scopes RandomGen
begin

text \<open>
  The facts of the data flow analysis (\<open>Fact.cpp\<close>, \<open>FactPointTo.cpp\<close>, \<open>FactUnion.cpp\<close>): which
  variables a pointer may point to and which field of a union was written last.  A fact object is a
  value of \<open>Fact\<close>; the code replaces facts in a vector and changes none that is shared.  A vector of
  facts is the abstract state of the analysis.

  The first part has the operations, the second what they mean: a fact denotes a set of possible
  states of its variable, and joining facts over-approximates the union.
\<close>

section \<open>Facts\<close>

datatype Fact = FactPointTo (get_var: nat) (point_to_vars: "nat list")
  | FactUnion (get_var: nat) (last_written_fid: int)

text \<open>The dummy variables \<open>null_ptr\<close>, \<open>garbage_ptr\<close>, \<open>tbd_ptr\<close> are the first objects created, by the
  static initialization of \<open>FactPointTo.cpp\<close>; they have no type.\<close>

definition null_ptr :: nat where "null_ptr = 0"
definition garbage_ptr :: nat where "garbage_ptr = 1"
definition tbd_ptr :: nat where "tbd_ptr = 2"

definition is_special_ptr :: "nat \<Rightarrow> bool" where
  "is_special_ptr p \<longleftrightarrow> p = null_ptr \<or> p = garbage_ptr \<or> p = tbd_ptr"

definition TOP :: int where "TOP = - 2"
definition BOTTOM :: int where "BOTTOM = - 1"

definition is_top :: "Fact \<Rightarrow> bool" where
  "is_top f = (case f of FactPointTo v vs \<Rightarrow> vs = [] | FactUnion v fid \<Rightarrow> fid = TOP)"

definition is_bottom :: "Fact \<Rightarrow> bool" where
  "is_bottom f = (case f of FactPointTo v vs \<Rightarrow> False | FactUnion v fid \<Rightarrow> fid = BOTTOM)"

definition set_top :: "Fact \<Rightarrow> Fact" where
  "set_top f = (case f of FactPointTo v vs \<Rightarrow> FactPointTo v [] | FactUnion v fid \<Rightarrow> FactUnion v TOP)"

definition set_bottom :: "Fact \<Rightarrow> Fact" where
  "set_bottom f = (case f of FactPointTo v vs \<Rightarrow> f | FactUnion v fid \<Rightarrow> FactUnion v BOTTOM)"

text \<open>\<open>eCat == fact.eCat && get_var() == fact.get_var()\<close>\<close>

definition is_related :: "Fact \<Rightarrow> Fact \<Rightarrow> bool" where
  "is_related f g \<longleftrightarrow> is_FactPointTo f = is_FactPointTo g \<and> get_var f = get_var g"

fun fact_equal :: "Fact \<Rightarrow> Fact \<Rightarrow> bool" where
  "fact_equal (FactPointTo v vs) (FactPointTo w ws) \<longleftrightarrow> v = w \<and> equal_variable_sets vs ws"
| "fact_equal (FactUnion v i) (FactUnion w j) \<longleftrightarrow> v = w \<and> i = j"
| "fact_equal _ _ \<longleftrightarrow> False"

fun fact_imply :: "Fact \<Rightarrow> Fact \<Rightarrow> bool" where
  "fact_imply (FactPointTo v vs) (FactPointTo w ws) \<longleftrightarrow> v = w \<and> sub_variable_sets ws vs"
| "fact_imply (FactUnion v i) (FactUnion w j) \<longleftrightarrow> v = w \<and> (i = BOTTOM \<or> (j \<noteq> BOTTOM \<and> i = j))"
| "fact_imply _ _ \<longleftrightarrow> False"

text \<open>\<open>join\<close> changes this fact and tells whether it did.\<close>

definition fact_join :: "Fact \<Rightarrow> Fact \<Rightarrow> bool \<times> Fact" where
  "fact_join f g =
     (if \<not> is_related f g then (False, f)
      else (case (f, g) of
          (FactPointTo v vs, FactPointTo w ws) \<Rightarrow>
            let (changed, vs') = add_variables_to_set vs ws in (changed, FactPointTo v vs')
        | (FactUnion v i, FactUnion w j) \<Rightarrow>
            if fact_imply f g then (False, f)
            else if fact_imply g f then (True, FactUnion v j)
            else (True, FactUnion v BOTTOM)
        | _ \<Rightarrow> (False, f)))"

definition is_tbd_only :: "Fact \<Rightarrow> bool" where
  "is_tbd_only f \<longleftrightarrow> point_to_vars f = [tbd_ptr]"

definition fact_join_visits :: "Fact \<Rightarrow> Fact \<Rightarrow> bool \<times> Fact" where
  "fact_join_visits f g =
     (case f of
        FactUnion v i \<Rightarrow> fact_join f g
      | FactPointTo v vs \<Rightarrow>
          if is_related f g \<and> \<not> is_tbd_only g
          then let (changed, vs') = add_variables_to_set (if is_tbd_only f then [] else vs) (point_to_vars g)
               in (changed, FactPointTo v vs')
          else (False, f))"

section \<open>Vectors of facts\<close>

fun find_fact_from :: "Fact list \<Rightarrow> Fact \<Rightarrow> int \<Rightarrow> int" where
  "find_fact_from [] fa i = - 1"
| "find_fact_from (f # facts) fa i = (if fact_equal fa f then i else find_fact_from facts fa (i + 1))"

definition find_fact :: "Fact list \<Rightarrow> Fact \<Rightarrow> int" where
  "find_fact facts fa = find_fact_from facts fa 0"

definition find_related_fact :: "Fact list \<Rightarrow> Fact \<Rightarrow> Fact option" where
  "find_related_fact facts new_fact = find (is_related new_fact) facts"

fun merge_fact :: "Fact list \<Rightarrow> Fact \<Rightarrow> bool \<times> Fact list" where
  "merge_fact [] new_fact = (True, [new_fact])"
| "merge_fact (f # facts) new_fact =
     (if is_related f new_fact
      then (if \<not> fact_imply f new_fact then (True, snd (fact_join new_fact f) # facts)
            else (False, f # facts))
      else let (changed, facts') = merge_fact facts new_fact in (changed, f # facts'))"

fun renew_fact :: "Fact list \<Rightarrow> Fact \<Rightarrow> bool \<times> Fact list" where
  "renew_fact [] new_fact = (True, [new_fact])"
| "renew_fact (f # facts) new_fact =
     (if is_related new_fact f
      then (if fact_equal new_fact f then (False, f # facts) else (True, new_fact # facts))
      else let (changed, facts') = renew_fact facts new_fact in (changed, f # facts'))"

definition merge_facts :: "Fact list \<Rightarrow> Fact list \<Rightarrow> bool \<times> Fact list" where
  "merge_facts facts new_facts =
     foldl (\<lambda>(changed, facts) f. let (c, facts') = merge_fact facts f in (changed \<or> c, facts'))
       (False, facts) new_facts"

definition renew_facts :: "Fact list \<Rightarrow> Fact list \<Rightarrow> bool \<times> Fact list" where
  "renew_facts facts new_facts =
     foldl (\<lambda>(changed, facts) f. let (c, facts') = renew_fact facts f in (changed \<or> c, facts'))
       (False, facts) new_facts"

definition copy_facts :: "Fact list \<Rightarrow> Fact list" where
  "copy_facts facts_in = facts_in"

fun combine_fact :: "Fact list \<Rightarrow> Fact \<Rightarrow> Fact list" where
  "combine_fact [] new_fact = []"
| "combine_fact (old_fact # facts) new_fact =
     (if is_related old_fact new_fact then snd (fact_join_visits old_fact new_fact) # facts
      else old_fact # combine_fact facts new_fact)"

definition combine_facts :: "Fact list \<Rightarrow> Fact list \<Rightarrow> Fact list" where
  "combine_facts facts1 facts2 = foldl combine_fact facts1 facts2"

definition same_facts :: "Fact list \<Rightarrow> Fact list \<Rightarrow> bool" where
  "same_facts facts1 facts2 \<longleftrightarrow> length facts1 = length facts2 \<and> (\<forall>f \<in> set facts1. find_fact facts2 f \<noteq> - 1)"

definition subset_facts :: "Fact list \<Rightarrow> Fact list \<Rightarrow> bool" where
  "subset_facts facts1 facts2 \<longleftrightarrow> length facts1 = length facts2 \<and>
     (\<forall>f1 \<in> set facts1. case find_related_fact facts2 f1 of None \<Rightarrow> False | Some f2 \<Rightarrow> fact_imply f2 f1)"

section \<open>Points-to facts\<close>

definition make_point_to :: "nat \<Rightarrow> Fact" where
  "make_point_to v = FactPointTo v [garbage_ptr]"

definition make_point_to_facts :: "'e vars \<Rightarrow> nat list \<Rightarrow> nat list \<Rightarrow> Fact list option" where
  "make_point_to_facts vs xs pts =
     fold_opt (\<lambda>x facts. do {
         v \<leftarrow> vec_get vs x;
         Some (if v_type v \<noteq> None then facts @ [FactPointTo x pts] else facts)
       }) xs []"

definition is_null :: "Fact \<Rightarrow> bool" where
  "is_null f \<longleftrightarrow> null_ptr \<in> set (point_to_vars f)"

definition is_dead :: "'e vars \<Rightarrow> Fact \<Rightarrow> bool option" where
  "is_dead vs f = map_option (\<lambda>pos. pos \<noteq> - 1) (find_variable_in_set vs (point_to_vars f) garbage_ptr)"

definition has_invisible ::
    "'e vars \<Rightarrow> 'f func_scope_scheme list \<Rightarrow> 'b block_scope_scheme list \<Rightarrow> nat option \<Rightarrow> Fact \<Rightarrow> bool option" where
  "has_invisible vs fs bs parent f =
     do {
       s \<leftarrow> is_visible vs fs bs parent (get_var f);
       if \<not> s then Some True
       else any_opt (\<lambda>v. if is_special_ptr v then Some False
                         else map_option Not (is_visible vs fs bs parent v)) (point_to_vars f)
     }"

definition mark_dead_var :: "'e vars \<Rightarrow> nat \<Rightarrow> Fact \<Rightarrow> Fact option option" where
  "mark_dead_var vs v f =
     do {
       let var_set = point_to_vars f;
       p1 \<leftarrow> find_variable_in_set vs var_set v;
       pos \<leftarrow> (if p1 = - 1 then find_field_variable_in_set vs var_set v else Some p1);
       if pos \<ge> 0
       then do {
         g \<leftarrow> find_variable_in_set vs var_set garbage_ptr;
         Some (Some (FactPointTo (get_var f)
           (if g \<ge> 0 then erase_at (nat pos) var_set else var_set[nat pos := garbage_ptr])))
       }
       else Some None
     }"

text \<open>\<open>Function::is_var_on_stack\<close> for a statement of function \<open>fn\<close> in the block \<open>parent\<close>.\<close>

definition func_var_on_stack ::
    "'e vars \<Rightarrow> 'f func_scope_scheme list \<Rightarrow> 'b block_scope_scheme list \<Rightarrow> nat \<Rightarrow> nat option \<Rightarrow> nat \<Rightarrow> bool option" where
  "func_var_on_stack vs fs bs fn parent v =
     do {
       f \<leftarrow> vec_get fs fn;
       p \<leftarrow> any_opt (\<lambda>x. var_match vs x v) (f_param f);
       if p then Some True
       else (case parent of None \<Rightarrow> Some False | Some b \<Rightarrow> declared_above vs bs b v)
     }"

definition is_var_visible ::
    "'e vars \<Rightarrow> 'f func_scope_scheme list \<Rightarrow> 'b block_scope_scheme list \<Rightarrow> nat \<Rightarrow> nat option \<Rightarrow> nat \<Rightarrow> bool option" where
  "is_var_visible vs fs bs fn parent v =
     do { g \<leftarrow> is_global vs v; if g then Some True else func_var_on_stack vs fs bs fn parent v }"

text \<open>The loop over the set: the first stack variable becomes garbage unless garbage is there already,
  the others are erased.\<close>

fun mark_stack_loop ::
    "(nat \<Rightarrow> bool option) \<Rightarrow> bool \<Rightarrow> bool \<Rightarrow> nat list \<Rightarrow> nat list \<Rightarrow> (bool \<times> nat list) option" where
  "mark_stack_loop on_stack has_garbage changed acc [] = Some (changed, acc)"
| "mark_stack_loop on_stack has_garbage changed acc (v # rest) =
     do {
       s \<leftarrow> on_stack v;
       if s
       then (if has_garbage then mark_stack_loop on_stack True True acc rest
             else mark_stack_loop on_stack True True (acc @ [garbage_ptr]) rest)
       else mark_stack_loop on_stack has_garbage changed (acc @ [v]) rest
     }"

definition mark_func_end ::
    "'e vars \<Rightarrow> 'f func_scope_scheme list \<Rightarrow> 'b block_scope_scheme list \<Rightarrow> nat \<Rightarrow> nat option \<Rightarrow> Fact \<Rightarrow>
     Fact option option" where
  "mark_func_end vs fs bs fn parent f =
     do {
       g \<leftarrow> find_variable_in_set vs (point_to_vars f) garbage_ptr;
       (changed, var_set) \<leftarrow> mark_stack_loop (func_var_on_stack vs fs bs fn parent) (g \<ge> 0) False []
                               (point_to_vars f);
       Some (if changed then Some (FactPointTo (get_var f) var_set) else None)
     }"

definition point_to :: "'e vars \<Rightarrow> Fact \<Rightarrow> nat \<Rightarrow> bool option" where
  "point_to vs f v =
     any_opt (\<lambda>x. do { b \<leftarrow> loose_match vs v x; if b then Some True else loose_match vs x v }) (point_to_vars f)"

definition is_valid_ptr :: "CGOptions \<Rightarrow> 'e vars \<Rightarrow> nat \<Rightarrow> Fact list \<Rightarrow> bool option" where
  "is_valid_ptr c vs p facts =
     (case find_related_fact facts (make_point_to p) of
        None \<Rightarrow> Some False
      | Some fa \<Rightarrow>
          if opt_null_pointer_dereference_prob c > 0 \<or> \<not> is_null fa
          then (if opt_dead_pointer_dereference_prob c > 0 then Some True
                else map_option Not (is_dead vs fa))
          else Some False)"

definition is_dangling_ptr :: "CGOptions \<Rightarrow> 'e vars \<Rightarrow> nat \<Rightarrow> Fact list \<Rightarrow> bool option" where
  "is_dangling_ptr c vs p facts =
     (case find_related_fact facts (make_point_to p) of
        None \<Rightarrow> Some False
      | Some fa \<Rightarrow>
          do { d \<leftarrow> is_dead vs fa; Some (d \<and> opt_dead_pointer_dereference_prob c = 0) })"

text \<open>\<open>merge_pointees_of_pointers\<close>: a pointer without a fact fails the assertion.\<close>

definition merge_pointees_of_pointers :: "nat list \<Rightarrow> Fact list \<Rightarrow> nat list option" where
  "merge_pointees_of_pointers ptrs facts =
     fold_opt (\<lambda>p vars.
         if is_special_ptr p then Some vars
         else do {
           f \<leftarrow> find_related_fact facts (make_point_to p);
           Some (snd (add_variables_to_set vars (point_to_vars f)))
         }) ptrs []"

fun merge_pointees_loop :: "nat \<Rightarrow> nat list \<Rightarrow> Fact list \<Rightarrow> nat list option" where
  "merge_pointees_loop 0 tmp facts = Some tmp"
| "merge_pointees_loop (Suc n) tmp facts =
     do { tmp' \<leftarrow> merge_pointees_of_pointers tmp facts; merge_pointees_loop n tmp' facts }"

definition merge_pointees_of_pointer :: "nat \<Rightarrow> int \<Rightarrow> Fact list \<Rightarrow> nat list option" where
  "merge_pointees_of_pointer ptr indirect facts = merge_pointees_loop (nat indirect) [ptr] facts"

text \<open>\<open>opportunistic_validate\<close>: 0 rejects, 1 accepts, 2 accepts a null or dangling pointer.\<close>

definition opportunistic_validate ::
    "'e vars \<Rightarrow> nat \<Rightarrow> Type \<Rightarrow> Fact list \<Rightarrow> 'z world_scheme \<Rightarrow> (nat \<times> 'z world_scheme) option" where
  "opportunistic_validate vs var type facts w =
     do {
       t \<leftarrow> type_of vs var;
       if get_indirect_level t \<le> get_indirect_level type then Some (1, w)
       else do {
         coll \<leftarrow> get_collective vs var;
         (case find_related_fact facts (make_point_to coll) of
            None \<Rightarrow> Some (0, w)
          | Some fp \<Rightarrow>
              do {
                (go, ret, w1) \<leftarrow>
                  (if is_null fp
                   then do {
                     (b, w1) \<leftarrow> rnd_flipcoin (nat (opt_null_pointer_dereference_prob (w_opts w))) None None w;
                     Some (b, 2, w1)
                   }
                   else Some (True, 1, w));
                if \<not> go then Some (0, w1)
                else do {
                  d \<leftarrow> is_dead vs fp;
                  if d
                  then do {
                    (b, w2) \<leftarrow> rnd_flipcoin (nat (opt_dead_pointer_dereference_prob (w_opts w1))) None None w1;
                    Some (if b then 2 else 0, w2)
                  }
                  else Some (ret, w1)
                }
              })
       }
     }"

text \<open>The recursion of \<open>is_pointing_to_locals\<close> over the levels of one pointee.\<close>

definition reaches_local ::
    "'e vars \<Rightarrow> 'f func_scope_scheme list \<Rightarrow> 'b block_scope_scheme list \<Rightarrow> nat option \<Rightarrow> Fact list \<Rightarrow>
     nat \<Rightarrow> bool option" where
  "reaches_local vs fs bs blk facts pointee =
     do {
       l \<leftarrow> is_visible_local vs fs bs blk pointee;
       if l then Some True
       else do {
         p \<leftarrow> is_pointer vs pointee;
         if \<not> p then Some False
         else do {
           t \<leftarrow> type_of vs pointee;
           any_opt (\<lambda>j. do {
               pts \<leftarrow> merge_pointees_of_pointer pointee (int j + 1) facts;
               any_opt (is_visible_local vs fs bs blk) pts
             }) [0 ..< get_indirect_level t]
         }
       }
     }"

definition is_pointing_to_locals ::
    "'e vars \<Rightarrow> 'f func_scope_scheme list \<Rightarrow> 'b block_scope_scheme list \<Rightarrow> nat \<Rightarrow> nat option \<Rightarrow> int \<Rightarrow>
     Fact list \<Rightarrow> bool option" where
  "is_pointing_to_locals vs fs bs v blk indirection facts =
     (if indirection = - 1 then is_visible_local vs fs bs blk v
      else do {
        p \<leftarrow> is_pointer vs v;
        if \<not> p then Some False
        else do {
          x \<leftarrow> vec_get vs v;
          af \<leftarrow> is_array_field vs v;
          v \<leftarrow> (if v_isArray x \<or> af then get_collective vs v else Some v);
          pts \<leftarrow> (if indirection = 0
                 then Some (case find_related_fact facts (make_point_to v) of
                     None \<Rightarrow> [] | Some ft \<Rightarrow> point_to_vars ft)
                 else merge_pointees_of_pointer v indirection facts);
          any_opt (reaches_local vs fs bs blk facts) pts
        }
      })"

definition point_to_str :: "'e vars \<Rightarrow> nat \<Rightarrow> string option" where
  "point_to_str vs v =
     (if v = null_ptr then Some ''0''
      else if v = tbd_ptr then Some ''tbd''
      else if v = garbage_ptr then Some ''garbage''
      else map_option (\<lambda>x. CHR ''&'' # v_name x) (vec_get vs v))"

text \<open>The alias sets: the pointers seen so far and, at the same positions, what they may point to.
  Facts of the dummy return variables, which have no type, are left out.\<close>

definition add_aliases :: "'e vars \<Rightarrow> nat list \<Rightarrow> nat list \<Rightarrow> nat list option" where
  "add_aliases vs = fold_opt (\<lambda>v set. do {
       pos \<leftarrow> find_variable_in_set vs set v;
       Some (if pos = - 1 then set @ [v] else set)
     })"

definition update_ptr_aliases ::
    "'e vars \<Rightarrow> Fact list \<Rightarrow> nat list \<times> nat list list \<Rightarrow> (nat list \<times> nat list list) option" where
  "update_ptr_aliases vs facts = fold_opt (\<lambda>f (ptrs, aliases).
       (case f of
          FactUnion v fid \<Rightarrow> Some (ptrs, aliases)
        | FactPointTo v pts \<Rightarrow>
            do {
              x \<leftarrow> vec_get vs v;
              if v_type x = None then Some (ptrs, aliases)
              else do {
                pos \<leftarrow> find_variable_in_set vs ptrs v;
                if pos = - 1 then Some (ptrs @ [v], aliases @ [pts])
                else do {
                  old \<leftarrow> vec_get aliases (nat pos);
                  new \<leftarrow> add_aliases vs pts old;
                  Some (ptrs, aliases[nat pos := new])
                }
              }
            })) facts"

section \<open>Union facts\<close>

definition get_last_written_type :: "'e vars \<Rightarrow> Fact \<Rightarrow> Type option option" where
  "get_last_written_type vs f =
     do {
       v \<leftarrow> vec_get vs (get_var f);
       t \<leftarrow> v_type v;
       assert_opt (eType t = eUnion);
       if is_top f \<or> is_bottom f then Some None
       else do {
         let fid = last_written_fid f;
         assert_opt (0 \<le> fid \<and> fid < int (length (v_field_vars v)));
         x \<leftarrow> vec_get vs (v_field_vars v ! nat fid);
         Some (v_type x)
       }
     }"

definition make_union_fact :: "'e vars \<Rightarrow> nat \<Rightarrow> int \<Rightarrow> Fact option" where
  "make_union_fact vs v fid =
     do { t \<leftarrow> type_of vs v; assert_opt (eType t = eUnion); Some (FactUnion v fid) }"

definition make_union_facts :: "'e vars \<Rightarrow> nat list \<Rightarrow> int \<Rightarrow> Fact list option" where
  "make_union_facts vs xs fid =
     fold_opt (\<lambda>v facts. map_option (\<lambda>f. facts @ [f]) (make_union_fact vs v fid)) xs []"

text \<open>The walk up to the field of the union.\<close>

function union_field_above :: "'e vars \<Rightarrow> nat \<Rightarrow> (nat \<times> nat) option" where
  "union_field_above vs v =
     do {
       u \<leftarrow> is_union_field vs v;
       po \<leftarrow> container_of vs v;
       p \<leftarrow> po;
       if u then Some (v, p) else union_field_above vs p
     }"
  by pat_completeness auto
termination by (relation "measure snd") (auto simp: termination_simp)

declare union_field_above.simps [simp del]

definition readable_by :: "Fact \<Rightarrow> Fact list \<Rightarrow> bool" where
  "readable_by tmp facts =
     (case find_related_fact facts tmp of None \<Rightarrow> False | Some fu \<Rightarrow> fact_imply tmp fu)"

definition is_nonreadable_field :: "'e vars \<Rightarrow> nat \<Rightarrow> Fact list \<Rightarrow> bool option" where
  "is_nonreadable_field vs v facts =
     do {
       i \<leftarrow> is_inside_union_field vs v;
       if \<not> i then Some False
       else do {
         (f, u) \<leftarrow> union_field_above vs v;
         fid \<leftarrow> get_field_id vs f;
         Some (\<not> readable_by (FactUnion u fid) facts)
       }
     }"

definition is_field_readable :: "'e vars \<Rightarrow> nat \<Rightarrow> int \<Rightarrow> Fact list \<Rightarrow> bool option" where
  "is_field_readable vs v fid facts =
     do {
       t \<leftarrow> type_of vs v;
       assert_opt (eType t = eUnion \<and> 0 \<le> fid \<and> fid < int (length (Type.fields t)));
       Some (readable_by (FactUnion v fid) facts)
     }"

text \<open>\<open>join_var_facts\<close>: the facts of different unions are joined by pretending that they are about the
  same variable.\<close>

definition join_var_facts :: "Fact list \<Rightarrow> nat list \<Rightarrow> Fact option" where
  "join_var_facts facts xs =
     foldl (\<lambda>fu v.
         case find_related_fact facts (FactUnion v TOP) of
           None \<Rightarrow> fu
         | Some e \<Rightarrow>
             (case fu of
                None \<Rightarrow> Some e
              | Some g \<Rightarrow> Some (snd (fact_join (FactUnion (get_var e) (last_written_fid g)) e))))
       None xs"

section \<open>What joining promises\<close>

text \<open>
  The interface of an abstract domain to the environment: a value denotes a set of states; joining is
  an upper bound, and a value that implies another one denotes at least its states.  An exact domain
  denotes all its sets without loss.
\<close>

locale join_domain =
  fixes ok :: "'a \<Rightarrow> bool" and states :: "'a \<Rightarrow> 'x set"
    and implies :: "'a \<Rightarrow> 'a \<Rightarrow> bool" and join :: "'a \<Rightarrow> 'a \<Rightarrow> 'a"
  assumes join_ok: "ok a \<Longrightarrow> ok b \<Longrightarrow> ok (join a b)"
    and join_upper: "ok a \<Longrightarrow> ok b \<Longrightarrow> states a \<union> states b \<subseteq> states (join a b)"
    and implies_sound: "ok a \<Longrightarrow> ok b \<Longrightarrow> implies a b \<Longrightarrow> states b \<subseteq> states a"
begin

text \<open>The idiom of the environment: join only what is not implied already.\<close>

lemma merge_ok: "ok a \<Longrightarrow> ok b \<Longrightarrow> ok (if implies a b then a else join b a)"
  by (simp add: join_ok)

lemma merge_upper: "ok a \<Longrightarrow> ok b \<Longrightarrow> states a \<union> states b \<subseteq> states (if implies a b then a else join b a)"
  using join_upper [of b a] implies_sound [of a b] by auto

end

locale exact_domain = join_domain +
  assumes join_exact: "ok a \<Longrightarrow> ok b \<Longrightarrow> states (join a b) = states a \<union> states b"
    and implies_complete: "ok a \<Longrightarrow> ok b \<Longrightarrow> states b \<subseteq> states a \<Longrightarrow> implies a b"
begin

lemma merge_exact: "ok a \<Longrightarrow> ok b \<Longrightarrow> states (if implies a b then a else join b a) = states a \<union> states b"
  using join_exact [of b a] implies_sound [of a b] by auto

lemma merge_changes:
  "ok a \<Longrightarrow> ok b \<Longrightarrow> \<not> implies a b \<Longrightarrow> states a \<subset> states (join b a)"
  using join_exact [of b a] implies_complete [of a b] by blast

end

lemma add_variables_fold:
  "add_variables_to_set xs ys = (\<exists>y \<in> set ys. y \<notin> set xs, snd (add_variables_to_set xs ys)) \<and>
   set (snd (add_variables_to_set xs ys)) = set xs \<union> set ys \<and>
   (distinct xs \<longrightarrow> distinct (snd (add_variables_to_set xs ys)))"
proof -
  have "fst (foldl (\<lambda>(changed, xs) v. let (c, xs1) = add_variable_to_set xs v in (changed \<or> c, xs1)) (b, xs) ys)
      = (b \<or> (\<exists>y \<in> set ys. y \<notin> set xs)) \<and>
    set (snd (foldl (\<lambda>(changed, xs) v. let (c, xs1) = add_variable_to_set xs v in (changed \<or> c, xs1)) (b, xs) ys))
      = set xs \<union> set ys \<and>
    (distinct xs \<longrightarrow> distinct (snd (foldl (\<lambda>(changed, xs) v. let (c, xs1) = add_variable_to_set xs v in
        (changed \<or> c, xs1)) (b, xs) ys)))" for b
    by (induction ys arbitrary: b xs) (auto simp: add_variable_to_set_def is_variable_in_set_def)
  from this [of False] show ?thesis by (simp add: add_variables_to_set_def prod_eq_iff)
qed

lemma sub_variable_sets_iff:
  assumes "distinct xs"
  shows "sub_variable_sets xs ys \<longleftrightarrow> set xs \<subseteq> set ys"
proof -
  have "length xs \<le> length ys" if "set xs \<subseteq> set ys"
    using card_mono [OF _ that] card_length [of ys] distinct_card [OF assms] by simp
  then show ?thesis by (auto simp: sub_variable_sets_def is_variable_in_set_def)
qed

text \<open>The points-to sets are an exact domain.\<close>

interpretation point_to_sets: exact_domain distinct set "\<lambda>a b. sub_variable_sets b a"
    "\<lambda>a b. snd (add_variables_to_set a b)"
proof
  fix a b :: "nat list"
  assume ab: "distinct a" "distinct b"
  show "distinct (snd (add_variables_to_set a b))" using add_variables_fold [of a b] ab by blast
  show u: "set (snd (add_variables_to_set a b)) = set a \<union> set b" using add_variables_fold [of a b] by blast
  then show "set a \<union> set b \<subseteq> set (snd (add_variables_to_set a b))" by blast
  show "sub_variable_sets b a \<Longrightarrow> set b \<subseteq> set a" "set b \<subseteq> set a \<Longrightarrow> sub_variable_sets b a"
    by (simp_all add: sub_variable_sets_iff [OF ab(2)])
qed

text \<open>The fields that may have been written last: none is known for \<open>TOP\<close>, any for \<open>BOTTOM\<close>.  The
  join of \<open>TOP\<close> with a field loses the field: this domain is not exact.\<close>

definition field_states :: "int \<Rightarrow> int set" where
  "field_states i = (if i = BOTTOM then UNIV else if i = TOP then {} else {i})"

definition fid_implies :: "int \<Rightarrow> int \<Rightarrow> bool" where
  "fid_implies i j \<longleftrightarrow> i = BOTTOM \<or> (j \<noteq> BOTTOM \<and> i = j)"

definition fid_join :: "int \<Rightarrow> int \<Rightarrow> int" where
  "fid_join i j = (if fid_implies i j then i else if fid_implies j i then j else BOTTOM)"

interpretation written_fields: join_domain "\<lambda>i. True" field_states fid_implies fid_join
  by unfold_locales (auto simp: field_states_def fid_implies_def fid_join_def)

lemma top_loses_field: "fid_join TOP 0 = BOTTOM"
  by (simp add: fid_join_def fid_implies_def TOP_def BOTTOM_def)

text \<open>A fact is one or the other.\<close>

definition fact_ok :: "Fact \<Rightarrow> bool" where
  "fact_ok f = (case f of FactPointTo v pts \<Rightarrow> distinct pts | FactUnion v fid \<Rightarrow> True)"

definition fact_states :: "Fact \<Rightarrow> (nat + int) set" where
  "fact_states f = (case f of FactPointTo v pts \<Rightarrow> Inl ` set pts | FactUnion v fid \<Rightarrow> Inr ` field_states fid)"

lemma related_cases:
  assumes "is_related f g"
  obtains v xs ys where "f = FactPointTo v xs" "g = FactPointTo v ys"
  | v i j where "f = FactUnion v i" "g = FactUnion v j"
  using assms by (cases f; cases g) (auto simp: is_related_def)

lemma related_sym: "is_related f g = is_related g f"
  by (auto simp: is_related_def)

lemma related_trans: "is_related f g \<Longrightarrow> is_related g h \<Longrightarrow> is_related f h"
  by (auto simp: is_related_def)

lemma related_refl [simp]: "is_related f f"
  by (simp add: is_related_def)

lemma join_point_to [simp]:
  "fact_join (FactPointTo v xs) (FactPointTo v ys) =
     (\<exists>y \<in> set ys. y \<notin> set xs, FactPointTo v (snd (add_variables_to_set xs ys)))"
  using add_variables_fold [of xs ys]
  by (auto simp: fact_join_def is_related_def Let_def split: prod.splits)

lemma join_union [simp]: "snd (fact_join (FactUnion v i) (FactUnion v j)) = FactUnion v (fid_join i j)"
  by (simp add: fact_join_def is_related_def fid_join_def fid_implies_def)

text \<open>What \<open>merge_fact\<close> does to the first related fact.\<close>

definition merged :: "Fact \<Rightarrow> Fact \<Rightarrow> Fact" where
  "merged f g = (if fact_imply f g then f else snd (fact_join g f))"

lemma merged_related: "is_related f g \<Longrightarrow> is_related (merged f g) f"
  by (erule related_cases) (auto simp: merged_def is_related_def)

lemma merged_spec:
  assumes "is_related f g" "fact_ok f" "fact_ok g"
  shows "fact_ok (merged f g)" "fact_states f \<union> fact_states g \<subseteq> fact_states (merged f g)"
    "is_FactPointTo f \<Longrightarrow> fact_states (merged f g) = fact_states f \<union> fact_states g"
    "fact_imply f g \<longleftrightarrow> merged f g = f"
  using assms(1)
proof -
  have "fact_ok (merged f g) \<and> fact_states f \<union> fact_states g \<subseteq> fact_states (merged f g) \<and>
    (is_FactPointTo f \<longrightarrow> fact_states (merged f g) = fact_states f \<union> fact_states g) \<and>
    (fact_imply f g \<longleftrightarrow> merged f g = f)"
    using assms(1)
  proof (cases rule: related_cases)
    case (1 v xs ys)
    with assms(2,3) have d: "distinct xs" "distinct ys" by (simp_all add: fact_ok_def)
    have m: "merged f g = FactPointTo v (if sub_variable_sets ys xs then xs else snd (add_variables_to_set ys xs))"
      by (simp add: merged_def 1)
    have "\<not> sub_variable_sets ys xs \<Longrightarrow> snd (add_variables_to_set ys xs) \<noteq> xs"
      using point_to_sets.merge_changes [OF d] by auto
    with m point_to_sets.merge_ok [OF d] point_to_sets.merge_exact [OF d] show ?thesis
      by (auto simp: 1 fact_ok_def fact_states_def)
  next
    case (2 v i j)
    have m: "merged f g = FactUnion v (if fid_implies i j then i else fid_join j i)"
      by (simp add: merged_def 2 fid_implies_def)
    have "\<not> fid_implies i j \<Longrightarrow> fid_join j i \<noteq> i" by (auto simp: fid_implies_def fid_join_def)
    with m written_fields.merge_upper [of i j] show ?thesis
      by (auto simp: 2 fact_ok_def fact_states_def fid_implies_def split: if_splits)
  qed
  then show "fact_ok (merged f g)" "fact_states f \<union> fact_states g \<subseteq> fact_states (merged f g)"
    "is_FactPointTo f \<Longrightarrow> fact_states (merged f g) = fact_states f \<union> fact_states g"
    "fact_imply f g \<longleftrightarrow> merged f g = f" by blast+
qed

section \<open>Environments\<close>

text \<open>What an environment says about the variable (and the category) of a fact \<open>k\<close>.\<close>

definition env_states :: "Fact list \<Rightarrow> Fact \<Rightarrow> (nat + int) set" where
  "env_states facts k = (case find_related_fact facts k of None \<Rightarrow> {} | Some f \<Rightarrow> fact_states f)"

definition env_facts_ok :: "Fact list \<Rightarrow> bool" where
  "env_facts_ok facts \<longleftrightarrow> (\<forall>f \<in> set facts. fact_ok f)"

lemma env_facts_ok_simps [simp]:
  "env_facts_ok []" "env_facts_ok (f # facts) \<longleftrightarrow> fact_ok f \<and> env_facts_ok facts"
  by (simp_all add: env_facts_ok_def)

lemma find_related_simps [simp]:
  "find_related_fact [] k = None"
  "find_related_fact (f # facts) k = (if is_related k f then Some f else find_related_fact facts k)"
  by (simp_all add: find_related_fact_def)

lemma merge_fact_Cons:
  "merge_fact (f # facts) g =
     (if is_related f g then (\<not> fact_imply f g, merged f g # facts)
      else (fst (merge_fact facts g), f # snd (merge_fact facts g)))"
  by (simp add: merged_def case_prod_beta)

lemma category: "is_related f g \<Longrightarrow> is_FactPointTo f = is_FactPointTo g"
  by (simp add: is_related_def)

lemma merge_fact_spec:
  assumes "env_facts_ok facts" "fact_ok g"
  shows "env_facts_ok (snd (merge_fact facts g)) \<and>
    (\<forall>k. \<not> is_related g k \<longrightarrow> find_related_fact (snd (merge_fact facts g)) k = find_related_fact facts k) \<and>
    (\<forall>k. is_related g k \<longrightarrow>
       env_states facts k \<union> fact_states g \<subseteq> env_states (snd (merge_fact facts g)) k \<and>
       (is_FactPointTo g \<longrightarrow> env_states (snd (merge_fact facts g)) k = env_states facts k \<union> fact_states g)) \<and>
    (fst (merge_fact facts g) \<longleftrightarrow> snd (merge_fact facts g) \<noteq> facts)"
  using assms(1)
proof (induction facts)
  case Nil
  show ?case using assms(2) related_sym by (auto simp: env_states_def)
next
  case (Cons f facts)
  show ?case
  proof (cases "is_related f g")
    case True
    from Cons.prems have f: "fact_ok f" "env_facts_ok facts" by simp_all
    note m = merged_spec [OF True f(1) assms(2)] merged_related [OF True]
    have r: "is_related k (merged f g) = is_related k f" for k
      using m(5) related_trans related_sym by blast
    have gk: "is_related g k = is_related k f" for k using True related_trans related_sym by blast
    show ?thesis using m f category [OF True]
      by (auto simp: merge_fact_Cons True env_states_def r gk simp del: merge_fact.simps(2))
  next
    case False
    from Cons.prems have f: "fact_ok f" "env_facts_ok facts" by simp_all
    have nk: "\<not> is_related k f" if "is_related g k" for k using that False related_trans related_sym by blast
    from Cons.IH [OF f(2)] f(1) show ?thesis
      by (auto simp: merge_fact_Cons False env_states_def nk simp del: merge_fact.simps(2))
  qed
qed

definition new_states :: "Fact list \<Rightarrow> Fact \<Rightarrow> (nat + int) set" where
  "new_states new_facts k = (\<Union>g \<in> {g \<in> set new_facts. is_related g k}. fact_states g)"

lemma new_states_simps [simp]:
  "new_states [] k = {}"
  "new_states (g # gs) k = (if is_related g k then fact_states g else {}) \<union> new_states gs k"
  by (auto simp: new_states_def)

lemma merge_facts_Cons:
  "merge_facts facts [] = (False, facts)"
  "snd (merge_facts facts (g # gs)) = snd (merge_facts (snd (merge_fact facts g)) gs)"
  "fst (merge_facts facts (g # gs)) \<longleftrightarrow> fst (merge_fact facts g) \<or> fst (merge_facts (snd (merge_fact facts g)) gs)"
proof -
  have "fst (foldl (\<lambda>(changed, facts) f. let (c, facts') = merge_fact facts f in (changed \<or> c, facts')) (b, facts) gs)
      = (b \<or> fst (foldl (\<lambda>(changed, facts) f. let (c, facts') = merge_fact facts f in (changed \<or> c, facts')) (False, facts) gs)) \<and>
    snd (foldl (\<lambda>(changed, facts) f. let (c, facts') = merge_fact facts f in (changed \<or> c, facts')) (b, facts) gs)
      = snd (foldl (\<lambda>(changed, facts) f. let (c, facts') = merge_fact facts f in (changed \<or> c, facts')) (False, facts) gs)"
    for b facts
  proof (induction gs arbitrary: b facts)
    case (Cons g gs)
    obtain c fs where "merge_fact facts g = (c, fs)" by fastforce
    with Cons [of "b \<or> c" fs] Cons [of c fs] show ?case by auto
  qed simp
  note fold = this
  obtain c fs where m: "merge_fact facts g = (c, fs)" by fastforce
  show "merge_facts facts [] = (False, facts)"
    "snd (merge_facts facts (g # gs)) = snd (merge_facts (snd (merge_fact facts g)) gs)"
    "fst (merge_facts facts (g # gs)) \<longleftrightarrow> fst (merge_fact facts g) \<or> fst (merge_facts (snd (merge_fact facts g)) gs)"
    using fold [of c fs] by (simp_all add: merge_facts_def m)
qed

text \<open>An environment never forgets a state of a variable it knows.\<close>

lemma merge_facts_spec:
  assumes "env_facts_ok facts" "env_facts_ok new_facts"
  shows "env_facts_ok (snd (merge_facts facts new_facts)) \<and>
    env_states facts k \<union> new_states new_facts k \<subseteq> env_states (snd (merge_facts facts new_facts)) k \<and>
    (is_FactPointTo k \<longrightarrow>
       env_states (snd (merge_facts facts new_facts)) k = env_states facts k \<union> new_states new_facts k)"
  using assms
proof (induction new_facts arbitrary: facts)
  case (Cons g gs)
  from Cons.prems have g: "fact_ok g" "env_facts_ok gs" by simp_all
  note m = merge_fact_spec [OF Cons.prems(1) g(1)]
  from Cons.IH [OF conjunct1 [OF m] g(2)]
  have ih: "env_facts_ok (snd (merge_facts facts (g # gs)))"
    "env_states (snd (merge_fact facts g)) k \<union> new_states gs k \<subseteq> env_states (snd (merge_facts facts (g # gs))) k"
    "is_FactPointTo k \<Longrightarrow> env_states (snd (merge_facts facts (g # gs))) k =
       env_states (snd (merge_fact facts g)) k \<union> new_states gs k"
    by (simp_all add: merge_facts_Cons)
  have s: "env_states facts k \<union> (if is_related g k then fact_states g else {}) \<subseteq> env_states (snd (merge_fact facts g)) k"
    "is_FactPointTo k \<Longrightarrow> env_states (snd (merge_fact facts g)) k =
       env_states facts k \<union> (if is_related g k then fact_states g else {})"
    using m category [of g k] by (auto simp: env_states_def)
  from ih s show ?case by auto
qed (simp_all add: merge_facts_Cons)

subsection \<open>Merging comes to an end\<close>

text \<open>Every merge that changes the environment makes it heavier, and over finitely many variables
  its weight is bounded.\<close>

definition fact_weight :: "Fact \<Rightarrow> nat" where
  "fact_weight f = (case f of FactPointTo v pts \<Rightarrow> length pts + 1 | FactUnion v i \<Rightarrow> if i = BOTTOM then 2 else 1)"

definition env_weight :: "Fact list \<Rightarrow> nat" where
  "env_weight facts = sum_list (map fact_weight facts)"

definition fact_key :: "Fact \<Rightarrow> bool \<times> nat" where
  "fact_key f = (is_FactPointTo f, get_var f)"

definition fact_below :: "nat \<Rightarrow> Fact \<Rightarrow> bool" where
  "fact_below n f \<longleftrightarrow> get_var f < n \<and>
     (case f of FactPointTo v pts \<Rightarrow> \<forall>p \<in> set pts. p < n | FactUnion v i \<Rightarrow> True)"

definition env_below :: "nat \<Rightarrow> Fact list \<Rightarrow> bool" where
  "env_below n facts \<longleftrightarrow> env_facts_ok facts \<and> (\<forall>f \<in> set facts. fact_below n f) \<and> distinct (map fact_key facts)"

lemma key_related: "fact_key f = fact_key g \<longleftrightarrow> is_related f g"
  by (simp add: fact_key_def is_related_def)

lemma merged_heavier:
  assumes "is_related f g" "fact_ok f" "fact_ok g" "\<not> fact_imply f g"
  shows "fact_weight f < fact_weight (merged f g)"
  using assms(1)
proof (cases rule: related_cases)
  case (1 v xs ys)
  with assms(2,3) have d: "distinct xs" "distinct ys" by (simp_all add: fact_ok_def)
  from assms(4) have "\<not> sub_variable_sets ys xs" by (simp add: 1)
  from point_to_sets.merge_changes [OF d this] have "card (set xs) < card (set (snd (add_variables_to_set ys xs)))"
    by (intro psubset_card_mono) auto
  with d point_to_sets.join_ok [OF d(2,1)] assms(4) show ?thesis
    by (simp add: 1 merged_def fact_weight_def distinct_card)
next
  case (2 v i j)
  with assms(4) show ?thesis
    by (auto simp: merged_def fact_weight_def fid_join_def fid_implies_def)
qed

lemma merged_below:
  assumes "is_related f g" "fact_below n f" "fact_below n g"
  shows "fact_below n (merged f g)"
  using assms(1)
proof (cases rule: related_cases)
  case (1 v xs ys)
  with assms(2,3) add_variables_fold [of ys xs] show ?thesis by (auto simp: merged_def fact_below_def)
qed (use assms(2) in \<open>auto simp: merged_def fact_below_def\<close>)

lemma merge_fact_below:
  assumes "env_below n facts" "fact_ok g" "fact_below n g"
  shows "env_below n (snd (merge_fact facts g)) \<and>
    fact_key ` set (snd (merge_fact facts g)) = insert (fact_key g) (fact_key ` set facts) \<and>
    (if fst (merge_fact facts g) then env_weight facts < env_weight (snd (merge_fact facts g))
     else snd (merge_fact facts g) = facts)"
  using assms(1)
proof (induction facts)
  case Nil
  show ?case using assms(2,3)
    by (cases g) (auto simp: env_below_def env_weight_def fact_weight_def)
next
  case (Cons f facts)
  then have f: "fact_ok f" "fact_below n f" "env_below n facts" "fact_key f \<notin> fact_key ` set facts"
    by (auto simp: env_below_def)
  show ?case
  proof (cases "is_related f g")
    case True
    have k: "fact_key (merged f g) = fact_key f" "fact_key g = fact_key f"
      using merged_related [OF True] True related_sym by (simp_all add: key_related)
    have "env_below n (merged f g # facts)"
      using f merged_spec(1) [OF True f(1) assms(2)] merged_below [OF True f(2) assms(3)] k
      by (auto simp: env_below_def)
    with merged_heavier [OF True f(1) assms(2)] merged_spec(4) [OF True f(1) assms(2)] k show ?thesis
      by (auto simp: merge_fact_Cons True env_weight_def simp del: merge_fact.simps(2))
  next
    case False
    then have "fact_key g \<noteq> fact_key f" using key_related related_sym by blast
    with Cons.IH [OF f(3)] f show ?thesis
      by (auto simp: merge_fact_Cons False env_weight_def env_below_def simp del: merge_fact.simps(2))
  qed
qed

lemma merge_facts_below:
  assumes "env_below n facts" "\<forall>g \<in> set gs. fact_ok g \<and> fact_below n g"
  shows "env_below n (snd (merge_facts facts gs)) \<and>
    (if fst (merge_facts facts gs) then env_weight facts < env_weight (snd (merge_facts facts gs))
     else snd (merge_facts facts gs) = facts)"
  using assms
proof (induction gs arbitrary: facts)
  case (Cons g gs)
  from Cons.prems(2) have g: "fact_ok g" "fact_below n g" "\<forall>g \<in> set gs. fact_ok g \<and> fact_below n g" by simp_all
  note m = merge_fact_below [OF Cons.prems(1) g(1,2)]
  from Cons.IH [OF conjunct1 [OF m] g(3)] m show ?case by (auto simp: merge_facts_Cons split: if_splits)
qed (simp add: merge_facts_Cons)

lemma env_weight_bound:
  assumes "env_below n facts"
  shows "env_weight facts \<le> n * (n + 3)"
proof -
  define bound where "bound = (\<lambda>k :: bool \<times> nat. if fst k then n + 1 else 2 :: nat)"
  have each: "fact_weight f \<le> bound (fact_key f)" if "f \<in> set facts" for f
  proof (cases f)
    case (FactPointTo v pts)
    from that assms FactPointTo have "distinct pts" "set pts \<subseteq> {..<n}"
      by (auto simp: env_below_def env_facts_ok_def fact_ok_def fact_below_def)
    then have "length pts \<le> n" using card_mono [of "{..<n}" "set pts"] by (simp add: distinct_card)
    then show ?thesis by (simp add: FactPointTo fact_weight_def bound_def fact_key_def)
  qed (simp add: fact_weight_def bound_def fact_key_def)
  have d: "distinct (map fact_key facts)" using assms by (simp add: env_below_def)
  have "env_weight facts \<le> sum_list (map (bound \<circ> fact_key) facts)"
    unfolding env_weight_def by (rule sum_list_mono) (simp add: each)
  also have "\<dots> = sum bound (set (map fact_key facts))"
    using sum_list_distinct_conv_sum_set [OF d, of bound] by (simp add: comp_def)
  also have "\<dots> \<le> sum bound (UNIV \<times> {..<n})"
    using assms by (intro sum_mono2) (auto simp: env_below_def fact_key_def fact_below_def)
  also have "\<dots> = n * (n + 3)"
  proof -
    have "sum bound (UNIV \<times> {..<n}) = (\<Sum>b \<in> UNIV. \<Sum>k < n. bound (b, k))"
      by (simp add: sum.cartesian_product)
    then show ?thesis by (simp add: bound_def UNIV_bool algebra_simps)
  qed
  finally show ?thesis .
qed

text \<open>The environment after some rounds, where round \<open>i\<close> merges the facts \<open>N i\<close>.\<close>

fun env_after :: "(nat \<Rightarrow> Fact list) \<Rightarrow> Fact list \<Rightarrow> nat \<Rightarrow> Fact list" where
  "env_after N facts 0 = facts"
| "env_after N facts (Suc i) = snd (merge_facts (env_after N facts i) (N i))"

lemma rounds_end:
  assumes "env_below n facts" "\<And>i. \<forall>g \<in> set (N i). fact_ok g \<and> fact_below n g"
  shows "\<exists>i \<le> n * (n + 3). \<not> fst (merge_facts (env_after N facts i) (N i))"
proof (rule ccontr)
  assume "\<not> ?thesis"
  then have go: "fst (merge_facts (env_after N facts i) (N i))" if "i \<le> n * (n + 3)" for i using that by blast
  have "env_below n (env_after N facts i) \<and> i \<le> env_weight (env_after N facts i)" if "i \<le> n * (n + 3) + 1" for i
    using that
  proof (induction i)
    case (Suc i)
    then have "i \<le> n * (n + 3)" by simp
    from Suc.IH this have e: "env_below n (env_after N facts i)" "i \<le> env_weight (env_after N facts i)" by simp_all
    from merge_facts_below [OF e(1) assms(2), of i] go [OF \<open>i \<le> n * (n + 3)\<close>] e(2) show ?case by simp
  qed (use assms(1) in simp)
  from this [of "n * (n + 3) + 1"] env_weight_bound [of n "env_after N facts (n * (n + 3) + 1)"] show False by simp
qed

section \<open>Following pointers\<close>

definition points :: "Fact list \<Rightarrow> nat \<Rightarrow> nat set" where
  "points facts p = (case find_related_fact facts (make_point_to p) of
     None \<Rightarrow> {} | Some f \<Rightarrow> set (point_to_vars f))"

definition points_edges :: "Fact list \<Rightarrow> (nat \<times> nat) set" where
  "points_edges facts = {(p, q). \<not> is_special_ptr p \<and> q \<in> points facts p}"

definition has_point_to :: "Fact list \<Rightarrow> nat \<Rightarrow> bool" where
  "has_point_to facts p \<longleftrightarrow> is_special_ptr p \<or> find_related_fact facts (make_point_to p) \<noteq> None"

lemma points_env_states: "env_states facts (make_point_to p) = Inl ` points facts p"
proof (cases "find_related_fact facts (make_point_to p)")
  case (Some f)
  then have "is_related (make_point_to p) f" by (auto simp: find_related_fact_def find_Some_iff)
  then obtain pts where "f = FactPointTo p pts" by (cases f) (auto simp: is_related_def make_point_to_def)
  with Some show ?thesis by (simp add: env_states_def points_def fact_states_def)
qed (simp add: env_states_def points_def)

lemma pointees_step:
  "merge_pointees_of_pointers ptrs facts \<noteq> None \<longleftrightarrow> (\<forall>p \<in> set ptrs. has_point_to facts p)"
  "merge_pointees_of_pointers ptrs facts = Some out \<Longrightarrow>
     set out = points_edges facts `` set ptrs \<and> distinct out"
proof -
  let ?f = "\<lambda>p vars. if is_special_ptr p then Some vars
         else do {
           f \<leftarrow> find_related_fact facts (make_point_to p);
           Some (snd (add_variables_to_set vars (point_to_vars f)))
         }"
  have "(fold_opt ?f ptrs vars \<noteq> None \<longleftrightarrow> (\<forall>p \<in> set ptrs. has_point_to facts p)) \<and>
    (\<forall>out. fold_opt ?f ptrs vars = Some out \<longrightarrow> set out = set vars \<union> points_edges facts `` set ptrs \<and>
      (distinct vars \<longrightarrow> distinct out))" for vars
  proof (induction ptrs arbitrary: vars)
    case (Cons p ptrs)
    show ?case
    proof (cases "is_special_ptr p")
      case True
      then have "points_edges facts `` {p} = {}" by (auto simp: points_edges_def)
      then have "points_edges facts `` set (p # ptrs) = points_edges facts `` set ptrs" by auto
      with Cons [of vars] True show ?thesis by (simp add: has_point_to_def)
    next
      case False
      show ?thesis
      proof (cases "find_related_fact facts (make_point_to p)")
        case (Some f)
        let ?vars = "snd (add_variables_to_set vars (point_to_vars f))"
        have "points_edges facts `` {p} = set (point_to_vars f)"
          using False Some by (auto simp: points_edges_def points_def)
        then have "points_edges facts `` set (p # ptrs) = set (point_to_vars f) \<union> points_edges facts `` set ptrs"
          by auto
        with Cons [of ?vars] add_variables_fold [of vars "point_to_vars f"] False Some show ?thesis
          by (auto simp: has_point_to_def)
      qed (use False in \<open>simp add: has_point_to_def\<close>)
    qed
  qed simp
  from this [of "[]"] show "merge_pointees_of_pointers ptrs facts \<noteq> None \<longleftrightarrow> (\<forall>p \<in> set ptrs. has_point_to facts p)"
    "merge_pointees_of_pointers ptrs facts = Some out \<Longrightarrow>
     set out = points_edges facts `` set ptrs \<and> distinct out"
    by (simp_all add: merge_pointees_of_pointers_def)
qed

lemma relpow_Suc_Image: "(R ^^ Suc n) `` A = (R ^^ n) `` (R `` A)"
  unfolding relpow.simps relpow_commute [symmetric] relcomp_Image ..

lemma pointees_loop:
  "merge_pointees_loop n ptrs facts = Some out \<Longrightarrow> set out = (points_edges facts ^^ n) `` set ptrs"
proof (induction n arbitrary: ptrs)
  case (Suc n)
  then obtain tmp where t: "merge_pointees_of_pointers ptrs facts = Some tmp"
    "merge_pointees_loop n tmp facts = Some out"
    by (auto simp: bind_eq_Some_conv)
  from Suc.IH [OF t(2)] pointees_step(2) [OF t(1)]
  have "set out = (points_edges facts ^^ n) `` (points_edges facts `` set ptrs)" by simp
  then show ?case by (simp only: relpow_Suc_Image)
qed auto

lemma pointees_loop_defined:
  "merge_pointees_loop n ptrs facts \<noteq> None \<longleftrightarrow>
     (\<forall>k < n. \<forall>p \<in> (points_edges facts ^^ k) `` set ptrs. has_point_to facts p)"
proof (induction n arbitrary: ptrs)
  case (Suc n)
  have split: "(\<forall>k < Suc n. P k) \<longleftrightarrow> P 0 \<and> (\<forall>k < n. P (Suc k))" for P
    by (auto simp: less_Suc_eq_0_disj)
  note img = relpow_Suc_Image [of _ "points_edges facts"]
  show ?case
  proof (cases "merge_pointees_of_pointers ptrs facts")
    case None
    with pointees_step(1) [of ptrs facts] show ?thesis unfolding split by auto
  next
    case (Some tmp)
    with pointees_step(1) [of ptrs facts] pointees_step(2) [OF Some] Suc.IH [of tmp]
    show ?thesis unfolding split img by auto
  qed
qed simp

section \<open>Variables that go out of scope\<close>

lemma find_untyped:
  assumes "vec_get vs g = Some v" "v_type v = None" "\<forall>x \<in> set xs. x < length vs"
  shows "\<exists>pos. find_variable_in_set vs xs g = Some pos \<and> (pos \<ge> 0 \<longleftrightarrow> g \<in> set xs) \<and> (pos \<noteq> - 1 \<longleftrightarrow> g \<in> set xs)"
proof -
  have m: "var_match vs x g = Some (x = g)" if "x < length vs" for x
    using assms(1,2) that by (auto simp: var_match_def split: option.splits)
  have "\<exists>pos. find_variable_from vs xs g i = Some pos \<and> (if g \<in> set xs then i \<le> pos else pos = - 1)" for i
    using assms(3)
  proof (induction xs arbitrary: i)
    case (Cons x xs)
    from Cons.IH [of "i + 1"] Cons.prems m [of x] show ?case by (cases "x = g") (auto split: if_splits)
  qed simp
  from this [of 0] show ?thesis by (auto simp: find_variable_in_set_def split: if_splits)
qed

lemma mark_stack_loop_spec:
  assumes "mark_stack_loop s h ch acc rest = Some (ch', out)"
  shows "(ch' \<longleftrightarrow> ch \<or> (\<exists>v \<in> set rest. s v = Some True)) \<and>
    set out = set acc \<union> {v \<in> set rest. s v = Some False} \<union>
      (if \<not> h \<and> (\<exists>v \<in> set rest. s v = Some True) then {garbage_ptr} else {}) \<and>
    (distinct (acc @ rest) \<longrightarrow> (h \<or> garbage_ptr \<notin> set (acc @ rest)) \<longrightarrow> distinct out)"
  using assms
proof (induction rest arbitrary: h ch acc)
  case (Cons v rest)
  then obtain b where b: "s v = Some b" by (auto simp: bind_eq_Some_conv)
  have F: "{x \<in> set (v # rest). s x = Some False} = (if b then {} else {v}) \<union> {x \<in> set rest. s x = Some False}"
    and E: "(\<exists>x \<in> set (v # rest). s x = Some True) \<longleftrightarrow> b \<or> (\<exists>x \<in> set rest. s x = Some True)"
    using b by auto
  consider "\<not> b" | "b" "h" | "b" "\<not> h" by blast
  then show ?case
  proof cases
    case 1
    with Cons.prems b have "mark_stack_loop s h ch (acc @ [v]) rest = Some (ch', out)" by simp
    note ih = Cons.IH [OF this]
    show ?thesis unfolding F E
    proof (intro conjI impI)
      show "ch' \<longleftrightarrow> ch \<or> b \<or> (\<exists>x \<in> set rest. s x = Some True)" using ih 1 by blast
      show "distinct out" if "distinct (acc @ v # rest)" "h \<or> garbage_ptr \<notin> set (acc @ v # rest)" using ih that by auto
    qed (use ih 1 in simp)
  next
    case 2
    with Cons.prems b have "mark_stack_loop s True True acc rest = Some (ch', out)" by simp
    note ih = Cons.IH [OF this]
    show ?thesis unfolding F E
    proof (intro conjI impI)
      show "ch' \<longleftrightarrow> ch \<or> b \<or> (\<exists>x \<in> set rest. s x = Some True)" using ih 2 by blast
      show "distinct out" if "distinct (acc @ v # rest)" using ih that by simp
    qed (use ih 2 in simp)
  next
    case 3
    with Cons.prems b have "mark_stack_loop s True True (acc @ [garbage_ptr]) rest = Some (ch', out)" by simp
    note ih = Cons.IH [OF this]
    show ?thesis unfolding F E
    proof (intro conjI impI)
      show "ch' \<longleftrightarrow> ch \<or> b \<or> (\<exists>x \<in> set rest. s x = Some True)" using ih 3 by blast
      show "distinct out" if "distinct (acc @ v # rest)" "h \<or> garbage_ptr \<notin> set (acc @ v # rest)" using ih that 3 by auto
    qed (use ih 3 in auto)
  qed
qed auto

lemma mark_func_end_spec:
  assumes "mark_func_end vs fs bs fn parent (FactPointTo p pts) = Some r"
    and g: "vec_get vs garbage_ptr = Some gv" "v_type gv = None"
    and d: "distinct pts" "\<forall>x \<in> set pts. x < length vs"
    and not_stack: "func_var_on_stack vs fs bs fn parent garbage_ptr = Some False"
  defines "stack \<equiv> {v \<in> set pts. func_var_on_stack vs fs bs fn parent v = Some True}"
  shows "case r of None \<Rightarrow> stack = {}
    | Some f \<Rightarrow> stack \<noteq> {} \<and> get_var f = p \<and> distinct (point_to_vars f) \<and>
        set (point_to_vars f) = insert garbage_ptr (set pts - stack)"
proof -
  let ?s = "func_var_on_stack vs fs bs fn parent"
  from find_untyped [OF g d(2)] obtain pos where pos: "find_variable_in_set vs pts garbage_ptr = Some pos"
    "pos \<ge> 0 \<longleftrightarrow> garbage_ptr \<in> set pts" by blast
  from assms(1) pos(1) obtain ch out where l: "mark_stack_loop ?s (pos \<ge> 0) False [] pts = Some (ch, out)"
    and r: "r = (if ch then Some (FactPointTo p out) else None)"
    by (auto simp: mark_func_end_def bind_eq_Some_conv)
  have total: "\<exists>b. ?s v = Some b" if "v \<in> set rest" "mark_stack_loop ?s h c acc rest = Some y" for v h c acc rest y
    using that by (induction rest arbitrary: h c acc) (auto simp: bind_eq_Some_conv split: if_splits)
  note m = mark_stack_loop_spec [OF l]
  have "{v \<in> set pts. ?s v = Some False} = set pts - stack"
    using total [OF _ l] by (fastforce simp: stack_def)
  with m pos(2) not_stack d(1) show ?thesis
    by (auto simp: r stack_def split: if_splits)
qed

section \<open>What the analysis promises\<close>

text \<open>
  C10: Merging facts into an environment refines the union of possible states: what the environment
  afterwards allows for a variable contains what it allowed before and what every new fact about it
  allows; for points-to facts it is exactly that union, and duplicate-free sets stay duplicate-free.
\<close>

theorem merge_facts_refines_union:
  assumes "env_facts_ok facts" "env_facts_ok new_facts"
  shows "env_facts_ok (snd (merge_facts facts new_facts)) \<and>
    env_states facts k \<union> new_states new_facts k \<subseteq> env_states (snd (merge_facts facts new_facts)) k \<and>
    (is_FactPointTo k \<longrightarrow>
       env_states (snd (merge_facts facts new_facts)) k = env_states facts k \<union> new_states new_facts k)"
  by (rule merge_facts_spec [OF assms])

theorem merge_facts_refines_union_witness:
  "env_states (snd (merge_facts [FactUnion 9 2, FactPointTo 5 [0, 7]] [FactPointTo 5 [7, 8], FactUnion 9 3]))
     (make_point_to 5) = {Inl 0, Inl 7, Inl 8}"
proof -
  have "env_facts_ok [FactUnion 9 2, FactPointTo 5 [0, 7]]" "env_facts_ok [FactPointTo 5 [7, 8], FactUnion 9 3]"
    by (simp_all add: fact_ok_def)
  from merge_facts_refines_union [OF this, of "make_point_to 5"] show ?thesis
    by (auto simp: env_states_def fact_states_def is_related_def make_point_to_def)
qed

text \<open>
  C0: Repeated merging, as the loops of the analysis do until nothing changes, comes to an end: if all
  facts are about the first \<open>n\<close> variables and point into them, at most \<open>n (n + 3)\<close> rounds can change
  the environment, whatever facts each round brings.
\<close>

theorem merging_stabilises:
  assumes "env_below n facts" "\<And>i. \<forall>g \<in> set (N i). fact_ok g \<and> fact_below n g"
  shows "\<exists>i \<le> n * (n + 3). fst (merge_facts (env_after N facts i) (N i)) = False"
  using rounds_end [OF assms] by simp

theorem merging_stabilises_witness:
  "\<exists>i \<le> 4 * (4 + 3). fst (merge_facts (env_after (\<lambda>i. [FactPointTo 3 [i mod 4]]) [] i) [FactPointTo 3 [i mod 4]]) = False"
  using merging_stabilises [of 4 "[]" "\<lambda>i. [FactPointTo 3 [i mod 4]]"]
  by (simp add: env_below_def fact_ok_def fact_below_def)

text \<open>
  C0: Following a pointer through \<open>k\<close> dereferences fails exactly when some pointer met on the way has no
  fact, and otherwise gives the variables that \<open>k\<close> points-to edges lead to.
\<close>

theorem pointees_follow_edges:
  "(merge_pointees_of_pointer p (int k) facts \<noteq> None \<longleftrightarrow>
      (\<forall>j < k. \<forall>q \<in> (points_edges facts ^^ j) `` {p}. has_point_to facts q)) \<and>
   (\<forall>out. merge_pointees_of_pointer p (int k) facts = Some out \<longrightarrow> set out = (points_edges facts ^^ k) `` {p})"
  using pointees_loop_defined [of k "[p]" facts] pointees_loop [of k "[p]" facts]
  by (simp add: merge_pointees_of_pointer_def)

theorem pointees_follow_edges_witness:
  "set [9, 0] = (points_edges [FactPointTo 3 [7, 8], FactPointTo 7 [9], FactPointTo 8 [0, 9]] ^^ 2) `` {3}"
proof -
  have "merge_pointees_of_pointer 3 (int 2) [FactPointTo 3 [7, 8], FactPointTo 7 [9], FactPointTo 8 [0, 9]] = Some [9, 0]"
    by code_simp
  then show ?thesis using pointees_follow_edges [of 3 2 "[FactPointTo 3 [7, 8], FactPointTo 7 [9], FactPointTo 8 [0, 9]]"] by blast
qed


definition frame_store :: "unit vars" where
  "frame_store = map (\<lambda>s. (example_var s (Type_simple 1 eInt) None [] plain_qfer)\<lparr>v_type := None\<rparr>)
       [''null'', ''garbage'', ''tbd''] @
     map (\<lambda>s. example_var s (Type_simple 1 eInt) None [] plain_qfer) [''g_3'', ''l_4'', ''p_5'']"

definition frame_funcs :: "func_scope list" where
  "frame_funcs = [\<lparr>f_name = ''func_1'', f_param = [5]\<rparr>]"

definition frame_blocks :: "block_scope list" where
  "frame_blocks = [\<lparr>b_parent = None, b_func = Some 0, b_local_vars = [4]\<rparr>]"


end
