(* ===== verification/CommandLine.thy ===== *)
theory CommandLine
  imports Options
begin

text \<open>
  The two programs: \<open>csmith\<close>, whose \<open>main\<close> is in \<open>RandomProgramGenerator.cpp\<close>, and the HIP
  generator, whose \<open>main\<close> is in \<open>HIPSmith/HIPRandomProgramGenerator.cpp\<close>.  Both read their
  arguments from left to right into the option store and then start the generator.  The texts of
  \<open>--help\<close> and \<open>--version\<close> are output only and left out, the messages of the errors are kept.
  \<open>None\<close> is undefined behaviour: a number that \<open>sscanf\<close> cannot represent, or a variable used
  before \<open>sscanf\<close> has written it.
\<close>

section \<open>Numbers and strings in arguments\<close>

text \<open>\<open>sscanf(arg, "%lu", ret)\<close>: the end of the input, no match, or a number.\<close>

datatype scanned = Scan_eof | Scan_mismatch | Scan_value nat

definition sscanf_lu :: "string \<Rightarrow> scanned option" where
  "sscanf_lu s =
     (let s1 = dropWhile isspace s in
      if s1 = [] then Some Scan_eof
      else let neg = (hd s1 = CHR ''-'');
               s2 = (if hd s1 = CHR ''-'' \<or> hd s1 = CHR ''+'' then tl s1 else s1);
               ds = takeWhile (has_digit 10) s2; v = digits_val 10 ds
           in if ds = [] then Some Scan_mismatch
              else if 2 ^ 64 \<le> v then None
              else Some (Scan_value (if neg then (2 ^ 64 - v) mod 2 ^ 64 else v)))"

text \<open>The conversion of an \<open>unsigned long\<close> to \<open>int\<close>.\<close>

definition ulong_to_int :: "nat \<Rightarrow> int" where
  "ulong_to_int v = (let w = int (v mod 2 ^ 32) in if w < 2 ^ 31 then w else w - 2 ^ 32)"

text \<open>\<open>parse_int_arg\<close>: at the end of the input \<open>sscanf\<close> returns \<open>EOF\<close>, which is not 0, so the
  variable keeps its value (\<open>None\<close>: not initialised).  The outer \<open>None\<close> is undefined, the inner one
  the error.\<close>

definition parse_int_arg :: "string \<Rightarrow> nat option \<Rightarrow> nat option option" where
  "parse_int_arg arg old =
     do {
       r \<leftarrow> sscanf_lu arg;
       case r of
         Scan_mismatch \<Rightarrow> Some None
       | Scan_eof \<Rightarrow> (case old of None \<Rightarrow> None | Some v \<Rightarrow> Some (Some v))
       | Scan_value v \<Rightarrow> Some (Some v)
     }"

definition parse_string_arg :: "string \<Rightarrow> bool" where
  "parse_string_arg arg \<longleftrightarrow> arg \<noteq> [] \<and> take 2 arg \<noteq> ''--''"

section \<open>The options of csmith\<close>

text \<open>What an option does: stop after printing a text, read the seed, set flags, read a number (the
  flag says whether the local variable starts as 0), read a text (with the message of its absence),
  or read names of functions to monitor.\<close>

datatype action =
    Stop
  | Seed
  | Flag "CGOptions \<Rightarrow> CGOptions"
  | Number bool "int \<Rightarrow> CGOptions \<Rightarrow> CGOptions"
  | Text string "string \<Rightarrow> CGOptions \<Rightarrow> CGOptions option"
  | Monitor string

text \<open>The chain of comparisons in the loop of \<open>main\<close>, in its order.\<close>

definition option_table_1 :: "(string \<times> action) list" where
  "option_table_1 =
     [(''--help'', Stop),
      (''-h'', Stop),
      (''-hh'', Stop),
      (''--version'', Stop),
      (''-v'', Stop),
      (''--seed'', Seed),
      (''-s'', Seed),
      (''--max-block-size'', Number True (\<lambda>x c. c\<lparr>opt_max_block_size := x\<rparr>)),
      (''--max-funcs'', Number True (\<lambda>x c. c\<lparr>opt_max_funcs := x\<rparr>)),
      (''--func1_max_params'', Number True (\<lambda>x c. c\<lparr>opt_func1_max_params := x\<rparr>)),
      (''--klee'', Flag (\<lambda>c. c\<lparr>opt_klee := True\<rparr>)),
      (''--crest'', Flag (\<lambda>c. c\<lparr>opt_crest := True\<rparr>)),
      (''--ccomp'', Flag (\<lambda>c. c\<lparr>opt_ccomp := True\<rparr>)),
      (''--coverage-test'', Flag (\<lambda>c. c\<lparr>opt_coverage_test := True\<rparr>)),
      (''--coverage-test-size'', Number True (\<lambda>x c. c\<lparr>opt_coverage_test_size := x\<rparr>)),
      (''--max-split-files'', Number True (\<lambda>x c. c\<lparr>opt_max_split_files := x\<rparr>)),
      (''--split-files-dir'', Text ''please specify <dir>'' (\<lambda>x c. Some (c\<lparr>opt_split_files_dir := x\<rparr>))),
      (''--dfs-exhaustive'', Flag (\<lambda>c. c\<lparr>opt_dfs_exhaustive := True, opt_random_based := False\<rparr>)),
      (''--compact-output'', Flag (\<lambda>c. c\<lparr>opt_compact_output := True\<rparr>)),
      (''--packed-struct'', Flag (\<lambda>c. c\<lparr>opt_packed_struct := True\<rparr>)),
      (''--no-packed-struct'', Flag (\<lambda>c. c\<lparr>opt_packed_struct := False\<rparr>)),
      (''--bitfields'', Flag (\<lambda>c. c\<lparr>opt_bitfields := True\<rparr>)),
      (''--no-bitfields'', Flag (\<lambda>c. c\<lparr>opt_bitfields := False\<rparr>)),
      (''--prefix-name'', Flag (\<lambda>c. c\<lparr>opt_prefix_name := True\<rparr>)),
      (''--sequence-name-prefix'', Flag (\<lambda>c. c\<lparr>opt_sequence_name_prefix := True\<rparr>)),
      (''--compatible-check'', Flag (\<lambda>c. c\<lparr>opt_compatible_check := True\<rparr>))]"

definition option_table_2 :: "(string \<times> action) list" where
  "option_table_2 =
     [(''--partial-expand'', Text ''--partial-expand needs options'' (\<lambda>x c. Some (c\<lparr>opt_partial_expand := x\<rparr>))),
      (''--paranoid'', Flag (\<lambda>c. c\<lparr>opt_paranoid := True\<rparr>)),
      (''--no-paranoid'', Flag (\<lambda>c. c\<lparr>opt_paranoid := False\<rparr>)),
      (''--quiet'', Flag (\<lambda>c. c\<lparr>opt_quiet := True\<rparr>)),
      (''--main'', Flag (\<lambda>c. c\<lparr>opt_nomain := False\<rparr>)),
      (''--nomain'', Flag (\<lambda>c. c\<lparr>opt_nomain := True\<rparr>)),
      (''--compound-assignment'', Flag (\<lambda>c. c\<lparr>opt_compound_assignment := True\<rparr>)),
      (''--no-compound-assignment'', Flag (\<lambda>c. c\<lparr>opt_compound_assignment := False\<rparr>)),
      (''--structs'', Flag (\<lambda>c. c\<lparr>opt_use_struct := True\<rparr>)),
      (''--no-structs'', Flag (\<lambda>c. c\<lparr>opt_use_struct := False\<rparr>)),
      (''--unions'', Flag (\<lambda>c. c\<lparr>opt_use_union := True\<rparr>)),
      (''--no-unions'', Flag (\<lambda>c. c\<lparr>opt_use_union := False\<rparr>)),
      (''--argc'', Flag (\<lambda>c. c\<lparr>opt_accept_argc := True\<rparr>)),
      (''--no-argc'', Flag (\<lambda>c. c\<lparr>opt_accept_argc := False\<rparr>)),
      (''--expand-struct'', Flag (\<lambda>c. c\<lparr>opt_expand_struct := True\<rparr>)),
      (''--fixed-struct-fields'', Flag (\<lambda>c. c\<lparr>opt_fixed_struct_fields := True\<rparr>)),
      (''--max-struct-fields'', Number False (\<lambda>x c. c\<lparr>opt_max_struct_fields := x\<rparr>)),
      (''--max-union-fields'', Number False (\<lambda>x c. c\<lparr>opt_max_union_fields := x\<rparr>)),
      (''--max-nested-struct-level'', Number False (\<lambda>x c. c\<lparr>opt_max_nested_struct_level := x\<rparr>)),
      (''--struct-output'', Text '''' (\<lambda>x c. Some (c\<lparr>opt_struct_output := x\<rparr>))),
      (''--dfs-debug-sequence'', Text '''' (\<lambda>x c. Some (c\<lparr>opt_dfs_debug_sequence := x\<rparr>))),
      (''--max-exhaustive-depth'', Number False (\<lambda>x c. c\<lparr>opt_max_exhaustive_depth := x\<rparr>)),
      (''--max-pointer-depth'', Number False (\<lambda>x c. c\<lparr>opt_max_indirect_level := x\<rparr>))]"

definition option_table_3 :: "(string \<times> action) list" where
  "option_table_3 =
     [(''--output'', Text '''' (\<lambda>x c. Some (c\<lparr>opt_output_file := x\<rparr>))),
      (''-o'', Text '''' (\<lambda>x c. Some (c\<lparr>opt_output_file := x\<rparr>))),
      (''--delta-monitor'', Text ''please specify one delta monitor!'' (\<lambda>x c. Some (c\<lparr>opt_delta_monitor := x\<rparr>))),
      (''--delta-output'', Text ''please specify delta output file!'' (\<lambda>x c. Some (c\<lparr>opt_delta_output := x\<rparr>))),
      (''--go-delta'', Text ''please specify one delta type!'' (\<lambda>x c. Some (c\<lparr>opt_go_delta := x\<rparr>))),
      (''--no-delta-reduction'', Flag (\<lambda>c. c\<lparr>opt_no_delta_reduction := True\<rparr>)),
      (''--math-notmp'', Flag (\<lambda>c. c\<lparr>opt_math_notmp := True\<rparr>)),
      (''--math64'', Flag (\<lambda>c. c\<lparr>opt_math64 := True\<rparr>)),
      (''--no-math64'', Flag (\<lambda>c. c\<lparr>opt_math64 := False\<rparr>)),
      (''--inline-function'', Flag (\<lambda>c. c\<lparr>opt_inline_function := True\<rparr>)),
      (''--no-inline-function'', Flag (\<lambda>c. c\<lparr>opt_inline_function := False\<rparr>)),
      (''--longlong'', Flag (\<lambda>c. c\<lparr>opt_longlong := True\<rparr>)),
      (''--no-longlong'', Flag (\<lambda>c. c\<lparr>opt_longlong := False\<rparr>)),
      (''--int8'', Flag (\<lambda>c. c\<lparr>opt_int8 := True\<rparr>)),
      (''--no-int8'', Flag (\<lambda>c. c\<lparr>opt_int8 := False\<rparr>)),
      (''--uint8'', Flag (\<lambda>c. c\<lparr>opt_uint8 := True\<rparr>)),
      (''--no-uint8'', Flag (\<lambda>c. c\<lparr>opt_uint8 := False\<rparr>)),
      (''--float'', Flag (\<lambda>c. c\<lparr>opt_enable_float := True\<rparr>)),
      (''--no-float'', Flag (\<lambda>c. c\<lparr>opt_enable_float := False\<rparr>)),
      (''--strict-float'', Flag (\<lambda>c. c\<lparr>opt_strict_float := True\<rparr>)),
      (''--pointers'', Flag (\<lambda>c. c\<lparr>opt_pointers := True\<rparr>)),
      (''--no-pointers'', Flag (\<lambda>c. c\<lparr>opt_pointers := False\<rparr>)),
      (''--function-attributes'', Flag (\<lambda>c. c\<lparr>opt_func_attr_flag := True\<rparr>)),
      (''--no-function_attributes'', Flag (\<lambda>c. c\<lparr>opt_func_attr_flag := False\<rparr>)),
      (''--type-attributes'', Flag (\<lambda>c. c\<lparr>opt_type_attr_flag := True\<rparr>)),
      (''--no-type-attributes'', Flag (\<lambda>c. c\<lparr>opt_type_attr_flag := False\<rparr>))]"

definition option_table_4 :: "(string \<times> action) list" where
  "option_table_4 =
     [(''--label-attributes'', Flag (\<lambda>c. c\<lparr>opt_label_attr_flag := True\<rparr>)),
      (''--no-label-attributes'', Flag (\<lambda>c. c\<lparr>opt_label_attr_flag := False\<rparr>)),
      (''--variable-attributes'', Flag (\<lambda>c. c\<lparr>opt_var_attr_flag := True\<rparr>)),
      (''--no-variable-attributes'', Flag (\<lambda>c. c\<lparr>opt_var_attr_flag := False\<rparr>)),
      (''--compiler-attributes'', Flag (\<lambda>c. c\<lparr>opt_func_attr_flag := True, opt_type_attr_flag := True, opt_label_attr_flag := True, opt_var_attr_flag := True\<rparr>)),
      (''--no-compiler-attributes'', Flag (\<lambda>c. c\<lparr>opt_func_attr_flag := False, opt_type_attr_flag := False, opt_label_attr_flag := False, opt_var_attr_flag := False\<rparr>)),
      (''--int128'', Flag (\<lambda>c. c\<lparr>opt_Int128 := True\<rparr>)),
      (''--no-int128'', Flag (\<lambda>c. c\<lparr>opt_Int128 := False\<rparr>)),
      (''--uint128'', Flag (\<lambda>c. c\<lparr>opt_UInt128 := True\<rparr>)),
      (''--no-uint128'', Flag (\<lambda>c. c\<lparr>opt_UInt128 := False\<rparr>)),
      (''--binary-constant'', Flag (\<lambda>c. c\<lparr>opt_binary_constant := True\<rparr>)),
      (''--no-binary-constant'', Flag (\<lambda>c. c\<lparr>opt_binary_constant := False\<rparr>)),
      (''--max-array-dim'', Number False (\<lambda>x c. c\<lparr>opt_max_array_dimensions := x\<rparr>)),
      (''--max-array-len-per-dim'', Number False (\<lambda>x c. c\<lparr>opt_max_array_length_per_dimension := x\<rparr>)),
      (''--arrays'', Flag (\<lambda>c. c\<lparr>opt_arrays := True\<rparr>)),
      (''--no-arrays'', Flag (\<lambda>c. c\<lparr>opt_arrays := False\<rparr>)),
      (''--strict-const-arrays'', Flag (\<lambda>c. c\<lparr>opt_strict_const_arrays := True\<rparr>)),
      (''--jumps'', Flag (\<lambda>c. c\<lparr>opt_jumps := True\<rparr>)),
      (''--no-jumps'', Flag (\<lambda>c. c\<lparr>opt_jumps := False\<rparr>)),
      (''--return-structs'', Flag (\<lambda>c. c\<lparr>opt_return_structs := True\<rparr>)),
      (''--no-return-structs'', Flag (\<lambda>c. c\<lparr>opt_return_structs := False\<rparr>)),
      (''--arg-structs'', Flag (\<lambda>c. c\<lparr>opt_arg_structs := True\<rparr>)),
      (''--no-arg-structs'', Flag (\<lambda>c. c\<lparr>opt_arg_structs := False\<rparr>)),
      (''--return-unions'', Flag (\<lambda>c. c\<lparr>opt_return_unions := True\<rparr>)),
      (''--no-return-unions'', Flag (\<lambda>c. c\<lparr>opt_return_unions := False\<rparr>)),
      (''--arg-unions'', Flag (\<lambda>c. c\<lparr>opt_arg_unions := True\<rparr>)),
      (''--no-arg-unions'', Flag (\<lambda>c. c\<lparr>opt_arg_unions := False\<rparr>))]"

definition option_table_5 :: "(string \<times> action) list" where
  "option_table_5 =
     [(''--volatiles'', Flag (\<lambda>c. c\<lparr>opt_volatiles := True\<rparr>)),
      (''--no-volatiles'', Flag (\<lambda>c. c\<lparr>opt_volatiles := False\<rparr>)),
      (''--volatile-pointers'', Flag (\<lambda>c. c\<lparr>opt_volatile_pointers := True\<rparr>)),
      (''--no-volatile-pointers'', Flag (\<lambda>c. c\<lparr>opt_volatile_pointers := False\<rparr>)),
      (''--const-pointers'', Flag (\<lambda>c. c\<lparr>opt_const_pointers := True\<rparr>)),
      (''--no-const-pointers'', Flag (\<lambda>c. c\<lparr>opt_const_pointers := False\<rparr>)),
      (''--global-variables'', Flag (\<lambda>c. c\<lparr>opt_global_variables := True\<rparr>)),
      (''--no-global-variables'', Flag (\<lambda>c. c\<lparr>opt_global_variables := False\<rparr>)),
      (''--enable-access-once'', Flag (\<lambda>c. c\<lparr>opt_access_once := True\<rparr>)),
      (''--strict-volatile-rule'', Flag (\<lambda>c. c\<lparr>opt_strict_volatile_rule := True\<rparr>)),
      (''--addr-taken-of-locals'', Flag (\<lambda>c. c\<lparr>opt_addr_taken_of_locals := True\<rparr>)),
      (''--no-addr-taken-of-locals'', Flag (\<lambda>c. c\<lparr>opt_addr_taken_of_locals := False\<rparr>)),
      (''--fresh-array-ctrl-var-names'', Flag (\<lambda>c. c\<lparr>opt_fresh_array_ctrl_var_names := True\<rparr>)),
      (''--consts'', Flag (\<lambda>c. c\<lparr>opt_consts := True\<rparr>)),
      (''--no-consts'', Flag (\<lambda>c. c\<lparr>opt_consts := False\<rparr>)),
      (''--dangling-global-pointers'', Flag (\<lambda>c. c\<lparr>opt_dangling_global_ptrs := True\<rparr>)),
      (''--no-dangling-global-pointers'', Flag (\<lambda>c. c\<lparr>opt_dangling_global_ptrs := False\<rparr>)),
      (''--divs'', Flag (\<lambda>c. c\<lparr>opt_divs := True\<rparr>)),
      (''--no-divs'', Flag (\<lambda>c. c\<lparr>opt_divs := False\<rparr>)),
      (''--muls'', Flag (\<lambda>c. c\<lparr>opt_muls := True\<rparr>)),
      (''--no-muls'', Flag (\<lambda>c. c\<lparr>opt_muls := False\<rparr>)),
      (''--checksum'', Flag (\<lambda>c. c\<lparr>opt_compute_hash := True\<rparr>)),
      (''--no-checksum'', Flag (\<lambda>c. c\<lparr>opt_compute_hash := False\<rparr>)),
      (''--builtins'', Flag (\<lambda>c. c\<lparr>opt_builtins := True\<rparr>)),
      (''--no-builtins'', Flag (\<lambda>c. c\<lparr>opt_builtins := False\<rparr>)),
      (''--random-random'', Flag (\<lambda>c. c\<lparr>opt_random_random := True\<rparr>)),
      (''--check-global'', Flag (\<lambda>c. c\<lparr>opt_blind_check_global := True\<rparr>)),
      (''--step-hash-by-stmt'', Flag (\<lambda>c. c\<lparr>opt_step_hash_by_stmt := True\<rparr>)),
      (''--stop-by-stmt'', Number False (\<lambda>x c. c\<lparr>opt_stop_by_stmt := x\<rparr>))]"

definition option_table_6 :: "(string \<times> action) list" where
  "option_table_6 =
     [(''--monitor-funcs'', Monitor ''please specify name(s) of the func(s) you want to monitor''),
      (''--delta-input'', Text ''please specify delta output file!'' (\<lambda>x c. Some (c\<lparr>opt_delta_input := x\<rparr>))),
      (''--dump-default-probabilities'', Text ''please pass probability configuration output file!'' (\<lambda>x c. Some (c\<lparr>opt_dump_default_probabilities := x\<rparr>))),
      (''--dump-random-probabilities'', Text ''please pass probability configuration output file!'' (\<lambda>x c. Some (c\<lparr>opt_dump_random_probabilities := x\<rparr>))),
      (''--probability-configuration'', Text ''please probability configuration file!'' (\<lambda>x c. Some (c\<lparr>opt_probability_configuration := x\<rparr>))),
      (''--const-as-condition'', Flag (\<lambda>c. c\<lparr>opt_const_as_condition := True\<rparr>)),
      (''--match-exact-qualifiers'', Flag (\<lambda>c. c\<lparr>opt_match_exact_qualifiers := True\<rparr>)),
      (''--no-return-dead-pointer'', Flag (\<lambda>c. c\<lparr>opt_no_return_dead_ptr := True\<rparr>)),
      (''--return-dead-pointer'', Flag (\<lambda>c. c\<lparr>opt_no_return_dead_ptr := False\<rparr>)),
      (''--concise'', Flag (\<lambda>c. c\<lparr>opt_concise := True\<rparr>)),
      (''--identify-wrappers'', Flag (\<lambda>c. c\<lparr>opt_identify_wrappers := True\<rparr>)),
      (''--safe-math-wrappers'', Text ''please specify safe math wrappers in the form of id1,id2...'' set_safe_math_wrapper),
      (''--mark-mutable-const'', Flag (\<lambda>c. c\<lparr>opt_mark_mutable_const := True\<rparr>)),
      (''--force-globals-static'', Flag (\<lambda>c. c\<lparr>opt_force_globals_static := True\<rparr>)),
      (''--no-force-globals-static'', Flag (\<lambda>c. c\<lparr>opt_force_globals_static := False\<rparr>)),
      (''--force-non-uniform-arrays'', Flag (\<lambda>c. c\<lparr>opt_force_non_uniform_array_init := True\<rparr>)),
      (''--no-force-non-uniform-arrays'', Flag (\<lambda>c. c\<lparr>opt_force_non_uniform_array_init := False\<rparr>)),
      (''--inline-function-prob'', Number False (\<lambda>x c. c\<lparr>opt_inline_function_prob := x\<rparr>)),
      (''--builtin-function-prob'', Number False (\<lambda>x c. c\<lparr>opt_builtin_function_prob := x\<rparr>))]"

definition option_table_7 :: "(string \<times> action) list" where
  "option_table_7 =
     [(''--array-oob-prob'', Number False (\<lambda>x c. c\<lparr>opt_array_oob_prob := x\<rparr>)),
      (''--enable-builtin-kinds'', Text ''please specify enabled builtin kinds in the form of k1,k2...'' (\<lambda>x c. Some (enable_builtin_kinds x c))),
      (''--disable-builtin-kinds'', Text ''please specify disabled builtin kinds in the form of k1,k2...'' (\<lambda>x c. Some (disable_builtin_kinds x c))),
      (''--null-ptr-deref-prob'', Number False (\<lambda>x c. c\<lparr>opt_null_pointer_dereference_prob := x\<rparr>)),
      (''--dangling-ptr-deref-prob'', Number False (\<lambda>x c. c\<lparr>opt_dead_pointer_dereference_prob := x\<rparr>)),
      (''--max-expr-complexity'', Number False (\<lambda>x c. c\<lparr>opt_max_expr_depth := x\<rparr>)),
      (''--max-block-depth'', Number False (\<lambda>x c. c\<lparr>opt_max_blk_depth := x\<rparr>)),
      (''--max-struct-nested-level'', Number False (\<lambda>x c. c\<lparr>opt_max_nested_struct_level := x\<rparr>)),
      (''--pre-incr-operator'', Flag (\<lambda>c. c\<lparr>opt_pre_incr_operator := True\<rparr>)),
      (''--no-pre-incr-operator'', Flag (\<lambda>c. c\<lparr>opt_pre_incr_operator := False\<rparr>)),
      (''--pre-decr-operator'', Flag (\<lambda>c. c\<lparr>opt_pre_decr_operator := True\<rparr>)),
      (''--no-pre-decr-operator'', Flag (\<lambda>c. c\<lparr>opt_pre_decr_operator := False\<rparr>)),
      (''--post-incr-operator'', Flag (\<lambda>c. c\<lparr>opt_post_incr_operator := True\<rparr>)),
      (''--no-post-incr-operator'', Flag (\<lambda>c. c\<lparr>opt_post_incr_operator := False\<rparr>)),
      (''--post-decr-operator'', Flag (\<lambda>c. c\<lparr>opt_post_decr_operator := True\<rparr>)),
      (''--no-post-decr-operator'', Flag (\<lambda>c. c\<lparr>opt_post_decr_operator := False\<rparr>)),
      (''--unary-plus-operator'', Flag (\<lambda>c. c\<lparr>opt_unary_plus_operator := True\<rparr>)),
      (''--no-unary-plus-operator'', Flag (\<lambda>c. c\<lparr>opt_unary_plus_operator := False\<rparr>)),
      (''--embedded-assigns'', Flag (\<lambda>c. c\<lparr>opt_use_embedded_assigns := True\<rparr>)),
      (''--no-safe-math'', Flag (\<lambda>c. c\<lparr>opt_avoid_signed_overflow := False\<rparr>)),
      (''--safe-math'', Flag (\<lambda>c. c\<lparr>opt_avoid_signed_overflow := True\<rparr>)),
      (''--no-embedded-assigns'', Flag (\<lambda>c. c\<lparr>opt_use_embedded_assigns := False\<rparr>))]"

definition option_table_8 :: "(string \<times> action) list" where
  "option_table_8 =
     [(''--comma-operators'', Flag (\<lambda>c. c\<lparr>opt_use_comma_exprs := True\<rparr>)),
      (''--no-comma-operators'', Flag (\<lambda>c. c\<lparr>opt_use_comma_exprs := False\<rparr>)),
      (''--take-no-union-field-addr'', Flag (\<lambda>c. c\<lparr>opt_take_union_field_addr := False\<rparr>)),
      (''--take-union-field-addr'', Flag (\<lambda>c. c\<lparr>opt_take_union_field_addr := True\<rparr>)),
      (''--vol-struct-union-fields'', Flag (\<lambda>c. c\<lparr>opt_vol_struct_union_fields := True\<rparr>)),
      (''--no-vol-struct-union-fields'', Flag (\<lambda>c. c\<lparr>opt_vol_struct_union_fields := False\<rparr>)),
      (''--const-struct-union-fields'', Flag (\<lambda>c. c\<lparr>opt_const_struct_union_fields := True\<rparr>)),
      (''--no-const-struct-union-fields'', Flag (\<lambda>c. c\<lparr>opt_const_struct_union_fields := False\<rparr>)),
      (''--no-hash-value-printf'', Flag (\<lambda>c. c\<lparr>opt_hash_value_printf := False\<rparr>)),
      (''--no-signed-char-index'', Flag (\<lambda>c. c\<lparr>opt_signed_char_index := False\<rparr>)),
      (''--lang-cpp'', Flag (\<lambda>c. c\<lparr>opt_lang_cpp := True\<rparr>)),
      (''--cpp11'', Flag (\<lambda>c. c\<lparr>opt_cpp11 := True\<rparr>)),
      (''--int-size'', Number False (\<lambda>x c. c\<lparr>opt_int_size := x\<rparr>)),
      (''--ptr-size'', Number False (\<lambda>x c. c\<lparr>opt_pointer_size := x\<rparr>)),
      (''--fast-execution'', Flag (\<lambda>c. c\<lparr>opt_lang_cpp := True, opt_jumps := False, opt_max_array_length_per_dimension := 5\<rparr>))]"

definition option_table :: "(string \<times> action) list" where
  "option_table = option_table_1 @ option_table_2 @ option_table_3 @ option_table_4 @ option_table_5 @ option_table_6 @ option_table_7 @ option_table_8"

record command =
  cmd_opts :: CGOptions
  cmd_seed :: nat
  cmd_monitored :: "string list"

datatype main_result =
    Exited int string
  | Started options_state nat "string list"

text \<open>An option and its argument: the state, or the message of the error.\<close>

definition int_message :: string where
  "int_message = ''expected integer at arg position ''"

definition run_action :: "action \<Rightarrow> string \<Rightarrow> command \<Rightarrow> (string + command) option" where
  "run_action a arg s =
     (case a of
        Seed \<Rightarrow>
          do {
            r \<leftarrow> parse_int_arg arg (Some (cmd_seed s));
            Some (case r of None \<Rightarrow> Inl int_message | Some v \<Rightarrow> Inr (s\<lparr>cmd_seed := v\<rparr>))
          }
      | Number zero f \<Rightarrow>
          do {
            r \<leftarrow> parse_int_arg arg (if zero then Some 0 else None);
            Some (case r of None \<Rightarrow> Inl int_message
                  | Some v \<Rightarrow> Inr (s\<lparr>cmd_opts := f (ulong_to_int v) (cmd_opts s)\<rparr>))
          }
      | Text msg f \<Rightarrow>
          if parse_string_arg arg
          then map_option (\<lambda>c. Inr (s\<lparr>cmd_opts := c\<rparr>)) (f arg (cmd_opts s))
          else Some (Inl msg)
      | Monitor msg \<Rightarrow>
          if parse_string_arg arg
          then Some (Inr (s\<lparr>cmd_monitored := parse_string_options arg (cmd_monitored s)\<rparr>))
          else Some (Inl msg)
      | Flag f \<Rightarrow> Some (Inr (s\<lparr>cmd_opts := f (cmd_opts s)\<rparr>))
      | Stop \<Rightarrow> Some (Inr s))"

text \<open>The loop of \<open>main\<close> at argument \<open>i\<close>; the result is an exit (code and message) or the state.\<close>

fun parse_args :: "nat \<Rightarrow> string list \<Rightarrow> command \<Rightarrow> (int \<times> string + command) option" where
  "parse_args i [] s = Some (Inr s)"
| "parse_args i (arg # args) s =
     (case map_of option_table arg of
        None \<Rightarrow> Some (Inl (- 1, ''invalid option '' @ arg @ '' at: '' @ int2str (int i)))
      | Some Stop \<Rightarrow> Some (Inl (0, []))
      | Some (Flag f) \<Rightarrow> parse_args (i + 1) args (s\<lparr>cmd_opts := f (cmd_opts s)\<rparr>)
      | Some a \<Rightarrow>
          (case args of
             [] \<Rightarrow> Some (Inl (- 1, ''expect arg at pos '' @ int2str (int i + 1)))
           | value # rest \<Rightarrow>
               do {
                 r \<leftarrow> run_action a value s;
                 case r of Inl msg \<Rightarrow> Some (Inl (- 1, msg)) | Inr s' \<Rightarrow> parse_args (i + 2) rest s'
               }))"

text \<open>After the loop: the options are adapted to C++ and checked for conflicts.\<close>

definition start_generator :: "(string \<Rightarrow> bool) \<Rightarrow> command \<Rightarrow> main_result option" where
  "start_generator create_output_dir s =
     do {
       (b, st) \<leftarrow> has_conflict create_output_dir
                   \<lparr>os_opts = (if opt_lang_cpp (cmd_opts s) then fix_options_for_cpp (cmd_opts s) else cmd_opts s),
                    os_expander = partial_expander_static, os_compatible = False\<rparr>;
       Some (if b then Exited (- 1) (''error: options conflict - '' @ opt_conflict_msg (os_opts st))
             else Started st (cmd_seed s) (cmd_monitored s))
     }"

text \<open>\<open>main\<close> up to the creation of the generator.  \<open>seed\<close> is the value of \<open>platform_gen_seed\<close>.\<close>

definition csmith_main ::
    "(string \<Rightarrow> bool) \<Rightarrow> int \<Rightarrow> int \<Rightarrow> string list option \<Rightarrow> nat \<Rightarrow> string list \<Rightarrow> main_result option" where
  "csmith_main create_output_dir sizeof_int sizeof_ptr conf seed args =
     do {
       c \<leftarrow> set_default_settings sizeof_int sizeof_ptr conf CGOptions_static;
       r \<leftarrow> parse_args 1 args \<lparr>cmd_opts = c, cmd_seed = seed, cmd_monitored = []\<rparr>;
       (case r of Inl e \<Rightarrow> Some (Exited (fst e) (snd e)) | Inr s \<Rightarrow> start_generator create_output_dir s)
     }"

section \<open>The options of the HIP generator\<close>

record HIPOptions =
  hip_output :: string
  hip_safe_math :: bool
  hip_small :: bool
  hip_is_emitting_device_code :: bool
  hip_vectors :: bool
  hip_hip_consts :: bool
  hip_hip_shared :: bool
  hip_hip_shared_safe_static_init :: bool
  hip_hip_managed :: bool
  hip_hip_managed_safe_static_init :: bool
  hip_hip_device :: bool
  hip_hip_builtins :: bool
  hip_hip_sync :: bool
  hip_hip_warp :: bool
  hip_hip_warp_match :: bool
  hip_hip_warp_shuffle :: bool
  hip_hip_warp_reduce :: bool
  hip_hip_atomic :: bool

definition HIPOptions_default :: HIPOptions where
  "HIPOptions_default = \<lparr>hip_output = ''HIPProg.hip'', hip_safe_math = True, hip_small = False,
     hip_is_emitting_device_code = False, hip_vectors = False, hip_hip_consts = False,
     hip_hip_shared = False, hip_hip_shared_safe_static_init = True, hip_hip_managed = False,
     hip_hip_managed_safe_static_init = True, hip_hip_device = False, hip_hip_builtins = False,
     hip_hip_sync = False, hip_hip_warp = False, hip_hip_warp_match = False,
     hip_hip_warp_shuffle = False, hip_hip_warp_reduce = False, hip_hip_atomic = False\<rparr>"

definition ResolveCGOptions :: "HIPOptions \<Rightarrow> CGOptions \<Rightarrow> CGOptions" where
  "ResolveCGOptions h c =
     (let c1 = c\<lparr>opt_force_globals_static := False, opt_packed_struct := False,
                 opt_hash_value_printf := False, opt_consts := False, opt_volatiles := False,
                 opt_lang_cpp := True, opt_cpp11 := True, opt_force_non_uniform_array_init := False\<rparr>
      in if hip_small h
         then c1\<lparr>opt_max_funcs := 3, opt_max_blk_depth := 3, opt_max_expr_depth := 5,
                 opt_max_block_size := 20, opt_max_array_dimensions := 3,
                 opt_max_array_length_per_dimension := 5, opt_max_array_length := 7\<rparr>
         else c1)"

definition hip_flag_table :: "(string \<times> (HIPOptions \<Rightarrow> HIPOptions)) list" where
  "hip_flag_table =
     [(''--vectors'', \<lambda>h. h\<lparr>hip_vectors := True\<rparr>),
      (''--hip-consts'', \<lambda>h. h\<lparr>hip_hip_consts := True\<rparr>),
      (''--hip-shared'', \<lambda>h. h\<lparr>hip_hip_shared := True\<rparr>),
      (''--no-hip-shared-safe-static-init'', \<lambda>h. h\<lparr>hip_hip_shared_safe_static_init := False\<rparr>),
      (''--hip-managed'', \<lambda>h. h\<lparr>hip_hip_managed := True\<rparr>),
      (''--no-hip-managed-safe-static-init'', \<lambda>h. h\<lparr>hip_hip_managed_safe_static_init := False\<rparr>),
      (''--hip-device'', \<lambda>h. h\<lparr>hip_hip_device := True\<rparr>),
      (''--hip-builtins'', \<lambda>h. h\<lparr>hip_hip_builtins := True\<rparr>),
      (''--hip-sync'', \<lambda>h. h\<lparr>hip_hip_sync := True\<rparr>),
      (''--hip-warp'', \<lambda>h. h\<lparr>hip_hip_warp := True\<rparr>),
      (''--hip-warp-match'', \<lambda>h. h\<lparr>hip_hip_warp_match := True\<rparr>),
      (''--hip-warp-shuffle'', \<lambda>h. h\<lparr>hip_hip_warp_shuffle := True\<rparr>),
      (''--hip-warp-reduce'', \<lambda>h. h\<lparr>hip_hip_warp_reduce := True\<rparr>),
      (''--atomics'', \<lambda>h. h\<lparr>hip_hip_atomic := True\<rparr>),
      (''--small'', \<lambda>h. h\<lparr>hip_small := True\<rparr>)]"

text \<open>\<open>strtoll(arg, &endptr, 10)\<close>, stored into an \<open>unsigned long\<close>; the second component is the rest
  of the text.  Without digits nothing is consumed.\<close>

definition strtoll10 :: "string \<Rightarrow> nat \<times> string" where
  "strtoll10 s =
     (let s1 = dropWhile isspace s;
          neg = (s1 \<noteq> [] \<and> hd s1 = CHR ''-'');
          s2 = (if s1 \<noteq> [] \<and> (hd s1 = CHR ''-'' \<or> hd s1 = CHR ''+'') then tl s1 else s1);
          ds = takeWhile (has_digit 10) s2; v = int (digits_val 10 ds)
      in if ds = [] then (0, s)
         else (nat (max int64_min (min int64_max (if neg then - v else v)) mod 2 ^ 64),
               dropWhile (has_digit 10) s2))"

fun hip_parse_args :: "string list \<Rightarrow> HIPOptions \<Rightarrow> nat \<Rightarrow> string + HIPOptions \<times> nat" where
  "hip_parse_args [] h seed = Inr (h, seed)"
| "hip_parse_args (arg # args) h seed =
     (case map_of hip_flag_table arg of
        Some f \<Rightarrow> hip_parse_args args (f h) seed
      | None \<Rightarrow>
          if arg = ''--seed''
          then (case args of
                  [] \<Rightarrow> Inl ''Error: --seed requires a value.''
                | value # rest \<Rightarrow>
                    (if snd (strtoll10 value) \<noteq> []
                     then Inl (''Error: Invalid seed value \"'' @ value @ ''\"'')
                     else hip_parse_args rest h (fst (strtoll10 value))))
          else Inl (''Invalid option \"'' @ arg @ ''\"''))"

definition hip_main ::
    "int \<Rightarrow> int \<Rightarrow> string list option \<Rightarrow> nat \<Rightarrow> string list \<Rightarrow> (string + CGOptions \<times> HIPOptions \<times> nat) option" where
  "hip_main sizeof_int sizeof_ptr conf seed args =
     do {
       c \<leftarrow> set_default_settings sizeof_int sizeof_ptr conf CGOptions_static;
       let c1 = ResolveCGOptions HIPOptions_default c;
       Some (case hip_parse_args args HIPOptions_default seed of
               Inl msg \<Rightarrow> Inl msg
             | Inr (h, seed') \<Rightarrow> Inr (c1, h, seed'))
     }"

section \<open>Properties\<close>

lemma started_has_no_conflict:
  assumes "csmith_main mk si sp conf seed args = Some (Started st seed' mon)"
  obtains s where "has_conflict mk s = Some (False, st)"
proof -
  from assms obtain r where
    "(case r of Inl e \<Rightarrow> Some (Exited (fst e) (snd e)) | Inr s \<Rightarrow> start_generator mk s) = Some (Started st seed' mon)"
    unfolding csmith_main_def bind_eq_Some_conv by blast
  then obtain s where "start_generator mk s = Some (Started st seed' mon)" by (cases r) simp_all
  then show thesis using that by (auto simp: start_generator_def bind_eq_Some_conv split: if_splits)
qed


lemma default_start:
  "\<exists>st. csmith_main mk si sp None seed [] = Some (Started st seed [])"
proof -
  obtain c where c: "set_default_settings si sp None CGOptions_static = Some c" "\<not> opt_lang_cpp c"
    by (simp add: set_default_settings_def set_platform_specific_options_def CGOptions_static_def
        set_default_builtin_kinds_def)
  obtain st where "has_conflict mk (default_state si sp) = Some (False, st)"
    using default_state_accepted by blast
  with c show ?thesis by (simp add: csmith_main_def start_generator_def default_state_def)
qed



lemma strtoll_42: "strtoll10 ''42'' = (42, [])"
  by code_simp


end
