(* ===== verification/Expressions.thy ===== *)
theory Expressions
  imports Facts SafeMath Quals StringUtils
begin

text \<open>
  Expressions of the generated program: class \<open>Expression\<close> with its subclasses
  (\<open>Constant.cpp\<close>, \<open>ExpressionVariable.cpp\<close>, \<open>ExpressionFuncall.cpp\<close>, \<open>ExpressionAssign.cpp\<close>,
  \<open>ExpressionComma.cpp\<close>, \<open>Lhs.cpp\<close>, \<open>HIPSmith/ExpressionVector.cpp\<close>), the invocations they contain
  (\<open>FunctionInvocation*.cpp\<close>, \<open>HIPSmith/FunctionInvocationBuiltIn.cpp\<close>) and the flags of the safe
  arithmetic wrappers (\<open>SafeOpFlags.cpp\<close>).  Expressions are trees; \<open>e_id\<close> and \<open>i_id\<close> are the addresses of
  the objects, which the code compares.  The members that only the output uses (casts, names of
  temporary variables) are left out.
\<close>

section \<open>Expressions\<close>

datatype SafeOpFlags = SafeOpFlags (op1: bool) (op2: bool) (is_func: bool) (op_size: SafeOpSize)

datatype BuiltInType = kSyncPredicates | kWarpVote | kWarpMatch | kWarpShuffle | kWarpReduce | kAtomic

datatype Expression =
    Constant (e_id: nat) Type string
  | ExpressionVariable (e_id: nat) nat Type
  | ExpressionFuncall (e_id: nat) FunctionInvocation
  | ExpressionAssign (e_id: nat) Assign
  | ExpressionComma (e_id: nat) Expression Expression
  | Lhs (e_id: nat) nat Type bool
  | ExpressionVector (e_id: nat) "Expression list" Type int "int option"
and FunctionInvocation =
    FunctionInvocationBinary (i_id: nat) eBinaryOps "SafeOpFlags option" (param_value: "Expression list")
  | FunctionInvocationUnary (i_id: nat) eUnaryOps "SafeOpFlags option" (param_value: "Expression list")
  | FunctionInvocationUser (i_id: nat) nat (param_value: "Expression list")
  | FunctionInvocationHIPBuiltIn (i_id: nat) BuiltInType Type (param_value: "Expression list")
and Assign = Assign (sa_stm: nat) (sa_op: eAssignOps) (sa_lhs: Expression) (sa_expr: Expression) (sa_rhs: Expression)

text \<open>The right-hand side of \<open>x += e\<close> is \<open>sa_expr = e\<close>, its canonical form \<open>x + e\<close> is \<open>sa_rhs\<close>.\<close>

type_synonym store = "Expression vars"

record func_sig = func_scope +
  f_return_type :: Type
  f_rv :: nat
  f_referenced :: "nat list"

text \<open>The types that the code takes from its tables: \<open>Type::get_simple_type\<close> after all simple types
  exist, and \<open>Vector::vector_types_\<close>.\<close>

record type_tables =
  tt_simple :: "eSimpleType \<Rightarrow> Type option"
  tt_vector :: "eSimpleType \<Rightarrow> int \<Rightarrow> Type option"

definition PromoteTypeToVectorType :: "type_tables \<Rightarrow> Type \<Rightarrow> int \<Rightarrow> Type option" where
  "PromoteTypeToVectorType tt t sz =
     (if eType t = eVector \<and> ti_vector_length (info t) = sz then Some t else tt_vector tt (simple_type t) sz)"

definition term_type :: "Expression \<Rightarrow> eTermType" where
  "term_type e = (case e of
       Constant _ _ _ \<Rightarrow> eConstant
     | ExpressionVariable _ _ _ \<Rightarrow> eVariable
     | ExpressionFuncall _ _ \<Rightarrow> eFunction
     | ExpressionAssign _ _ \<Rightarrow> eAssignment
     | ExpressionComma _ _ _ \<Rightarrow> eCommaExpr
     | Lhs _ _ _ _ \<Rightarrow> eLhs
     | ExpressionVector _ _ _ _ _ \<Rightarrow> eHIPExpression)"

definition get_invoke :: "Expression \<Rightarrow> FunctionInvocation option" where
  "get_invoke e = (case e of ExpressionFuncall _ fi \<Rightarrow> Some fi | _ \<Rightarrow> None)"

definition is_user_call :: "FunctionInvocation \<Rightarrow> bool" where
  "is_user_call fi = (case fi of FunctionInvocationUser _ _ _ \<Rightarrow> True | _ \<Rightarrow> False)"

section \<open>Operators\<close>

definition IsOrderedStandardFunc :: "eBinaryOps \<Rightarrow> bool" where
  "IsOrderedStandardFunc op \<longleftrightarrow> op = eAnd \<or> op = eOr"

definition BinaryOpWorksForFloat :: "eBinaryOps \<Rightarrow> bool" where
  "BinaryOpWorksForFloat op \<longleftrightarrow>
     op \<in> {eAdd, eSub, eMul, eDiv, eCmpGt, eCmpLt, eCmpGe, eCmpLe, eCmpEq, eCmpNe}"

definition UnaryOpWorksForFloat :: "eUnaryOps \<Rightarrow> bool" where
  "UnaryOpWorksForFloat op \<longleftrightarrow> op \<in> {ePlus, eMinus, eNot}"

definition safe_ops :: "eBinaryOps \<Rightarrow> bool" where
  "safe_ops op \<longleftrightarrow> op \<in> {eAdd, eSub, eMul, eMod, eDiv, eLShift, eRShift}"

definition AssignOpWorksForFloat :: "eAssignOps \<Rightarrow> bool" where
  "AssignOpWorksForFloat op \<longleftrightarrow> op \<in> {eSimpleAssign, eMulAssign, eDivAssign, eAddAssign, eSubAssign}"

definition safe_assign :: "eAssignOps \<Rightarrow> bool" where
  "safe_assign op \<longleftrightarrow> op \<in> {eBitAndAssign, eBitXorAssign, eBitOrAssign}"

definition need_no_rhs :: "eAssignOps \<Rightarrow> bool" where
  "need_no_rhs op \<longleftrightarrow> op \<in> {ePreIncr, ePreDecr, ePostIncr, ePostDecr}"

fun compound_to_binary_ops :: "eAssignOps \<Rightarrow> eBinaryOps" where
  "compound_to_binary_ops eAddAssign = eAdd"
| "compound_to_binary_ops eSubAssign = eSub"
| "compound_to_binary_ops eMulAssign = eMul"
| "compound_to_binary_ops eDivAssign = eDiv"
| "compound_to_binary_ops eRemAssign = eMod"
| "compound_to_binary_ops eBitAndAssign = eBitAnd"
| "compound_to_binary_ops eBitXorAssign = eBitXor"
| "compound_to_binary_ops eBitOrAssign = eBitOr"
| "compound_to_binary_ops ePreDecr = eSub"
| "compound_to_binary_ops ePostDecr = eSub"
| "compound_to_binary_ops ePreIncr = eAdd"
| "compound_to_binary_ops ePostIncr = eAdd"
| "compound_to_binary_ops eLShiftAssign = eLShift"
| "compound_to_binary_ops eRShiftAssign = eRShift"
| "compound_to_binary_ops _ = MAX_BINARY_OP"

text \<open>The case of the right-hand side in \<open>make_possible_compound_assign\<close> whose operator needs no wrapper:
  \<open>x op= e\<close> becomes \<open>x = x op e\<close>.  The new objects get the addresses given.\<close>

definition compound_rhs :: "nat \<Rightarrow> nat \<Rightarrow> nat \<Rightarrow> SafeOpFlags \<Rightarrow> eAssignOps \<Rightarrow> nat \<Rightarrow> Type \<Rightarrow> Expression \<Rightarrow> Expression" where
  "compound_rhs call fi var_id fs op x t e =
     (if compound_to_binary_ops op \<noteq> MAX_BINARY_OP
      then ExpressionFuncall call (FunctionInvocationBinary fi (compound_to_binary_ops op) (Some fs)
             [ExpressionVariable var_id x t, e])
      else e)"

section \<open>Safe wrappers\<close>

definition make_dummy_flags :: SafeOpFlags where
  "make_dummy_flags = SafeOpFlags False False False sInt8"

definition flags_to_type :: "bool \<Rightarrow> SafeOpSize \<Rightarrow> eSimpleType option" where
  "flags_to_type sign sz =
     (if sign
      then (case sz of sInt8 \<Rightarrow> Some eChar | sInt16 \<Rightarrow> Some eShort | sInt32 \<Rightarrow> Some eInt
              | sInt64 \<Rightarrow> Some eLongLong | sFloat \<Rightarrow> Some eFloat | _ \<Rightarrow> None)
      else (case sz of sInt8 \<Rightarrow> Some eUChar | sInt16 \<Rightarrow> Some eUShort | sInt32 \<Rightarrow> Some eUInt
              | sInt64 \<Rightarrow> Some eULongLong | _ \<Rightarrow> None))"

definition get_lhs_type :: "SafeOpFlags \<Rightarrow> eSimpleType option" where
  "get_lhs_type f = flags_to_type (op1 f) (op_size f)"

definition get_rhs_type :: "SafeOpFlags \<Rightarrow> eSimpleType option" where
  "get_rhs_type f = flags_to_type (op2 f) (op_size f)"

text \<open>\<open>return_float_type\<close>; the last test of the code returns false either way.\<close>

definition return_float_type :: "CGOptions \<Rightarrow> Type option list \<Rightarrow> bool" where
  "return_float_type c ts \<longleftrightarrow> opt_enable_float c \<and> (\<exists>t \<in> set ts. t \<noteq> None \<and> is_float (the t))"

definition flags_OutputSize :: "SafeOpFlags \<Rightarrow> string option" where
  "flags_OutputSize f =
     map_option (\<lambda>s. (if op1 f then [] else ''u'') @ s)
       (case op_size f of sInt8 \<Rightarrow> Some ''int8_t'' | sInt16 \<Rightarrow> Some ''int16_t'' | sInt32 \<Rightarrow> Some ''int32_t''
          | sInt64 \<Rightarrow> Some ''int64_t'' | sFloat \<Rightarrow> Some ''float'' | _ \<Rightarrow> None)"

definition OutputFuncOrMacro :: "SafeOpFlags \<Rightarrow> string" where
  "OutputFuncOrMacro f = (if is_func f then ''func_'' else ''macro_'')"

definition OutputSign :: "bool \<Rightarrow> string" where
  "OutputSign s = (if s then ''_s'' else ''_u'')"

definition safe_float_func_string :: "eBinaryOps \<Rightarrow> string option" where
  "safe_float_func_string op =
     map_option (\<lambda>s. s @ ''func_float_f_f'')
       (case op of eAdd \<Rightarrow> Some ''safe_add_'' | eSub \<Rightarrow> Some ''safe_sub_'' | eMul \<Rightarrow> Some ''safe_mul_''
          | eDiv \<Rightarrow> Some ''safe_div_'' | _ \<Rightarrow> None)"

definition binary_wrapper :: "SafeOpFlags \<Rightarrow> eBinaryOps \<Rightarrow> string option" where
  "binary_wrapper f op =
     (if op_size f = sFloat then safe_float_func_string op
      else do {
        let s = (case op of eAdd \<Rightarrow> ''safe_add_'' | eSub \<Rightarrow> ''safe_sub_'' | eMul \<Rightarrow> ''safe_mul_''
                   | eMod \<Rightarrow> ''safe_mod_'' | eDiv \<Rightarrow> ''safe_div_'' | eLShift \<Rightarrow> ''safe_lshift_''
                   | eRShift \<Rightarrow> ''safe_rshift_'' | _ \<Rightarrow> []);
        sz \<leftarrow> flags_OutputSize f;
        Some (s @ OutputFuncOrMacro f @ sz @ OutputSign (op1 f) @
              OutputSign (if op = eLShift \<or> op = eRShift then op2 f else op1 f))
      })"

definition unary_wrapper :: "SafeOpFlags \<Rightarrow> eUnaryOps \<Rightarrow> string option" where
  "unary_wrapper f op =
     do {
       assert_opt (op_size f \<noteq> sFloat);
       sz \<leftarrow> flags_OutputSize f;
       Some ((if op = eMinus then ''safe_unary_minus_'' else []) @ OutputFuncOrMacro f @ sz @ OutputSign (op1 f))
     }"

text \<open>\<open>to_id\<close>: the position of the name among \<open>wrapper_names\<close>, counted from 1; a new name is added.\<close>

definition to_id :: "string \<Rightarrow> string list \<Rightarrow> nat \<times> string list" where
  "to_id fname names =
     (let i = length (takeWhile (\<lambda>n. n \<noteq> fname) names) in
      if i < length names then (i + 1, names) else (length names + 1, names @ [fname]))"

section \<open>Types and qualifiers\<close>

definition is_return_type_float :: "SafeOpFlags option \<Rightarrow> bool option" where
  "is_return_type_float fs = map_option (\<lambda>f. op_size f = sFloat) fs"

definition int_of_signs :: "type_tables \<Rightarrow> bool \<Rightarrow> Type option" where
  "int_of_signs tt s = tt_simple tt (if s then eInt else eUInt)"

definition binary_result_type ::
    "type_tables \<Rightarrow> eBinaryOps \<Rightarrow> Type \<Rightarrow> Type \<Rightarrow> Type option" where
  "binary_result_type tt op l r =
     (if op \<in> {eAdd, eSub, eMul, eDiv, eMod, eBitXor, eBitAnd, eBitOr}
      then (if eType l = eVector \<or> eType r = eVector
            then do { assert_opt (same_type l r); Some l }
            else int_of_signs tt (is_signed l \<and> is_signed r))
      else if op \<in> {eCmpGt, eCmpLt, eCmpGe, eCmpLe, eCmpEq, eCmpNe}
      then do {
        t \<leftarrow> tt_simple tt eInt;
        if eType l = eVector then PromoteTypeToVectorType tt t (ti_vector_length (info l)) else Some t
      }
      else if op = eAnd \<or> op = eOr
      then do { assert_opt (eType l \<noteq> eVector); tt_simple tt eInt }
      else if op = eRShift \<or> op = eLShift
      then (if eType l = eVector then Some l else int_of_signs tt (is_signed l))
      else None)"

definition unary_result_type :: "type_tables \<Rightarrow> eUnaryOps \<Rightarrow> Type \<Rightarrow> Type option" where
  "unary_result_type tt op l =
     (if op \<in> {ePlus, eMinus, eBitNot} then Some l
      else if op = eNot
      then do {
        t \<leftarrow> tt_simple tt eInt;
        if eType l = eVector then PromoteTypeToVectorType tt t (ti_vector_length (info l)) else Some t
      }
      else None)"

text \<open>\<open>get_type\<close> of expressions and invocations.  The types of both operands are fetched where the
  code does; a missing operand is an access past the end.\<close>

fun get_type :: "type_tables \<Rightarrow> 'f func_sig_scheme list \<Rightarrow> Expression \<Rightarrow> Type option" 
  and invoke_get_type :: "type_tables \<Rightarrow> 'f func_sig_scheme list \<Rightarrow> FunctionInvocation \<Rightarrow> Type option"
  and operand_type :: "type_tables \<Rightarrow> 'f func_sig_scheme list \<Rightarrow> Expression list \<Rightarrow> Type option"
where
  "get_type tt fs (Constant _ t v) = Some t"
| "get_type tt fs (ExpressionVariable _ x t) = Some t"
| "get_type tt fs (ExpressionFuncall _ fi) = invoke_get_type tt fs fi"
| "get_type tt fs (ExpressionAssign _ (Assign _ _ l _ _)) = get_type tt fs l"
| "get_type tt fs (ExpressionComma _ l r) = get_type tt fs r"
| "get_type tt fs (Lhs _ x t c) = Some t"
| "get_type tt fs (ExpressionVector _ es t n a) = Some t"
| "invoke_get_type tt fs (FunctionInvocationBinary _ op flags ps) =
     do {
       f \<leftarrow> is_return_type_float flags;
       if f then tt_simple tt eFloat
       else do {
         l \<leftarrow> operand_type tt fs ps;
         r \<leftarrow> (if op \<in> {eAdd, eSub, eMul, eDiv, eMod, eBitXor, eBitAnd, eBitOr}
              then (case ps of p # ps' \<Rightarrow> operand_type tt fs ps' | [] \<Rightarrow> None) else Some l);
         binary_result_type tt op l r
       }
     }"
| "invoke_get_type tt fs (FunctionInvocationUnary _ op flags ps) =
     do { l \<leftarrow> operand_type tt fs ps; unary_result_type tt op l }"
| "invoke_get_type tt fs (FunctionInvocationUser _ f ps) = map_option f_return_type (vec_get fs f)"
| "invoke_get_type tt fs (FunctionInvocationHIPBuiltIn _ b t ps) = Some t"
| "operand_type tt fs [] = None"
| "operand_type tt fs (e # es) = get_type tt fs e"

text \<open>The dereference level of a variable used with a type.\<close>

definition indirect_level :: "store \<Rightarrow> nat \<Rightarrow> Type \<Rightarrow> int option" where
  "indirect_level vs x t =
     do { vt \<leftarrow> type_of vs x; Some (int (get_indirect_level vt) - int (get_indirect_level t)) }"

definition variable_qualifiers :: "store \<Rightarrow> nat \<Rightarrow> Type \<Rightarrow> CVQualifiers option" where
  "variable_qualifiers vs x t =
     do { i \<leftarrow> indirect_level vs x t; v \<leftarrow> vec_get vs x; indirect_qualifiers i (v_qfer v) }"

definition invoke_get_qualifiers :: "store \<Rightarrow> 'f func_sig_scheme list \<Rightarrow> FunctionInvocation \<Rightarrow> CVQualifiers option" where
  "invoke_get_qualifiers vs fs fi =
     (case fi of
        FunctionInvocationUser _ f _ \<Rightarrow>
          do { fn \<leftarrow> vec_get fs f; rv \<leftarrow> vec_get vs (f_rv fn); Some (v_qfer rv) }
      | _ \<Rightarrow> Some (add_qualifiers False False CVQualifiers_empty))"

fun get_qualifiers :: "store \<Rightarrow> 'f func_sig_scheme list \<Rightarrow> Expression \<Rightarrow> CVQualifiers option" where
  "get_qualifiers vs fs (Constant _ t v) = Some (CVQualifiers_wild True False)"
| "get_qualifiers vs fs (ExpressionVariable _ x t) = variable_qualifiers vs x t"
| "get_qualifiers vs fs (ExpressionFuncall _ fi) = invoke_get_qualifiers vs fs fi"
| "get_qualifiers vs fs (ExpressionAssign _ (Assign _ _ l _ _)) = get_qualifiers vs fs l"
| "get_qualifiers vs fs (ExpressionComma _ l r) = get_qualifiers vs fs r"
| "get_qualifiers vs fs (Lhs _ x t c) =
     do { q \<leftarrow> variable_qualifiers vs x t; k \<leftarrow> qfer_is_const q; assert_opt (\<not> k); Some q }"
| "get_qualifiers vs fs (ExpressionVector _ es t n a) = Some (CVQualifiers_wild True False)"

section \<open>Constants and folding\<close>

definition Constant_get_field :: "string \<Rightarrow> nat \<Rightarrow> string" where
  "Constant_get_field value fid =
     (let fields = split_string_chars value ''{},'' in if fid < length fields then fields ! fid else [])"

text \<open>\<open>not_equals\<close> is overridden by constants only.\<close>

definition expr_not_equals :: "Expression \<Rightarrow> int \<Rightarrow> bool option" where
  "expr_not_equals e num =
     (case e of Constant _ t v \<Rightarrow> map_option (\<lambda>i. i \<noteq> num) (str2int v) | _ \<Rightarrow> Some False)"

definition expr_less_than :: "Expression \<Rightarrow> int \<Rightarrow> bool option" where
  "expr_less_than e num =
     (case e of Constant _ t v \<Rightarrow> map_option (\<lambda>i. i < num) (str2int v) | _ \<Rightarrow> Some False)"

fun expr_is_0_or_1 :: "Expression \<Rightarrow> bool" where
  "expr_is_0_or_1 (ExpressionFuncall _ (FunctionInvocationBinary _ op flags ps)) \<longleftrightarrow>
     op \<in> {eCmpGt, eCmpLt, eCmpGe, eCmpLe, eCmpEq, eCmpNe}"
| "expr_is_0_or_1 (ExpressionFuncall _ (FunctionInvocationUnary _ op flags ps)) \<longleftrightarrow> op = eNot"
| "expr_is_0_or_1 (ExpressionAssign _ (Assign _ op l e r)) \<longleftrightarrow> op = eSimpleAssign \<and> expr_is_0_or_1 e"
| "expr_is_0_or_1 (ExpressionComma _ l r) \<longleftrightarrow> expr_is_0_or_1 r"
| "expr_is_0_or_1 _ \<longleftrightarrow> False"

text \<open>\<open>equals\<close>: the conditions are evaluated from left to right and only as far as needed.\<close>

definition and_opt :: "bool option \<Rightarrow> bool \<Rightarrow> bool option" where
  "and_opt a b = map_option (\<lambda>x. x \<and> b) a"

definition or_opt :: "bool option \<Rightarrow> bool option \<Rightarrow> bool option" where
  "or_opt a b = do { x \<leftarrow> a; if x then Some True else b }"

fun expr_equals :: "Expression \<Rightarrow> int \<Rightarrow> bool option" where
  "expr_equals (Constant _ t v) num = map_option (\<lambda>i. i = num) (str2int v)"
| "expr_equals (ExpressionFuncall _ (FunctionInvocationBinary _ op flags [a, b])) num =
     (if num \<noteq> 0 then Some False
      else or_opt (and_opt (expr_equals a 0) (op \<in> {eMul, eDiv, eMod, eLShift, eRShift, eAnd, eBitAnd}))
          (or_opt (and_opt (expr_equals b 0) (op \<in> {eMul, eAnd, eBitAnd}))
          (or_opt (Some (e_id a = e_id b \<and> op \<in> {eSub, eCmpGt, eCmpLt, eCmpNe}))
            (and_opt (or_opt (expr_equals b 1) (expr_equals b (- 1))) (op = eMod)))))"
| "expr_equals (ExpressionFuncall _ (FunctionInvocationBinary _ op flags ps)) num = None"
| "expr_equals (ExpressionFuncall _ (FunctionInvocationUnary _ op flags (a # ps))) num =
     or_opt (if num = 0 \<and> op = eNot then expr_not_equals a 0 else Some False)
       (or_opt (if num = 1 \<and> op = eNot then expr_equals a 0 else Some False)
         (if op = eMinus then expr_equals a (- num) else Some False))"
| "expr_equals (ExpressionFuncall _ (FunctionInvocationUnary _ op flags [])) num = None"
| "expr_equals (ExpressionAssign _ (Assign _ op l e r)) num =
     (if op = eSimpleAssign then expr_equals e num else Some False)"
| "expr_equals (ExpressionComma _ l r) num = expr_equals r num"
| "expr_equals _ num = Some False"

section \<open>Queries\<close>

lemma param_smaller [termination_simp]: "e \<in> set (param_value fi) \<Longrightarrow> size e < Suc (size fi)"
  by (cases fi) (auto dest!: size_list_estimation' [where f = size, OF _ order_refl] simp: less_Suc_eq_le)

fun use_var :: "Expression \<Rightarrow> nat \<Rightarrow> bool" where
  "use_var (ExpressionVariable _ x t) v \<longleftrightarrow> v = x"
| "use_var (ExpressionFuncall _ fi) v \<longleftrightarrow> (\<exists>e \<in> set (param_value fi). use_var e v)"
| "use_var (ExpressionAssign _ (Assign _ op l e r)) v \<longleftrightarrow> use_var l v \<or> use_var e v"
| "use_var (ExpressionComma _ l r) v \<longleftrightarrow> use_var l v \<or> use_var r v"
| "use_var _ v \<longleftrightarrow> False"

fun get_eval_to_subexps :: "Expression \<Rightarrow> Expression list" where
  "get_eval_to_subexps (ExpressionAssign _ (Assign _ op l e r)) = get_eval_to_subexps l"
| "get_eval_to_subexps (ExpressionComma _ l r) = get_eval_to_subexps r"
| "get_eval_to_subexps (ExpressionVector i es t n a) =
     ExpressionVector i es t n a # concat (map get_eval_to_subexps es)"
| "get_eval_to_subexps e = [e]"

fun get_complexity :: "Expression \<Rightarrow> nat" where
  "get_complexity (ExpressionFuncall _ fi) =
     (if is_user_call fi then 1 else 0) + sum_list (map get_complexity (param_value fi))"
| "get_complexity (ExpressionAssign _ (Assign _ op l e r)) = get_complexity l + get_complexity r"
| "get_complexity (ExpressionComma _ l r) = get_complexity l + get_complexity r"
| "get_complexity (ExpressionVector _ es t n a) = 1 + sum_list (map get_complexity es)"
| "get_complexity _ = 1"

text \<open>The calls of functions of the program, those in the arguments first.  A vector reports none.\<close>

fun get_called_funcs :: "Expression \<Rightarrow> FunctionInvocation list" where
  "get_called_funcs (ExpressionFuncall _ fi) =
     concat (map get_called_funcs (param_value fi)) @ (if is_user_call fi then [fi] else [])"
| "get_called_funcs (ExpressionAssign _ (Assign _ op l e r)) = get_called_funcs e @ get_called_funcs l"
| "get_called_funcs (ExpressionComma _ l r) = get_called_funcs l @ get_called_funcs r"
| "get_called_funcs _ = []"

definition func_count :: "Expression \<Rightarrow> nat" where
  "func_count e = length (get_called_funcs e)"

definition has_uncertain_call :: "FunctionInvocation \<Rightarrow> bool" where
  "has_uncertain_call fi \<longleftrightarrow> length (filter (\<lambda>e. func_count e > 0) (param_value fi)) \<ge> 2"

fun has_uncertain_call_recursive :: "Expression \<Rightarrow> bool" where
  "has_uncertain_call_recursive (ExpressionFuncall _ fi) \<longleftrightarrow>
     (\<exists>e \<in> set (param_value fi). term_type e = eFunction \<and> has_uncertain_call_recursive e) \<or>
     has_uncertain_call fi"
| "has_uncertain_call_recursive (ExpressionAssign _ (Assign _ op l e r)) \<longleftrightarrow> has_uncertain_call_recursive e"
| "has_uncertain_call_recursive (ExpressionComma _ l r) \<longleftrightarrow>
     has_uncertain_call_recursive l \<or> has_uncertain_call_recursive r"
| "has_uncertain_call_recursive _ \<longleftrightarrow> False"

definition has_simple_params :: "FunctionInvocation \<Rightarrow> bool" where
  "has_simple_params fi \<longleftrightarrow> (\<forall>e \<in> set (param_value fi). term_type e \<noteq> eFunction)"

text \<open>The dereferenced pointers, as variable and type of the expression.\<close>

fun get_dereferenced_ptrs :: "store \<Rightarrow> Expression \<Rightarrow> (nat \<times> Type) list option" where
  "get_dereferenced_ptrs vs (ExpressionVariable _ x t) =
     do { i \<leftarrow> indirect_level vs x t; Some (if i > 0 then [(x, t)] else []) }"
| "get_dereferenced_ptrs vs (Lhs _ x t c) =
     do { i \<leftarrow> indirect_level vs x t; Some (if i > 0 then [(x, t)] else []) }"
| "get_dereferenced_ptrs vs (ExpressionFuncall _ fi) =
     map_option concat (those (map (get_dereferenced_ptrs vs) (param_value fi)))"
| "get_dereferenced_ptrs vs (ExpressionAssign _ (Assign _ op l e r)) = get_dereferenced_ptrs vs e"
| "get_dereferenced_ptrs vs (ExpressionComma _ l r) =
     do { a \<leftarrow> get_dereferenced_ptrs vs l; b \<leftarrow> get_dereferenced_ptrs vs r; Some (a @ b) }"
| "get_dereferenced_ptrs vs _ = Some []"

text \<open>\<open>get_referenced_ptrs\<close> adds to a vector; a call also adds what its function is known to use.\<close>

fun get_referenced_ptrs ::
    "store \<Rightarrow> 'f func_sig_scheme list \<Rightarrow> Expression \<Rightarrow> nat list \<Rightarrow> nat list option" 
  and params_referenced ::
    "store \<Rightarrow> 'f func_sig_scheme list \<Rightarrow> Expression list \<Rightarrow> nat list \<Rightarrow> nat list option"
where
  "get_referenced_ptrs vs fs (ExpressionVariable _ x t) ps =
     do { p \<leftarrow> is_pointer vs x; Some (if p then ps @ [x] else ps) }"
| "get_referenced_ptrs vs fs (Lhs _ x t c) ps =
     do { p \<leftarrow> is_pointer vs x; Some (if p then ps @ [x] else ps) }"
| "get_referenced_ptrs vs fs (ExpressionFuncall _ (FunctionInvocationUser _ f as)) ps =
     do {
       ps \<leftarrow> params_referenced vs fs as ps;
       fn \<leftarrow> vec_get fs f;
       Some (snd (add_variables_to_set ps (f_referenced fn)))
     }"
| "get_referenced_ptrs vs fs (ExpressionFuncall _ (FunctionInvocationBinary _ _ _ as)) ps =
     params_referenced vs fs as ps"
| "get_referenced_ptrs vs fs (ExpressionFuncall _ (FunctionInvocationUnary _ _ _ as)) ps =
     params_referenced vs fs as ps"
| "get_referenced_ptrs vs fs (ExpressionFuncall _ (FunctionInvocationHIPBuiltIn _ _ _ as)) ps =
     params_referenced vs fs as ps"
| "get_referenced_ptrs vs fs (ExpressionAssign _ (Assign _ op l e r)) ps =
     do { ps \<leftarrow> get_referenced_ptrs vs fs e ps; get_referenced_ptrs vs fs l ps }"
| "get_referenced_ptrs vs fs (ExpressionComma _ l r) ps =
     do { ps \<leftarrow> get_referenced_ptrs vs fs l ps; get_referenced_ptrs vs fs r ps }"
| "get_referenced_ptrs vs fs (ExpressionVector _ es t n a) ps = params_referenced vs fs es ps"
| "get_referenced_ptrs vs fs (Constant _ t v) ps = Some ps"
| "params_referenced vs fs [] ps = Some ps"
| "params_referenced vs fs (e # es) ps =
     do { ps \<leftarrow> get_referenced_ptrs vs fs e ps; params_referenced vs fs es ps }"

text \<open>\<open>compatible\<close> with a variable and with an expression.\<close>

fun compatible_var :: "CGOptions \<Rightarrow> store \<Rightarrow> Expression \<Rightarrow> nat \<Rightarrow> bool option" where
  "compatible_var c vs (Constant _ t s) v = Some (opt_expand_struct c)"
| "compatible_var c vs (ExpressionVariable _ x t) v = compatible c vs x v"
| "compatible_var c vs (Lhs _ x t ca) v = compatible c vs x v"
| "compatible_var c vs (ExpressionFuncall _ (FunctionInvocationUnary _ op fl (p # ps))) v =
     compatible_var c vs p v"
| "compatible_var c vs _ v = Some False"

definition compatible_expr :: "CGOptions \<Rightarrow> store \<Rightarrow> Expression \<Rightarrow> Expression \<Rightarrow> bool option" where
  "compatible_expr c vs e1 e2 =
     (case e1 of
        ExpressionVariable _ x t \<Rightarrow> compatible_var c vs e2 x
      | Lhs _ x t ca \<Rightarrow> compatible_var c vs e2 x
      | _ \<Rightarrow> Some False)"

text \<open>The calls as functions, each once; \<open>called_by\<close> are the calls in the body of a function.  The
  recursive search follows a new function into its body; it ends because only new functions are
  entered, the bound \<open>n\<close> being the number of functions.\<close>

definition call_func :: "FunctionInvocation \<Rightarrow> nat option" where
  "call_func fi = (case fi of FunctionInvocationUser _ f _ \<Rightarrow> Some f | _ \<Rightarrow> None)"

fun calls_to_funcs :: "FunctionInvocation list \<Rightarrow> nat list \<Rightarrow> nat list option" where
  "calls_to_funcs [] fns = Some fns"
| "calls_to_funcs (c # cs) fns =
     do { f \<leftarrow> call_func c; calls_to_funcs cs (if f \<in> set fns then fns else fns @ [f]) }"

fun calls_to_funcs_recursive ::
    "nat \<Rightarrow> (nat \<Rightarrow> FunctionInvocation list) \<Rightarrow> FunctionInvocation list \<Rightarrow> nat list \<Rightarrow> nat list option" where
  "calls_to_funcs_recursive n body [] fns = Some fns"
| "calls_to_funcs_recursive n body (c # cs) fns =
     do {
       f \<leftarrow> call_func c;
       fns \<leftarrow> (if f \<in> set fns then Some fns
               else (case n of
                   0 \<Rightarrow> None
                 | Suc m \<Rightarrow> calls_to_funcs_recursive m body (body f) (fns @ [f])));
       calls_to_funcs_recursive n body cs fns
     }"

end
