(* ===== verification/Program.thy ===== *)
theory Program
  imports Expressions PartialExpander Effects
begin

text \<open>
  The generated program as the analysis sees it: classes \<open>Statement\<close> and its subclasses, \<open>Block\<close>,
  \<open>Function\<close>, \<open>CFGEdge\<close> and \<open>FactMgr\<close> (\<open>.h\<close> files), and the queries on statements of
  \<open>Statement.cpp\<close>, \<open>Block.cpp\<close> and \<open>Function.cpp\<close>.  A \<open>const Statement*\<close> is a reference to a block or to
  another statement; blocks, other statements, functions and variables are addressed by their place
  in a list.  A block is created before the statements and blocks inside it, so inner blocks have
  larger addresses; \<open>blocks_in\<close> states this where the structure is walked.
\<close>

section \<open>Data\<close>

datatype stm_ref = BlockRef nat | StmRef nat

datatype stm_kind =
    StatementAssign Assign
  | StatementFor (for_init: Assign) (for_test: Expression) (for_incr: Assign) (for_body: nat)
  | StatementIf Expression nat nat
  | StatementExpr Expression
  | StatementReturn Expression
  | StatementContinue Expression nat
  | StatementBreak Expression nat
  | StatementGoto Expression stm_ref string "nat list"
  | StatementArrayOp nat "nat list" "nat option" "Expression option"
  | StatementHIPSync

record Statement =
  s_id :: int
  s_func :: "nat option"
  s_parent :: "nat option"
  s_kind :: stm_kind

record Block = block_scope +
  b_stms :: "nat list"
  b_stm_id :: int
  b_looping :: bool
  b_in_array_loop :: bool
  b_need_revisit :: bool
  b_break_stms :: "nat list"

record Function = func_sig +
  f_stack :: "nat list"
  f_blocks :: "nat list"
  f_body :: "nat option"
  f_feffect :: Effect
  f_fact_changed :: bool
  f_union_field_read :: bool
  f_is_builtin :: bool
  f_visited_cnt :: int
  f_accum_eff_context :: Effect
  f_dead_globals :: "nat list"

record CFGEdge =
  edge_src :: stm_ref
  edge_dest :: stm_ref
  edge_post_dest :: bool
  edge_back_link :: bool

text \<open>The maps of a \<open>FactMgr\<close>.  Entries that \<open>operator[]\<close> creates when a missing key is only read are
  not recorded.\<close>

type_synonym fact_map = "stm_ref \<Rightarrow> Fact list option"

record FactMgr =
  fm_global_facts :: "Fact list"
  fm_facts_in :: fact_map
  fm_facts_out :: fact_map
  fm_facts_in_final :: fact_map
  fm_facts_out_final :: fact_map
  fm_stm_effect :: "stm_ref \<Rightarrow> Effect"
  fm_accum_effect :: "stm_ref \<Rightarrow> Effect"
  fm_visited :: "stm_ref \<Rightarrow> bool"
  fm_cfg_edges :: "CFGEdge list"

datatype eFactCategory = ePointTo | eUnionWrite

text \<open>All objects and the globals of the analysis.  \<open>p_fms\<close> has the manager of every function at the
  function's place; \<open>p_returns\<close> are the two parallel vectors \<open>invocations\<close> and \<open>return_facts\<close>.\<close>

record program =
  p_opts :: CGOptions
  p_meta :: "eFactCategory list"
  p_types :: type_tables
  p_vars :: store
  p_funcs :: "Function list"
  p_blocks :: "Block list"
  p_stms :: "Statement list"
  p_fms :: "FactMgr list"
  p_returns :: "(nat \<times> Fact) list"
  p_failed_stm :: "stm_ref option"

definition empty_fact_mgr :: FactMgr where
  "empty_fact_mgr = \<lparr>fm_global_facts = [], fm_facts_in = \<lambda>_. None, fm_facts_out = \<lambda>_. None,
     fm_facts_in_final = \<lambda>_. None, fm_facts_out_final = \<lambda>_. None, fm_stm_effect = \<lambda>_. empty_effect,
     fm_accum_effect = \<lambda>_. empty_effect, fm_visited = \<lambda>_. False, fm_cfg_edges = []\<rparr>"

definition facts_at :: "fact_map \<Rightarrow> stm_ref \<Rightarrow> Fact list" where
  "facts_at m r = (case m r of None \<Rightarrow> [] | Some fs \<Rightarrow> fs)"

definition get_fact_mgr :: "program \<Rightarrow> nat option \<Rightarrow> FactMgr option" where
  "get_fact_mgr p f = do { i \<leftarrow> f; vec_get (p_fms p) i }"

definition set_fact_mgr :: "nat option \<Rightarrow> FactMgr \<Rightarrow> program \<Rightarrow> program" where
  "set_fact_mgr f fm p = (case f of None \<Rightarrow> p | Some i \<Rightarrow> p\<lparr>p_fms := (p_fms p)[i := fm]\<rparr>)"

definition upd_func :: "nat \<Rightarrow> (Function \<Rightarrow> Function) \<Rightarrow> program \<Rightarrow> program option" where
  "upd_func f g p = do { fn \<leftarrow> vec_get (p_funcs p) f; Some (p\<lparr>p_funcs := (p_funcs p)[f := g fn]\<rparr>) }"

section \<open>Statements\<close>

fun kind_type :: "stm_kind \<Rightarrow> eStatementType" where
  "kind_type (StatementAssign _) = eAssign"
| "kind_type (StatementFor _ _ _ _) = eFor"
| "kind_type (StatementIf _ _ _) = eIfElse"
| "kind_type (StatementExpr _) = eInvoke"
| "kind_type (StatementReturn _) = eReturn"
| "kind_type (StatementContinue _ _) = eContinue"
| "kind_type (StatementBreak _ _) = eBreak"
| "kind_type (StatementGoto _ _ _ _) = eGoto"
| "kind_type (StatementArrayOp _ _ _ _) = eArrayOp"
| "kind_type StatementHIPSync = eHIPStatement"

definition stm_type :: "program \<Rightarrow> stm_ref \<Rightarrow> eStatementType option" where
  "stm_type p r = (case r of
       BlockRef b \<Rightarrow> do { blk \<leftarrow> vec_get (p_blocks p) b; Some eBlock }
     | StmRef i \<Rightarrow> do { s \<leftarrow> vec_get (p_stms p) i; Some (kind_type (s_kind s)) })"

definition stm_func :: "program \<Rightarrow> stm_ref \<Rightarrow> nat option option" where
  "stm_func p r = (case r of
       BlockRef b \<Rightarrow> do { blk \<leftarrow> vec_get (p_blocks p) b; Some (b_func blk) }
     | StmRef i \<Rightarrow> do { s \<leftarrow> vec_get (p_stms p) i; Some (s_func s) })"

definition stm_parent :: "program \<Rightarrow> stm_ref \<Rightarrow> nat option option" where
  "stm_parent p r = (case r of
       BlockRef b \<Rightarrow> parent_of (p_blocks p) b
     | StmRef i \<Rightarrow> do { s \<leftarrow> vec_get (p_stms p) i; Some (s_parent s) })"

definition stm_id :: "program \<Rightarrow> stm_ref \<Rightarrow> int option" where
  "stm_id p r = (case r of
       BlockRef b \<Rightarrow> do { blk \<leftarrow> vec_get (p_blocks p) b; Some (b_stm_id blk) }
     | StmRef i \<Rightarrow> do { s \<leftarrow> vec_get (p_stms p) i; Some (s_id s) })"

text \<open>\<open>get_fact_mgr_for_func(stm->func)\<close>; every use dereferences it.\<close>

definition stm_fm :: "program \<Rightarrow> stm_ref \<Rightarrow> FactMgr option" where
  "stm_fm p r = do { f \<leftarrow> stm_func p r; get_fact_mgr p f }"

definition is_compound :: "eStatementType \<Rightarrow> bool" where
  "is_compound t \<longleftrightarrow> t = eBlock \<or> t = eFor \<or> t = eIfElse \<or> t = eArrayOp"

definition is_ctrl_stmt :: "eStatementType \<Rightarrow> bool" where
  "is_ctrl_stmt t \<longleftrightarrow> t = eContinue \<or> t = eBreak \<or> t = eGoto"

fun kind_blocks :: "stm_kind \<Rightarrow> nat list" where
  "kind_blocks (StatementFor _ _ _ body) = [body]"
| "kind_blocks (StatementIf _ t f) = [t, f]"
| "kind_blocks (StatementArrayOp _ _ (Some body) _) = [body]"
| "kind_blocks _ = []"

fun kind_exprs :: "stm_kind \<Rightarrow> Expression list" where
  "kind_exprs (StatementAssign (Assign _ _ l e _)) = [e, l]"
| "kind_exprs (StatementFor _ t _ _) = [t]"
| "kind_exprs (StatementIf t _ _) = [t]"
| "kind_exprs (StatementExpr e) = [e]"
| "kind_exprs (StatementReturn e) = [e]"
| "kind_exprs (StatementContinue t _) = [t]"
| "kind_exprs (StatementBreak t _) = [t]"
| "kind_exprs (StatementGoto t _ _ _) = [t]"
| "kind_exprs (StatementArrayOp _ _ _ (Some e)) = [e]"
| "kind_exprs _ = []"

text \<open>\<open>get_blocks\<close>: a block has itself; the blocks of another statement are inside its parent.\<close>

definition get_blocks :: "program \<Rightarrow> stm_ref \<Rightarrow> nat list option" where
  "get_blocks p r = (case r of
       BlockRef b \<Rightarrow> do { blk \<leftarrow> vec_get (p_blocks p) b; Some [b] }
     | StmRef i \<Rightarrow> do { s \<leftarrow> vec_get (p_stms p) i; Some (kind_blocks (s_kind s)) })"

definition get_exprs :: "program \<Rightarrow> stm_ref \<Rightarrow> Expression list option" where
  "get_exprs p r = (case r of
       BlockRef b \<Rightarrow> do { blk \<leftarrow> vec_get (p_blocks p) b; Some [] }
     | StmRef i \<Rightarrow> do { s \<leftarrow> vec_get (p_stms p) i; Some (kind_exprs (s_kind s)) })"

text \<open>The statements of a block, each with its blocks, which are inside it.\<close>

definition blocks_in :: "program \<Rightarrow> nat \<Rightarrow> (nat \<times> nat list) list option" where
  "blocks_in p b =
     do {
       blk \<leftarrow> vec_get (p_blocks p) b;
       map_opt (\<lambda>i. do {
           s \<leftarrow> vec_get (p_stms p) i;
           let cs = kind_blocks (s_kind s);
           assert_opt (\<forall>c \<in> set cs. b < c \<and> c < length (p_blocks p));
           Some (i, cs)
         }) (b_stms blk)
     }"

lemma map_opt_all:
  "map_opt f xs = Some ys \<Longrightarrow> (\<And>x y. f x = Some y \<Longrightarrow> P y) \<Longrightarrow> \<forall>y \<in> set ys. P y"
  by (induction xs arbitrary: ys) (auto simp: bind_eq_Some_conv)

lemma blocks_in_smaller [termination_simp]:
  assumes "blocks_in p b = Some ss" "(i, cs) \<in> set ss" "c \<in> set cs"
  shows "length (p_blocks p) - c < length (p_blocks p) - b"
proof -
  from assms(1) obtain "is" where m: "map_opt (\<lambda>i. do {
           s \<leftarrow> vec_get (p_stms p) i;
           let cs = kind_blocks (s_kind s);
           assert_opt (\<forall>c \<in> set cs. b < c \<and> c < length (p_blocks p));
           Some (i, cs)
         }) is = Some ss"
    unfolding blocks_in_def by (auto simp: bind_eq_Some_conv)
  have "\<forall>x \<in> set ss. \<forall>c \<in> set (snd x). b < c \<and> c < length (p_blocks p)"
    by (rule map_opt_all [OF m]) (auto simp: bind_eq_Some_conv Let_def)
  with assms(2,3) have "b < c" "c < length (p_blocks p)" by auto
  then show ?thesis by simp
qed

text \<open>All statements inside a block in textual order, the order of the recursive walks.\<close>

function block_stms :: "program \<Rightarrow> nat \<Rightarrow> nat list option" where
  "block_stms p b =
     do {
       ss \<leftarrow> blocks_in p b;
       iss \<leftarrow> map_opt (\<lambda>(i, cs). do { js \<leftarrow> map_opt (block_stms p) cs; Some (i # concat js) }) ss;
       Some (concat iss)
     }"
  by pat_completeness auto
termination
  by (relation "measure (\<lambda>(p, b). length (p_blocks p) - b)") (auto simp: termination_simp)

declare block_stms.simps [simp del]

text \<open>The walk that starts at a statement.\<close>

definition all_stms :: "program \<Rightarrow> stm_ref \<Rightarrow> stm_ref list option" where
  "all_stms p r =
     do { bs \<leftarrow> get_blocks p r; js \<leftarrow> map_opt (block_stms p) bs; Some (r # map StmRef (concat js)) }"
definition in_block :: "program \<Rightarrow> stm_ref \<Rightarrow> nat option \<Rightarrow> bool option" where
  "in_block p r b =
     do {
       po \<leftarrow> stm_parent p r;
       (case po of None \<Rightarrow> Some False
        | Some q \<Rightarrow> (case b of
              None \<Rightarrow> do { x \<leftarrow> block_within (p_blocks p) None q; Some False }
            | Some b \<Rightarrow> block_within (p_blocks p) (Some b) q))
     }"

definition contains_block_stmt :: "program \<Rightarrow> nat \<Rightarrow> stm_ref \<Rightarrow> bool option" where
  "contains_block_stmt p b s =
     (if s = BlockRef b then Some True
      else do {
        po \<leftarrow> stm_parent p s;
        (case po of None \<Rightarrow> Some False | Some q \<Rightarrow> block_within (p_blocks p) (Some b) q)
      })"

definition contains_stmt :: "program \<Rightarrow> stm_ref \<Rightarrow> stm_ref \<Rightarrow> bool option" where
  "contains_stmt p this s =
     (if this = s then Some True
      else (case this of
          BlockRef b \<Rightarrow> contains_block_stmt p b s
        | StmRef i \<Rightarrow> do { bs \<leftarrow> get_blocks p this; any_opt (\<lambda>b. contains_block_stmt p b s) bs }))"

definition find_typed_stmts :: "program \<Rightarrow> stm_ref \<Rightarrow> eStatementType list \<Rightarrow> stm_ref list option" where
  "find_typed_stmts p r types =
     do {
       rs \<leftarrow> all_stms p r;
       fold_opt (\<lambda>r acc. do { t \<leftarrow> stm_type p r; Some (if t \<in> set types then acc @ [r] else acc) }) rs []
     }"

definition is_1st_stm :: "program \<Rightarrow> stm_ref \<Rightarrow> bool option" where
  "is_1st_stm p r =
     do {
       po \<leftarrow> stm_parent p r;
       (case po of
          None \<Rightarrow> Some False
        | Some b \<Rightarrow> do {
            blk \<leftarrow> vec_get (p_blocks p) b;
            Some (case b_stms blk of [] \<Rightarrow> False | i # _ \<Rightarrow> r = StmRef i)
          })
     }"

definition get_called_stms :: "program \<Rightarrow> stm_ref \<Rightarrow> FunctionInvocation list option" where
  "get_called_stms p r =
     do {
       rs \<leftarrow> all_stms p r;
       es \<leftarrow> map_opt (get_exprs p) rs;
       Some (concat (map get_called_funcs (concat es)))
     }"

definition stm_referenced_ptrs :: "program \<Rightarrow> stm_ref \<Rightarrow> nat list \<Rightarrow> nat list option" where
  "stm_referenced_ptrs p r ptrs =
     do {
       rs \<leftarrow> all_stms p r;
       es \<leftarrow> map_opt (get_exprs p) rs;
       fold_opt (get_referenced_ptrs (p_vars p) (p_funcs p)) (concat es) ptrs
     }"

definition is_ptr_used :: "program \<Rightarrow> stm_ref \<Rightarrow> bool option" where
  "is_ptr_used p r = map_option (\<lambda>ptrs. ptrs \<noteq> []) (stm_referenced_ptrs p r [])"

fun kind_direct_invocation :: "stm_kind \<Rightarrow> FunctionInvocation option" where
  "kind_direct_invocation (StatementAssign (Assign _ _ _ e _)) = get_invoke e"
| "kind_direct_invocation (StatementExpr e) = get_invoke e"
| "kind_direct_invocation (StatementIf e _ _) = get_invoke e"
| "kind_direct_invocation _ = None"

function blk_depth :: "program \<Rightarrow> nat option \<Rightarrow> int option" where
  "blk_depth p None = Some 0"
| "blk_depth p (Some b) = do { po \<leftarrow> parent_of (p_blocks p) b; d \<leftarrow> blk_depth p po; Some (1 + d) }"
  by pat_completeness auto
termination
  by (relation "measure (\<lambda>(p, b). case b of None \<Rightarrow> 0 | Some b \<Rightarrow> Suc b)")
    (auto simp: termination_simp split: option.splits)

definition get_blk_depth :: "program \<Rightarrow> stm_ref \<Rightarrow> int option" where
  "get_blk_depth p r = do { po \<leftarrow> stm_parent p r; blk_depth p po }"

text \<open>The statement of the parent block that holds this block, or the block of this statement.  The
  statements of a block have it as their parent.\<close>

definition find_container_stm :: "program \<Rightarrow> stm_ref \<Rightarrow> stm_ref option option" where
  "find_container_stm p r =
     do {
       bo \<leftarrow> (case r of BlockRef b \<Rightarrow> Some (Some b) | StmRef i \<Rightarrow> stm_parent p r);
       (case bo of
          None \<Rightarrow> Some None
        | Some b \<Rightarrow>
            do {
              po \<leftarrow> parent_of (p_blocks p) b;
              (case po of
                 None \<Rightarrow> Some None
               | Some q \<Rightarrow>
                   do {
                     blk \<leftarrow> vec_get (p_blocks p) q;
                     fold_opt (\<lambda>i found. case found of Some t \<Rightarrow> Some found
                         | None \<Rightarrow> do {
                             bs \<leftarrow> get_blocks p (StmRef i);
                             if b \<in> set bs
                             then do { sp \<leftarrow> stm_parent p (StmRef i); assert_opt (sp = Some q); Some (Some (StmRef i)) }
                             else Some None
                           }) (b_stms blk) None
                   })
            })
     }"

definition container_or_parent :: "program \<Rightarrow> stm_ref \<Rightarrow> stm_ref option option" where
  "container_or_parent p r =
     do {
       c \<leftarrow> find_container_stm p r;
       (case c of
          Some t \<Rightarrow> Some (Some t)
        | None \<Rightarrow> do { po \<leftarrow> stm_parent p r; Some (map_option BlockRef po) })
     }"

text \<open>A statement stands above the block it is in, a block above the statement that holds it.\<close>

definition nesting :: "program \<Rightarrow> stm_ref \<Rightarrow> nat" where
  "nesting p r = (case r of
       BlockRef b \<Rightarrow> 2 * b + 1
     | StmRef i \<Rightarrow> (case stm_parent p r of Some (Some q) \<Rightarrow> 2 * q + 2 | _ \<Rightarrow> 0))"

lemma container_step:
  assumes "fold_opt (\<lambda>i found. case found of Some t \<Rightarrow> Some found
      | None \<Rightarrow> do {
          bs \<leftarrow> get_blocks p (StmRef i);
          if b \<in> set bs
          then do { sp \<leftarrow> stm_parent p (StmRef i); assert_opt (sp = Some q); Some (Some (StmRef i)) }
          else Some None
        }) is found = Some (Some t)" "found = None \<or> nesting p (the found) = 2 * q + 2"
  shows "nesting p t = 2 * q + 2"
  using assms
proof (induction "is" arbitrary: found)
  case (Cons i "is")
  show ?case
  proof (cases found)
    case (Some u)
    with Cons.prems Cons.IH [of "Some u"] show ?thesis by simp
  next
    case None
    with Cons.prems(1) obtain f where f: "fold_opt (\<lambda>i found. case found of Some t \<Rightarrow> Some found
      | None \<Rightarrow> do {
          bs \<leftarrow> get_blocks p (StmRef i);
          if b \<in> set bs
          then do { sp \<leftarrow> stm_parent p (StmRef i); assert_opt (sp = Some q); Some (Some (StmRef i)) }
          else Some None
        }) is f = Some (Some t)" "f = None \<or> f = Some (StmRef i) \<and> stm_parent p (StmRef i) = Some (Some q)"
      by (auto simp: bind_eq_Some_conv split: if_splits)
    from Cons.IH [OF f(1)] f(2) show ?thesis by (auto simp: nesting_def)
  qed
qed simp

lemma container_smaller_nesting [termination_simp]:
  assumes "container_or_parent p r = Some (Some t)"
  shows "nesting p t < nesting p r"
proof (cases "find_container_stm p r")
  case (Some c)
  show ?thesis
  proof (cases c)
    case None
    with assms Some have "stm_parent p r = Some (map_option (\<lambda>b. b) (case t of BlockRef b \<Rightarrow> Some b | _ \<Rightarrow> None))"
      "\<exists>b. t = BlockRef b"
      by (auto simp: container_or_parent_def bind_eq_Some_conv)
    then obtain b where "t = BlockRef b" "stm_parent p r = Some (Some b)" by auto
    then show ?thesis using parent_smaller [of "p_blocks p"]
      by (cases r) (auto simp: nesting_def stm_parent_def)
  next
    case (Some u)
    with assms \<open>find_container_stm p r = Some c\<close> have "find_container_stm p r = Some (Some t)"
      by (auto simp: container_or_parent_def)
    then obtain b q where bq: "(case r of BlockRef b \<Rightarrow> Some (Some b) | StmRef i \<Rightarrow> stm_parent p r) = Some (Some b)"
      "parent_of (p_blocks p) b = Some (Some q)" "nesting p t = 2 * q + 2"
      unfolding find_container_stm_def
      by (auto simp: bind_eq_Some_conv split: option.splits dest!: container_step)
    from parent_smaller [OF bq(2)] bq(1,3) show ?thesis
      by (cases r) (auto simp: nesting_def)
  qed
qed (use assms in \<open>simp add: container_or_parent_def\<close>)

function dominate :: "program \<Rightarrow> stm_ref \<Rightarrow> stm_ref \<Rightarrow> bool option" where
  "dominate p this s =
     do {
       sp \<leftarrow> stm_parent p s;
       if map_option BlockRef sp = Some this then Some True
       else do {
         tp \<leftarrow> stm_parent p this;
         if tp = sp then do { a \<leftarrow> stm_id p this; b \<leftarrow> stm_id p s; Some (a \<le> b) }
         else do {
           c \<leftarrow> container_or_parent p s;
           (case c of None \<Rightarrow> Some False | Some t \<Rightarrow> dominate p this t)
         }
       }
     }"
  by pat_completeness auto
termination by (relation "measure (\<lambda>(p, this, s). nesting p s)") (auto simp: termination_simp)

declare dominate.simps [simp del]

section \<open>Control flow edges\<close>

text \<open>Without a function there is no manager and no edge.\<close>

definition stm_edges :: "program \<Rightarrow> stm_ref \<Rightarrow> CFGEdge list option" where
  "stm_edges p r =
     do {
       fo \<leftarrow> stm_func p r;
       (case fo of None \<Rightarrow> Some [] | Some f \<Rightarrow> map_option fm_cfg_edges (get_fact_mgr p (Some f)))
     }"

definition find_edges_in :: "program \<Rightarrow> stm_ref \<Rightarrow> bool \<Rightarrow> bool \<Rightarrow> CFGEdge list option" where
  "find_edges_in p r post back =
     map_option (filter (\<lambda>e. edge_dest e = r \<and> edge_back_link e = back \<and> edge_post_dest e = post))
       (stm_edges p r)"

definition has_edge_in :: "program \<Rightarrow> stm_ref \<Rightarrow> bool \<Rightarrow> bool \<Rightarrow> bool option" where
  "has_edge_in p r post back = map_option (\<lambda>es. es \<noteq> []) (find_edges_in p r post back)"

definition goto_sources :: "program \<Rightarrow> stm_ref \<Rightarrow> stm_ref list option" where
  "goto_sources p r =
     do {
       es \<leftarrow> stm_edges p r;
       fold_opt (\<lambda>e acc.
           if edge_dest e = r
           then do { t \<leftarrow> stm_type p (edge_src e); Some (if t = eGoto then acc @ [edge_src e] else acc) }
           else Some acc) es []
     }"

definition goto_label :: "program \<Rightarrow> stm_ref \<Rightarrow> string option" where
  "goto_label p r = (case r of
       BlockRef b \<Rightarrow> None
     | StmRef i \<Rightarrow> do {
         s \<leftarrow> vec_get (p_stms p) i;
         (case s_kind s of StatementGoto _ _ l _ \<Rightarrow> Some l | _ \<Rightarrow> None)
       })"

definition find_jump_label :: "program \<Rightarrow> stm_ref \<Rightarrow> string option" where
  "find_jump_label p r =
     do { gs \<leftarrow> goto_sources p r; (case gs of [] \<Rightarrow> Some [] | g # _ \<Rightarrow> goto_label p g) }"

definition find_contained_labels :: "program \<Rightarrow> stm_ref \<Rightarrow> string list option" where
  "find_contained_labels p r =
     do {
       rs \<leftarrow> all_stms p r;
       fold_opt (\<lambda>r acc. do { l \<leftarrow> find_jump_label p r; Some (if l \<noteq> [] then acc @ [l] else acc) }) rs []
     }"

definition is_jump_target_from_other_blocks :: "program \<Rightarrow> stm_ref \<Rightarrow> bool option" where
  "is_jump_target_from_other_blocks p r =
     do {
       gs \<leftarrow> goto_sources p r;
       pr \<leftarrow> stm_parent p r;
       any_opt (\<lambda>g. map_option (\<lambda>pg. pg \<noteq> pr) (stm_parent p g)) gs
     }"

definition contains_back_edge :: "program \<Rightarrow> nat \<Rightarrow> bool option" where
  "contains_back_edge p b =
     do {
       es \<leftarrow> stm_edges p (BlockRef b);
       any_opt (\<lambda>e. if edge_back_link e then map_option (\<lambda>po. po = Some b) (stm_parent p (edge_dest e))
                    else Some False) es
     }"

section \<open>Blocks\<close>

text \<open>\<open>get_last_stm\<close>: the first return statement, else the last statement, else null.\<close>

definition get_last_stm :: "program \<Rightarrow> nat \<Rightarrow> nat option option" where
  "get_last_stm p b =
     do {
       blk \<leftarrow> vec_get (p_blocks p) b;
       fold_opt (\<lambda>i last. do {
           stop \<leftarrow> (case last of None \<Rightarrow> Some False
                  | Some j \<Rightarrow> map_option (\<lambda>t. t = eReturn) (stm_type p (StmRef j)));
           Some (if stop then last else Some i)
         }) (b_stms blk) None
     }"

text \<open>The branches of an if statement in a block are inside it.\<close>

definition branches :: "program \<Rightarrow> nat \<Rightarrow> nat \<Rightarrow> (nat \<times> nat) option option" where
  "branches p b i =
     do {
       s \<leftarrow> vec_get (p_stms p) i;
       (case s_kind s of
          StatementIf _ t f \<Rightarrow>
            do {
              assert_opt (b < t \<and> t < length (p_blocks p) \<and> b < f \<and> f < length (p_blocks p));
              Some (Some (t, f))
            }
        | _ \<Rightarrow> Some None)
     }"

lemma branches_smaller [termination_simp]:
  assumes "branches p b i = Some (Some (t, f))"
  shows "length (p_blocks p) - t < length (p_blocks p) - b" "length (p_blocks p) - f < length (p_blocks p) - b"
  using assms by (auto simp: branches_def bind_eq_Some_conv split: stm_kind.splits)

definition no_way_back :: "program \<Rightarrow> nat \<Rightarrow> bool option" where
  "no_way_back p b =
     do {
       es \<leftarrow> find_edges_in p (BlockRef b) False True;
       Some (\<forall>e \<in> set es. edge_src e = BlockRef b)
     }"

text \<open>\<open>must_return\<close> of a block: no break, its last statement must return, and no other statement jumps
  back to it.  Of the other statements, \<open>return\<close> must return, and \<open>if\<close> when both branches must.\<close>

function must_return :: "program \<Rightarrow> nat \<Rightarrow> bool option" where
  "must_return p b =
     do {
       blk \<leftarrow> vec_get (p_blocks p) b;
       if b_stms blk = [] \<or> b_break_stms blk \<noteq> [] then Some False
       else do {
         l \<leftarrow> get_last_stm p b;
         i \<leftarrow> l;
         t \<leftarrow> stm_type p (StmRef i);
         br \<leftarrow> branches p b i;
         m \<leftarrow> (case br of
               Some (t, f) \<Rightarrow> do { a \<leftarrow> must_return p t; if a then must_return p f else Some False }
             | None \<Rightarrow> Some (t = eReturn));
         if m then no_way_back p b else Some False
       }
     }"
  by pat_completeness auto
termination
  by (relation "measure (\<lambda>(p, b). length (p_blocks p) - b)") (auto simp: termination_simp)

declare must_return.simps [simp del]

definition stm_must_return :: "program \<Rightarrow> nat \<Rightarrow> nat \<Rightarrow> bool option" where
  "stm_must_return p b i =
     do {
       t \<leftarrow> stm_type p (StmRef i);
       br \<leftarrow> branches p b i;
       (case br of
          Some (t, f) \<Rightarrow> do { a \<leftarrow> must_return p t; if a then must_return p f else Some False }
        | None \<Rightarrow> Some (t = eReturn))
     }"

definition must_break_or_return :: "program \<Rightarrow> nat \<Rightarrow> bool option" where
  "must_break_or_return p b =
     do {
       blk \<leftarrow> vec_get (p_blocks p) b;
       if b_stms blk = [] then Some False
       else do {
         l \<leftarrow> get_last_stm p b;
         i \<leftarrow> l;
         m \<leftarrow> stm_must_return p b i;
         if m then no_way_back p b else Some False
       }
     }"

text \<open>\<open>must_jump\<close>: the jumps with a condition that is known to be true.\<close>

definition simple_must_jump :: "program \<Rightarrow> nat \<Rightarrow> bool option" where
  "simple_must_jump p i =
     do {
       s \<leftarrow> vec_get (p_stms p) i;
       (case s_kind s of
          StatementReturn _ \<Rightarrow> Some True
        | StatementContinue t _ \<Rightarrow> expr_not_equals t 0
        | StatementBreak t _ \<Rightarrow> expr_not_equals t 0
        | StatementGoto t _ _ _ \<Rightarrow> expr_not_equals t 0
        | _ \<Rightarrow> Some False)
     }"

function must_jump :: "program \<Rightarrow> nat \<Rightarrow> bool option" where
  "must_jump p b =
     do {
       blk \<leftarrow> vec_get (p_blocks p) b;
       if b_stms blk = [] \<or> b_break_stms blk \<noteq> [] then Some False
       else do {
         l \<leftarrow> get_last_stm p b;
         i \<leftarrow> l;
         br \<leftarrow> branches p b i;
         (case br of
            Some (t, f) \<Rightarrow> do { a \<leftarrow> must_jump p t; if a then must_jump p f else Some False }
          | None \<Rightarrow> simple_must_jump p i)
       }
     }"
  by pat_completeness auto
termination
  by (relation "measure (\<lambda>(p, b). length (p_blocks p) - b)") (auto simp: termination_simp)

declare must_jump.simps [simp del]

definition stm_must_jump :: "program \<Rightarrow> nat \<Rightarrow> nat \<Rightarrow> bool option" where
  "stm_must_jump p b i =
     do {
       br \<leftarrow> branches p b i;
       (case br of
          Some (t, f) \<Rightarrow> do { a \<leftarrow> must_jump p t; if a then must_jump p f else Some False }
        | None \<Rightarrow> simple_must_jump p i)
     }"

definition from_tail_to_head :: "program \<Rightarrow> nat \<Rightarrow> bool option" where
  "from_tail_to_head p b =
     do {
       blk \<leftarrow> vec_get (p_blocks p) b;
       if b_looping blk \<and> b_stms blk \<noteq> []
       then do { l \<leftarrow> get_last_stm p b; i \<leftarrow> l; m \<leftarrow> stm_must_jump p b i; Some (\<not> m) }
       else Some False
     }"

section \<open>Functions\<close>

definition is_var_oos :: "program \<Rightarrow> nat \<Rightarrow> stm_ref \<Rightarrow> nat \<Rightarrow> bool option" where
  "is_var_oos p f r v =
     do {
       fn \<leftarrow> vec_get (p_funcs p) f;
       po \<leftarrow> stm_parent p r;
       s \<leftarrow> is_var_visible (p_vars p) (p_funcs p) (p_blocks p) f po v;
       if s then Some False
       else any_opt (\<lambda>b. do {
           blk \<leftarrow> vec_get (p_blocks p) b;
           pos \<leftarrow> find_variable_in_set (p_vars p) (b_local_vars blk) v;
           Some (pos \<noteq> - 1)
         }) (f_blocks fn)
     }"

definition find_function_by_name :: "program \<Rightarrow> string \<Rightarrow> nat option" where
  "find_function_by_name p name = find (\<lambda>i. f_name (p_funcs p ! i) = name) [0 ..< length (p_funcs p)]"

definition find_blk_for_var :: "program \<Rightarrow> nat \<Rightarrow> nat option option" where
  "find_blk_for_var p v =
     do {
       g \<leftarrow> is_global (p_vars p) v;
       if g then Some None
       else do {
         a \<leftarrow> is_argument (p_vars p) v;
         r \<leftarrow> fold_opt (\<lambda>fn found. case found of Some x \<Rightarrow> Some found
             | None \<Rightarrow> do {
                 pos \<leftarrow> (if a then find_variable_in_set (p_vars p) (f_param fn) v else Some (- 1));
                 if pos \<noteq> - 1 then Some (Some (f_body fn))
                 else fold_opt (\<lambda>b found. case found of Some x \<Rightarrow> Some found
                     | None \<Rightarrow> do {
                         blk \<leftarrow> vec_get (p_blocks p) b;
                         pos \<leftarrow> find_variable_in_set (p_vars p) (b_local_vars blk) v;
                         Some (if pos \<noteq> - 1 then Some (Some b) else None)
                       }) (f_blocks fn) None
               }) (p_funcs p) None;
         Some (case r of None \<Rightarrow> None | Some x \<Rightarrow> x)
       }
     }"

definition find_block_by_id :: "program \<Rightarrow> int \<Rightarrow> nat option option" where
  "find_block_by_id p i =
     fold_opt (\<lambda>fn found. case found of Some x \<Rightarrow> Some found
       | None \<Rightarrow>
           if f_is_builtin fn then Some None
           else fold_opt (\<lambda>b found. case found of Some x \<Rightarrow> Some found
               | None \<Rightarrow> do {
                   blk \<leftarrow> vec_get (p_blocks p) b;
                   Some (if b_stm_id blk = i then Some b else None)
                 }) (f_blocks fn) None) (p_funcs p) None"

definition need_return_stmt :: "'f func_sig_scheme \<Rightarrow> bool" where
  "need_return_stmt fn \<longleftrightarrow> eType (f_return_type fn) \<noteq> eSimple \<or> simple_type (f_return_type fn) \<noteq> eVoid"

definition read_union_field :: "program \<Rightarrow> stm_ref \<Rightarrow> bool option" where
  "read_union_field p r =
     do {
       fm \<leftarrow> stm_fm p r;
       u \<leftarrow> union_field_is_read (p_vars p) (fm_stm_effect fm r);
       if u then Some True
       else do {
         cs \<leftarrow> get_called_stms p r;
         any_opt (\<lambda>c. do { f \<leftarrow> call_func c; fn \<leftarrow> vec_get (p_funcs p) f; Some (f_union_field_read fn) }) cs
       }
     }"

end
