(* ===== verification/PointsTransfer.thy ===== *)
theory PointsTransfer
  imports Program
begin

text \<open>
  What an assignment does to the facts: \<open>rhs_to_lhs_transfer\<close> and \<open>abstract_fact_for_assign\<close> of
  \<open>FactPointTo.cpp\<close> and \<open>FactUnion.cpp\<close>, the facts of \<open>return\<close> and of initializers (\<open>Fact.cpp\<close>), the
  facts about returned values (\<open>FunctionInvocationUser.cpp\<close>), and \<open>FactMgr::update_fact_for_assign\<close>
  with the functions built on it.  The memory of a running program is modelled by cells, each of which
  belongs to a variable; the main result is that the updated facts describe the updated memory.
\<close>

section \<open>Returned values\<close>

definition get_return_fact_for_invocation :: "(nat \<times> Fact) list \<Rightarrow> nat \<Rightarrow> Fact \<Rightarrow> Fact option" where
  "get_return_fact_for_invocation rs fiu key =
     map_option snd (find (\<lambda>(i, f). i = fiu \<and> is_related key f) rs)"

fun add_return_fact_for_invocation :: "(nat \<times> Fact) list \<Rightarrow> nat \<Rightarrow> Fact \<Rightarrow> (nat \<times> Fact) list" where
  "add_return_fact_for_invocation [] fiu f = [(fiu, f)]"
| "add_return_fact_for_invocation ((i, g) # rs) fiu f =
     (if i = fiu \<and> is_related g f then (i, f) # rs
      else (i, g) # add_return_fact_for_invocation rs fiu f)"

text \<open>\<open>save_return_fact\<close>: the facts about the function's return variable and its fields.\<close>

definition save_return_fact ::
    "store \<Rightarrow> nat \<Rightarrow> nat \<Rightarrow> Fact list \<Rightarrow> (nat \<times> Fact) list \<Rightarrow> (nat \<times> Fact) list option" where
  "save_return_fact vs rv fiu facts rs =
     fold_opt (\<lambda>f rs. do {
         m \<leftarrow> var_match vs rv (get_var f);
         Some (if m then add_return_fact_for_invocation rs fiu f else rs)
       }) facts rs"

section \<open>Points-to facts of an assignment\<close>

definition all_of_type :: "store \<Rightarrow> eTypeDesc \<Rightarrow> nat list \<Rightarrow> bool" where
  "all_of_type vs d lvars \<longleftrightarrow> (\<forall>v \<in> set lvars. map_option eType (type_of vs v) = Some d)"

text \<open>The value that a non-pointer expression stores in a pointer: a zero of the size of a pointer is
  null, everything else garbage.\<close>

definition integer_pointee :: "program \<Rightarrow> Type \<Rightarrow> Expression \<Rightarrow> nat option" where
  "integer_pointee p t rhs =
     do {
       z \<leftarrow> expr_equals rhs 0;
       if z
       then do {
         sz \<leftarrow> SizeInBytes t;
         Some (if sz \<noteq> SIZE_UNKNOWN \<and> sz \<ge> 8 then null_ptr else garbage_ptr)
       }
       else Some garbage_ptr
     }"

text \<open>The pointee of a constant of union type: only a first field that is a pointer is initialised.\<close>

definition union_constant_pointee :: "program \<Rightarrow> nat list \<Rightarrow> string \<Rightarrow> nat option" where
  "union_constant_pointee p lvars value =
     do {
       v \<leftarrow> vec_get lvars 0;
       u \<leftarrow> container_of (p_vars p) v;
       u \<leftarrow> u;
       t \<leftarrow> type_of (p_vars p) u;
       if eType t = eUnion
       then do {
         fid \<leftarrow> get_field_id (p_vars p) v;
         Some (if fid = 0 \<and> Constant_get_field value 0 = ''0'' then null_ptr else garbage_ptr)
       }
       else Some garbage_ptr
     }"

text \<open>The pointer fields of every aggregate that the right-hand side may denote, pairwise with those
  of the left-hand side.\<close>

definition copy_pointer_fields :: "store \<Rightarrow> Fact list \<Rightarrow> nat list \<Rightarrow> nat list \<Rightarrow> Fact list option" where
  "copy_pointer_fields vs facts lvars vars =
     fold_opt (\<lambda>v ret. do {
         pointers \<leftarrow> find_pointer_fields vs v [];
         assert_opt (length lvars = length pointers);
         fold_opt (\<lambda>(l, q) ret. do {
             pts \<leftarrow> merge_pointees_of_pointer q 1 facts;
             Some (snd (merge_fact ret (FactPointTo l pts)))
           }) (zip lvars pointers) ret
       }) vars []"

definition variable_transfer :: "program \<Rightarrow> Fact list \<Rightarrow> nat list \<Rightarrow> nat \<Rightarrow> Type \<Rightarrow> Fact list option" where
  "variable_transfer p facts lvars x t =
     do {
       let vs = p_vars p;
       i \<leftarrow> indirect_level vs x t;
       coll \<leftarrow> get_collective vs x;
       if i < 0
       then do { assert_opt (i = - 1); make_point_to_facts vs lvars [coll] }
       else if is_aggregate t
       then do {
         vars \<leftarrow> merge_pointees_of_pointer coll i facts;
         copy_pointer_fields vs facts lvars vars
       }
       else do {
         set \<leftarrow> merge_pointees_of_pointer coll (i + 1) facts;
         make_point_to_facts vs lvars set
       }
     }"

definition return_pointees :: "program \<Rightarrow> nat \<Rightarrow> nat \<Rightarrow> nat list option" where
  "return_pointees p fiu v =
     map_option point_to_vars (get_return_fact_for_invocation (p_returns p) fiu (make_point_to v))"

definition call_transfer :: "program \<Rightarrow> nat list \<Rightarrow> nat \<Rightarrow> nat \<Rightarrow> Fact list option" where
  "call_transfer p lvars fiu f =
     do {
       fn \<leftarrow> vec_get (p_funcs p) f;
       if is_aggregate (f_return_type fn)
       then do {
         pointers \<leftarrow> find_pointer_fields (p_vars p) (f_rv fn) [];
         fold_opt (\<lambda>i ret. do {
             q \<leftarrow> vec_get pointers i;
             l \<leftarrow> vec_get lvars i;
             pts \<leftarrow> return_pointees p fiu q;
             Some (ret @ [FactPointTo l pts])
           }) [0 ..< length lvars] []
       }
       else do {
         pts \<leftarrow> return_pointees p fiu (f_rv fn);
         make_point_to_facts (p_vars p) lvars pts
       }
     }"

text \<open>\<open>FactPointTo::rhs_to_lhs_transfer\<close> for an expression; \<open>None\<close> stands for the null pointer that an
  uninitialised variable has.\<close>

fun point_to_transfer :: "program \<Rightarrow> Fact list \<Rightarrow> nat list \<Rightarrow> Expression \<Rightarrow> Fact list option" where
  "point_to_transfer p facts lvars rhs =
     (if lvars = [] then Some []
      else do {
        assert_opt (all_of_type (p_vars p) ePointer lvars);
        t \<leftarrow> get_type (p_types p) (p_funcs p) rhs;
        if eType t \<noteq> ePointer \<and> eType t \<noteq> eUnion
        then do { q \<leftarrow> integer_pointee p t rhs; make_point_to_facts (p_vars p) lvars [q] }
        else (case rhs of
            Constant _ _ value \<Rightarrow>
              do {
                q \<leftarrow> (if eType t = ePointer
                      then map_option (\<lambda>z. if z then null_ptr else garbage_ptr) (expr_equals rhs 0)
                      else union_constant_pointee p lvars value);
                make_point_to_facts (p_vars p) lvars [q]
              }
          | ExpressionVariable _ x t \<Rightarrow> variable_transfer p facts lvars x t
          | ExpressionFuncall _ (FunctionInvocationUser fiu f _) \<Rightarrow> call_transfer p lvars fiu f
          | ExpressionAssign _ (Assign _ _ _ _ r) \<Rightarrow> point_to_transfer p facts lvars r
          | ExpressionComma _ _ r \<Rightarrow> point_to_transfer p facts lvars r
          | _ \<Rightarrow> Some [])
      })"

declare point_to_transfer.simps [simp del]

definition rhs_to_lhs_transfer ::
    "program \<Rightarrow> Fact list \<Rightarrow> nat list \<Rightarrow> Expression option \<Rightarrow> Fact list option" where
  "rhs_to_lhs_transfer p facts lvars rhs =
     (case rhs of
        None \<Rightarrow>
          if lvars = [] then Some []
          else do {
            assert_opt (all_of_type (p_vars p) ePointer lvars);
            make_point_to_facts (p_vars p) lvars [garbage_ptr]
          }
      | Some e \<Rightarrow> point_to_transfer p facts lvars e)"

text \<open>An \<open>Lhs\<close> is given by its variable and type.  \<open>lhs_vars\<close> is \<open>Lhs::get_lvars\<close>.\<close>

type_synonym lhs = "nat \<times> Type"

definition lhs_vars :: "store \<Rightarrow> Fact list \<Rightarrow> lhs \<Rightarrow> nat list option" where
  "lhs_vars vs facts l =
     do {
       coll \<leftarrow> get_collective vs (fst l);
       i \<leftarrow> indirect_level vs (fst l) (snd l);
       merge_pointees_of_pointer coll i facts
     }"

text \<open>The walk from a field inside a union to the innermost union around it.\<close>

function enclosing_union :: "store \<Rightarrow> nat \<Rightarrow> nat option" where
  "enclosing_union vs v =
     do {
       t \<leftarrow> type_of vs v;
       if eType t = eUnion then Some v
       else do { po \<leftarrow> container_of vs v; q \<leftarrow> po; enclosing_union vs q }
     }"
  by pat_completeness auto
termination by (relation "measure snd") (auto simp: termination_simp)

declare enclosing_union.simps [simp del]

definition union_of_lvar :: "store \<Rightarrow> nat \<Rightarrow> nat option" where
  "union_of_lvar vs v = do { b \<leftarrow> is_inside_union_field vs v; if b then enclosing_union vs v else Some v }"

definition abstract_point_to ::
    "program \<Rightarrow> Fact list \<Rightarrow> lhs \<Rightarrow> Expression option \<Rightarrow> (nat \<times> Fact list) option" where
  "abstract_point_to p facts l rhs =
     do {
       lvars \<leftarrow> lhs_vars (p_vars p) facts l;
       out \<leftarrow> (if eType (snd l) = ePointer then rhs_to_lhs_transfer p facts lvars rhs
               else fold_opt (\<lambda>v out. do {
                   u \<leftarrow> union_of_lvar (p_vars p) v;
                   pointers \<leftarrow> find_pointer_fields (p_vars p) u [];
                   new \<leftarrow> rhs_to_lhs_transfer p facts pointers rhs;
                   Some (out @ new)
                 }) lvars []);
       Some (length lvars, out)
     }"

section \<open>Union facts of an assignment\<close>

fun union_transfer :: "program \<Rightarrow> Fact list \<Rightarrow> nat list \<Rightarrow> Expression \<Rightarrow> Fact list option" where
  "union_transfer p facts lvars rhs =
     do {
       assert_opt (all_of_type (p_vars p) eUnion lvars);
       (case rhs of
          Constant _ _ _ \<Rightarrow> make_union_facts (p_vars p) lvars 0
        | ExpressionVariable _ x t \<Rightarrow>
            do {
              i \<leftarrow> indirect_level (p_vars p) x t;
              assert_opt (i \<ge> 0);
              coll \<leftarrow> get_collective (p_vars p) x;
              rvars \<leftarrow> merge_pointees_of_pointer coll i facts;
              (case join_var_facts facts rvars of
                 None \<Rightarrow> Some []
               | Some f \<Rightarrow> make_union_facts (p_vars p) lvars (last_written_fid f))
            }
        | ExpressionFuncall _ (FunctionInvocationUser fiu f _) \<Rightarrow>
            do {
              fn \<leftarrow> vec_get (p_funcs p) f;
              rv_fact \<leftarrow> get_return_fact_for_invocation (p_returns p) fiu (FactUnion (f_rv fn) TOP);
              make_union_facts (p_vars p) lvars (last_written_fid rv_fact)
            }
        | ExpressionAssign _ (Assign _ _ _ _ r) \<Rightarrow> union_transfer p facts lvars r
        | ExpressionComma _ _ r \<Rightarrow> union_transfer p facts lvars r
        | _ \<Rightarrow> Some [])
     }"

declare union_transfer.simps [simp del]

text \<open>The fact about the union around a variable that is assigned.\<close>

definition union_field_fact :: "store \<Rightarrow> nat \<Rightarrow> Fact list option" where
  "union_field_fact vs v =
     do {
       uf \<leftarrow> is_union_field vs v;
       if uf
       then do {
         po \<leftarrow> container_of vs v;
         u \<leftarrow> po;
         fid \<leftarrow> get_field_id vs v;
         f \<leftarrow> make_union_fact vs u fid;
         Some [f]
       }
       else do {
         b \<leftarrow> is_inside_union_field vs v;
         d \<leftarrow> (if \<not> b then Some False
              else do {
                t \<leftarrow> type_of vs v;
                pad \<leftarrow> has_padding t;
                if pad then Some True else is_packed_after_bitfield vs v
              });
         if d
         then do {
           uo \<leftarrow> get_container_union vs v;
           u \<leftarrow> uo;
           f \<leftarrow> make_union_fact vs u BOTTOM;
           Some [f]
         }
         else Some []
       }
     }"

definition abstract_union ::
    "program \<Rightarrow> Fact list \<Rightarrow> lhs \<Rightarrow> Expression option \<Rightarrow> (nat \<times> Fact list) option" where
  "abstract_union p facts l rhs =
     do {
       lvars \<leftarrow> lhs_vars (p_vars p) facts l;
       out \<leftarrow> (if eType (snd l) = eUnion then do { e \<leftarrow> rhs; union_transfer p facts lvars e }
               else if rhs = None then Some []
               else fold_opt (\<lambda>v out. map_option (\<lambda>f. out @ f) (union_field_fact (p_vars p) v)) lvars []);
       Some (length lvars, out)
     }"

section \<open>Updating an environment\<close>

text \<open>\<open>meta_facts\<close> has one object per category of facts under analysis.\<close>

definition interests_num :: "eFactCategory \<Rightarrow> int" where
  "interests_num k = (case k of ePointTo \<Rightarrow> 1 | eUnionWrite \<Rightarrow> 2)"

definition add_interested_facts :: "int \<Rightarrow> eFactCategory list \<Rightarrow> eFactCategory list" where
  "add_interested_facts interests meta =
     meta @ filter (\<lambda>k. and interests (interests_num k) \<noteq> 0) [ePointTo, eUnionWrite]"

definition abstract_fact_for_assign ::
    "program \<Rightarrow> eFactCategory \<Rightarrow> Fact list \<Rightarrow> lhs \<Rightarrow> Expression option \<Rightarrow> (nat \<times> Fact list) option" where
  "abstract_fact_for_assign p k facts l rhs =
     (case k of
        ePointTo \<Rightarrow> abstract_point_to p facts l rhs
      | eUnionWrite \<Rightarrow> abstract_union p facts l rhs)"

text \<open>The facts of one category that an assignment gives: a single target that is no array is
  overwritten with the first fact, in all other cases the facts are merged.\<close>

definition apply_facts :: "store \<Rightarrow> nat \<Rightarrow> Fact list \<Rightarrow> Fact list \<Rightarrow> Fact list option" where
  "apply_facts vs lvar_cnt new inputs =
     (case new of
        [] \<Rightarrow> Some inputs
      | f # _ \<Rightarrow>
          do {
            strong \<leftarrow> (if lvar_cnt = 1 then map_option (\<lambda>v. \<not> v_isArray v) (vec_get vs (get_var f))
                     else Some False);
            Some (if strong then snd (renew_fact inputs f)
                  else foldl (\<lambda>inputs f. snd (merge_fact inputs f)) inputs new)
          })"

definition update_fact_for_assign ::
    "program \<Rightarrow> eFactCategory list \<Rightarrow> lhs \<Rightarrow> Expression option \<Rightarrow> Fact list \<Rightarrow> (bool \<times> Fact list) option" where
  "update_fact_for_assign p meta l rhs inputs =
     fold_opt (\<lambda>k (changed, inputs). do {
         (n, new) \<leftarrow> abstract_fact_for_assign p k inputs l rhs;
         inputs' \<leftarrow> apply_facts (p_vars p) n new inputs;
         Some (changed \<or> new \<noteq> [], inputs')
       }) meta (False, inputs)"

text \<open>\<open>Lhs lhs(*v)\<close>; a variable without a type cannot be dereferenced any further.\<close>

definition lhs_of_var :: "store \<Rightarrow> nat \<Rightarrow> lhs option" where
  "lhs_of_var vs v = map_option (\<lambda>t. (v, t)) (type_of vs v)"

definition abstract_fact_for_return ::
    "program \<Rightarrow> eFactCategory \<Rightarrow> Fact list \<Rightarrow> Expression option \<Rightarrow> nat \<Rightarrow> Fact list option" where
  "abstract_fact_for_return p k facts e f =
     do {
       fn \<leftarrow> vec_get (p_funcs p) f;
       l \<leftarrow> lhs_of_var (p_vars p) (f_rv fn);
       (n, out) \<leftarrow> abstract_fact_for_assign p k facts l e;
       Some out
     }"

definition abstract_fact_for_var_init :: "program \<Rightarrow> eFactCategory \<Rightarrow> nat \<Rightarrow> Fact list option" where
  "abstract_fact_for_var_init p k v =
     do {
       x \<leftarrow> vec_get (p_vars p) v;
       (case v_type x of
          None \<Rightarrow> Some []
        | Some t \<Rightarrow>
            if eType t \<noteq> ePointer \<and> eType t \<noteq> eUnion then Some []
            else do {
              (n, facts) \<leftarrow> abstract_fact_for_assign p k [] (v, t) (v_init x);
              assert_opt (n = 1);
              if v_isArray x
              then fold_opt (\<lambda>e facts. do {
                  (n, new) \<leftarrow> abstract_fact_for_assign p k [] (v, t) (Some e);
                  Some (snd (merge_facts facts new))
                }) (v_init_values x) facts
              else Some facts
            })
     }"

definition add_new_var_fact :: "program \<Rightarrow> eFactCategory list \<Rightarrow> nat \<Rightarrow> Fact list \<Rightarrow> Fact list option" where
  "add_new_var_fact p meta v facts =
     fold_opt (\<lambda>k facts. do {
         new \<leftarrow> abstract_fact_for_var_init p k v;
         Some (foldl (\<lambda>facts f. if find_related_fact facts f = None then facts @ [f] else facts) facts new)
       }) meta facts"

definition add_param_facts ::
    "program \<Rightarrow> eFactCategory list \<Rightarrow> nat \<Rightarrow> Expression list \<Rightarrow> Fact list \<Rightarrow> Fact list option" where
  "add_param_facts p meta f values facts =
     do {
       fn \<leftarrow> vec_get (p_funcs p) f;
       fold_opt (\<lambda>(i, v) facts. do {
           e \<leftarrow> vec_get values i;
           l \<leftarrow> lhs_of_var (p_vars p) v;
           map_option snd (update_fact_for_assign p meta l (Some e) facts)
         }) (enumerate 0 (f_param fn)) facts
     }"

section \<open>Memory\<close>

text \<open>
  A memory is a function from cells to cells: the cell of a pointer holds the cell it points to.
  \<open>own\<close> gives the variable (for array elements the collective one) that a cell belongs to, and for
  null and dangling addresses the special variables.  Cells of variables that are no arrays are unique.
\<close>

definition pointer_var :: "store \<Rightarrow> nat \<Rightarrow> bool" where
  "pointer_var vs v \<longleftrightarrow> \<not> is_special_ptr v \<and> (\<exists>t. type_of vs v = Some t \<and> eType t = ePointer)"

definition describes :: "store \<Rightarrow> ('c \<Rightarrow> nat) \<Rightarrow> ('c \<Rightarrow> 'c) \<Rightarrow> Fact list \<Rightarrow> bool" where
  "describes vs own m facts \<longleftrightarrow> (\<forall>c. pointer_var vs (own c) \<longrightarrow> own (m c) \<in> points facts (own c))"

definition cells_unique :: "store \<Rightarrow> ('c \<Rightarrow> nat) \<Rightarrow> bool" where
  "cells_unique vs own \<longleftrightarrow> (\<forall>c d. own c = own d \<and> \<not> v_isArray (vs ! own c) \<longrightarrow> c = d)"

text \<open>Following a pointer a number of times; every cell on the way belongs to a pointer variable.\<close>

inductive deref :: "store \<Rightarrow> ('c \<Rightarrow> nat) \<Rightarrow> ('c \<Rightarrow> 'c) \<Rightarrow> nat \<Rightarrow> 'c \<Rightarrow> 'c \<Rightarrow> bool" for vs own m where
  here: "deref vs own m 0 c c"
| follow: "pointer_var vs (own c) \<Longrightarrow> deref vs own m n (m c) d \<Longrightarrow> deref vs own m (Suc n) c d"

inductive_cases deref_SucE: "deref vs own m (Suc n) c d"
inductive_cases deref_0E: "deref vs own m 0 c d"

text \<open>The addresses that an expression may have as its value: null for zero, garbage for another
  pointer constant, an address taken, the value of a dereferenced pointer, a value returned by a call
  (\<open>ret\<close>), the value of the right-hand side for assignments and comma expressions.\<close>

inductive pointer_value ::
    "program \<Rightarrow> ('c \<Rightarrow> nat) \<Rightarrow> ('c \<Rightarrow> 'c) \<Rightarrow> (nat \<Rightarrow> 'c set) \<Rightarrow> Expression \<Rightarrow> 'c \<Rightarrow> bool"
  for p own m ret where
  zero: "get_type (p_types p) (p_funcs p) e = Some t \<Longrightarrow> eType t \<noteq> ePointer \<Longrightarrow> eType t \<noteq> eUnion \<Longrightarrow>
    expr_equals e 0 = Some True \<Longrightarrow> SizeInBytes t = Some sz \<Longrightarrow> sz \<noteq> SIZE_UNKNOWN \<Longrightarrow> 8 \<le> sz \<Longrightarrow>
    own w = null_ptr \<Longrightarrow> pointer_value p own m ret e w"
| literal: "eType t = ePointer \<Longrightarrow> str2int s = Some i \<Longrightarrow>
    own w = (if i = 0 then null_ptr else garbage_ptr) \<Longrightarrow> pointer_value p own m ret (Constant k t s) w"
| address: "eType t = ePointer \<Longrightarrow> indirect_level (p_vars p) x t = Some (- 1) \<Longrightarrow>
    get_collective (p_vars p) x = Some (own w) \<Longrightarrow> pointer_value p own m ret (ExpressionVariable k x t) w"
| contents: "eType t = ePointer \<Longrightarrow> indirect_level (p_vars p) x t = Some i \<Longrightarrow> 0 \<le> i \<Longrightarrow>
    get_collective (p_vars p) x = Some (own c) \<Longrightarrow> deref (p_vars p) own m (Suc (nat i)) c w \<Longrightarrow>
    pointer_value p own m ret (ExpressionVariable k x t) w"
| returned: "vec_get (p_funcs p) f = Some fn \<Longrightarrow> eType (f_return_type fn) = ePointer \<Longrightarrow> w \<in> ret fiu \<Longrightarrow>
    pointer_value p own m ret (ExpressionFuncall k (FunctionInvocationUser fiu f as)) w"
| assigned: "get_type (p_types p) (p_funcs p) l = Some t \<Longrightarrow> eType t = ePointer \<Longrightarrow>
    pointer_value p own m ret r w \<Longrightarrow> pointer_value p own m ret (ExpressionAssign k (Assign s op l e r)) w"
| comma: "get_type (p_types p) (p_funcs p) r = Some t \<Longrightarrow> eType t = ePointer \<Longrightarrow>
    pointer_value p own m ret r w \<Longrightarrow> pointer_value p own m ret (ExpressionComma k l r) w"

definition returns_sound :: "program \<Rightarrow> ('c \<Rightarrow> nat) \<Rightarrow> (nat \<Rightarrow> 'c set) \<Rightarrow> bool" where
  "returns_sound p own ret \<longleftrightarrow>
     (\<forall>fiu rv pts w. return_pointees p fiu rv = Some pts \<longrightarrow> w \<in> ret fiu \<longrightarrow> own w \<in> set pts)"

section \<open>Soundness\<close>

lemma points_simps [simp]:
  "points [] v = {}"
  "points (f # fs) v = (if is_FactPointTo f \<and> get_var f = v then set (point_to_vars f) else points fs v)"
  by (auto simp: points_def is_related_def make_point_to_def)

lemma points_merge:
  "points facts v \<union> (if is_FactPointTo g \<and> get_var g = v then set (point_to_vars g) else {})
     \<subseteq> points (snd (merge_fact facts g)) v"
proof (induction facts)
  case (Cons f facts)
  show ?case
  proof (cases "is_related f g")
    case True
    then show ?thesis
    proof (cases rule: related_cases)
      case (1 u xs ys)
      have "set (snd (add_variables_to_set ys xs)) = set ys \<union> set xs" using add_variables_fold by blast
      then show ?thesis
        by (auto simp: 1 merge_fact_Cons merged_def is_related_def sub_variable_sets_def is_variable_in_set_def
            simp del: merge_fact.simps(2))
    qed (auto simp: merge_fact_Cons merged_def is_related_def simp del: merge_fact.simps(2))
  next
    case False
    with Cons show ?thesis
      by (auto simp: merge_fact_Cons is_related_def simp del: merge_fact.simps(2) split: if_splits)
  qed
qed auto

lemma renew_fact_Cons:
  "snd (renew_fact (f # facts) g) =
     (if is_related g f then (if fact_equal g f then f # facts else g # facts)
      else f # snd (renew_fact facts g))"
  by (simp add: case_prod_beta)

lemma points_renew:
  "points (snd (renew_fact facts g)) v \<supseteq>
     (if is_FactPointTo g \<and> get_var g = v then set (point_to_vars g) else points facts v)"
proof (induction facts)
  case (Cons f facts)
  then show ?case
    by (cases g; cases f) (auto simp: renew_fact_Cons is_related_def equal_variable_sets_def
        is_variable_in_set_def simp del: renew_fact.simps(2) split: if_splits)
qed auto

lemma points_merge_all:
  "points facts v \<union> (\<Union>g \<in> {g \<in> set new. is_FactPointTo g \<and> get_var g = v}. set (point_to_vars g))
     \<subseteq> points (foldl (\<lambda>facts f. snd (merge_fact facts f)) facts new) v"
proof (induction new arbitrary: facts)
  case (Cons g new)
  from Cons [of "snd (merge_fact facts g)"] points_merge [of facts v g] show ?case
    by (auto split: if_splits)
qed auto

lemma make_facts_typed:
  assumes "all_of_type vs d lvars"
  shows "make_point_to_facts vs lvars pts = Some (map (\<lambda>v. FactPointTo v pts) lvars)"
proof -
  have "fold_opt (\<lambda>x facts. do {
         v \<leftarrow> vec_get vs x;
         Some (if v_type v \<noteq> None then facts @ [FactPointTo x pts] else facts)
       }) lvars acc = Some (acc @ map (\<lambda>v. FactPointTo v pts) lvars)" for acc
    using assms
    by (induction lvars arbitrary: acc) (auto simp: all_of_type_def type_of_def bind_eq_Some_conv)
  then show ?thesis by (simp add: make_point_to_facts_def)
qed

lemma deref_points:
  assumes "describes vs own m facts"
  shows "deref vs own m n c d \<Longrightarrow> own c \<in> set ptrs \<Longrightarrow> merge_pointees_loop n ptrs facts = Some out \<Longrightarrow>
    own d \<in> set out"
proof (induction n arbitrary: c ptrs)
  case 0
  then show ?case by (auto elim: deref_0E)
next
  case (Suc n)
  from Suc.prems(1) have c: "pointer_var vs (own c)" "deref vs own m n (m c) d" by (auto elim: deref_SucE)
  from Suc.prems(3) obtain tmp where t: "merge_pointees_of_pointers ptrs facts = Some tmp"
    "merge_pointees_loop n tmp facts = Some out" by (auto simp: bind_eq_Some_conv)
  have "(own c, own (m c)) \<in> points_edges facts"
    using assms c(1) by (auto simp: describes_def points_edges_def pointer_var_def)
  with Suc.prems(2) pointees_step(2) [OF t(1)] have "own (m c) \<in> set tmp" by auto
  from Suc.IH [OF c(2) this t(2)] show ?case .
qed

text \<open>The transferred facts give every variable on the left the value of the right-hand side.\<close>

lemma transfer_value:
  assumes "describes (p_vars p) own m facts" "returns_sound p own ret" "lvars \<noteq> []"
  shows "pointer_value p own m ret e w \<Longrightarrow> point_to_transfer p facts lvars e = Some out \<Longrightarrow>
    \<exists>pts. own w \<in> set pts \<and> out = map (\<lambda>v. FactPointTo v pts) lvars"
proof (induction arbitrary: out rule: pointer_value.induct)
  case (contents t x i c w k)
  from contents.prems assms(3) contents.hyps(1) have a: "all_of_type (p_vars p) ePointer lvars"
    and v: "variable_transfer p facts lvars x t = Some out"
    by (simp_all add: point_to_transfer.simps bind_eq_Some_conv)
  have n: "\<not> is_aggregate t" using contents.hyps(1) by (simp add: is_aggregate_def)
  have ni: "nat (i + 1) = Suc (nat i)" using contents.hyps(3) by simp
  from v n contents.hyps(2-4) obtain set' where
    s: "merge_pointees_loop (Suc (nat i)) [own c] facts = Some set'"
      "make_point_to_facts (p_vars p) lvars set' = Some out"
    by (auto simp: variable_transfer_def Let_def bind_eq_Some_conv merge_pointees_of_pointer_def ni)
  from deref_points [OF assms(1) contents.hyps(5) _ s(1)] s(2) make_facts_typed [OF a]
  show ?case by auto
next
  case (returned f fn w fiu k as)
  from returned.prems assms(3) returned.hyps(1,2) have a: "all_of_type (p_vars p) ePointer lvars"
    and v: "call_transfer p lvars fiu f = Some out"
    by (simp_all add: point_to_transfer.simps bind_eq_Some_conv)
  have n: "\<not> is_aggregate (f_return_type fn)" using returned.hyps(2) by (simp add: is_aggregate_def)
  from v n returned.hyps(1) obtain pts where s: "return_pointees p fiu (f_rv fn) = Some pts"
    "make_point_to_facts (p_vars p) lvars pts = Some out"
    by (auto simp: call_transfer_def bind_eq_Some_conv)
  from assms(2) s(1) returned.hyps(3) have "own w \<in> set pts" by (auto simp: returns_sound_def)
  with s(2) make_facts_typed [OF a] show ?case by auto
next
  case (zero e t sz w)
  from zero.prems assms(3) zero.hyps have a: "all_of_type (p_vars p) ePointer lvars"
    and v: "make_point_to_facts (p_vars p) lvars [null_ptr] = Some out"
    by (simp_all add: point_to_transfer.simps [of _ _ _ e] integer_pointee_def bind_eq_Some_conv)
  from v make_facts_typed [OF a] zero.hyps(8) show ?case by (auto intro: exI [of _ "[null_ptr]"])
next
  case (literal t s i w k)
  from literal.prems assms(3) literal.hyps have a: "all_of_type (p_vars p) ePointer lvars"
    and v: "make_point_to_facts (p_vars p) lvars [own w] = Some out"
    by (simp_all add: point_to_transfer.simps bind_eq_Some_conv)
  from v make_facts_typed [OF a] show ?case by (auto intro: exI [of _ "[own w]"])
next
  case (address t x w k)
  from address.prems assms(3) address.hyps have a: "all_of_type (p_vars p) ePointer lvars"
    and v: "make_point_to_facts (p_vars p) lvars [own w] = Some out"
    by (simp_all add: point_to_transfer.simps bind_eq_Some_conv variable_transfer_def Let_def)
  from v make_facts_typed [OF a] show ?case by (auto intro: exI [of _ "[own w]"])
next
  case (assigned l t r w k s op e)
  from assigned.prems assms(3) assigned.hyps(1,2) have "point_to_transfer p facts lvars r = Some out"
    by (simp add: point_to_transfer.simps [of _ _ _ "ExpressionAssign _ _"] bind_eq_Some_conv)
  from assigned.IH [OF this] show ?case .
next
  case (comma r t w k l)
  from comma.prems assms(3) comma.hyps(1,2) have "point_to_transfer p facts lvars r = Some out"
    by (simp add: point_to_transfer.simps [of _ _ _ "ExpressionComma _ _ _"] bind_eq_Some_conv)
  from comma.IH [OF this] show ?case .
qed

lemma union_facts_no_pointer:
  assumes "abstract_union p facts l rhs = Some (n, out)" "eType (snd l) = ePointer" "f \<in> set out"
  shows "\<not> is_FactPointTo f"
proof -
  let ?step = "\<lambda>v out. map_option (\<lambda>f. out @ f) (union_field_fact (p_vars p) v)"
  have one: "\<forall>f \<in> set new. \<not> is_FactPointTo f" if "union_field_fact (p_vars p) v = Some new" for v new
    using that unfolding union_field_fact_def
    by (auto simp: bind_eq_Some_conv make_union_fact_def split: if_splits option.splits)
  have "\<forall>f \<in> set out. \<not> is_FactPointTo f" if "fold_opt ?step lvars [] = Some out" for lvars
    by (rule fold_opt_invariant [OF that]) (use one in \<open>auto 0 3\<close>)
  with assms show ?thesis
    by (auto simp: abstract_union_def bind_eq_Some_conv split: if_splits)
qed

lemma apply_keeps_points:
  assumes "apply_facts vs n new inputs = Some outputs" "\<And>f. f \<in> set new \<Longrightarrow> \<not> is_FactPointTo f"
  shows "points inputs v \<subseteq> points outputs v"
proof (cases new)
  case (Cons f list)
  with assms(2) have "\<not> is_FactPointTo f" by simp
  with points_renew [of f v inputs] have "points inputs v \<subseteq> points (snd (renew_fact inputs f)) v" by simp
  with assms(1) Cons points_merge_all [of inputs v new] show ?thesis
    by (auto simp: apply_facts_def bind_eq_Some_conv simp del: foldl_Cons split: if_splits)
qed (use assms(1) in \<open>simp add: apply_facts_def\<close>)

lemma describes_mono:
  "describes vs own m facts \<Longrightarrow> (\<And>v. points facts v \<subseteq> points facts' v) \<Longrightarrow> describes vs own m facts'"
  by (auto simp: describes_def)

lemma describes_updateI:
  assumes "own w \<in> points facts (own c)"
    "\<And>d. d \<noteq> c \<Longrightarrow> pointer_var vs (own d) \<Longrightarrow> own (m d) \<in> points facts (own d)"
  shows "describes vs own (m(c := w)) facts"
  using assms by (simp add: describes_def)

lemma point_to_step_sound:
  assumes d: "describes (p_vars p) own m inputs" and u: "cells_unique (p_vars p) own"
    and r: "returns_sound p own ret" and t: "eType (snd l) = ePointer"
    and l: "get_collective (p_vars p) (fst l) = Some (own c0)"
      "indirect_level (p_vars p) (fst l) (snd l) = Some i" "deref (p_vars p) own m (nat i) c0 c"
    and w: "pointer_value p own m ret e w"
    and a: "abstract_point_to p inputs l (Some e) = Some (n, new)"
    and o: "apply_facts (p_vars p) n new inputs = Some outputs"
  shows "describes (p_vars p) own (m(c := w)) outputs"
proof -
  from a l t obtain lvars where lv: "merge_pointees_loop (nat i) [own c0] inputs = Some lvars"
    "point_to_transfer p inputs lvars e = Some new" "n = length lvars"
    by (auto simp: abstract_point_to_def lhs_vars_def merge_pointees_of_pointer_def rhs_to_lhs_transfer_def
        bind_eq_Some_conv)
  from deref_points [OF d l(3) _ lv(1)] have c: "own c \<in> set lvars" by simp
  then have ne: "lvars \<noteq> []" by auto
  from transfer_value [OF d r ne w lv(2)] obtain pts where
    pts: "own w \<in> set pts" "new = map (\<lambda>v. FactPointTo v pts) lvars" by blast
  show ?thesis
  proof (cases "n = 1 \<and> \<not> v_isArray (p_vars p ! own c)")
    case True
    with lv(3) c have one: "lvars = [own c]" by (cases lvars) auto
    with o pts(2) True have out: "outputs = snd (renew_fact inputs (FactPointTo (own c) pts))"
      by (auto simp: apply_facts_def bind_eq_Some_conv)
    have "d' = c" if "own d' = own c" for d' using u True that unfolding cells_unique_def by metis
    then have other: "own d' \<noteq> own c" if "d' \<noteq> c" for d' using that by blast
    have keep: "points inputs v \<subseteq> points outputs v" if "v \<noteq> own c" for v
      using points_renew [of "FactPointTo (own c) pts" v inputs] that by (simp add: out)
    have "set pts \<subseteq> points outputs (own c)"
      using points_renew [of "FactPointTo (own c) pts" "own c" inputs] by (simp add: out)
    with pts(1) d other keep show ?thesis by (intro describes_updateI) (auto simp: describes_def)
  next
    case False
    with lv(3) c have "n = 1 \<Longrightarrow> lvars = [own c]" by (cases lvars) auto
    with False o pts(2) have "outputs = foldl (\<lambda>inputs f. snd (merge_fact inputs f)) inputs new"
      using ne by (cases lvars) (auto simp: apply_facts_def bind_eq_Some_conv split: if_splits)
    then have keep: "points inputs v \<subseteq> points outputs v"
      and here: "(\<Union>g \<in> {g \<in> set new. is_FactPointTo g \<and> get_var g = v}. set (point_to_vars g)) \<subseteq> points outputs v"
      for v using points_merge_all [of inputs v new] by simp_all
    have "FactPointTo (own c) pts \<in> {g \<in> set new. is_FactPointTo g \<and> get_var g = own c}"
      using c pts(2) by simp
    with here [of "own c"] have "set pts \<subseteq> points outputs (own c)" by fastforce
    with keep d pts(1) show ?thesis
      by (intro describes_updateI) (auto simp: describes_def)
  qed
qed

lemma update_assign_sound:
  assumes d: "describes (p_vars p) own m inputs" and u: "cells_unique (p_vars p) own"
    and r: "returns_sound p own ret" and t: "eType (snd l) = ePointer"
    and l: "get_collective (p_vars p) (fst l) = Some (own c0)"
      "indirect_level (p_vars p) (fst l) (snd l) = Some i" "deref (p_vars p) own m (nat i) c0 c"
    and w: "pointer_value p own m ret e w"
    and k: "odd interests"
    and o: "update_fact_for_assign p (add_interested_facts interests []) l (Some e) inputs =
      Some (changed, outputs)"
  shows "describes (p_vars p) own (m(c := w)) outputs"
proof -
  obtain n new mid where p: "abstract_point_to p inputs l (Some e) = Some (n, new)"
    "apply_facts (p_vars p) n new inputs = Some mid" and
    rest: "mid = outputs \<or> (\<exists>n new. abstract_union p mid l (Some e) = Some (n, new) \<and>
      apply_facts (p_vars p) n new mid = Some outputs)"
    using o k unfolding update_fact_for_assign_def add_interested_facts_def interests_num_def
      abstract_fact_for_assign_def
    by (simp add: and_one_eq odd_iff_mod_2_eq_one bind_eq_Some_conv split: if_splits) blast+
  note m = point_to_step_sound [OF d u r t l w p]
  from rest show ?thesis
  proof
    assume "\<exists>n new. abstract_union p mid l (Some e) = Some (n, new) \<and>
      apply_facts (p_vars p) n new mid = Some outputs"
    then obtain n new where un: "abstract_union p mid l (Some e) = Some (n, new)"
      "apply_facts (p_vars p) n new mid = Some outputs" by blast
    from describes_mono [OF m apply_keeps_points [OF un(2)]] union_facts_no_pointer [OF un(1) t]
    show ?thesis by blast
  qed (use m in simp)
qed

section \<open>Properties\<close>

text \<open>
  C0: the points-to analysis of assignments is sound: if the facts describe the memory, then after an
  assignment of an address to a (possibly dereferenced) pointer the facts that
  \<open>FactMgr::update_fact_for_assign\<close> computes describe the memory after it, whether the target is
  overwritten (one possible target that is no array) or its facts are merged.
\<close>

theorem assignment_transfer_sound:
  assumes "describes (p_vars p) own m inputs" and "cells_unique (p_vars p) own"
    and "returns_sound p own ret" and "eType (snd l) = ePointer"
    and "get_collective (p_vars p) (fst l) = Some (own c0)"
      "indirect_level (p_vars p) (fst l) (snd l) = Some i" "deref (p_vars p) own m (nat i) c0 c"
    and "pointer_value p own m ret e w" and "odd interests"
    and "update_fact_for_assign p (add_interested_facts interests []) l (Some e) inputs =
      Some (changed, outputs)"
  shows "describes (p_vars p) own (m(c := w)) outputs"
  using assms by (rule update_assign_sound)

text \<open>Two pointers and an integer: \<open>*l_5 = &g_3\<close>, where \<open>l_5\<close> points to \<open>g_4\<close>.\<close>

definition store_var :: "string \<Rightarrow> Type option \<Rightarrow> Expression Variable" where
  "store_var nm t = \<lparr>v_name = nm, v_type = t, v_init = None, v_isAuto = False,
     v_isStatic = False, v_isHipShared = False, v_isRegister = False, v_isBitfield = False,
     v_isAddrTaken = False, v_isAccessOnce = False, v_field_vars = [], v_field_var_of = None,
     v_qfer = plain_qfer, v_isArray = False, v_isVector = False, v_collective = None, v_parent = None,
     v_sizes = [], v_indices = [], v_init_values = []\<rparr>"

definition int_type :: Type where
  "int_type = Type_simple 1 eInt"

definition int_ptr :: Type where
  "int_ptr = Type_pointer 2 int_type"

definition pointer_store :: store where
  "pointer_store = map (\<lambda>s. store_var s None) [''null'', ''garbage'', ''tbd''] @
     [store_var ''g_3'' (Some int_type), store_var ''g_4'' (Some int_ptr),
      store_var ''l_5'' (Some (Type_pointer 3 int_ptr))]"

definition pointer_program :: program where
  "pointer_program = \<lparr>p_opts = CGOptions_static, p_meta = [ePointTo],
     p_types = \<lparr>tt_simple = \<lambda>_. None, tt_vector = \<lambda>_ _. None\<rparr>, p_vars = pointer_store,
     p_funcs = [], p_blocks = [], p_stms = [], p_fms = [], p_returns = [], p_failed_stm = None\<rparr>"

theorem assignment_transfer_sound_witness:
  "describes pointer_store id ((\<lambda>c. if c = 5 then 4 else 1)(4 := 3)) [FactPointTo 4 [3], FactPointTo 5 [4]]"
proof -
  let ?m = "\<lambda>c :: nat. if c = 5 then 4 else (1 :: nat)"
  let ?inputs = "[FactPointTo 4 [1], FactPointTo 5 [4]]"
  let ?e = "ExpressionVariable 0 3 int_ptr"
  have vars: "p_vars pointer_program = pointer_store" by (simp add: pointer_program_def)
  have special: "v < 3 \<Longrightarrow> \<not> pointer_var pointer_store v" for v
    by (auto simp: pointer_var_def is_special_ptr_def null_ptr_def garbage_ptr_def tbd_ptr_def)
  have "type_of pointer_store v = None" if "6 \<le> v" for v
    using that by (simp add: type_of_def vec_get_def pointer_store_def)
  then have beyond: "6 \<le> v \<Longrightarrow> \<not> pointer_var pointer_store v" for v by (simp add: pointer_var_def)
  have t: "map_option eType (type_of pointer_store 3) = Some eSimple"
    "map_option eType (type_of pointer_store 5) = Some ePointer" by code_simp+
  then have p3: "\<not> pointer_var pointer_store 3" and p5: "pointer_var pointer_store 5"
    by (auto simp: pointer_var_def is_special_ptr_def null_ptr_def garbage_ptr_def tbd_ptr_def)
  have d: "describes pointer_store id ?m ?inputs"
    unfolding describes_def
  proof (intro allI impI)
    fix c assume c: "pointer_var pointer_store (id c)"
    then have "\<not> c < 3" "\<not> 6 \<le> c" "c \<noteq> 3" using special [of c] beyond [of c] p3 by auto
    then have "c = 4 \<or> c = 5" by linarith
    then show "id (?m c) \<in> points ?inputs (id c)" by auto
  qed
  have i: "indirect_level pointer_store 5 int_ptr = Some 1"
    "get_collective pointer_store 5 = Some 5" "indirect_level pointer_store 3 int_ptr = Some (- 1)"
    "get_collective pointer_store 3 = Some 3" "eType int_ptr = ePointer" by code_simp+
  have f: "deref pointer_store id ?m (nat 1) 5 4"
    using deref.follow [where c = 5 and n = 0 and d = 4 and m = ?m and vs = pointer_store and own = id]
      p5 deref.here by fastforce
  have v: "pointer_value pointer_program id ?m (\<lambda>_. {}) ?e 3"
    by (rule pointer_value.address) (simp_all add: vars i)
  have u: "update_fact_for_assign pointer_program (add_interested_facts 1 []) (5, int_ptr) (Some ?e) ?inputs =
    Some (True, [FactPointTo 4 [3], FactPointTo 5 [4]])" by code_simp
  show ?thesis
    using assignment_transfer_sound [where p = pointer_program and own = id and l = "(5, int_ptr)"
        and ret = "\<lambda>_. {}", OF _ _ _ _ _ _ _ v _ u] d i f
    by (simp add: vars cells_unique_def returns_sound_def)
qed

end
