(* ===== verification/FactManager.thy ===== *)
theory FactManager
  imports PointsTransfer
begin

text \<open>
  Class \<open>FactMgr\<close> (\<open>FactMgr.cpp\<close>): what happens to the facts when control leaves a scope, returns, jumps,
  breaks out of a loop or enters a function, and the maps that hold the facts before and after every
  statement.  The properties are about leaving a scope, where facts about dead variables must vanish
  and pointers to them become dangling, and about jumps.
\<close>

section \<open>Leaving a scope\<close>

definition remove_facts_of :: "store \<Rightarrow> nat \<Rightarrow> Fact list \<Rightarrow> Fact list option" where
  "remove_facts_of vs v facts =
     fold_opt (\<lambda>f out. do { m \<leftarrow> var_match vs v (get_var f); Some (if m then out else out @ [f]) }) facts []"

definition mark_dead_in :: "store \<Rightarrow> nat \<Rightarrow> Fact list \<Rightarrow> Fact list option" where
  "mark_dead_in vs v facts =
     map_opt (\<lambda>f. if is_FactPointTo f
        then map_option (\<lambda>g. case g of None \<Rightarrow> f | Some f' \<Rightarrow> f') (mark_dead_var vs v f)
        else Some f) facts"

definition update_facts_for_oos_vars :: "store \<Rightarrow> nat list \<Rightarrow> Fact list \<Rightarrow> Fact list option" where
  "update_facts_for_oos_vars vs vars facts =
     do {
       facts \<leftarrow> fold_opt (remove_facts_of vs) vars facts;
       fold_opt (mark_dead_in vs) vars facts
     }"

text \<open>A fact of no interest after the function: its variable is on the stack of the function or
  another function's return variable.\<close>

definition function_local_fact :: "program \<Rightarrow> nat \<Rightarrow> nat option \<Rightarrow> nat \<Rightarrow> bool option" where
  "function_local_fact p f parent v =
     do {
       s \<leftarrow> func_var_on_stack (p_vars p) (p_funcs p) (p_blocks p) f parent v;
       if s then Some True
       else do {
         r \<leftarrow> is_rv (p_vars p) v;
         if r then do { fn \<leftarrow> vec_get (p_funcs p) f; map_option Not (var_match (p_vars p) (f_rv fn) v) }
         else Some False
       }
     }"

definition remove_function_local_facts :: "program \<Rightarrow> Fact list \<Rightarrow> stm_ref \<Rightarrow> Fact list option" where
  "remove_function_local_facts p inputs r =
     do {
       fo \<leftarrow> stm_func p r;
       f \<leftarrow> fo;
       parent \<leftarrow> stm_parent p r;
       inputs \<leftarrow> fold_opt (\<lambda>g out. do {
           l \<leftarrow> function_local_fact p f parent (get_var g);
           Some (if l then out else out @ [g])
         }) inputs [];
       map_opt (\<lambda>g. if is_FactPointTo g
         then map_option (\<lambda>n. case n of None \<Rightarrow> g | Some g' \<Rightarrow> g')
                (mark_func_end (p_vars p) (p_funcs p) (p_blocks p) f parent g)
         else Some g) inputs
     }"

text \<open>The locals of the blocks from here to the loop; without a loop around it is a null dereference.\<close>

function loop_locals :: "program \<Rightarrow> nat \<Rightarrow> nat list option" where
  "loop_locals p b =
     do {
       blk \<leftarrow> vec_get (p_blocks p) b;
       if b_looping blk then Some (b_local_vars blk)
       else do { po \<leftarrow> parent_of (p_blocks p) b; q \<leftarrow> po; vs \<leftarrow> loop_locals p q; Some (b_local_vars blk @ vs) }
     }"
  by pat_completeness auto
termination by (relation "measure snd") (auto simp: termination_simp)

declare loop_locals.simps [simp del]

definition remove_loop_local_facts :: "program \<Rightarrow> stm_ref \<Rightarrow> Fact list \<Rightarrow> Fact list option" where
  "remove_loop_local_facts p r facts =
     do {
       b \<leftarrow> (case r of BlockRef b \<Rightarrow> Some b | StmRef i \<Rightarrow> do { po \<leftarrow> stm_parent p r; po });
       vars \<leftarrow> loop_locals p b;
       update_facts_for_oos_vars (p_vars p) vars facts
     }"

definition remove_rv_facts :: "program \<Rightarrow> nat \<Rightarrow> Fact list \<Rightarrow> Fact list option" where
  "remove_rv_facts p f facts =
     do {
       fn \<leftarrow> vec_get (p_funcs p) f;
       fold_opt (\<lambda>g out. do {
           r \<leftarrow> is_rv (p_vars p) (get_var g);
           d \<leftarrow> (if r then map_option Not (var_match (p_vars p) (f_rv fn) (get_var g)) else Some False);
           Some (if d then out else out @ [g])
         }) facts []
     }"

section \<open>Jumps\<close>

definition add_oos_var :: "program \<Rightarrow> nat \<Rightarrow> stm_ref \<Rightarrow> nat \<Rightarrow> nat list \<Rightarrow> nat list option" where
  "add_oos_var p f dest v oos =
     do {
       o1 \<leftarrow> is_var_oos p f dest v;
       if o1
       then do { pos \<leftarrow> find_variable_in_set (p_vars p) oos v; Some (if pos = - 1 then oos @ [v] else oos) }
       else Some oos
     }"

definition update_facts_for_dest :: "program \<Rightarrow> Fact list \<Rightarrow> Fact list \<Rightarrow> stm_ref \<Rightarrow> Fact list option" where
  "update_facts_for_dest p facts_in facts_out dest =
     do {
       fo \<leftarrow> stm_func p dest;
       f \<leftarrow> fo;
       (oos, facts_out) \<leftarrow> fold_opt (\<lambda>g (oos, facts_out). do {
           r \<leftarrow> is_rv (p_vars p) (get_var g);
           if r then Some (oos, facts_out)
           else do {
             oos \<leftarrow> add_oos_var p f dest (get_var g) oos;
             oos \<leftarrow> (if is_FactPointTo g
                    then fold_opt (\<lambda>v oos. if is_special_ptr v then Some oos else add_oos_var p f dest v oos)
                           (point_to_vars g) oos
                    else Some oos);
             Some (oos, snd (merge_fact facts_out g))
           }
         }) facts_in ([], facts_out);
       update_facts_for_oos_vars (p_vars p) oos facts_out
     }"

text \<open>At a jump target the facts of the source are merged; a fact that the source does not have is about
  a variable whose initializer was jumped over.\<close>

definition jump_fact :: "store \<Rightarrow> Fact list \<Rightarrow> Fact \<Rightarrow> Fact option" where
  "jump_fact vs jump_facts f =
     (case find_related_fact jump_facts f of
        Some g \<Rightarrow> Some g
      | None \<Rightarrow>
          if is_FactPointTo f then Some (FactPointTo (get_var f) [garbage_ptr])
          else make_union_fact vs (get_var f) BOTTOM)"

definition merge_jump_facts :: "store \<Rightarrow> Fact list \<Rightarrow> Fact list \<Rightarrow> (bool \<times> Fact list) option" where
  "merge_jump_facts vs facts jump_facts =
     fold_opt (\<lambda>i (changed, facts). do {
         f \<leftarrow> vec_get facts i;
         r \<leftarrow> is_rv vs (get_var f);
         if r then Some (changed, facts)
         else do {
           j \<leftarrow> jump_fact vs jump_facts f;
           let (c, facts') = merge_fact facts j;
           Some (changed \<or> c, facts')
         }
       }) [0 ..< length facts] (False, facts)"

section \<open>The maps\<close>

definition setup_in_out_maps :: "bool \<Rightarrow> FactMgr \<Rightarrow> FactMgr" where
  "setup_in_out_maps first_time fm =
     (if first_time
      then fm\<lparr>fm_facts_in_final := (\<lambda>r. case fm_facts_in fm r of
                  None \<Rightarrow> fm_facts_in_final fm r | Some fs \<Rightarrow> Some (copy_facts fs)),
              fm_facts_out_final := (\<lambda>r. case fm_facts_out fm r of
                  None \<Rightarrow> fm_facts_out_final fm r | Some fs \<Rightarrow> Some (copy_facts fs))\<rparr>
      else fm\<lparr>fm_facts_in_final := (\<lambda>r. map_option (\<lambda>fs. combine_facts fs (facts_at (fm_facts_in fm) r))
                  (fm_facts_in_final fm r)),
              fm_facts_out_final := (\<lambda>r. map_option (\<lambda>fs. combine_facts fs (facts_at (fm_facts_out fm) r))
                  (fm_facts_out_final fm r))\<rparr>)"

definition set_fact_in :: "stm_ref \<Rightarrow> Fact list \<Rightarrow> FactMgr \<Rightarrow> FactMgr" where
  "set_fact_in r facts fm = fm\<lparr>fm_facts_in := (fm_facts_in fm)(r \<mapsto> facts)\<rparr>"

text \<open>The facts after a statement, restricted to what its successor sees.\<close>

definition facts_after :: "program \<Rightarrow> stm_ref \<Rightarrow> Fact list \<Rightarrow> Fact list option" where
  "facts_after p r facts =
     do {
       t \<leftarrow> stm_type p r;
       parent \<leftarrow> stm_parent p r;
       if t = eContinue \<or> t = eBreak then remove_loop_local_facts p r facts
       else if t = eGoto
       then (case r of
           BlockRef b \<Rightarrow> None
         | StmRef i \<Rightarrow> do {
             s \<leftarrow> vec_get (p_stms p) i;
             (case s_kind s of
                StatementGoto _ dest _ _ \<Rightarrow> update_facts_for_dest p facts [] dest
              | _ \<Rightarrow> None)
           })
       else if t = eReturn \<or> parent = None then remove_function_local_facts p facts r
       else Some facts
     }"

definition set_fact_out :: "program \<Rightarrow> stm_ref \<Rightarrow> Fact list \<Rightarrow> FactMgr \<Rightarrow> FactMgr option" where
  "set_fact_out p r facts fm =
     do { out \<leftarrow> facts_after p r facts; Some (fm\<lparr>fm_facts_out := (fm_facts_out fm)(r \<mapsto> out)\<rparr>) }"

text \<open>The block of the loop around a statement.\<close>

function loop_block :: "program \<Rightarrow> nat option \<Rightarrow> nat option option" where
  "loop_block p None = Some None"
| "loop_block p (Some b) =
     do {
       blk \<leftarrow> vec_get (p_blocks p) b;
       if b_looping blk then Some (Some b)
       else do { po \<leftarrow> parent_of (p_blocks p) b; loop_block p po }
     }"
  by pat_completeness auto
termination
  by (relation "measure (\<lambda>(p, b). case b of None \<Rightarrow> 0 | Some b \<Rightarrow> Suc b)")
    (auto simp: termination_simp split: option.splits)

definition var_visible_at :: "program \<Rightarrow> nat \<Rightarrow> nat \<Rightarrow> stm_ref \<Rightarrow> bool option" where
  "var_visible_at p f v r =
     do { po \<leftarrow> stm_parent p r; is_var_visible (p_vars p) (p_funcs p) (p_blocks p) f po v }"

definition fact_out_wanted :: "program \<Rightarrow> nat \<Rightarrow> stm_ref \<Rightarrow> nat \<Rightarrow> bool option" where
  "fact_out_wanted p f r v =
     do {
       here \<leftarrow> var_visible_at p f v r;
       if \<not> here then Some False
       else do {
         t \<leftarrow> stm_type p r;
         g \<leftarrow> (if t = eReturn then is_global (p_vars p) v else Some True);
         if \<not> g then Some False
         else do {
           l \<leftarrow> (if t = eBreak \<or> t = eContinue
                then do {
                  po \<leftarrow> stm_parent p r;
                  lb \<leftarrow> loop_block p po;
                  b \<leftarrow> lb;
                  var_visible_at p f v (BlockRef b)
                }
                else Some True);
           if \<not> l then Some False
           else if t = eGoto
           then (case r of
               BlockRef b \<Rightarrow> None
             | StmRef i \<Rightarrow> do {
                 s \<leftarrow> vec_get (p_stms p) i;
                 (case s_kind s of StatementGoto _ dest _ _ \<Rightarrow> var_visible_at p f v dest | _ \<Rightarrow> None)
               })
           else Some True
         }
       }
     }"

definition push_fact :: "stm_ref \<Rightarrow> Fact \<Rightarrow> fact_map \<Rightarrow> fact_map" where
  "push_fact r f m = m(r \<mapsto> facts_at m r @ [f])"

definition add_fact_out :: "program \<Rightarrow> nat \<Rightarrow> stm_ref \<Rightarrow> Fact \<Rightarrow> FactMgr \<Rightarrow> FactMgr option" where
  "add_fact_out p f r g fm =
     do {
       w \<leftarrow> fact_out_wanted p f r (get_var g);
       Some (if w then fm\<lparr>fm_facts_out := push_fact r g (fm_facts_out fm)\<rparr> else fm)
     }"
text \<open>The facts of a new variable: for a global one in all statements of the function, else below the
  block that declares it.\<close>

definition add_new_fact_everywhere ::
    "program \<Rightarrow> nat \<Rightarrow> stm_ref list \<Rightarrow> nat option \<Rightarrow> Fact \<Rightarrow> FactMgr \<Rightarrow> FactMgr option" where
  "add_new_fact_everywhere p f refs blk g fm =
     do {
       let fm = (if find_related_fact (fm_global_facts fm) g = None
                 then fm\<lparr>fm_global_facts := fm_global_facts fm @ [g]\<rparr> else fm);
       fm \<leftarrow> fold_opt (\<lambda>r fm. do {
           b \<leftarrow> (if blk = None then Some True else in_block p r blk);
           Some (if b \<and> fm_facts_in fm r \<noteq> None then fm\<lparr>fm_facts_in := push_fact r g (fm_facts_in fm)\<rparr> else fm)
         }) refs fm;
       fold_opt (\<lambda>r fm.
           if fm_facts_out fm r = None then Some fm
           else if blk \<noteq> None then add_fact_out p f r g fm
           else Some (fm\<lparr>fm_facts_out := push_fact r g (fm_facts_out fm)\<rparr>)) refs fm
     }"

text \<open>\<open>refs\<close> are the statements in the maps, in any order: every entry is changed on its own.\<close>

definition add_new_var_fact_and_update_inout_maps ::
    "program \<Rightarrow> nat \<Rightarrow> stm_ref list \<Rightarrow> nat option \<Rightarrow> nat \<Rightarrow> FactMgr \<Rightarrow> FactMgr option" where
  "add_new_var_fact_and_update_inout_maps p f refs blk v fm =
     do {
       g \<leftarrow> (if blk = None then is_global (p_vars p) v else Some True);
       assert_opt g;
       fold_opt (\<lambda>k fm. do {
           new \<leftarrow> abstract_fact_for_var_init p k v;
           fold_opt (add_new_fact_everywhere p f refs blk) new fm
         }) (p_meta p) fm
     }"

definition makeup_new_var_facts :: "program \<Rightarrow> Fact list \<Rightarrow> Fact list \<Rightarrow> Fact list option" where
  "makeup_new_var_facts p old_facts new_facts =
     fold_opt (\<lambda>f old. do {
         g \<leftarrow> is_global (p_vars p) (get_var f);
         l \<leftarrow> (if g then Some True else is_local (p_vars p) (get_var f));
         if l \<and> find_related_fact old f = None then add_new_var_fact p (p_meta p) (get_var f) old
         else Some old
       }) new_facts old_facts"

text \<open>\<open>restore_facts\<close> also completes the vector it is given.\<close>

definition restore_facts :: "program \<Rightarrow> Fact list \<Rightarrow> FactMgr \<Rightarrow> (Fact list \<times> FactMgr) option" where
  "restore_facts p old_facts fm =
     do {
       old \<leftarrow> makeup_new_var_facts p old_facts (fm_global_facts fm);
       Some (old, fm\<lparr>fm_global_facts := old\<rparr>)
     }"

definition clear_map_visited :: "FactMgr \<Rightarrow> FactMgr" where
  "clear_map_visited fm = fm\<lparr>fm_visited := (\<lambda>_. False)\<rparr>"

text \<open>The statement with all blocks and statements inside it.\<close>

definition fact_scope :: "program \<Rightarrow> stm_ref \<Rightarrow> stm_ref list option" where
  "fact_scope p r =
     do {
       rs \<leftarrow> all_stms p r;
       bs \<leftarrow> map_opt (get_blocks p) rs;
       Some (rs @ map BlockRef (concat bs))
     }"

definition backup_stm_fact_maps ::
    "program \<Rightarrow> stm_ref \<Rightarrow> FactMgr \<Rightarrow> fact_map \<times> fact_map \<Rightarrow> (fact_map \<times> fact_map) option" where
  "backup_stm_fact_maps p r fm = (\<lambda>(fin, fout). do {
     rs \<leftarrow> fact_scope p r;
     Some (\<lambda>x. if x \<in> set rs then Some (facts_at (fm_facts_in fm) x) else fin x,
           \<lambda>x. if x \<in> set rs then Some (facts_at (fm_facts_out fm) x) else fout x)
   })"

definition restore_stm_fact_maps ::
    "program \<Rightarrow> stm_ref \<Rightarrow> fact_map \<times> fact_map \<Rightarrow> FactMgr \<Rightarrow> FactMgr option" where
  "restore_stm_fact_maps p r m fm = (case m of (fin, fout) \<Rightarrow> do {
     rs \<leftarrow> fact_scope p r;
     Some (fm\<lparr>fm_facts_in := (\<lambda>x. if x \<in> set rs then Some (facts_at fin x) else fm_facts_in fm x),
              fm_facts_out := (\<lambda>x. if x \<in> set rs then Some (facts_at fout x) else fm_facts_out fm x)\<rparr>)
   })"

definition reset_stm_fact_maps :: "program \<Rightarrow> stm_ref \<Rightarrow> FactMgr \<Rightarrow> FactMgr option" where
  "reset_stm_fact_maps p r fm =
     do {
       rs \<leftarrow> fact_scope p r;
       Some (fm\<lparr>fm_facts_in := (\<lambda>x. if x \<in> set rs then Some [] else fm_facts_in fm x),
                fm_facts_out := (\<lambda>x. if x \<in> set rs then Some [] else fm_facts_out fm x)\<rparr>)
     }"

definition create_cfg_edge :: "stm_ref \<Rightarrow> stm_ref \<Rightarrow> bool \<Rightarrow> bool \<Rightarrow> FactMgr \<Rightarrow> FactMgr" where
  "create_cfg_edge src dest post back fm =
     fm\<lparr>fm_cfg_edges := fm_cfg_edges fm @
       [\<lparr>edge_src = src, edge_dest = dest, edge_post_dest = post, edge_back_link = back\<rparr>]\<rparr>"

definition find_updated_facts :: "FactMgr \<Rightarrow> stm_ref \<Rightarrow> Fact list \<Rightarrow> Fact list option" where
  "find_updated_facts fm r facts =
     fold_opt (\<lambda>f out. do {
         g \<leftarrow> find_related_fact (facts_at (fm_facts_in fm) r) f;
         Some (if fact_equal f g then out else out @ [f])
       }) (facts_at (fm_facts_out fm) r) facts"

definition find_updated_final_facts :: "program \<Rightarrow> nat \<Rightarrow> FactMgr \<Rightarrow> stm_ref \<Rightarrow> Fact list \<Rightarrow> Fact list option" where
  "find_updated_final_facts p f fm r facts =
     do {
       fn \<leftarrow> vec_get (p_funcs p) f;
       fold_opt (\<lambda>g out. do {
           m \<leftarrow> var_match (p_vars p) (f_rv fn) (get_var g);
           if m then Some (out @ [g])
           else do {
             old \<leftarrow> find_related_fact (facts_at (fm_facts_in_final fm) r) g;
             Some (if fact_equal g old then out else out @ [g])
           }
         }) (facts_at (fm_facts_out_final fm) r) facts
     }"

definition find_dangling_global_ptrs :: "program \<Rightarrow> FactMgr \<Rightarrow> Function \<Rightarrow> Function option" where
  "find_dangling_global_ptrs p fm fn =
     fold_opt (\<lambda>g fn.
         if \<not> is_FactPointTo g then Some fn
         else do {
           c \<leftarrow> var_is_const (p_vars p) (get_var g);
           gl \<leftarrow> (if c then Some False else is_global (p_vars p) (get_var g));
           if c \<or> \<not> gl then Some fn
           else do {
             d \<leftarrow> is_dead (p_vars p) g;
             Some (if d then fn\<lparr>f_dead_globals := f_dead_globals fn @ [get_var g]\<rparr> else fn)
           }
         }) (fm_global_facts fm) fn"

section \<open>Entering a function\<close>

definition points_into_keep :: "store \<Rightarrow> Fact list \<Rightarrow> nat \<Rightarrow> bool option" where
  "points_into_keep vs keep v =
     any_opt (\<lambda>k. if is_FactPointTo k then point_to vs k v else Some False) keep"

definition handover_pass :: "store \<Rightarrow> Fact list \<Rightarrow> Fact list \<Rightarrow> (Fact list \<times> Fact list) option" where
  "handover_pass vs keep rest =
     fold_opt (\<lambda>f (keep, rest). do {
         b \<leftarrow> points_into_keep vs keep (get_var f);
         Some (if b then (keep @ [f], rest) else (keep, rest @ [f]))
       }) rest (keep, [])"

lemma handover_pass_length:
  assumes "handover_pass vs keep rest = Some (keep', rest')"
  shows "length keep' + length rest' = length keep + length rest"
proof -
  have "fold_opt (\<lambda>f (keep, rest). do {
         b \<leftarrow> points_into_keep vs keep (get_var f);
         Some (if b then (keep @ [f], rest) else (keep, rest @ [f]))
       }) fs (k, r) = Some (keep', rest') \<Longrightarrow> length keep' + length rest' = length k + length r + length fs" for fs k r
    by (induction fs arbitrary: k r) (auto simp: bind_eq_Some_conv split: if_splits)
  from this [OF assms [unfolded handover_pass_def]] show ?thesis by simp
qed

function handover_loop :: "store \<Rightarrow> Fact list \<Rightarrow> Fact list \<Rightarrow> Fact list option" where
  "handover_loop vs keep rest =
     do {
       (keep', rest') \<leftarrow> handover_pass vs keep rest;
       if length keep' > length keep then handover_loop vs keep' rest' else Some keep'
     }"
  by pat_completeness auto
termination
  by (relation "measure (\<lambda>(vs, keep, rest). length rest)") (auto dest: handover_pass_length)

declare handover_loop.simps [simp del]

text \<open>\<open>caller_to_callee_handover\<close>: facts of globals and parameters, and what they reach, go to the callee.\<close>

definition caller_to_callee_handover ::
    "program \<Rightarrow> nat \<Rightarrow> Expression list \<Rightarrow> Fact list \<Rightarrow> Fact list option" where
  "caller_to_callee_handover p f values inputs =
     do {
       inputs \<leftarrow> add_param_facts p (p_meta p) f values inputs;
       fn \<leftarrow> vec_get (p_funcs p) f;
       (keep, rest) \<leftarrow> fold_opt (\<lambda>g (keep, rest). do {
           gl \<leftarrow> is_global (p_vars p) (get_var g);
           b \<leftarrow> (if gl then Some True
                else map_option (\<lambda>pos. pos \<ge> 0) (find_variable_in_set (p_vars p) (f_param fn) (get_var g)));
           Some (if b then (keep @ [g], rest) else (keep, rest @ [g]))
         }) inputs ([], []);
       handover_loop (p_vars p) keep rest
     }"

section \<open>Statements\<close>

text \<open>\<open>update_fact_for_return\<close>: the facts of the returned value are merged with those of other returns.\<close>

definition update_fact_for_return :: "program \<Rightarrow> nat \<Rightarrow> Fact list \<Rightarrow> (Fact list \<times> program) option" where
  "update_fact_for_return p i inputs =
     do {
       s \<leftarrow> vec_get (p_stms p) i;
       f \<leftarrow> s_func s;
       e \<leftarrow> (case s_kind s of StatementReturn e \<Rightarrow> Some e | _ \<Rightarrow> None);
       (changed, inputs) \<leftarrow> fold_opt (\<lambda>k (changed, inputs). do {
           new \<leftarrow> abstract_fact_for_return p k inputs (Some e) f;
           let (c, inputs') = merge_facts inputs new;
           Some (changed \<or> c, inputs')
         }) (p_meta p) (False, inputs);
       p \<leftarrow> (if changed then upd_func f (\<lambda>fn. fn\<lparr>f_fact_changed := True\<rparr>) p else Some p);
       fm \<leftarrow> get_fact_mgr p (Some f);
       fm \<leftarrow> set_fact_out p (StmRef i) inputs fm;
       Some (inputs, set_fact_mgr (Some f) fm p)
     }"

text \<open>\<open>update_fact_for_assign\<close> of a statement.\<close>

definition update_fact_for_stm_assign :: "program \<Rightarrow> Assign \<Rightarrow> Fact list \<Rightarrow> (Fact list \<times> program) option" where
  "update_fact_for_stm_assign p a inputs =
     do {
       l \<leftarrow> (case sa_lhs a of Lhs _ x t _ \<Rightarrow> Some (x, t) | _ \<Rightarrow> None);
       (changed, inputs) \<leftarrow> update_fact_for_assign p (p_meta p) l (Some (sa_rhs a)) inputs;
       p \<leftarrow> (if changed
            then do {
              s \<leftarrow> vec_get (p_stms p) (sa_stm a);
              f \<leftarrow> s_func s;
              upd_func f (\<lambda>fn. fn\<lparr>f_fact_changed := True\<rparr>) p
            }
            else Some p);
       Some (inputs, p)
     }"

definition add_back_return_facts :: "program \<Rightarrow> stm_ref \<Rightarrow> FactMgr \<Rightarrow> Fact list \<Rightarrow> Fact list option" where
  "add_back_return_facts p r fm facts =
     do {
       rs \<leftarrow> find_typed_stmts p r [eReturn];
       Some (foldl (\<lambda>facts r. snd (merge_facts facts (facts_at (fm_facts_out fm) r))) facts rs)
     }"

definition combine_branch_facts ::
    "program \<Rightarrow> nat \<Rightarrow> nat \<Rightarrow> Fact list \<Rightarrow> FactMgr \<Rightarrow> (Fact list \<times> FactMgr) option" where
  "combine_branch_facts p if_true if_false pre_facts fm =
     do {
       let t_out = facts_at (fm_facts_out fm) (BlockRef if_true);
       let f_out = facts_at (fm_facts_out fm) (BlockRef if_false);
       pre \<leftarrow> makeup_new_var_facts p pre_facts t_out;
       pre \<leftarrow> makeup_new_var_facts p pre f_out;
       tr \<leftarrow> must_return p if_true;
       fr \<leftarrow> must_return p if_false;
       out \<leftarrow> (if tr \<and> fr then Some pre
              else if tr then Some f_out
              else if fr then makeup_new_var_facts p t_out (facts_at (fm_facts_in fm) (BlockRef if_false))
              else Some (snd (merge_facts t_out f_out)));
       Some (pre, fm\<lparr>fm_global_facts := out\<rparr>)
     }"

text \<open>Is some jump out of the statement, or into it, not yet accounted for?\<close>

definition unfixed_goto :: "program \<Rightarrow> stm_ref \<Rightarrow> FactMgr \<Rightarrow> CFGEdge \<Rightarrow> bool option" where
  "unfixed_goto p r fm e =
     do {
       t \<leftarrow> stm_type p (edge_src e);
       if t \<noteq> eGoto then Some False
       else do {
         s_in \<leftarrow> contains_stmt p r (edge_src e);
         d_in \<leftarrow> contains_stmt p r (edge_dest e);
         if s_in \<and> \<not> fm_visited fm (edge_src e) \<and> \<not> d_in then Some True
         else if fm_visited fm (edge_src e) \<and> d_in
         then do {
           let out = facts_at (fm_facts_out fm) (edge_src e);
           let ins = facts_at (fm_facts_in fm) (edge_dest e);
           if out \<noteq> [] \<and> ins = [] then Some True
           else any_opt (\<lambda>f. do {
               rv \<leftarrow> is_rv (p_vars p) (get_var f);
               Some (\<not> rv \<and> (case find_related_fact out f of None \<Rightarrow> False | Some g \<Rightarrow> \<not> fact_imply f g))
             }) ins
         }
         else Some False
       }
     }"

definition contains_unfixed_goto :: "program \<Rightarrow> stm_ref \<Rightarrow> bool option" where
  "contains_unfixed_goto p r =
     do { fm \<leftarrow> stm_fm p r; any_opt (unfixed_goto p r fm) (fm_cfg_edges fm) }"

text \<open>The effects of a block and of a statement that contains blocks.\<close>

definition block_effect :: "program \<Rightarrow> nat \<Rightarrow> FactMgr \<Rightarrow> Effect option" where
  "block_effect p b fm =
     do {
       blk \<leftarrow> vec_get (p_blocks p) b;
       fold_opt (\<lambda>i eff. add_effect (p_vars p) False (fm_stm_effect fm (StmRef i)) False eff) (b_stms blk) empty_effect
     }"

definition set_stm_effect :: "stm_ref \<Rightarrow> Effect \<Rightarrow> FactMgr \<Rightarrow> FactMgr" where
  "set_stm_effect r e fm = fm\<lparr>fm_stm_effect := (fm_stm_effect fm)(r := Effect_assign (fm_stm_effect fm r) e)\<rparr>"

definition set_accum_effect :: "stm_ref \<Rightarrow> Effect \<Rightarrow> FactMgr \<Rightarrow> FactMgr" where
  "set_accum_effect r e fm = fm\<lparr>fm_accum_effect := (fm_accum_effect fm)(r := Effect_assign (fm_accum_effect fm r) e)\<rparr>"

definition set_accumulated_effect :: "program \<Rightarrow> nat \<Rightarrow> FactMgr \<Rightarrow> FactMgr option" where
  "set_accumulated_effect p b fm = map_option (\<lambda>e. set_stm_effect (BlockRef b) e fm) (block_effect p b fm)"

definition set_accumulated_effect_after_block ::
    "program \<Rightarrow> stm_ref \<Rightarrow> Effect \<Rightarrow> nat \<Rightarrow> FactMgr \<Rightarrow> (Effect \<times> FactMgr) option" where
  "set_accumulated_effect_after_block p r eff b fm =
     do {
       eff \<leftarrow> add_effect (p_vars p) False (fm_stm_effect fm (BlockRef b)) False eff;
       Some (eff, set_stm_effect r eff fm)
     }"

section \<open>Scope exit\<close>

text \<open>A variable that is no aggregate and no field.\<close>

definition scalar_var :: "'e vars \<Rightarrow> nat \<Rightarrow> bool" where
  "scalar_var vs u \<longleftrightarrow> u < length vs \<and> v_field_var_of (vs ! u) = None \<and>
     (\<exists>t. v_type (vs ! u) = Some t \<and> \<not> is_aggregate t)"

lemma scalar_match:
  assumes "scalar_var vs u"
  shows "var_match vs u x = Some b \<Longrightarrow> b = (u = x)" "var_match vs x u = Some b \<Longrightarrow> b = (x = u)"
    "find_field_variable_in_set vs xs u = Some (- 1)"
  using assms
  by (auto simp: scalar_var_def var_match_def has_field_var_def inside_of.simps [of vs x u] container_of_def
      type_of_def var_is_aggregate_def find_field_variable_in_set.simps [of vs xs u] bind_eq_Some_conv
      split: option.splits if_splits)

lemma remove_facts_scalar:
  assumes "scalar_var vs u" "remove_facts_of vs u facts = Some out"
  shows "out = filter (\<lambda>f. get_var f \<noteq> u) facts"
proof -
  have "fold_opt (\<lambda>f out. do { m \<leftarrow> var_match vs u (get_var f); Some (if m then out else out @ [f]) }) facts acc =
      Some out \<Longrightarrow> out = acc @ filter (\<lambda>f. get_var f \<noteq> u) facts" for acc
  proof (induction facts arbitrary: acc)
    case (Cons f facts)
    from Cons.prems obtain b where b: "var_match vs u (get_var f) = Some b" by (auto simp: bind_eq_Some_conv)
    from scalar_match(1) [OF assms(1) b] b Cons.prems Cons.IH [of "if b then acc else acc @ [f]"]
    show ?case by (cases b) auto
  qed simp
  from this [of "[]"] assms(2) show ?thesis by (simp add: remove_facts_of_def)
qed

lemma remove_facts_scalars:
  assumes "\<forall>u \<in> set vars. scalar_var vs u" "fold_opt (remove_facts_of vs) vars facts = Some out"
  shows "out = filter (\<lambda>f. get_var f \<notin> set vars) facts"
  using assms
proof (induction vars arbitrary: facts)
  case (Cons u vars)
  from Cons.prems obtain mid where m: "remove_facts_of vs u facts = Some mid"
    "fold_opt (remove_facts_of vs) vars mid = Some out" by (auto simp: bind_eq_Some_conv)
  have "scalar_var vs u" using Cons.prems(1) by simp
  from Cons.IH [OF _ m(2)] Cons.prems(1) remove_facts_scalar [OF this m(1)]
  show ?case by (auto intro: filter_cong)
qed simp

text \<open>The points-to sets after the variables \<open>V\<close> died.\<close>

definition killed :: "nat set \<Rightarrow> Fact \<Rightarrow> Fact \<Rightarrow> bool" where
  "killed V f g \<longleftrightarrow> is_FactPointTo f = is_FactPointTo g \<and> get_var g = get_var f \<and>
     (if is_FactPointTo f
      then set (point_to_vars g) = set (point_to_vars f) - V \<union> (if set (point_to_vars f) \<inter> V = {} then {} else {garbage_ptr})
      else g = f)"

lemma killed_trans:
  assumes "killed U f g" "killed V g h" "garbage_ptr \<notin> V"
  shows "killed (U \<union> V) f h"
proof (cases "is_FactPointTo f")
  case True
  let ?f = "set (point_to_vars f)" and ?g = "set (point_to_vars g)" and ?h = "set (point_to_vars h)"
  from assms(1,2) True have e: "?g = ?f - U \<union> (if ?f \<inter> U = {} then {} else {garbage_ptr})"
    "?h = ?g - V \<union> (if ?g \<inter> V = {} then {} else {garbage_ptr})"
    "is_FactPointTo h" "get_var h = get_var f" by (simp_all add: killed_def)
  have "?h = ?f - (U \<union> V) \<union> (if ?f \<inter> (U \<union> V) = {} then {} else {garbage_ptr})"
    unfolding e(2) unfolding e(1) using assms(3) by (auto split: if_splits)
  with True e(3,4) show ?thesis by (simp add: killed_def)
qed (use assms in \<open>simp add: killed_def\<close>)

lemma find_scalar:
  assumes "scalar_var vs u" "find_variable_in_set vs xs u = Some pos"
  shows "if u \<in> set xs then 0 \<le> pos \<and> nat pos < length xs \<and> xs ! nat pos = u else pos = - 1"
proof -
  have "find_variable_from vs xs u i = Some pos \<Longrightarrow>
      (if u \<in> set xs then i \<le> pos \<and> nat (pos - i) < length xs \<and> xs ! nat (pos - i) = u else pos = - 1)" for i
  proof (induction xs arbitrary: i)
    case (Cons x xs)
    then obtain b where b: "var_match vs x u = Some b" by (auto simp: bind_eq_Some_conv)
    note eq = scalar_match(2) [OF assms(1) this]
    show ?case
    proof (cases "x = u")
      case False
      with Cons.prems b eq have "find_variable_from vs xs u (i + 1) = Some pos" by simp
      moreover have "nat (pos - i) = Suc (nat (pos - (i + 1)))" if "i + 1 \<le> pos" using that by linarith
      ultimately show ?thesis using Cons.IH [of "i + 1"] False by (auto split: if_splits)
    qed (use Cons.prems b eq in auto)
  qed simp
  from this [of 0] assms(2) show ?thesis by (cases "u \<in> set xs") (simp_all add: find_variable_in_set_def)
qed

lemma erase_at_set:
  assumes "distinct xs" "i < length xs"
  shows "set (erase_at i xs) = set xs - {xs ! i}" "distinct (erase_at i xs)"
proof -
  have x: "xs = take i xs @ xs ! i # drop (Suc i) xs" using assms(2) by (rule id_take_nth_drop)
  then have d: "distinct (take i xs @ xs ! i # drop (Suc i) xs)" using assms(1) by simp
  then show "distinct (erase_at i xs)" by (simp add: erase_at_def)
  have "set xs = set (take i xs) \<union> {xs ! i} \<union> set (drop (Suc i) xs)"
    by (subst x) (simp only: set_append list.set(2), blast)
  with d show "set (erase_at i xs) = set xs - {xs ! i}" by (auto simp: erase_at_def)
qed

lemma mark_dead_scalar:
  assumes u: "scalar_var vs u" and g: "vec_get vs garbage_ptr = Some v" "v_type v = None"
    and f: "is_FactPointTo f" "distinct (point_to_vars f)" "\<forall>x \<in> set (point_to_vars f). x < length vs"
    and m: "mark_dead_var vs u f = Some r"
  shows "killed {u} f (case r of None \<Rightarrow> f | Some f' \<Rightarrow> f')" "fact_ok (case r of None \<Rightarrow> f | Some f' \<Rightarrow> f')"
proof -
  let ?xs = "point_to_vars f"
  from m obtain p1 where p1: "find_variable_in_set vs ?xs u = Some p1"
    by (auto simp: mark_dead_var_def Let_def bind_eq_Some_conv)
  have ug: "u \<noteq> garbage_ptr" using u g by (auto simp: scalar_var_def)
  obtain w ys where fw: "f = FactPointTo w ys" using f(1) by (cases f) auto
  show "killed {u} f (case r of None \<Rightarrow> f | Some f' \<Rightarrow> f')" "fact_ok (case r of None \<Rightarrow> f | Some f' \<Rightarrow> f')"
  proof (atomize (full), cases "u \<in> set ?xs")
    case False
    with find_scalar [OF u p1] m p1 scalar_match(3) [OF u] have "r = None"
      by (auto simp: mark_dead_var_def Let_def bind_eq_Some_conv)
    with False f(2) show "killed {u} f (case r of None \<Rightarrow> f | Some f' \<Rightarrow> f') \<and>
        fact_ok (case r of None \<Rightarrow> f | Some f' \<Rightarrow> f')"
      by (auto simp: killed_def fact_ok_def fw)
  next
    case True
    with find_scalar [OF u p1] have pos: "0 \<le> p1" "nat p1 < length ?xs" "?xs ! nat p1 = u" by simp_all
    from find_untyped [OF g f(3)] obtain q where q: "find_variable_in_set vs ?xs garbage_ptr = Some q"
      "q \<ge> 0 \<longleftrightarrow> garbage_ptr \<in> set ?xs" by blast
    from m p1 q(1) pos(1) have r: "r = Some (FactPointTo (get_var f)
        (if q \<ge> 0 then erase_at (nat p1) ?xs else ?xs[nat p1 := garbage_ptr]))"
      by (auto simp: mark_dead_var_def Let_def bind_eq_Some_conv)
    let ?ys = "if q \<ge> 0 then erase_at (nat p1) ?xs else ?xs[nat p1 := garbage_ptr]"
    have "set ?ys = set ?xs - {u} \<union> {garbage_ptr} \<and> distinct ?ys"
    proof (cases "q \<ge> 0")
      case True
      with q(2) ug have "garbage_ptr \<in> set ?xs - {u}" by simp
      with True erase_at_set [OF f(2) pos(2)] pos(3) show ?thesis by (simp add: insert_absorb)
    next
      case False
      with q(2) f(2) have "distinct (?xs[nat p1 := garbage_ptr])" by (intro distinct_list_update) auto
      with False set_update_distinct [OF f(2) pos(2)] pos(3) show ?thesis by simp
    qed
    with True f(1) show "killed {u} f (case r of None \<Rightarrow> f | Some f' \<Rightarrow> f') \<and>
        fact_ok (case r of None \<Rightarrow> f | Some f' \<Rightarrow> f')"
      by (simp add: r killed_def fact_ok_def)
  qed
qed

definition facts_in_store :: "'e vars \<Rightarrow> Fact list \<Rightarrow> bool" where
  "facts_in_store vs facts \<longleftrightarrow>
     (\<forall>f \<in> set facts. fact_ok f \<and> (is_FactPointTo f \<longrightarrow> (\<forall>x \<in> set (point_to_vars f). x < length vs)))"

lemma mark_dead_in_killed:
  assumes "scalar_var vs u" "vec_get vs garbage_ptr = Some v" "v_type v = None"
  shows "mark_dead_in vs u facts = Some out \<Longrightarrow> facts_in_store vs facts \<Longrightarrow>
    list_all2 (killed {u}) facts out \<and> facts_in_store vs out"
proof (induction facts arbitrary: out)
  case (Cons f facts)
  let ?mark = "\<lambda>f. if is_FactPointTo f
        then map_option (\<lambda>g. case g of None \<Rightarrow> f | Some f' \<Rightarrow> f') (mark_dead_var vs u f)
        else Some f"
  from Cons.prems(1) obtain g gs where g: "?mark f = Some g" "mark_dead_in vs u facts = Some gs" "out = g # gs"
    by (auto simp: mark_dead_in_def bind_eq_Some_conv)
  from Cons.prems(2) have s: "facts_in_store vs facts" and f: "fact_ok f"
    "is_FactPointTo f \<Longrightarrow> \<forall>x \<in> set (point_to_vars f). x < length vs"
    by (simp_all add: facts_in_store_def)
  have gl: "garbage_ptr < length vs" using assms(2) by simp
  have "killed {u} f g \<and> facts_in_store vs [g]"
  proof (cases "is_FactPointTo f")
    case True
    then have "distinct (point_to_vars f)" using f(1) by (cases f) (auto simp: fact_ok_def)
    moreover from g(1) True obtain r where r: "mark_dead_var vs u f = Some r"
      "g = (case r of None \<Rightarrow> f | Some f' \<Rightarrow> f')" by auto
    ultimately have k: "killed {u} f g" "fact_ok g"
      using mark_dead_scalar [OF assms True _ f(2) [OF True] r(1)] by simp_all
    then have "set (point_to_vars g) \<subseteq> insert garbage_ptr (set (point_to_vars f))"
      using True by (auto simp: killed_def split: if_splits)
    with k f(2) [OF True] gl show ?thesis by (auto simp: facts_in_store_def)
  next
    case False
    with g(1) f(1) show ?thesis by (simp add: killed_def facts_in_store_def)
  qed
  with Cons.IH [OF g(2) s] show ?case by (simp add: g(3) facts_in_store_def)
qed (simp add: mark_dead_in_def facts_in_store_def)

lemma mark_dead_scalars:
  assumes "vec_get vs garbage_ptr = Some v" "v_type v = None"
  shows "\<forall>u \<in> set vars. scalar_var vs u \<Longrightarrow> fold_opt (mark_dead_in vs) vars facts = Some out \<Longrightarrow>
    facts_in_store vs facts \<Longrightarrow> list_all2 (killed (set vars)) facts out"
proof (induction vars arbitrary: facts)
  case Nil
  then show ?case by (auto simp: list_all2_same killed_def)
next
  case (Cons u vars)
  from Cons.prems obtain mid where m: "mark_dead_in vs u facts = Some mid"
    "fold_opt (mark_dead_in vs) vars mid = Some out" by (auto simp: bind_eq_Some_conv)
  have u: "scalar_var vs u" using Cons.prems(1) by simp
  note k = mark_dead_in_killed [OF u assms m(1) Cons.prems(3)]
  have "garbage_ptr \<notin> set vars" using Cons.prems(1) assms by (auto simp: scalar_var_def)
  then have "killed {u} f g \<Longrightarrow> killed (set vars) g h \<Longrightarrow> killed (set (u # vars)) f h" for f g h
    using killed_trans [of "{u}" f g "set vars" h] by simp
  with k Cons.IH [OF _ m(2)] Cons.prems(1) show ?case
    by (auto intro: list_all2_trans [of "killed {u}" "killed (set vars)"])
qed

lemma points_killed:
  "list_all2 (killed V) facts out \<Longrightarrow>
     points out v = points facts v - V \<union> (if points facts v \<inter> V = {} then {} else {garbage_ptr})"
  by (induction facts out rule: list_all2_induct) (auto simp: killed_def split: if_splits)

lemma points_filter: "v \<notin> V \<Longrightarrow> points (filter (\<lambda>f. get_var f \<notin> V) facts) v = points facts v"
  by (induction facts) auto

lemma scope_exit:
  assumes o: "update_facts_for_oos_vars vs vars facts = Some out" and s: "facts_in_store vs facts"
    and u: "\<forall>u \<in> set vars. scalar_var vs u"
    and g: "vec_get vs garbage_ptr = Some v" "v_type v = None"
    and d: "describes vs own m facts"
  shows "describes vs (\<lambda>c. if own c \<in> set vars then garbage_ptr else own c) m out \<and>
    (\<forall>f \<in> set out. get_var f \<notin> set vars \<and> (is_FactPointTo f \<longrightarrow> set (point_to_vars f) \<inter> set vars = {}))"
proof -
  from o obtain mid where m: "fold_opt (remove_facts_of vs) vars facts = Some mid"
    "fold_opt (mark_dead_in vs) vars mid = Some out" by (auto simp: update_facts_for_oos_vars_def bind_eq_Some_conv)
  note mid = remove_facts_scalars [OF u m(1)]
  have "facts_in_store vs mid" using s by (auto simp: mid facts_in_store_def)
  note k = mark_dead_scalars [OF g u m(2) this]
  have ng: "garbage_ptr \<notin> set vars" using u g by (auto simp: scalar_var_def)
  let ?own = "\<lambda>c. if own c \<in> set vars then garbage_ptr else own c"
  have "?own (m c) \<in> points out (?own c)" if c: "pointer_var vs (?own c)" for c
  proof -
    have n: "own c \<notin> set vars" using c by (auto simp: pointer_var_def is_special_ptr_def garbage_ptr_def)
    with c d have "own (m c) \<in> points facts (own c)" by (simp add: describes_def)
    then show ?thesis using n points_killed [OF k] points_filter [OF n, of facts] by (auto simp: mid)
  qed
  moreover have "get_var g \<notin> set vars \<and> (is_FactPointTo g \<longrightarrow> set (point_to_vars g) \<inter> set vars = {})"
    if "g \<in> set out" for g
  proof -
    from that obtain i where i: "i < length out" "g = out ! i" by (auto simp: in_set_conv_nth)
    with list_all2_lengthD [OF k] list_all2_nthD2 [OF k] have f: "mid ! i \<in> set mid" "killed (set vars) (mid ! i) g"
      by auto
    from f(1) have "get_var (mid ! i) \<notin> set vars" by (simp add: mid)
    with f(2) ng show ?thesis by (cases "is_FactPointTo g") (auto simp: killed_def)
  qed
  ultimately show ?thesis by (auto simp: describes_def)
qed

section \<open>Properties\<close>

text \<open>
  C0: leaving a scope is sound: if the facts describe the memory, the facts that
  \<open>update_facts_for_oos_vars\<close> leaves describe the memory in which the cells of the dead (scalar)
  variables are dangling, and neither speak of a dead variable nor let a pointer point to one.
\<close>

theorem scope_exit_sound:
  assumes "update_facts_for_oos_vars vs vars facts = Some out" and "facts_in_store vs facts"
    and "\<forall>u \<in> set vars. scalar_var vs u" and "vec_get vs garbage_ptr = Some v" "v_type v = None"
    and "describes vs own m facts"
  shows "describes vs (\<lambda>c. if own c \<in> set vars then garbage_ptr else own c) m out \<and>
    (\<forall>f \<in> set out. get_var f \<notin> set vars \<and> (is_FactPointTo f \<longrightarrow> set (point_to_vars f) \<inter> set vars = {}))"
  using assms by (rule scope_exit)

text \<open>The block of the local integer \<open>g_3\<close> ends while \<open>g_4\<close> points to it.\<close>

theorem scope_exit_sound_witness:
  "describes pointer_store (\<lambda>c. if c = 3 then garbage_ptr else c) (\<lambda>c. if c = 5 then 4 else 3)
     [FactPointTo 4 [1], FactPointTo 5 [4]]"
proof -
  have special: "v < 3 \<Longrightarrow> \<not> pointer_var pointer_store v" for v
    by (auto simp: pointer_var_def is_special_ptr_def null_ptr_def garbage_ptr_def tbd_ptr_def)
  have "type_of pointer_store v = None" if "6 \<le> v" for v
    using that by (simp add: type_of_def vec_get_def pointer_store_def)
  then have beyond: "6 \<le> v \<Longrightarrow> \<not> pointer_var pointer_store v" for v by (simp add: pointer_var_def)
  have "map_option eType (type_of pointer_store 3) = Some eSimple" by code_simp
  then have p3: "\<not> pointer_var pointer_store 3" by (auto simp: pointer_var_def)
  let ?m = "\<lambda>c :: nat. if c = 5 then 4 else (3 :: nat)" and ?facts = "[FactPointTo 4 [3], FactPointTo 5 [4]]"
  have d: "describes pointer_store (\<lambda>c. c) ?m ?facts"
    unfolding describes_def
  proof (intro allI impI)
    fix c assume c: "pointer_var pointer_store c"
    then have "\<not> c < 3" "\<not> 6 \<le> c" "c \<noteq> 3" using special [of c] beyond [of c] p3 by auto
    then have "c = 4 \<or> c = 5" by linarith
    then show "?m c \<in> points ?facts c" by auto
  qed
  have o: "update_facts_for_oos_vars pointer_store [3] ?facts = Some [FactPointTo 4 [1], FactPointTo 5 [4]]"
    and s: "facts_in_store pointer_store ?facts" by code_simp+
  have u: "\<forall>u \<in> set [3]. scalar_var pointer_store u"
    by (simp add: scalar_var_def pointer_store_def store_var_def int_type_def Type_simple_def plain_info_def
        is_aggregate_def)
  have g: "vec_get pointer_store garbage_ptr = Some (pointer_store ! 1)" "v_type (pointer_store ! 1) = None"
    by (simp_all add: vec_get_def pointer_store_def store_var_def garbage_ptr_def)
  show ?thesis using scope_exit_sound [OF o s u g d] by simp
qed

end
