(* ===== verification/Context.thy ===== *)
theory Context
  imports FactManager
begin

text \<open>
  The context in which a statement or an expression is generated and analysed: classes \<open>CGContext\<close> and
  \<open>RWDirective\<close> (\<open>CGContext.h\<close>, \<open>CGContext.cpp\<close>).  It decides whether a variable may be read or written
  at this point, given the effects it must not conflict with (\<open>effect_context\<close>), and it collects the
  effects of what has been accepted (\<open>effect_accum\<close>, \<open>effect_stm\<close>).

  \<open>effect_context\<close> is a reference to a constant and \<open>effect_accum\<close> a pointer that may be null; both are
  held here by value.  The visit of the index expressions of an array is the analysis of
  \<open>ExprAnalysis\<close>; the operations that need it take it as their parameter \<open>visit\<close>.
\<close>

section \<open>Contexts\<close>

record RWDirective =
  no_read_vars :: "nat list"
  no_write_vars :: "nat list"
  must_read_vars :: "nat list"
  must_write_vars :: "nat list"

record CGContext =
  cg_func :: "nat option"
  cg_blk_depth :: int
  cg_expr_depth :: int
  cg_flags :: "32 word"
  cg_call_chain :: "nat list"
  cg_curr_blk :: "nat option"
  cg_rw :: "RWDirective option"
  cg_iv_bounds :: "(nat \<times> 32 word) list"
  cg_curr_rhs :: "Expression option"
  cg_effect_context :: Effect
  cg_effect_accum :: "Effect option"
  cg_effect_stm :: Effect

definition NO_RETURN :: "32 word" where "NO_RETURN = 1"
definition IN_LOOP :: "32 word" where "IN_LOOP = 2"
definition NO_DANGLING_PTR :: "32 word" where "NO_DANGLING_PTR = 8"
definition INVISIBLE :: int where "INVISIBLE = 9999"
definition INACTIVE :: int where "INACTIVE = 8888"

definition has_flag :: "32 word \<Rightarrow> CGContext \<Rightarrow> bool" where
  "has_flag f ctx \<longleftrightarrow> cg_flags ctx AND f \<noteq> 0"

text \<open>The stack of the current function has its innermost block at the end.\<close>

definition get_current_block :: "program \<Rightarrow> CGContext \<Rightarrow> nat option option" where
  "get_current_block p ctx = (case cg_func ctx of
       None \<Rightarrow> Some None
     | Some f \<Rightarrow> do {
         fn \<leftarrow> vec_get (p_funcs p) f;
         Some (if f_stack fn = [] then None else Some (last (f_stack fn)))
       })"

definition extend_call_chain :: "program \<Rightarrow> CGContext \<Rightarrow> CGContext \<Rightarrow> CGContext option" where
  "extend_call_chain p cgc this =
     do {
       cur \<leftarrow> get_current_block p cgc;
       let b = (if cur = None then cg_curr_blk cgc else cur);
       Some (this\<lparr>cg_call_chain := cg_call_chain cgc @ (case b of None \<Rightarrow> [] | Some b \<Rightarrow> [b])\<rparr>)
     }"

text \<open>The four constructors: on entering a function, for a parameter, for a callee, for a loop body.\<close>

definition CGContext_of_func :: "nat option \<Rightarrow> Effect \<Rightarrow> Effect option \<Rightarrow> CGContext" where
  "CGContext_of_func f eff_context eff_accum = \<lparr>cg_func = f, cg_blk_depth = 0, cg_expr_depth = 0,
     cg_flags = 0, cg_call_chain = [], cg_curr_blk = None, cg_rw = None, cg_iv_bounds = [],
     cg_curr_rhs = None, cg_effect_context = eff_context, cg_effect_accum = eff_accum,
     cg_effect_stm = empty_effect\<rparr>"

definition CGContext_param :: "CGContext \<Rightarrow> Effect \<Rightarrow> Effect option \<Rightarrow> CGContext" where
  "CGContext_param cgc eff_context eff_accum = cgc\<lparr>cg_curr_rhs := None, cg_effect_context := eff_context,
     cg_effect_accum := eff_accum, cg_effect_stm := empty_effect\<rparr>"

definition CGContext_callee ::
    "program \<Rightarrow> CGContext \<Rightarrow> nat \<Rightarrow> Effect \<Rightarrow> Effect option \<Rightarrow> CGContext option" where
  "CGContext_callee p cgc f eff_context eff_accum =
     extend_call_chain p cgc (cgc\<lparr>cg_func := Some f, cg_blk_depth := 0, cg_expr_depth := 0,
       cg_curr_rhs := None, cg_effect_context := eff_context, cg_effect_accum := eff_accum,
       cg_effect_stm := empty_effect\<rparr>)"

definition CGContext_loop ::
    "CGContext \<Rightarrow> RWDirective option \<Rightarrow> nat option \<Rightarrow> 32 word \<Rightarrow> CGContext" where
  "CGContext_loop cgc rwd iv bnd = cgc\<lparr>cg_expr_depth := 0, cg_flags := cg_flags cgc OR IN_LOOP,
     cg_rw := rwd, cg_curr_rhs := None, cg_effect_stm := empty_effect,
     cg_iv_bounds := (case iv of None \<Rightarrow> cg_iv_bounds cgc | Some v \<Rightarrow> map_put v bnd (cg_iv_bounds cgc))\<rparr>"

definition get_accum_effect :: "CGContext \<Rightarrow> Effect" where
  "get_accum_effect ctx = (case cg_effect_accum ctx of None \<Rightarrow> empty_effect | Some e \<Rightarrow> Effect_copy e)"

definition reset_effect_accum :: "Effect \<Rightarrow> CGContext \<Rightarrow> CGContext" where
  "reset_effect_accum e ctx = ctx\<lparr>cg_effect_accum := map_option (\<lambda>a. Effect_assign a e) (cg_effect_accum ctx)\<rparr>"

definition reset_effect_stm :: "Effect \<Rightarrow> CGContext \<Rightarrow> CGContext" where
  "reset_effect_stm e ctx = ctx\<lparr>cg_effect_stm := Effect_assign (cg_effect_stm ctx) e\<rparr>"

text \<open>An update of \<open>effect_accum\<close>, when there is one, and of \<open>effect_stm\<close>.\<close>

definition upd_effects ::
    "(Effect \<Rightarrow> Effect option) \<Rightarrow> (Effect \<Rightarrow> Effect option) \<Rightarrow> CGContext \<Rightarrow> CGContext option" where
  "upd_effects f g ctx =
     do {
       a \<leftarrow> (case cg_effect_accum ctx of None \<Rightarrow> Some None | Some e \<Rightarrow> map_option Some (f e));
       s \<leftarrow> g (cg_effect_stm ctx);
       Some (ctx\<lparr>cg_effect_accum := a, cg_effect_stm := s\<rparr>)
     }"

section \<open>What may be accessed\<close>

definition is_nonreadable :: "program \<Rightarrow> CGContext \<Rightarrow> nat \<Rightarrow> bool option" where
  "is_nonreadable p ctx v = (case cg_rw ctx of
       None \<Rightarrow> Some False
     | Some rw \<Rightarrow> any_opt (\<lambda>x. var_match (p_vars p) x v) (no_read_vars rw))"

text \<open>The directive, then the induction variables of the loops around this point.\<close>

definition is_nonwritable :: "program \<Rightarrow> CGContext \<Rightarrow> nat \<Rightarrow> bool option" where
  "is_nonwritable p ctx v =
     do {
       a \<leftarrow> (case cg_rw ctx of
             None \<Rightarrow> Some False
           | Some rw \<Rightarrow> any_opt (\<lambda>x. do {
                 b \<leftarrow> loose_match (p_vars p) x v;
                 if b then Some True else loose_match (p_vars p) v x
               }) (no_write_vars rw));
       if a then Some True
       else any_opt (\<lambda>(iv, bnd). loose_match (p_vars p) v iv) (cg_iv_bounds ctx)
     }"

definition allow_volatile :: "CGContext \<Rightarrow> bool" where
  "allow_volatile ctx = side_effect_free (cg_effect_context ctx)"

datatype Access = READ | WRITE

definition allow_const :: "Access \<Rightarrow> bool" where
  "allow_const access \<longleftrightarrow> access \<noteq> WRITE"

definition accept_type :: "CGContext \<Rightarrow> Type \<Rightarrow> bool option" where
  "accept_type ctx t =
     (if side_effect_free (cg_effect_context ctx) then Some True
      else map_option Not (is_volatile_struct_union t))"

definition check_deref_volatile :: "program \<Rightarrow> nat \<Rightarrow> int \<Rightarrow> CGContext \<Rightarrow> (bool \<times> CGContext) option" where
  "check_deref_volatile p v deref_level ctx =
     (if \<not> opt_strict_volatile_rule (p_opts p) then Some (True, ctx)
      else do {
        bad \<leftarrow> (if side_effect_free (cg_effect_context ctx) then Some False
               else volatile_level_below (p_vars p) v (nat deref_level));
        if bad then Some (False, ctx)
        else do {
          let f = access_deref_volatile (p_opts p) (p_vars p) v deref_level;
          ctx \<leftarrow> upd_effects f f ctx;
          Some (True, ctx)
        }
      })"

section \<open>Accesses\<close>

text \<open>\<open>read_var\<close> and \<open>write_var\<close> assert what \<open>check_read_var\<close> and \<open>check_write_var\<close> have tested.\<close>

definition cg_read_var :: "program \<Rightarrow> nat \<Rightarrow> CGContext \<Rightarrow> CGContext option" where
  "cg_read_var p v ctx =
     do {
       v \<leftarrow> get_collective (p_vars p) v;
       bad \<leftarrow> is_nonreadable p ctx v;
       assert_opt (\<not> bad);
       upd_effects (read_var (p_vars p) v) (read_var (p_vars p) v) ctx
     }"

definition cg_write_var :: "program \<Rightarrow> nat \<Rightarrow> CGContext \<Rightarrow> CGContext option" where
  "cg_write_var p v ctx =
     do {
       v \<leftarrow> get_collective (p_vars p) v;
       bad \<leftarrow> is_nonwritable p ctx v;
       assert_opt (\<not> bad);
       upd_effects (write_var (p_vars p) v) (write_var (p_vars p) v) ctx
     }"

text \<open>A sequence of tests, the first that is true decides.\<close>

fun first_true :: "bool option list \<Rightarrow> bool option" where
  "first_true [] = Some False"
| "first_true (b # bs) = do { x \<leftarrow> b; if x then Some True else first_true bs }"

definition volatile_barred :: "program \<Rightarrow> CGContext \<Rightarrow> nat \<Rightarrow> bool option" where
  "volatile_barred p ctx v =
     map_option (\<lambda>vol. vol \<and> \<not> side_effect_free (cg_effect_context ctx)) (var_is_volatile (p_vars p) v)"

definition dangling_barred :: "program \<Rightarrow> nat \<Rightarrow> Fact list \<Rightarrow> bool option" where
  "dangling_barred p v facts =
     do { b \<leftarrow> is_pointer (p_vars p) v; if b then is_dangling_ptr (p_opts p) (p_vars p) v facts else Some False }"

type_synonym visitor =
  "program \<Rightarrow> Fact list \<Rightarrow> CGContext \<Rightarrow> Expression \<Rightarrow> (bool \<times> program \<times> Fact list \<times> CGContext) option"

text \<open>The index expressions of an array member are visited in order, with a copy of the facts.\<close>

fun visit_all ::
    "visitor \<Rightarrow> Expression list \<Rightarrow> program \<Rightarrow> Fact list \<Rightarrow> CGContext \<Rightarrow> (bool \<times> program \<times> CGContext) option" where
  "visit_all visit [] p facts ctx = Some (True, p, ctx)"
| "visit_all visit (e # es) p facts ctx =
     do {
       (ok, p1, facts1, ctx1) \<leftarrow> visit p facts ctx e;
       if ok then visit_all visit es p1 facts1 ctx1 else Some (False, p1, ctx1)
     }"

text \<open>The walk of \<open>read_indices\<close>: the array members whose index expressions are visited, from the variable
  outwards.  A field that is no array itself is looked up in the array above it.\<close>

function indexed_above :: "store \<Rightarrow> nat \<Rightarrow> nat list option" where
  "indexed_above vs v =
     do {
       x \<leftarrow> vec_get vs v;
       if v_isArray x
       then do {
         po \<leftarrow> container_of vs v;
         (case po of None \<Rightarrow> Some [v]
          | Some q \<Rightarrow> do { rest \<leftarrow> indexed_above vs q; Some (v # rest) })
       }
       else do {
         b \<leftarrow> is_array_field vs v;
         if b
         then do {
           po \<leftarrow> container_of vs v;
           q \<leftarrow> po;
           indexed_above vs q
         }
         else Some []
       }
     }"
  by pat_completeness auto
termination by (relation "measure snd") (auto simp: termination_simp)

declare indexed_above.simps [simp del]

fun read_indices_of ::
    "visitor \<Rightarrow> nat list \<Rightarrow> program \<Rightarrow> Fact list \<Rightarrow> CGContext \<Rightarrow> (bool \<times> program \<times> CGContext) option" where
  "read_indices_of visit [] p facts ctx = Some (True, p, ctx)"
| "read_indices_of visit (v # vs) p facts ctx =
     do {
       x \<leftarrow> vec_get (p_vars p) v;
       (ok, p1, ctx1) \<leftarrow> visit_all visit (v_indices x) p facts ctx;
       if ok then read_indices_of visit vs p1 facts ctx1 else Some (False, p1, ctx1)
     }"

definition read_indices ::
    "visitor \<Rightarrow> nat \<Rightarrow> program \<Rightarrow> Fact list \<Rightarrow> CGContext \<Rightarrow> (bool \<times> program \<times> CGContext) option" where
  "read_indices visit v p facts ctx =
     do { vs \<leftarrow> indexed_above (p_vars p) v; read_indices_of visit vs p facts ctx }"

definition check_read_var ::
    "visitor \<Rightarrow> nat \<Rightarrow> program \<Rightarrow> Fact list \<Rightarrow> CGContext \<Rightarrow> (bool \<times> program \<times> CGContext) option" where
  "check_read_var visit v p facts ctx =
     do {
       (ok, p, ctx) \<leftarrow> read_indices visit v p facts ctx;
       if \<not> ok then Some (False, p, ctx)
       else do {
         v \<leftarrow> get_collective (p_vars p) v;
         bad \<leftarrow> first_true [is_nonreadable_field (p_vars p) v facts, is_nonreadable p ctx v,
           is_written_partially (p_vars p) (cg_effect_context ctx) v, volatile_barred p ctx v,
           dangling_barred p v facts];
         if bad then Some (False, p, ctx)
         else do { ctx \<leftarrow> cg_read_var p v ctx; Some (True, p, ctx) }
       }
     }"

definition check_write_var ::
    "visitor \<Rightarrow> nat \<Rightarrow> program \<Rightarrow> Fact list \<Rightarrow> CGContext \<Rightarrow> (bool \<times> program \<times> CGContext) option" where
  "check_write_var visit v p facts ctx =
     do {
       (ok, p, ctx) \<leftarrow> read_indices visit v p facts ctx;
       if \<not> ok then Some (False, p, ctx)
       else do {
         v \<leftarrow> get_collective (p_vars p) v;
         bad \<leftarrow> first_true [is_nonwritable p ctx v, var_is_const (p_vars p) v,
           is_written_partially (p_vars p) (cg_effect_context ctx) v,
           is_read_partially (p_vars p) (cg_effect_context ctx) v, volatile_barred p ctx v,
           if has_flag NO_DANGLING_PTR ctx then dangling_barred p v facts else Some False];
         if bad then Some (False, p, ctx)
         else do { ctx \<leftarrow> cg_write_var p v ctx; Some (True, p, ctx) }
       }
     }"

text \<open>
  \<open>read_pointed\<close> and \<open>write_pointed\<close> follow the pointer level by level.  Every variable it can point at
  must be readable, those of the last level writable when the access is a write.  On failure the
  accumulated effect is the one before; \<open>effect_stm\<close> keeps what was added.  The counter of
  dereferences of the statistics is not modelled.
\<close>

fun check_pointees ::
    "visitor \<Rightarrow> bool \<Rightarrow> nat list \<Rightarrow> program \<Rightarrow> Fact list \<Rightarrow> CGContext \<Rightarrow> (bool \<times> program \<times> CGContext) option" where
  "check_pointees visit wr [] p facts ctx = Some (True, p, ctx)"
| "check_pointees visit wr (v # vs) p facts ctx =
     (if is_special_ptr v then check_pointees visit wr vs p facts ctx
      else do {
        (ok, p, ctx) \<leftarrow> (if wr then check_write_var else check_read_var) visit v p facts ctx;
        if ok then check_pointees visit wr vs p facts ctx else Some (False, p, ctx)
      })"

definition pointees_barred :: "program \<Rightarrow> nat list \<Rightarrow> bool" where
  "pointees_barred p tmp \<longleftrightarrow>
     tmp = [] \<or>
     (\<not> opt_null_pointer_dereference_prob (p_opts p) > 0 \<and> is_variable_in_set tmp null_ptr) \<or>
     (\<not> opt_dead_pointer_dereference_prob (p_opts p) > 0 \<and> is_variable_in_set tmp garbage_ptr)"

fun follow_pointer ::
    "visitor \<Rightarrow> bool \<Rightarrow> nat \<Rightarrow> nat list \<Rightarrow> program \<Rightarrow> Fact list \<Rightarrow> CGContext \<Rightarrow> (bool \<times> program \<times> CGContext) option" where
  "follow_pointer visit wr 0 tmp p facts ctx = Some (True, p, ctx)"
| "follow_pointer visit wr (Suc n) tmp p facts ctx =
     do {
       tmp \<leftarrow> merge_pointees_of_pointers tmp facts;
       if pointees_barred p tmp then Some (False, p, ctx)
       else do {
         (ok, p, ctx) \<leftarrow> check_pointees visit (wr \<and> n = 0) tmp p facts ctx;
         if ok then follow_pointer visit wr n tmp p facts ctx else Some (False, p, ctx)
       }
     }"

definition access_pointed ::
    "visitor \<Rightarrow> bool \<Rightarrow> nat \<Rightarrow> int \<Rightarrow> program \<Rightarrow> Fact list \<Rightarrow> CGContext \<Rightarrow> (bool \<times> program \<times> CGContext) option" where
  "access_pointed visit wr var indirect p facts ctx =
     do {
       old \<leftarrow> cg_effect_accum ctx;
       assert_opt (indirect > 0);
       (ok, p, ctx) \<leftarrow> read_indices visit var p facts ctx;
       if \<not> ok then Some (False, p, ctx)
       else do {
         c \<leftarrow> get_collective (p_vars p) var;
         (ok, p, ctx) \<leftarrow> follow_pointer visit wr (nat indirect) [c] p facts ctx;
         Some (ok, p, if ok then ctx else reset_effect_accum (Effect_copy old) ctx)
       }
     }"

definition read_pointed ::
    "visitor \<Rightarrow> nat \<Rightarrow> Type \<Rightarrow> program \<Rightarrow> Fact list \<Rightarrow> CGContext \<Rightarrow> (bool \<times> program \<times> CGContext) option" where
  "read_pointed visit var type p facts ctx =
     do { i \<leftarrow> indirect_level (p_vars p) var type; access_pointed visit False var i p facts ctx }"

definition write_pointed ::
    "visitor \<Rightarrow> nat \<Rightarrow> Type \<Rightarrow> program \<Rightarrow> Fact list \<Rightarrow> CGContext \<Rightarrow> (bool \<times> program \<times> CGContext) option" where
  "write_pointed visit var type p facts ctx =
     do { i \<leftarrow> indirect_level (p_vars p) var type; access_pointed visit True var i p facts ctx }"

section \<open>Collecting effects\<close>

definition cg_add_effect :: "program \<Rightarrow> Effect \<Rightarrow> bool \<Rightarrow> CGContext \<Rightarrow> CGContext option" where
  "cg_add_effect p e include_lhs_effects ctx =
     upd_effects (add_effect (p_vars p) False e include_lhs_effects) (add_effect (p_vars p) False e False) ctx"

definition merge_param_context :: "program \<Rightarrow> CGContext \<Rightarrow> bool \<Rightarrow> CGContext \<Rightarrow> CGContext option" where
  "merge_param_context p param include_lhs_effects ctx =
     do {
       e \<leftarrow> cg_effect_accum param;
       ctx \<leftarrow> cg_add_effect p e include_lhs_effects ctx;
       Some (ctx\<lparr>cg_expr_depth := cg_expr_depth param\<rparr>)
     }"

definition cg_add_external_effect :: "program \<Rightarrow> Effect \<Rightarrow> CGContext \<Rightarrow> CGContext option" where
  "cg_add_external_effect p e ctx =
     upd_effects (add_external_effect_global (p_vars p) False e) (add_external_effect_global (p_vars p) False e) ctx"

definition add_visible_effect :: "program \<Rightarrow> Effect \<Rightarrow> nat \<Rightarrow> CGContext \<Rightarrow> CGContext option" where
  "add_visible_effect p e b ctx =
     (let f = add_external_effect (p_vars p) (p_funcs p) (p_blocks p) False e (cg_call_chain ctx @ [b])
      in upd_effects f f ctx)"

text \<open>Whether an effect, say of a function that is called, conflicts with this context.\<close>

definition read_conflicts :: "program \<Rightarrow> CGContext \<Rightarrow> nat \<Rightarrow> bool option" where
  "read_conflicts p ctx v = first_true [is_nonreadable p ctx v,
     is_written_partially (p_vars p) (cg_effect_context ctx) v, volatile_barred p ctx v]"

definition write_conflicts :: "program \<Rightarrow> CGContext \<Rightarrow> nat \<Rightarrow> bool option" where
  "write_conflicts p ctx v = first_true [is_nonwritable p ctx v, var_is_const (p_vars p) v,
     is_written_partially (p_vars p) (cg_effect_context ctx) v,
     is_read_partially (p_vars p) (cg_effect_context ctx) v, volatile_barred p ctx v]"

definition in_conflict :: "program \<Rightarrow> CGContext \<Rightarrow> Effect \<Rightarrow> bool option" where
  "in_conflict p ctx eff =
     do {
       b \<leftarrow> any_opt (read_conflicts p ctx) (read_vars eff);
       if b then Some True else any_opt (write_conflicts p ctx) (write_vars eff)
     }"

section \<open>Variables of the callers\<close>

definition is_frame_var :: "program \<Rightarrow> CGContext \<Rightarrow> nat \<Rightarrow> bool option" where
  "is_frame_var p ctx v =
     do {
       bo \<leftarrow> get_current_block p ctx;
       b \<leftarrow> bo;
       any_opt (\<lambda>b. is_visible_local (p_vars p) (p_funcs p) (p_blocks p) (Some b) v) (b # cg_call_chain ctx)
     }"

definition find_reachable_frame_vars ::
    "program \<Rightarrow> CGContext \<Rightarrow> Fact list \<Rightarrow> nat list \<Rightarrow> nat list option" where
  "find_reachable_frame_vars p ctx facts frame_vars =
     fold_opt (\<lambda>f acc.
         if is_FactPointTo f
         then fold_opt (\<lambda>v acc. do { b \<leftarrow> is_frame_var p ctx v; Some (if b then acc @ [v] else acc) })
                (point_to_vars f) acc
         else Some acc) facts frame_vars"

definition external_var :: "program \<Rightarrow> nat list \<Rightarrow> nat \<Rightarrow> bool option" where
  "external_var p frame_vars v =
     do {
       g \<leftarrow> is_global (p_vars p) v;
       if g then Some True else map_option (\<lambda>i. i \<noteq> - 1) (find_variable_in_set (p_vars p) frame_vars v)
     }"

definition keep_external :: "program \<Rightarrow> nat list \<Rightarrow> nat list \<Rightarrow> nat list option" where
  "keep_external p frame_vars vs =
     fold_opt (\<lambda>v acc. do { b \<leftarrow> external_var p frame_vars v; Some (if b then acc @ [v] else acc) }) vs []"

definition get_external_no_reads_writes ::
    "program \<Rightarrow> CGContext \<Rightarrow> nat list \<Rightarrow> (nat list \<times> nat list) option" where
  "get_external_no_reads_writes p ctx frame_vars =
     do {
       rs \<leftarrow> keep_external p frame_vars (case cg_rw ctx of None \<Rightarrow> [] | Some rw \<Rightarrow> no_read_vars rw);
       ws \<leftarrow> keep_external p frame_vars (case cg_rw ctx of None \<Rightarrow> [] | Some rw \<Rightarrow> no_write_vars rw);
       ivs \<leftarrow> keep_external p frame_vars (map fst (cg_iv_bounds ctx));
       Some (rs, ws @ ivs)
     }"

definition find_must_use_arrays :: "store \<Rightarrow> RWDirective \<Rightarrow> nat list option" where
  "find_must_use_arrays vs rw =
     fold_opt (\<lambda>v avs. do {
         x \<leftarrow> vec_get vs v;
         Some (if v_isArray x \<and> \<not> is_variable_in_set avs v then avs @ [v] else avs)
       }) (must_read_vars rw @ must_write_vars rw) []"

section \<open>The scope of a variable\<close>

text \<open>
  The loop over the blocks of a function counts the depth.  The loop over the call chain advances its
  own index \<open>i\<close> once per enclosing block (\<open>steps\<close> is the number of blocks walked), so it does not go
  down: it ends by finding the variable, by reading past the end of the chain, or not at all.
\<close>

function depth_declared :: "store \<Rightarrow> Block list \<Rightarrow> nat \<Rightarrow> nat \<Rightarrow> int \<Rightarrow> (int + int) option" where
  "depth_declared vs bs b var i =
     do {
       blk \<leftarrow> vec_get bs b;
       pos \<leftarrow> find_variable_in_set vs (b_local_vars blk) var;
       if pos \<noteq> - 1 then Some (Inl i)
       else do {
         po \<leftarrow> parent_of bs b;
         (case po of None \<Rightarrow> Some (Inr (i + 1)) | Some q \<Rightarrow> depth_declared vs bs q var (i + 1))
       }
     }"
  by pat_completeness auto
termination by (relation "measure (\<lambda>(vs, bs, b, var, i). b)") (auto simp: termination_simp)

declare depth_declared.simps [simp del]

partial_function (option) chain_scope :: "store \<Rightarrow> Block list \<Rightarrow> nat list \<Rightarrow> nat \<Rightarrow> int \<Rightarrow> int option" where
  "chain_scope vs bs chn var i =
     (if i \<ge> 0
      then (case vec_get chn (nat i) of
          None \<Rightarrow> None
        | Some b \<Rightarrow> (case depth_declared vs bs b var i of
              None \<Rightarrow> None
            | Some (Inl _) \<Rightarrow> Some INVISIBLE
            | Some (Inr j) \<Rightarrow> chain_scope vs bs chn var (j - 1)))
      else Some INACTIVE)"

declare chain_scope.simps [code]

definition find_variable_scope :: "program \<Rightarrow> CGContext \<Rightarrow> nat \<Rightarrow> int option" where
  "find_variable_scope p ctx var =
     do {
       g \<leftarrow> is_global (p_vars p) var;
       if g then Some (- 1)
       else do {
         f \<leftarrow> cg_func ctx;
         fn \<leftarrow> vec_get (p_funcs p) f;
         m \<leftarrow> any_opt (\<lambda>x. var_match (p_vars p) x var) (f_param fn);
         if m then Some 0
         else do {
           bo \<leftarrow> get_current_block p ctx;
           b \<leftarrow> bo;
           d \<leftarrow> depth_declared (p_vars p) (p_blocks p) b var 1;
           (case d of
              Inl i \<Rightarrow> Some i
            | Inr _ \<Rightarrow> chain_scope (p_vars p) (p_blocks p) (cg_call_chain ctx) var
                         (int (length (cg_call_chain ctx)) - 1))
         }
       }
     }"

lemma depth_declared_forward: "depth_declared vs bs b var i = Some (Inr j) \<Longrightarrow> i < j"
proof (induction vs bs b var i rule: depth_declared.induct)
  case (1 vs bs b var i)
  from 1(2) obtain po where po: "parent_of bs b = Some po"
    "(case po of None \<Rightarrow> Some (Inr (i + 1)) | Some q \<Rightarrow> depth_declared vs bs q var (i + 1)) = Some (Inr j :: int + int)"
    "\<exists>blk. vec_get bs b = Some blk \<and> find_variable_in_set vs (b_local_vars blk) var = Some (- 1)"
    by (subst (asm) depth_declared.simps) (auto simp: bind_eq_Some_conv split: if_splits)
  show ?case
  proof (cases po)
    case (Some q)
    with po 1(1) [OF _ _ _ po(1)] have "i + 1 < j" by auto
    then show ?thesis by simp
  qed (use po in simp)
qed

text \<open>With a caller on the chain \<open>find_variable_scope\<close> never answers \<open>INACTIVE\<close>.\<close>

lemma chain_scope_never_inactive:
  assumes "chain_scope vs bs chn var i = Some r" "0 \<le> i"
  shows "r = INVISIBLE"
proof -
  have "0 \<le> i \<longrightarrow> r = INVISIBLE"
    by (rule chain_scope.raw_induct [OF _ assms(1)])
      (auto split: option.splits sum.splits if_splits dest!: depth_declared_forward)
  with assms(2) show ?thesis by simp
qed

section \<open>What the tests exclude\<close>

text \<open>
  The effect context \<open>C\<close> is what runs unsequenced with this point.  A variable is clear of the writes
  of \<open>C\<close> when it overlaps none of them.  Of the reads of \<open>C\<close> the tests see those of a container that is
  reached through structs only, and of any part of the variable: \<open>touches\<close>.
\<close>

definition touches :: "'e vars \<Rightarrow> nat \<Rightarrow> nat \<Rightarrow> bool" where
  "touches vs v x \<longleftrightarrow> x \<in> set (struct_chain vs v) \<or> v \<in> set (chain vs x)"

definition clear_of_writes :: "'e vars \<Rightarrow> Effect \<Rightarrow> nat \<Rightarrow> bool" where
  "clear_of_writes vs C v \<longleftrightarrow> (\<forall>x \<in> set (write_vars C). \<not> overlap vs v x)"

definition clear_of_reads :: "'e vars \<Rightarrow> Effect \<Rightarrow> nat \<Rightarrow> bool" where
  "clear_of_reads vs C v \<longleftrightarrow> (\<forall>x \<in> set (read_vars C). \<not> touches vs v x)"

text \<open>Stores where a container lists all its fields, and the collective of an array is its own
  collective, and effects on the variables of the store.\<close>

definition fields_listed :: "'e vars \<Rightarrow> bool" where
  "fields_listed vs \<longleftrightarrow> (\<forall>c < length vs. case v_field_var_of (vs ! c) of
       None \<Rightarrow> True | Some p \<Rightarrow> p < length vs \<and> c \<in> set (v_field_vars (vs ! p)))"

definition collective_fixed :: "'e vars \<Rightarrow> bool" where
  "collective_fixed vs \<longleftrightarrow> (\<forall>v < length vs. case get_collective vs v of
       None \<Rightarrow> True | Some c \<Rightarrow> get_collective vs c = Some c)"

lemma any_opt_False: "any_opt f xs = Some False \<Longrightarrow> x \<in> set xs \<Longrightarrow> f x = Some False"
  by (induction xs) (auto simp: bind_eq_Some_conv split: if_splits)

lemma strictly_inside:
  assumes "store_ok vs" "fields_listed vs" "v \<in> set (chain vs x)" "v \<noteq> x" "x < length vs"
  shows "\<exists>c. c \<in> set (v_field_vars (vs ! v)) \<and> c < length vs \<and> c \<in> set (chain vs x) \<and> v < length vs"
  using assms(3-5)
proof (induction x rule: less_induct)
  case (less x)
  note c = store_ok_container [OF assms(1) less.prems(3)]
  from less.prems(1,2) c(1) obtain p where p: "v_field_var_of (vs ! x) = Some p" "v \<in> set (chain vs p)"
    by (cases "v_field_var_of (vs ! x)") (auto simp: chain.simps [of vs x])
  have sub: "set (chain vs p) \<subseteq> set (chain vs x)"
    using p(1) c(1) by (auto simp: chain.simps [of vs x])
  show ?case
  proof (cases "v = p")
    case True
    have "x \<in> set (v_field_vars (vs ! v))"
      using assms(2) less.prems(3) p(1) True by (auto simp: fields_listed_def split: option.splits)
    with c(2) [OF p(1)] True less.prems(3) show ?thesis using chain_self [of x vs] by blast
  next
    case False
    with less.IH [of p] p c(2) sub show ?thesis by blast
  qed
qed

lemma field_is_written_below:
  assumes "store_ok vs" "fields_listed vs"
  shows "field_is_written vs e v = Some False \<Longrightarrow> x < length vs \<Longrightarrow> v \<in> set (chain vs x) \<Longrightarrow> v \<noteq> x \<Longrightarrow>
    x \<notin> set (write_vars e)"
proof (induction "length vs - v" arbitrary: v rule: less_induct)
  case less
  from strictly_inside [OF assms less.prems(3,4,2)] obtain c where
    c: "c \<in> set (v_field_vars (vs ! v))" "c < length vs" "c \<in> set (chain vs x)" "v < length vs" by blast
  note f = store_ok_fields [OF assms(1) c(4)]
  have agg: "var_is_aggregate vs v = Some True"
    using chain_aggregate [OF assms(1) less.prems(3,4,2)] c(4) by (auto simp: var_is_aggregate_def)
  have "any_opt (\<lambda>c. do { b \<leftarrow> is_written vs e c; if b then Some True else field_is_written vs e c })
      (v_field_vars (vs ! v)) = Some False"
    using less.prems(1) f(1) by (subst (asm) field_is_written.simps) (simp add: agg)
  from any_opt_False [OF this c(1)] have "is_written vs e c = Some False" "field_is_written vs e c = Some False"
    by (auto simp: bind_eq_Some_conv split: if_splits)
  moreover from this(1) have "c \<notin> set (write_vars e)"
    by (simp add: is_written_def written_in.simps [of vs _ c] split: if_splits)
  moreover have "length vs - c < length vs - v" using f(2) [OF c(1)] by linarith
  ultimately show ?case using less.hyps [of c] c(3) less.prems(2) by (cases "c = x") auto
qed

lemma field_is_read_below:
  assumes "store_ok vs" "fields_listed vs"
  shows "field_is_read vs e v = Some False \<Longrightarrow> x < length vs \<Longrightarrow> v \<in> set (chain vs x) \<Longrightarrow> v \<noteq> x \<Longrightarrow>
    x \<notin> set (read_vars e)"
proof (induction "length vs - v" arbitrary: v rule: less_induct)
  case less
  from strictly_inside [OF assms less.prems(3,4,2)] obtain c where
    c: "c \<in> set (v_field_vars (vs ! v))" "c < length vs" "c \<in> set (chain vs x)" "v < length vs" by blast
  note f = store_ok_fields [OF assms(1) c(4)]
  have agg: "var_is_aggregate vs v = Some True"
    using chain_aggregate [OF assms(1) less.prems(3,4,2)] c(4) by (auto simp: var_is_aggregate_def)
  have "any_opt (\<lambda>c. do { b \<leftarrow> is_read vs e c; if b then Some True else field_is_read vs e c })
      (v_field_vars (vs ! v)) = Some False"
    using less.prems(1) f(1) by (subst (asm) field_is_read.simps) (simp add: agg)
  from any_opt_False [OF this c(1)] have "is_read vs e c = Some False" "field_is_read vs e c = Some False"
    by (auto simp: bind_eq_Some_conv split: if_splits)
  moreover from this(1) have "c \<notin> set (read_vars e)"
    by (simp add: is_read_def read_in.simps [of vs _ c] split: if_splits)
  moreover have "length vs - c < length vs - v" using f(2) [OF c(1)] by linarith
  ultimately show ?case using less.hyps [of c] c(3) less.prems(2) by (cases "c = x") auto
qed

lemma written_partially_clear:
  assumes "store_ok vs" "fields_listed vs" "effect_in vs e" "v < length vs"
    and "is_written_partially vs e v = Some False"
  shows "clear_of_writes vs e v"
proof -
  from assms(5) have w: "is_written vs e v = Some False" "field_is_written vs e v = Some False"
    by (auto simp: is_written_partially_def bind_eq_Some_conv split: if_splits)
  have "\<forall>u \<in> set (chain vs v). u \<notin> set (write_vars e)"
    using w(1) written_in_chain [OF assms(1,4), of "write_vars e"] by (simp add: is_written_def)
  moreover have "v \<notin> set (chain vs x)" if "x \<in> set (write_vars e)" "x \<noteq> v" for x
    using field_is_written_below [OF assms(1,2) w(2), of x] that assms(3) by (auto simp: effect_in_def)
  ultimately show ?thesis using chain_self [of v vs] unfolding clear_of_writes_def overlap_def by blast
qed

lemma read_partially_clear:
  assumes "store_ok vs" "fields_listed vs" "effect_in vs e" "v < length vs"
    and "is_read_partially vs e v = Some False"
  shows "clear_of_reads vs e v"
proof -
  from assms(5) have w: "is_read vs e v = Some False" "field_is_read vs e v = Some False"
    by (auto simp: is_read_partially_def bind_eq_Some_conv split: if_splits)
  have "\<forall>u \<in> set (struct_chain vs v). u \<notin> set (read_vars e)"
    using w(1) read_in_chain [OF assms(1,4), of "read_vars e"] by (simp add: is_read_def)
  moreover have "v \<notin> set (chain vs x)" if "x \<in> set (read_vars e)" "x \<noteq> v" for x
    using field_is_read_below [OF assms(1,2) w(2), of x] that assms(3) by (auto simp: effect_in_def)
  ultimately show ?thesis using struct_chain_self [of v vs] unfolding clear_of_reads_def touches_def by blast
qed

section \<open>Accepted accesses\<close>

definition readable :: "program \<Rightarrow> CGContext \<Rightarrow> nat \<Rightarrow> bool" where
  "readable p ctx v \<longleftrightarrow> v < length (p_vars p) \<and> is_nonreadable p ctx v = Some False
     \<and> clear_of_writes (p_vars p) (cg_effect_context ctx) v
     \<and> (side_effect_free (cg_effect_context ctx) \<or> var_is_volatile (p_vars p) v = Some False)"

definition writable :: "program \<Rightarrow> CGContext \<Rightarrow> nat \<Rightarrow> bool" where
  "writable p ctx v \<longleftrightarrow> v < length (p_vars p) \<and> is_nonwritable p ctx v = Some False
     \<and> var_is_const (p_vars p) v = Some False
     \<and> clear_of_writes (p_vars p) (cg_effect_context ctx) v \<and> clear_of_reads (p_vars p) (cg_effect_context ctx) v
     \<and> (side_effect_free (cg_effect_context ctx) \<or> var_is_volatile (p_vars p) v = Some False)"

definition new_accesses :: "program \<Rightarrow> CGContext \<Rightarrow> Effect \<Rightarrow> Effect \<Rightarrow> bool" where
  "new_accesses p ctx e e' \<longleftrightarrow>
     (\<forall>v \<in> set (read_vars e'). v \<in> set (read_vars e) \<or> readable p ctx v) \<and>
     (\<forall>v \<in> set (write_vars e'). v \<in> set (write_vars e) \<or> writable p ctx v)"

definition same_place :: "CGContext \<Rightarrow> CGContext \<Rightarrow> bool" where
  "same_place ctx ctx' \<longleftrightarrow> cg_func ctx' = cg_func ctx \<and> cg_call_chain ctx' = cg_call_chain ctx
     \<and> cg_flags ctx' = cg_flags ctx \<and> cg_rw ctx' = cg_rw ctx \<and> cg_iv_bounds ctx' = cg_iv_bounds ctx
     \<and> cg_effect_context ctx' = cg_effect_context ctx"

definition accum_step :: "program \<Rightarrow> CGContext \<Rightarrow> Effect option \<Rightarrow> Effect option \<Rightarrow> bool" where
  "accum_step p ctx a a' = (case (a, a') of
       (Some e, Some e') \<Rightarrow> new_accesses p ctx e e'
     | (None, None) \<Rightarrow> True
     | _ \<Rightarrow> False)"

definition access_step :: "program \<Rightarrow> CGContext \<Rightarrow> program \<Rightarrow> CGContext \<Rightarrow> bool" where
  "access_step p ctx p' ctx' \<longleftrightarrow> p_vars p' = p_vars p \<and> p_opts p' = p_opts p \<and> same_place ctx ctx'
     \<and> accum_step p ctx (cg_effect_accum ctx) (cg_effect_accum ctx')
     \<and> new_accesses p ctx (cg_effect_stm ctx) (cg_effect_stm ctx')"

text \<open>Index expressions call no function of the program.\<close>

definition call_free :: "Expression \<Rightarrow> bool" where
  "call_free e \<longleftrightarrow> get_called_funcs e = []"

definition indices_call_free :: "store \<Rightarrow> bool" where
  "indices_call_free vs \<longleftrightarrow> (\<forall>x \<in> set vs. \<forall>e \<in> set (v_indices x). call_free e)"

definition context_ok :: "program \<Rightarrow> CGContext \<Rightarrow> bool" where
  "context_ok p ctx \<longleftrightarrow> typed_store (p_vars p) \<and> fields_listed (p_vars p) \<and> collective_fixed (p_vars p)
     \<and> indices_call_free (p_vars p) \<and> effect_in (p_vars p) (cg_effect_context ctx)
     \<and> effect_in (p_vars p) (cg_effect_stm ctx)"

lemma is_nonreadable_cong: "p_vars p' = p_vars p \<Longrightarrow> cg_rw ctx' = cg_rw ctx \<Longrightarrow>
    is_nonreadable p' ctx' v = is_nonreadable p ctx v"
  by (simp add: is_nonreadable_def cong: option.case_cong)

lemma is_nonwritable_cong: "p_vars p' = p_vars p \<Longrightarrow> cg_rw ctx' = cg_rw ctx \<Longrightarrow>
    cg_iv_bounds ctx' = cg_iv_bounds ctx \<Longrightarrow> is_nonwritable p' ctx' v = is_nonwritable p ctx v"
  by (simp add: is_nonwritable_def cong: option.case_cong if_cong)

lemma accesses_cong:
  assumes "p_vars p' = p_vars p" "same_place ctx ctx'"
  shows "readable p' ctx' = readable p ctx" "writable p' ctx' = writable p ctx"
    "new_accesses p' ctx' = new_accesses p ctx"
proof -
  from assms(2) have c: "cg_rw ctx' = cg_rw ctx" "cg_iv_bounds ctx' = cg_iv_bounds ctx"
    "cg_effect_context ctx' = cg_effect_context ctx" by (simp_all add: same_place_def)
  show r: "readable p' ctx' = readable p ctx"
    by (rule ext) (simp add: readable_def is_nonreadable_cong [OF assms(1) c(1)] assms(1) c(3))
  show w: "writable p' ctx' = writable p ctx"
    by (rule ext) (simp add: writable_def is_nonwritable_cong [OF assms(1) c(1,2)] assms(1) c(3))
  show "new_accesses p' ctx' = new_accesses p ctx" by (intro ext) (simp add: new_accesses_def r w)
qed

lemma same_place_trans: "same_place a b \<Longrightarrow> same_place b c \<Longrightarrow> same_place a c"
  by (simp add: same_place_def)

lemma same_place_refl [simp]: "same_place a a"
  by (simp add: same_place_def)

lemma new_accesses_refl [simp]: "new_accesses p ctx e e"
  by (simp add: new_accesses_def)

lemma accum_step_refl [simp]: "accum_step p ctx a a"
  by (cases a) (simp_all add: accum_step_def)

lemma access_step_refl [simp]: "access_step p ctx p ctx"
  by (simp add: access_step_def)

lemma access_step_trans:
  assumes "access_step p ctx p1 ctx1" "access_step p1 ctx1 p2 ctx2"
  shows "access_step p ctx p2 ctx2"
proof -
  from assms(1) have p1: "p_vars p1 = p_vars p" "same_place ctx ctx1" by (simp_all add: access_step_def)
  from assms(2) have s2: "accum_step p ctx (cg_effect_accum ctx1) (cg_effect_accum ctx2)"
    "new_accesses p ctx (cg_effect_stm ctx1) (cg_effect_stm ctx2)"
    by (simp_all add: access_step_def accum_step_def accesses_cong [OF p1] split: option.splits)
  with assms(1) have "accum_step p ctx (cg_effect_accum ctx) (cg_effect_accum ctx2)"
    by (auto simp: access_step_def accum_step_def new_accesses_def split: option.splits)
  moreover have "new_accesses p ctx (cg_effect_stm ctx) (cg_effect_stm ctx2)"
    using assms(1) s2(2) by (auto simp: access_step_def new_accesses_def)
  ultimately show ?thesis using assms same_place_trans by (auto simp: access_step_def)
qed

lemma new_accesses_in: "new_accesses p ctx e e' \<Longrightarrow> effect_in (p_vars p) e \<Longrightarrow> effect_in (p_vars p) e'"
  by (auto simp: new_accesses_def effect_in_def readable_def writable_def)

lemma access_step_context: "access_step p ctx p1 ctx1 \<Longrightarrow> context_ok p ctx \<Longrightarrow> context_ok p1 ctx1"
  using new_accesses_in by (auto simp: access_step_def context_ok_def same_place_def)

text \<open>One update of both effects.\<close>

lemma upd_effects_step:
  assumes "upd_effects f g ctx = Some ctx'"
    and "\<And>e e'. f e = Some e' \<Longrightarrow> new_accesses p ctx e e'"
    and "\<And>e e'. g e = Some e' \<Longrightarrow> new_accesses p ctx e e'"
  shows "access_step p ctx p ctx'"
  using assms by (auto simp: upd_effects_def access_step_def accum_step_def same_place_def bind_eq_Some_conv
      split: option.splits)

lemma first_true_False: "first_true bs = Some False \<Longrightarrow> \<forall>b \<in> set bs. b = Some False"
  by (induction bs) (auto simp: bind_eq_Some_conv split: if_splits)

lemma get_collective_fixed:
  assumes "collective_fixed vs" "get_collective vs v = Some c"
  shows "get_collective vs c = Some c" "v < length vs" "c < length vs"
proof -
  from assms(2) show "v < length vs" by (auto simp: get_collective_def bind_eq_Some_conv)
  with assms show g: "get_collective vs c = Some c" by (auto simp: collective_fixed_def)
  then show "c < length vs" by (auto simp: get_collective_def bind_eq_Some_conv)
qed

lemma readable_if_accepted:
  assumes "context_ok p ctx" "v < length (p_vars p)" "read_conflicts p ctx v = Some False"
  shows "readable p ctx v"
proof -
  from first_true_False [OF assms(3) [unfolded read_conflicts_def]]
  have r: "is_nonreadable p ctx v = Some False"
    "is_written_partially (p_vars p) (cg_effect_context ctx) v = Some False"
    "volatile_barred p ctx v = Some False" by simp_all
  from assms(1) have ok: "store_ok (p_vars p)" "fields_listed (p_vars p)"
    "effect_in (p_vars p) (cg_effect_context ctx)" by (simp_all add: context_ok_def)
  from written_partially_clear [OF ok assms(2) r(2)] r(1,3) assms(2) show ?thesis
    by (auto simp: readable_def volatile_barred_def)
qed

lemma writable_if_accepted:
  assumes "context_ok p ctx" "v < length (p_vars p)" "write_conflicts p ctx v = Some False"
  shows "writable p ctx v"
proof -
  from first_true_False [OF assms(3) [unfolded write_conflicts_def]]
  have r: "is_nonwritable p ctx v = Some False" "var_is_const (p_vars p) v = Some False"
    "is_written_partially (p_vars p) (cg_effect_context ctx) v = Some False"
    "is_read_partially (p_vars p) (cg_effect_context ctx) v = Some False"
    "volatile_barred p ctx v = Some False" by simp_all
  from assms(1) have ok: "store_ok (p_vars p)" "fields_listed (p_vars p)"
    "effect_in (p_vars p) (cg_effect_context ctx)" by (simp_all add: context_ok_def)
  from written_partially_clear [OF ok assms(2) r(3)] read_partially_clear [OF ok assms(2) r(4)]
    r(1,2,5) assms(2) show ?thesis
    by (auto simp: writable_def volatile_barred_def)
qed

lemma cg_read_var_step:
  assumes "cg_read_var p v ctx = Some ctx'" "get_collective (p_vars p) v = Some v" "readable p ctx v"
  shows "access_step p ctx p ctx'"
proof -
  from assms(1,2) have "upd_effects (read_var (p_vars p) v) (read_var (p_vars p) v) ctx = Some ctx'"
    by (auto simp: cg_read_var_def bind_eq_Some_conv)
  then show ?thesis
    by (rule upd_effects_step)
      (use assms(3) in \<open>auto simp: read_var_def new_accesses_def bind_eq_Some_conv split: if_splits\<close>)
qed

lemma cg_write_var_step:
  assumes "cg_write_var p v ctx = Some ctx'" "get_collective (p_vars p) v = Some v" "writable p ctx v"
  shows "access_step p ctx p ctx'"
proof -
  from assms(1,2) have "upd_effects (write_var (p_vars p) v) (write_var (p_vars p) v) ctx = Some ctx'"
    by (auto simp: cg_write_var_def bind_eq_Some_conv)
  then show ?thesis
    by (rule upd_effects_step)
      (use assms(3) in \<open>auto simp: write_var_def new_accesses_def bind_eq_Some_conv split: if_splits\<close>)
qed

text \<open>Growing an effect context only excludes more.\<close>

definition stronger :: "'e vars \<Rightarrow> Effect \<Rightarrow> Effect \<Rightarrow> bool" where
  "stronger vs C C' \<longleftrightarrow> (\<forall>v. clear_of_writes vs C' v \<longrightarrow> clear_of_writes vs C v)
     \<and> (\<forall>v. clear_of_reads vs C' v \<longrightarrow> clear_of_reads vs C v) \<and> (side_effect_free C' \<longrightarrow> side_effect_free C)"

lemma stronger_refl [simp]: "stronger vs C C"
  by (simp add: stronger_def)

lemma stronger_trans: "stronger vs A B \<Longrightarrow> stronger vs B C \<Longrightarrow> stronger vs A C"
  by (simp add: stronger_def)

lemma touches_struct:
  assumes "u \<in> set (struct_chain vs x)" "touches vs v x"
  shows "touches vs v u"
proof (cases "x \<in> set (struct_chain vs v)")
  case True
  with struct_chain_trans [OF True assms(1)] show ?thesis by (simp add: touches_def)
next
  case False
  with assms(2) have "v \<in> set (chain vs x)" by (simp add: touches_def)
  with assms(1) show ?thesis
  proof (induction x rule: less_induct)
    case (less x)
    show ?case
    proof (cases "u = x \<or> v = x")
      case True
      with less.prems show ?thesis by (auto simp: touches_def)
    next
      case no: False
      then obtain q where q: "container_of vs x = Some (Some q)" "u \<in> set (struct_chain vs q)"
        using struct_chainD [OF less.prems(1)] by blast
      from less.prems(2) no q(1) have "v \<in> set (chain vs q)" by (simp add: chain.simps [of vs x])
      with less.IH [OF container_smaller [OF q(1)] q(2)] show ?thesis .
    qed
  qed
qed

lemma struct_covers_stronger:
  assumes "\<forall>x \<in> set (read_vars C). \<exists>u \<in> set (struct_chain vs x). u \<in> set (read_vars C')"
    and "\<forall>x \<in> set (write_vars C). \<exists>u \<in> set (chain vs x). u \<in> set (write_vars C')"
    and "side_effect_free C' \<longrightarrow> side_effect_free C"
  shows "stronger vs C C'"
proof -
  have "clear_of_writes vs C v" if c: "clear_of_writes vs C' v" for v
  proof -
    have "\<not> overlap vs v x" if x: "x \<in> set (write_vars C)" for x
    proof
      assume o: "overlap vs v x"
      from assms(2) x obtain u where u: "u \<in> set (chain vs x)" "u \<in> set (write_vars C')" by blast
      from o u(1) have "overlap vs v u"
        using chain_trans [of x vs v u] chain_linear [of v vs x u] by (auto simp: overlap_def)
      with c u(2) show False by (simp add: clear_of_writes_def)
    qed
    then show ?thesis by (simp add: clear_of_writes_def)
  qed
  moreover have "clear_of_reads vs C v" if c: "clear_of_reads vs C' v" for v
    using assms(1) c touches_struct unfolding clear_of_reads_def by blast
  ultimately show ?thesis using assms(3) by (simp add: stronger_def)
qed

lemma add_effect_stronger:
  assumes "typed_store vs" "effect_in vs C" "effect_in vs e" "add_effect vs False e l C = Some C'"
  shows "effect_in vs C'" "stronger vs C C'" "stronger vs e C'"
proof -
  note f = add_effect_fields [OF assms(1,3), of l C]
  from f assms(4) have s: "set (read_vars C') \<subseteq> set (read_vars C) \<union> set (read_vars e)"
    "set (write_vars C') \<subseteq> set (write_vars C) \<union> set (write_vars e)"
    "side_effect_free C' = (side_effect_free C \<and> side_effect_free e)"
    "\<forall>v < length vs. is_read vs C' v = Some (\<exists>u \<in> set (struct_chain vs v). u \<in> set (read_vars C) \<union> set (read_vars e))"
    "\<forall>v < length vs. is_written vs C' v = Some (\<exists>u \<in> set (chain vs v). u \<in> set (write_vars C) \<union> set (write_vars e))"
    by auto
  show "effect_in vs C'" using s(1,2) assms(2,3) by (auto simp: effect_in_def)
  have r: "\<exists>u \<in> set (struct_chain vs x). u \<in> set (read_vars C')"
    if "x \<in> set (read_vars C) \<union> set (read_vars e)" for x
  proof -
    from that assms(2,3) have x: "x < length vs" by (auto simp: effect_in_def)
    have "is_read vs C' x = Some True" using s(4) x that struct_chain_self [of x vs] by auto
    then show ?thesis using is_read_typed [OF assms(1) x, of C'] by auto
  qed
  have w: "\<exists>u \<in> set (chain vs x). u \<in> set (write_vars C')"
    if "x \<in> set (write_vars C) \<union> set (write_vars e)" for x
  proof -
    from that assms(2,3) have x: "x < length vs" by (auto simp: effect_in_def)
    have "is_written vs C' x = Some True" using s(5) x that chain_self [of x vs] by auto
    then show ?thesis using is_written_typed [OF assms(1) x, of C'] by auto
  qed
  show "stronger vs C C'" "stronger vs e C'"
    by (rule struct_covers_stronger; use r w s(3) in simp)+
qed

lemma write_var_stronger:
  assumes "typed_store vs" "effect_in vs C" "write_var vs v C = Some C'"
  shows "effect_in vs C' \<and> stronger vs C C'"
proof -
  from assms(3) have v: "v < length vs" and c: "read_vars C' = read_vars C"
    "set (write_vars C') \<subseteq> insert v (set (write_vars C))" "set (write_vars C) \<subseteq> set (write_vars C')"
    "side_effect_free C' \<longrightarrow> side_effect_free C"
    by (auto simp: write_var_def bind_eq_Some_conv is_access_once_def split: if_splits)
  have "\<forall>x \<in> set (read_vars C). \<exists>u \<in> set (struct_chain vs x). u \<in> set (read_vars C')"
    using c(1) struct_chain_self [of _ vs] by auto
  moreover have "\<forall>x \<in> set (write_vars C). \<exists>u \<in> set (chain vs x). u \<in> set (write_vars C')"
    using c(3) chain_self [of _ vs] by blast
  ultimately have "stronger vs C C'" using c(4) by (rule struct_covers_stronger)
  with assms(2) v c(1,2) show ?thesis by (auto simp: effect_in_def)
qed

lemma write_var_set_stronger:
  assumes "typed_store vs" "effect_in vs C" "write_var_set vs xs C = Some C'"
  shows "effect_in vs C' \<and> stronger vs C C'"
proof (rule fold_opt_invariant [where I = "\<lambda>e. effect_in vs e \<and> stronger vs C e", OF assms(3) [unfolded write_var_set_def]])
  fix x e e1
  assume "effect_in vs e \<and> stronger vs C e" "write_var vs x e = Some e1"
  with write_var_stronger [OF assms(1), of e x e1] stronger_trans show "effect_in vs e1 \<and> stronger vs C e1" by blast
qed (use assms(2) in simp)

text \<open>The contract of a visit of an expression, and the operations that rest on it.\<close>

locale sound_visitor =
  fixes visit :: visitor
  assumes visit_step: "visit p facts ctx e = Some (True, p', facts', ctx') \<Longrightarrow> call_free e \<Longrightarrow>
    context_ok p ctx \<Longrightarrow> access_step p ctx p' ctx'"
begin

lemma visit_all_step:
  "visit_all visit es p facts ctx = Some (True, p', ctx') \<Longrightarrow> \<forall>e \<in> set es. call_free e \<Longrightarrow>
    context_ok p ctx \<Longrightarrow> access_step p ctx p' ctx'"
proof (induction es arbitrary: p facts ctx)
  case (Cons e es)
  from Cons.prems(1) obtain p1 f1 c1 where v: "visit p facts ctx e = Some (True, p1, f1, c1)"
    "visit_all visit es p1 f1 c1 = Some (True, p', ctx')"
    by (auto simp: bind_eq_Some_conv split: if_splits)
  have s: "access_step p ctx p1 c1" by (rule visit_step [OF v(1)]) (use Cons.prems(2,3) in simp_all)
  with Cons.IH [OF v(2)] Cons.prems(2,3) access_step_context [OF s] access_step_trans [OF s]
  show ?case by simp
qed simp

lemma read_indices_of_step:
  "read_indices_of visit vs p facts ctx = Some (True, p', ctx') \<Longrightarrow> context_ok p ctx \<Longrightarrow> access_step p ctx p' ctx'"
proof (induction vs arbitrary: p ctx)
  case (Cons v vs)
  from Cons.prems(1) obtain p1 c1 where v: "v < length (p_vars p)"
    "visit_all visit (v_indices (p_vars p ! v)) p facts ctx = Some (True, p1, c1)"
    "read_indices_of visit vs p1 facts c1 = Some (True, p', ctx')"
    by (auto simp: bind_eq_Some_conv split: if_splits)
  have "\<forall>e \<in> set (v_indices (p_vars p ! v)). call_free e"
    using Cons.prems(2) nth_mem [OF v(1)] by (simp add: context_ok_def indices_call_free_def)
  with visit_all_step [OF v(2)] Cons.prems(2) have s: "access_step p ctx p1 c1" by simp
  with Cons.IH [OF v(3)] Cons.prems(2) access_step_context [OF s] access_step_trans [OF s]
  show ?case by simp
qed simp

lemma read_indices_step:
  "read_indices visit v p facts ctx = Some (True, p', ctx') \<Longrightarrow> context_ok p ctx \<Longrightarrow> access_step p ctx p' ctx'"
  using read_indices_of_step by (auto simp: read_indices_def bind_eq_Some_conv)

lemma check_read_var_step:
  assumes "check_read_var visit v p facts ctx = Some (True, p', ctx')" "context_ok p ctx"
  shows "access_step p ctx p' ctx'"
proof -
  from assms(1) obtain p1 c1 u where r: "read_indices visit v p facts ctx = Some (True, p1, c1)"
    "get_collective (p_vars p1) v = Some u"
    "first_true [is_nonreadable_field (p_vars p1) u facts, is_nonreadable p1 c1 u,
       is_written_partially (p_vars p1) (cg_effect_context c1) u, volatile_barred p1 c1 u,
       dangling_barred p1 u facts] = Some False"
    "cg_read_var p1 u c1 = Some ctx'" "p' = p1"
    by (auto simp: check_read_var_def bind_eq_Some_conv simp del: first_true.simps split: if_splits)
  from read_indices_step [OF r(1) assms(2)] have s: "access_step p ctx p1 c1" .
  from access_step_context [OF s assms(2)] have ok: "context_ok p1 c1" .
  note g = get_collective_fixed [OF _ r(2)]
  from ok have c: "collective_fixed (p_vars p1)" by (simp add: context_ok_def)
  from first_true_False [OF r(3)] have "read_conflicts p1 c1 u = Some False"
    by (simp add: read_conflicts_def)
  from cg_read_var_step [OF r(4) g(1) [OF c] readable_if_accepted [OF ok g(3) [OF c] this]]
  show ?thesis using access_step_trans [OF s] r(5) by simp
qed

lemma check_write_var_step:
  assumes "check_write_var visit v p facts ctx = Some (True, p', ctx')" "context_ok p ctx"
  shows "access_step p ctx p' ctx'"
proof -
  from assms(1) obtain p1 c1 u b where r: "read_indices visit v p facts ctx = Some (True, p1, c1)"
    "get_collective (p_vars p1) v = Some u"
    "first_true [is_nonwritable p1 c1 u, var_is_const (p_vars p1) u,
       is_written_partially (p_vars p1) (cg_effect_context c1) u,
       is_read_partially (p_vars p1) (cg_effect_context c1) u, volatile_barred p1 c1 u, b] = Some False"
    "cg_write_var p1 u c1 = Some ctx'" "p' = p1"
    by (auto simp: check_write_var_def bind_eq_Some_conv simp del: first_true.simps split: if_splits)
  from read_indices_step [OF r(1) assms(2)] have s: "access_step p ctx p1 c1" .
  from access_step_context [OF s assms(2)] have ok: "context_ok p1 c1" .
  note g = get_collective_fixed [OF _ r(2)]
  from ok have c: "collective_fixed (p_vars p1)" by (simp add: context_ok_def)
  from first_true_False [OF r(3)] have "write_conflicts p1 c1 u = Some False"
    by (simp add: write_conflicts_def)
  from cg_write_var_step [OF r(4) g(1) [OF c] writable_if_accepted [OF ok g(3) [OF c] this]]
  show ?thesis using access_step_trans [OF s] r(5) by simp
qed

lemma check_pointees_step:
  "check_pointees visit wr vs p facts ctx = Some (True, p', ctx') \<Longrightarrow> context_ok p ctx \<Longrightarrow> access_step p ctx p' ctx'"
proof (induction vs arbitrary: p ctx)
  case (Cons v vs)
  show ?case
  proof (cases "is_special_ptr v")
    case False
    with Cons.prems(1) obtain p1 c1 where v:
      "(if wr then check_write_var else check_read_var) visit v p facts ctx = Some (True, p1, c1)"
      "check_pointees visit wr vs p1 facts c1 = Some (True, p', ctx')"
      by (auto simp: bind_eq_Some_conv split: if_splits)
    then have s: "access_step p ctx p1 c1"
      using check_read_var_step check_write_var_step Cons.prems(2) by (cases wr) auto
    with Cons.IH [OF v(2)] Cons.prems(2) access_step_context [OF s] access_step_trans [OF s]
    show ?thesis by simp
  qed (use Cons in simp)
qed simp

lemma follow_pointer_step:
  "follow_pointer visit wr n tmp p facts ctx = Some (True, p', ctx') \<Longrightarrow> context_ok p ctx \<Longrightarrow>
    access_step p ctx p' ctx'"
proof (induction n arbitrary: tmp p ctx)
  case (Suc n)
  from Suc.prems(1) obtain t p1 c1 where v: "check_pointees visit (wr \<and> n = 0) t p facts ctx = Some (True, p1, c1)"
    "follow_pointer visit wr n t p1 facts c1 = Some (True, p', ctx')"
    by (auto simp: bind_eq_Some_conv split: if_splits)
  from check_pointees_step [OF v(1) Suc.prems(2)] have s: "access_step p ctx p1 c1" .
  with Suc.IH [OF v(2)] Suc.prems(2) access_step_context [OF s] access_step_trans [OF s]
  show ?case by simp
qed simp

lemma access_pointed_step:
  assumes "access_pointed visit wr v i p facts ctx = Some (True, p', ctx')" "context_ok p ctx"
  shows "access_step p ctx p' ctx'"
proof -
  from assms(1) obtain p1 c1 u where v: "read_indices visit v p facts ctx = Some (True, p1, c1)"
    "follow_pointer visit wr (nat i) [u] p1 facts c1 = Some (True, p', ctx')"
    by (auto simp: access_pointed_def bind_eq_Some_conv split: if_splits)
  from read_indices_step [OF v(1) assms(2)] have s: "access_step p ctx p1 c1" .
  with follow_pointer_step [OF v(2)] assms(2) access_step_context [OF s] access_step_trans [OF s]
  show ?thesis by simp
qed

lemma pointed_step:
  assumes "read_pointed visit v t p facts ctx = Some (True, p', ctx')
    \<or> write_pointed visit v t p facts ctx = Some (True, p', ctx')" "context_ok p ctx"
  shows "access_step p ctx p' ctx'"
  using assms access_pointed_step by (auto simp: read_pointed_def write_pointed_def bind_eq_Some_conv)

end

end
