(* ===== verification/ExprAnalysis.thy ===== *)
theory ExprAnalysis
  imports Context
begin

text \<open>
  The analysis of expressions: \<open>visit_facts\<close> of the classes under \<open>Expression\<close>, \<open>FunctionInvocation\<close> and
  \<open>StatementAssign\<close>.  Given the facts before an expression and its context it decides whether the
  expression may be evaluated there, collects its effects in the context and gives the facts after it.
  Every function here takes the visit of subexpressions as its parameter \<open>visit\<close>, and that of the body
  of a called function as \<open>body_visit\<close>; \<open>StmAnalysis\<close> ties the knot.
  The result is undefined when an assertion fails, \<open>(False, ...)\<close> when the expression is rejected.

  The main property is that an accepted expression has only accesses that the context allows: nothing
  it reads or writes collides with the effects it runs unsequenced with.
\<close>

type_synonym visited = "(bool \<times> program \<times> Fact list \<times> CGContext) option"
type_synonym stm_visitor = "program \<Rightarrow> Fact list \<Rightarrow> CGContext \<Rightarrow> stm_ref \<Rightarrow> visited"

text \<open>The facts of a test that leaves them alone.\<close>

definition with_facts :: "Fact list \<Rightarrow> (bool \<times> program \<times> CGContext) option \<Rightarrow> visited" where
  "with_facts inputs r = map_option (\<lambda>(ok, p, ctx). (ok, p, inputs, ctx)) r"

section \<open>Variables\<close>

definition visit_variable :: "visitor \<Rightarrow> nat \<Rightarrow> Type \<Rightarrow> program \<Rightarrow> Fact list \<Rightarrow> CGContext \<Rightarrow> visited" where
  "visit_variable visit v t p inputs ctx =
     do {
       deref_level \<leftarrow> indirect_level (p_vars p) v t;
       if deref_level > 0
       then do {
         valid \<leftarrow> is_valid_ptr (p_opts p) (p_vars p) v inputs;
         if \<not> valid then Some (False, p, inputs, ctx)
         else do {
           (ok, p, ctx) \<leftarrow> check_read_var visit v p inputs ctx;
           if \<not> ok then Some (False, p, inputs, ctx)
           else do {
             (ok, p, ctx) \<leftarrow> read_pointed visit v t p inputs ctx;
             if \<not> ok then Some (False, p, inputs, ctx)
             else do {
               (ok, ctx) \<leftarrow> check_deref_volatile p v deref_level ctx;
               Some (ok, p, inputs, ctx)
             }
           }
         }
       }
       else if deref_level < 0
       then do { x \<leftarrow> vec_get (p_vars p) v; Some (\<not> v_isBitfield x, p, inputs, ctx) }
       else with_facts inputs (check_read_var visit v p inputs ctx)
     }"

section \<open>The left side of an assignment\<close>

text \<open>The array of an array member or of a field of one.\<close>

definition get_array :: "store \<Rightarrow> nat \<Rightarrow> nat option option" where
  "get_array vs v =
     do {
       x \<leftarrow> vec_get vs v;
       if v_isArray x then Some (Some v)
       else do {
         b \<leftarrow> is_array_field vs v;
         if \<not> b then Some None
         else do {
           po \<leftarrow> container_of vs v;
           q \<leftarrow> po;
           a \<leftarrow> array_above vs q;
           assert_opt (CHR ''.'' \<in> set (takeWhile (\<lambda>c. c \<noteq> CHR '']'') (rev (v_name x))));
           Some (Some a)
         }
       }
     }"

text \<open>Some pointer that is dereferenced has been assigned by the right side.\<close>

fun written_on_the_way :: "store \<Rightarrow> Effect \<Rightarrow> nat \<Rightarrow> nat list \<Rightarrow> Fact list \<Rightarrow> bool option" where
  "written_on_the_way vs eff 0 tmp facts = Some False"
| "written_on_the_way vs eff (Suc n) tmp facts =
     do {
       tmp \<leftarrow> merge_pointees_of_pointers tmp facts;
       b \<leftarrow> any_opt (is_written vs eff) tmp;
       if b then Some True else written_on_the_way vs eff n tmp facts
     }"

definition ptr_modified_in_rhs :: "program \<Rightarrow> nat \<Rightarrow> int \<Rightarrow> Fact list \<Rightarrow> CGContext \<Rightarrow> bool option" where
  "ptr_modified_in_rhs p v indirect inputs ctx =
     do {
       assert_opt (indirect > 0);
       b \<leftarrow> is_written (p_vars p) (cg_effect_stm ctx) v;
       if b then Some True
       else do {
         c \<leftarrow> get_collective (p_vars p) v;
         written_on_the_way (p_vars p) (cg_effect_stm ctx) (nat (indirect - 1)) [c] inputs
       }
     }"

fun visit_each :: "visitor \<Rightarrow> Expression list \<Rightarrow> program \<Rightarrow> Fact list \<Rightarrow> CGContext \<Rightarrow> visited" where
  "visit_each visit [] p inputs ctx = Some (True, p, inputs, ctx)"
| "visit_each visit (e # es) p inputs ctx =
     do {
       (ok, p, inputs, ctx) \<leftarrow> visit p inputs ctx e;
       if ok then visit_each visit es p inputs ctx else Some (False, p, inputs, ctx)
     }"

text \<open>The index expressions are evaluated unsequenced with the right side, in a context without
  accumulated effect that is then dropped.\<close>

definition visit_indices :: "visitor \<Rightarrow> nat \<Rightarrow> program \<Rightarrow> Fact list \<Rightarrow> CGContext \<Rightarrow> (bool \<times> program \<times> Fact list) option" where
  "visit_indices visit v p inputs ctx =
     do {
       av \<leftarrow> get_array (p_vars p) v;
       (case av of
          None \<Rightarrow> Some (True, p, inputs)
        | Some a \<Rightarrow>
            do {
              eff \<leftarrow> add_effect (p_vars p) False (cg_effect_stm ctx) False (Effect_copy (cg_effect_context ctx));
              x \<leftarrow> vec_get (p_vars p) a;
              (ok, p, inputs, _) \<leftarrow> visit_each visit (v_indices x) p inputs
                (CGContext_of_func (cg_func ctx) eff None);
              Some (ok, p, inputs)
            })
     }"

text \<open>The unions of which a field is denoted by an expression, and fields that may overlap.\<close>

definition find_union_pointees :: "store \<Rightarrow> Fact list \<Rightarrow> Expression \<Rightarrow> nat list option" where
  "find_union_pointees vs facts e =
     do {
       vars \<leftarrow> (case e of
           ExpressionVariable _ v t \<Rightarrow> do {
             i \<leftarrow> indirect_level vs v t; c \<leftarrow> get_collective vs v; merge_pointees_of_pointer c i facts }
         | Lhs _ v t _ \<Rightarrow> do {
             i \<leftarrow> indirect_level vs v t; c \<leftarrow> get_collective vs v; merge_pointees_of_pointer c i facts }
         | _ \<Rightarrow> Some []);
       fold_opt (\<lambda>x unions. do {
           u \<leftarrow> get_container_union vs x;
           Some (case u of None \<Rightarrow> unions | Some u \<Rightarrow>
                   if x \<noteq> u then snd (add_variable_to_set unions u) else unions)
         }) vars []
     }"

definition have_overlapping_fields :: "store \<Rightarrow> Expression \<Rightarrow> Expression \<Rightarrow> Fact list \<Rightarrow> bool option" where
  "have_overlapping_fields vs e1 e2 facts =
     do {
       vars1 \<leftarrow> find_union_pointees vs facts e1;
       if vars1 = [] then Some False
       else do {
         vars2 \<leftarrow> find_union_pointees vs facts e2;
         Some (\<exists>v \<in> set vars2. is_variable_in_set vars1 v)
       }
     }"

definition overlaps_rhs :: "program \<Rightarrow> Expression \<Rightarrow> Fact list \<Rightarrow> CGContext \<Rightarrow> bool option" where
  "overlaps_rhs p this inputs ctx = (case cg_curr_rhs ctx of
       None \<Rightarrow> Some False
     | Some rhs \<Rightarrow> any_opt (\<lambda>e.
         if term_type e = eVariable \<or> term_type e = eLhs
         then have_overlapping_fields (p_vars p) e this inputs else Some False) (get_eval_to_subexps rhs))"

text \<open>The part of \<open>Lhs::visit_facts\<close> that checks the write.\<close>

definition visit_target :: "visitor \<Rightarrow> nat \<Rightarrow> Type \<Rightarrow> program \<Rightarrow> Fact list \<Rightarrow> CGContext \<Rightarrow> (bool \<times> program \<times> CGContext) option" where
  "visit_target visit v t p inputs ctx =
     do {
       deref_level \<leftarrow> indirect_level (p_vars p) v t;
       if deref_level > 0
       then do {
         valid \<leftarrow> is_valid_ptr (p_opts p) (p_vars p) v inputs;
         modified \<leftarrow> (if valid then ptr_modified_in_rhs p v deref_level inputs ctx else Some False);
         if \<not> valid \<or> modified then Some (False, p, ctx)
         else do {
           (ok, p, ctx) \<leftarrow> check_read_var visit v p inputs ctx;
           if \<not> ok then Some (False, p, ctx)
           else do {
             (ok, p, ctx) \<leftarrow> write_pointed visit v t p inputs ctx;
             if \<not> ok then Some (False, p, ctx)
             else do { (ok, ctx) \<leftarrow> check_deref_volatile p v deref_level ctx; Some (ok, p, ctx) }
           }
         }
       }
       else check_write_var visit v p inputs ctx
     }"

definition visit_lhs ::
    "visitor \<Rightarrow> Expression \<Rightarrow> nat \<Rightarrow> Type \<Rightarrow> bool \<Rightarrow> program \<Rightarrow> Fact list \<Rightarrow> CGContext \<Rightarrow> visited" where
  "visit_lhs visit this v t for_compound_assign p inputs ctx =
     do {
       (ok, p, inputs, ctx) \<leftarrow> (if for_compound_assign then visit_variable visit v t p inputs ctx
                               else Some (True, p, inputs, ctx));
       if \<not> ok then Some (False, p, inputs, ctx)
       else do {
         (ok, p, inputs) \<leftarrow> visit_indices visit v p inputs ctx;
         if \<not> ok then Some (False, p, inputs, ctx)
         else do {
           bad \<leftarrow> overlaps_rhs p this inputs ctx;
           if bad then Some (False, p, inputs, ctx)
           else do {
             (ok, p, ctx) \<leftarrow> visit_target visit v t p inputs ctx;
             Some (ok, p, inputs,
               if ok then ctx\<lparr>cg_effect_accum :=
                   map_option (\<lambda>e. set_lhs_write_vars (write_vars e) e) (cg_effect_accum ctx)\<rparr>
               else ctx)
           }
         }
       }
     }"

section \<open>Assignments\<close>

text \<open>\<open>StatementAssign::visit_facts\<close>: the right side first; the left side runs in a context with what the
  right side has assigned, and with all its effects when it is a compound assignment.\<close>

definition left_context :: "store \<Rightarrow> eAssignOps \<Rightarrow> Effect \<Rightarrow> Effect \<Rightarrow> Effect option" where
  "left_context vs op rhs_accum running =
     do {
       running \<leftarrow> (if op \<noteq> eSimpleAssign then add_effect vs False rhs_accum False running else Some running);
       write_var_set vs (lhs_write_vars rhs_accum) running
     }"

definition visit_left ::
    "visitor \<Rightarrow> Assign \<Rightarrow> Effect \<Rightarrow> CGContext \<Rightarrow> program \<Rightarrow> Fact list \<Rightarrow> CGContext \<Rightarrow> visited" where
  "visit_left visit a running rhs_ctx p inputs ctx =
     do {
       let lhs_ctx = (CGContext_param ctx running (Some empty_effect))
         \<lparr>cg_effect_stm := Effect_assign empty_effect (cg_effect_stm rhs_ctx), cg_curr_rhs := Some (sa_expr a)\<rparr>;
       (ok, p, inputs, lhs_ctx) \<leftarrow> visit p inputs lhs_ctx (sa_lhs a);
       if \<not> ok then Some (False, p, inputs, ctx)
       else do {
         ctx \<leftarrow> merge_param_context p lhs_ctx True ctx;
         (inputs, p) \<leftarrow> update_fact_for_stm_assign p a inputs;
         fm \<leftarrow> get_fact_mgr p (cg_func ctx);
         Some (True, set_fact_mgr (cg_func ctx) (set_stm_effect (StmRef (sa_stm a)) (cg_effect_stm ctx) fm) p,
           inputs, ctx)
       }
     }"

definition visit_assign :: "visitor \<Rightarrow> Assign \<Rightarrow> program \<Rightarrow> Fact list \<Rightarrow> CGContext \<Rightarrow> visited" where
  "visit_assign visit a p inputs ctx =
     do {
       let running = Effect_copy (cg_effect_context ctx);
       (ok, p, inputs, rhs_ctx) \<leftarrow> visit p inputs (CGContext_param ctx running (Some empty_effect)) (sa_expr a);
       if \<not> ok then Some (False, p, inputs, ctx)
       else do {
         rhs_accum \<leftarrow> cg_effect_accum rhs_ctx;
         ctx \<leftarrow> merge_param_context p rhs_ctx True ctx;
         running \<leftarrow> left_context (p_vars p) (sa_op a) rhs_accum running;
         visit_left visit a running rhs_ctx p inputs ctx
       }
     }"

section \<open>Invocations\<close>

text \<open>The parameters in order, each in a context of its own whose effect context has grown by the effects
  of those before it.\<close>

fun visit_params :: "visitor \<Rightarrow> bool \<Rightarrow> Expression list \<Rightarrow> Effect \<Rightarrow> program \<Rightarrow> Fact list \<Rightarrow> CGContext \<Rightarrow> visited" where
  "visit_params visit lhs_effects [] running p inputs ctx = Some (True, p, inputs, ctx)"
| "visit_params visit lhs_effects (e # es) running p inputs ctx =
     do {
       (ok, p, inputs, param_ctx) \<leftarrow> visit p inputs (CGContext_param ctx running (Some empty_effect)) e;
       if \<not> ok then Some (False, p, inputs, ctx)
       else do {
         accum \<leftarrow> cg_effect_accum param_ctx;
         running \<leftarrow> add_effect (p_vars p) False accum False running;
         ctx \<leftarrow> merge_param_context p param_ctx lhs_effects ctx;
         visit_params visit lhs_effects es running p inputs ctx
       }
     }"

text \<open>\<open>FunctionInvocationUser::revisit\<close>: the body of the called function is analysed with the facts of
  the caller, in the context of this call.  On failure the maps and the facts are as before.\<close>

definition revisit_failed :: "nat \<Rightarrow> FactMgr \<Rightarrow> program \<Rightarrow> program option" where
  "revisit_failed f copy p =
     do {
       fm \<leftarrow> get_fact_mgr p (Some f);
       Some (set_fact_mgr (Some f) (fm\<lparr>fm_facts_in := fm_facts_in copy, fm_facts_out := fm_facts_out copy,
         fm_stm_effect := fm_stm_effect copy, fm_accum_effect := fm_accum_effect copy\<rparr>) p)
     }"

definition revisit_done ::
    "nat \<Rightarrow> nat \<Rightarrow> nat \<Rightarrow> Fact list \<Rightarrow> program \<Rightarrow> Fact list \<Rightarrow> CGContext \<Rightarrow> (program \<times> Fact list \<times> CGContext) option" where
  "revisit_done i f body inputs_copy p inputs ctx =
     do {
       fm \<leftarrow> get_fact_mgr p (Some f);
       ctx \<leftarrow> cg_add_effect p (fm_stm_effect fm (BlockRef body)) False ctx;
       ret_facts \<leftarrow> add_back_return_facts p (BlockRef body) fm [];
       fn \<leftarrow> vec_get (p_funcs p) f;
       returns \<leftarrow> save_return_fact (p_vars p) (f_rv fn) i ret_facts (p_returns p);
       let p = p\<lparr>p_returns := returns\<rparr>;
       let inputs = snd (merge_facts inputs ret_facts);
       inputs \<leftarrow> update_facts_for_oos_vars (p_vars p) (f_param fn) inputs;
       let p = set_fact_mgr (Some f) (setup_in_out_maps False fm) p;
       seen \<leftarrow> add_external_effect_global (p_vars p) False (cg_effect_context ctx) (f_accum_eff_context fn);
       p \<leftarrow> upd_func f (\<lambda>fn. fn\<lparr>f_accum_eff_context := seen\<rparr>) p;
       Some (p, snd (renew_facts inputs_copy inputs), ctx)
     }"

definition revisit ::
    "stm_visitor \<Rightarrow> nat \<Rightarrow> nat \<Rightarrow> Expression list \<Rightarrow> program \<Rightarrow> Fact list \<Rightarrow> CGContext \<Rightarrow> visited" where
  "revisit body_visit i f params p inputs ctx =
     do {
       fm \<leftarrow> get_fact_mgr p (Some f);
       fn \<leftarrow> vec_get (p_funcs p) f;
       let fm = clear_map_visited fm;
       let fm = (if f_visited_cnt fn = 0 then setup_in_out_maps True fm else fm);
       p \<leftarrow> upd_func f (\<lambda>fn. fn\<lparr>f_visited_cnt := f_visited_cnt fn + 1\<rparr>) (set_fact_mgr (Some f) fm p);
       callee_inputs \<leftarrow> caller_to_callee_handover p f params inputs;
       body \<leftarrow> f_body fn;
       (ok, p, outputs, ctx) \<leftarrow> body_visit p callee_inputs ctx (BlockRef body);
       if \<not> ok then do { p \<leftarrow> revisit_failed f fm p; Some (False, p, inputs, ctx) }
       else do { (p, inputs, ctx) \<leftarrow> revisit_done i f body inputs p outputs ctx; Some (True, p, inputs, ctx) }
     }"

text \<open>The call itself, after its parameters.\<close>

definition visit_call ::
    "stm_visitor \<Rightarrow> nat \<Rightarrow> nat \<Rightarrow> Expression list \<Rightarrow> program \<Rightarrow> Fact list \<Rightarrow> CGContext \<Rightarrow> visited" where
  "visit_call body_visit i f params p inputs ctx =
     do {
       new_ctx \<leftarrow> CGContext_callee p ctx f (cg_effect_context ctx) (Some empty_effect);
       (ok, p, inputs, new_ctx) \<leftarrow> revisit body_visit i f params p inputs new_ctx;
       if \<not> ok then Some (False, p, inputs, ctx)
       else do {
         b \<leftarrow> cg_curr_blk ctx;
         accum \<leftarrow> cg_effect_accum new_ctx;
         ctx \<leftarrow> add_visible_effect p accum b ctx;
         fn \<leftarrow> vec_get (p_funcs p) f;
         eff \<leftarrow> add_external_effect (p_vars p) (p_funcs p) (p_blocks p) False accum (cg_call_chain ctx) (f_feffect fn);
         p \<leftarrow> upd_func f (\<lambda>fn. fn\<lparr>f_feffect := eff\<rparr>) p;
         Some (True, p, inputs, ctx)
       }
     }"

text \<open>\<open>FunctionInvocation::visit_facts\<close>, and the operators whose second operand may be skipped.\<close>

definition visit_invocation ::
    "visitor \<Rightarrow> stm_visitor \<Rightarrow> FunctionInvocation \<Rightarrow> program \<Rightarrow> Fact list \<Rightarrow> CGContext \<Rightarrow> visited" where
  "visit_invocation visit body_visit fi p inputs ctx =
     do {
       (ok, p, inputs, ctx) \<leftarrow> visit_params visit (\<not> is_user_call fi) (param_value fi)
         (Effect_copy (cg_effect_context ctx)) p inputs ctx;
       if \<not> ok then Some (False, p, inputs, ctx)
       else (case fi of
           FunctionInvocationUser i f params \<Rightarrow> visit_call body_visit i f params p inputs ctx
         | _ \<Rightarrow> Some (True, p, inputs, ctx))
     }"

definition visit_ordered :: "visitor \<Rightarrow> Expression \<Rightarrow> Expression \<Rightarrow> program \<Rightarrow> Fact list \<Rightarrow> CGContext \<Rightarrow> visited" where
  "visit_ordered visit e1 e2 p inputs ctx =
     do {
       (ok, p, inputs, ctx) \<leftarrow> visit p inputs ctx e1;
       if \<not> ok then Some (False, p, inputs, ctx)
       else do {
         let inputs_copy = inputs;
         (ok, p, inputs, ctx) \<leftarrow> visit p inputs ctx e2;
         Some (ok, p, if ok then snd (merge_facts inputs inputs_copy) else inputs, ctx)
       }
     }"

definition visit_funcall ::
    "visitor \<Rightarrow> stm_visitor \<Rightarrow> FunctionInvocation \<Rightarrow> program \<Rightarrow> Fact list \<Rightarrow> CGContext \<Rightarrow> visited" where
  "visit_funcall visit body_visit fi p inputs ctx = (case fi of
       FunctionInvocationBinary i op flags params \<Rightarrow>
         do {
           assert_opt (length params = 2);
           if IsOrderedStandardFunc op then visit_ordered visit (params ! 0) (params ! 1) p inputs ctx
           else visit_invocation visit body_visit fi p inputs ctx
         }
     | _ \<Rightarrow> visit_invocation visit body_visit fi p inputs ctx)"

section \<open>Expressions\<close>

text \<open>The virtual \<open>visit_facts\<close>.  A constant and a vector, which do not override it, are accepted.\<close>

fun visit_expression :: "visitor \<Rightarrow> stm_visitor \<Rightarrow> visitor" where
  "visit_expression visit body_visit p inputs ctx (Constant _ t v) = Some (True, p, inputs, ctx)"
| "visit_expression visit body_visit p inputs ctx (ExpressionVariable _ v t) = visit_variable visit v t p inputs ctx"
| "visit_expression visit body_visit p inputs ctx (ExpressionFuncall _ fi) = visit_funcall visit body_visit fi p inputs ctx"
| "visit_expression visit body_visit p inputs ctx (ExpressionAssign _ a) = visit_assign visit a p inputs ctx"
| "visit_expression visit body_visit p inputs ctx (ExpressionComma _ l r) =
     do {
       (ok, p, inputs, ctx) \<leftarrow> visit p inputs ctx l;
       if \<not> ok then Some (False, p, inputs, ctx) else visit p inputs ctx r
     }"
| "visit_expression visit body_visit p inputs ctx (Lhs i v t c) = visit_lhs visit (Lhs i v t c) v t c p inputs ctx"
| "visit_expression visit body_visit p inputs ctx (ExpressionVector _ es t n a) = Some (True, p, inputs, ctx)"

section \<open>Accepted expressions\<close>

lemma upd_func_same: "upd_func f g p = Some p' \<Longrightarrow> p_vars p' = p_vars p \<and> p_opts p' = p_opts p"
  by (auto simp: upd_func_def bind_eq_Some_conv)

lemma set_fact_mgr_same [simp]:
  "p_vars (set_fact_mgr f fm p) = p_vars p" "p_opts (set_fact_mgr f fm p) = p_opts p"
  by (simp_all add: set_fact_mgr_def split: option.splits)

lemma update_fact_for_stm_assign_same:
  "update_fact_for_stm_assign p a inputs = Some (out, p') \<Longrightarrow> p_vars p' = p_vars p \<and> p_opts p' = p_opts p"
  by (auto simp: update_fact_for_stm_assign_def bind_eq_Some_conv dest: upd_func_same split: if_splits)

lemma access_step_other_program:
  "access_step p ctx p1 ctx1 \<Longrightarrow> p_vars p2 = p_vars p1 \<Longrightarrow> p_opts p2 = p_opts p1 \<Longrightarrow> access_step p ctx p2 ctx1"
  by (simp add: access_step_def)

lemma add_effect_subset:
  assumes "add_effect vs False e l this = Some e1"
  shows "set (read_vars e1) \<subseteq> set (read_vars this) \<union> set (read_vars e)"
    "set (write_vars e1) \<subseteq> set (write_vars this) \<union> set (write_vars e)"
proof -
  from assms obtain e2 e3 where e: "fold_opt (add_read vs) (read_vars e) this = Some e2"
    "fold_opt (add_write vs) (write_vars e) e2 = Some e3" "read_vars e1 = read_vars e3" "write_vars e1 = write_vars e3"
    by (auto simp: add_effect_def Let_def bind_eq_Some_conv)
  from add_loops_flags [OF e(1,2)] e(3,4)
  show "set (read_vars e1) \<subseteq> set (read_vars this) \<union> set (read_vars e)"
    "set (write_vars e1) \<subseteq> set (write_vars this) \<union> set (write_vars e)" by simp_all
qed

text \<open>An effect whose variables the context allows, and merging it.\<close>

definition allowed :: "program \<Rightarrow> CGContext \<Rightarrow> Effect \<Rightarrow> bool" where
  "allowed p ctx e \<longleftrightarrow> (\<forall>v \<in> set (read_vars e). readable p ctx v) \<and> (\<forall>v \<in> set (write_vars e). writable p ctx v)"

lemma allowed_in: "allowed p ctx e \<Longrightarrow> effect_in (p_vars p) e"
  by (auto simp: allowed_def effect_in_def readable_def writable_def)

lemma add_allowed: "allowed p ctx e \<Longrightarrow> add_effect (p_vars p) False e l a = Some a' \<Longrightarrow> new_accesses p ctx a a'"
  using add_effect_subset [of "p_vars p" e l a a'] by (fastforce simp: allowed_def new_accesses_def)

lemma cg_add_effect_step: "allowed p ctx e \<Longrightarrow> cg_add_effect p e l ctx = Some ctx' \<Longrightarrow> access_step p ctx p ctx'"
  unfolding cg_add_effect_def by (erule upd_effects_step) (erule (1) add_allowed)+

lemma weaker_context:
  assumes "stronger (p_vars p) (cg_effect_context ctx) (cg_effect_context pc)"
    and "cg_rw pc = cg_rw ctx" "cg_iv_bounds pc = cg_iv_bounds ctx"
  shows "readable p pc v \<Longrightarrow> readable p ctx v" "writable p pc v \<Longrightarrow> writable p ctx v"
  using assms(1) is_nonreadable_cong [OF refl assms(2), of p v] is_nonwritable_cong [OF refl assms(2,3), of p v]
  by (auto simp: readable_def writable_def stronger_def)

text \<open>A part that is visited in a context of its own, with an empty effect to start with.\<close>

definition part_context :: "program \<Rightarrow> CGContext \<Rightarrow> CGContext \<Rightarrow> bool" where
  "part_context p ctx pc \<longleftrightarrow> stronger (p_vars p) (cg_effect_context ctx) (cg_effect_context pc)
     \<and> effect_in (p_vars p) (cg_effect_context pc) \<and> effect_in (p_vars p) (cg_effect_stm pc)
     \<and> cg_rw pc = cg_rw ctx \<and> cg_iv_bounds pc = cg_iv_bounds ctx \<and> cg_effect_accum pc = Some empty_effect"

lemma part_context_ok: "context_ok p ctx \<Longrightarrow> part_context p ctx pc \<Longrightarrow> context_ok p pc"
  by (simp add: context_ok_def part_context_def)

lemma part_allowed:
  assumes "access_step p pc p1 pc1" "part_context p ctx pc" "cg_effect_accum pc1 = Some e"
  shows "allowed p pc e" "allowed p ctx e" "p_vars p1 = p_vars p" "p_opts p1 = p_opts p"
proof -
  from assms have "new_accesses p pc empty_effect e"
    by (simp add: access_step_def accum_step_def part_context_def)
  then show a: "allowed p pc e" by (simp add: new_accesses_def allowed_def empty_effect_def)
  from assms(2) have c: "stronger (p_vars p) (cg_effect_context ctx) (cg_effect_context pc)"
    "cg_rw pc = cg_rw ctx" "cg_iv_bounds pc = cg_iv_bounds ctx" by (simp_all add: part_context_def)
  from a weaker_context [OF c] show "allowed p ctx e" by (simp add: allowed_def)
  from assms(1) show "p_vars p1 = p_vars p" "p_opts p1 = p_opts p" by (simp_all add: access_step_def)
qed

lemma allowed_cong: "p_vars p1 = p_vars p \<Longrightarrow> allowed p1 ctx e = allowed p ctx e"
  using accesses_cong(1,2) [of p1 p ctx ctx] by (simp add: allowed_def)

lemma access_step_depth: "access_step p ctx p1 ctx1 \<Longrightarrow> access_step p ctx p1 (ctx1\<lparr>cg_expr_depth := d\<rparr>)"
  by (simp add: access_step_def same_place_def)

lemma merge_part_step:
  assumes "access_step p pc p1 pc1" "part_context p ctx pc" "merge_param_context p1 pc1 l ctx = Some ctx1"
  shows "access_step p ctx p1 ctx1"
proof -
  from assms(3) obtain e c where m: "cg_effect_accum pc1 = Some e" "cg_add_effect p1 e l ctx = Some c"
    "ctx1 = c\<lparr>cg_expr_depth := cg_expr_depth pc1\<rparr>"
    by (auto simp: merge_param_context_def bind_eq_Some_conv)
  note a = part_allowed [OF assms(1,2) m(1)]
  from a(2) have "allowed p1 ctx e" by (simp add: allowed_cong [OF a(3)])
  from access_step_depth [OF cg_add_effect_step [OF this m(2)]] have "access_step p1 ctx p1 ctx1"
    by (simp add: m(3))
  with a(3,4) accesses_cong(3) [of p1 p ctx ctx] show ?thesis
    by (simp add: access_step_def accum_step_def split: option.splits)
qed

context sound_visitor
begin

lemma visit_each_step:
  "visit_each visit es p inputs ctx = Some (True, p', out, ctx') \<Longrightarrow> \<forall>e \<in> set es. call_free e \<Longrightarrow>
    context_ok p ctx \<Longrightarrow> access_step p ctx p' ctx'"
proof (induction es arbitrary: p inputs ctx)
  case (Cons e es)
  from Cons.prems(1) obtain p1 f1 c1 where v: "visit p inputs ctx e = Some (True, p1, f1, c1)"
    "visit_each visit es p1 f1 c1 = Some (True, p', out, ctx')"
    by (auto simp: bind_eq_Some_conv split: if_splits)
  have s: "access_step p ctx p1 c1" by (rule visit_step [OF v(1)]) (use Cons.prems(2,3) in simp_all)
  with Cons.IH [OF v(2)] Cons.prems(2,3) access_step_context [OF s] access_step_trans [OF s]
  show ?case by simp
qed simp

lemma check_deref_volatile_step:
  assumes "check_deref_volatile p v d ctx = Some (True, ctx')"
  shows "access_step p ctx p ctx'"
proof (cases "opt_strict_volatile_rule (p_opts p)")
  case True
  with assms have "upd_effects (access_deref_volatile (p_opts p) (p_vars p) v d)
      (access_deref_volatile (p_opts p) (p_vars p) v d) ctx = Some ctx'"
    by (auto simp: check_deref_volatile_def Let_def bind_eq_Some_conv split: if_splits)
  then show ?thesis
    by (rule upd_effects_step)
      (auto simp: access_deref_volatile_def new_accesses_def bind_eq_Some_conv split: if_splits)
qed (use assms in \<open>simp add: check_deref_volatile_def\<close>)

lemma visit_variable_step:
  assumes "visit_variable visit v t p inputs ctx = Some (True, p', out, ctx')" "context_ok p ctx"
  shows "access_step p ctx p' ctx'"
proof -
  from assms(1) obtain d where d: "indirect_level (p_vars p) v t = Some d"
    by (auto simp: visit_variable_def bind_eq_Some_conv)
  consider "d > 0" | "d < 0" | "d = 0" by linarith
  then show ?thesis
  proof cases
    case 1
    with assms(1) d obtain p1 c1 c2 where r: "check_read_var visit v p inputs ctx = Some (True, p1, c1)"
      "read_pointed visit v t p1 inputs c1 = Some (True, p', c2)"
      "check_deref_volatile p' v d c2 = Some (True, ctx')"
      by (auto simp: visit_variable_def bind_eq_Some_conv split: if_splits)
    from check_read_var_step [OF r(1) assms(2)] have s: "access_step p ctx p1 c1" .
    from pointed_step [OF disjI1 [OF r(2)] access_step_context [OF s assms(2)]]
    have "access_step p1 c1 p' c2" .
    from access_step_trans [OF access_step_trans [OF s this] check_deref_volatile_step [OF r(3)]]
    show ?thesis .
  next
    case 2
    with assms(1) d show ?thesis by (auto simp: visit_variable_def bind_eq_Some_conv)
  next
    case 3
    with assms(1) d have "check_read_var visit v p inputs ctx = Some (True, p', ctx')"
      by (auto simp: visit_variable_def with_facts_def bind_eq_Some_conv)
    from check_read_var_step [OF this assms(2)] show ?thesis .
  qed
qed

lemma visit_target_step:
  assumes "visit_target visit v t p inputs ctx = Some (True, p', ctx')" "context_ok p ctx"
  shows "access_step p ctx p' ctx'"
proof -
  from assms(1) obtain d where d: "indirect_level (p_vars p) v t = Some d"
    by (auto simp: visit_target_def bind_eq_Some_conv)
  show ?thesis
  proof (cases "d > 0")
    case True
    with assms(1) d obtain p1 c1 c2 where r: "check_read_var visit v p inputs ctx = Some (True, p1, c1)"
      "write_pointed visit v t p1 inputs c1 = Some (True, p', c2)"
      "check_deref_volatile p' v d c2 = Some (True, ctx')"
      by (auto simp: visit_target_def bind_eq_Some_conv split: if_splits)
    from check_read_var_step [OF r(1) assms(2)] have s: "access_step p ctx p1 c1" .
    from pointed_step [OF disjI2 [OF r(2)] access_step_context [OF s assms(2)]]
    have "access_step p1 c1 p' c2" .
    from access_step_trans [OF access_step_trans [OF s this] check_deref_volatile_step [OF r(3)]]
    show ?thesis .
  next
    case False
    with assms(1) d have "check_write_var visit v p inputs ctx = Some (True, p', ctx')"
      by (simp add: visit_target_def)
    from check_write_var_step [OF this assms(2)] show ?thesis .
  qed
qed

lemma visit_indices_same:
  assumes "visit_indices visit v p inputs ctx = Some (True, p', out)" "context_ok p ctx"
  shows "p_vars p' = p_vars p \<and> p_opts p' = p_opts p"
proof (cases "p' = p")
  case False
  with assms(1) obtain a eff x c where r: "vec_get (p_vars p) a = Some x"
    "add_effect (p_vars p) False (cg_effect_stm ctx) False (Effect_copy (cg_effect_context ctx)) = Some eff"
    "visit_each visit (v_indices x) p inputs (CGContext_of_func (cg_func ctx) eff None) = Some (True, p', out, c)"
    by (auto simp: visit_indices_def bind_eq_Some_conv split: option.splits)
  from assms(2) have ok: "typed_store (p_vars p)" "indices_call_free (p_vars p)"
    "effect_in (p_vars p) (Effect_copy (cg_effect_context ctx))" "effect_in (p_vars p) (cg_effect_stm ctx)"
    by (simp_all add: context_ok_def effect_in_def Effect_copy_def)
  from add_effect_stronger(1) [OF ok(1,3,4) r(2)] assms(2)
  have "context_ok p (CGContext_of_func (cg_func ctx) eff None)"
    by (simp add: context_ok_def CGContext_of_func_def effect_in_def empty_effect_def)
  moreover have "\<forall>e \<in> set (v_indices x). call_free e"
    using ok(2) r(1) by (auto simp: indices_call_free_def)
  ultimately show ?thesis using visit_each_step [OF r(3)] by (simp add: access_step_def)
qed simp

lemma set_lhs_step:
  "access_step p ctx p1 ctx1 \<Longrightarrow> access_step p ctx p1
     (ctx1\<lparr>cg_effect_accum := map_option (\<lambda>e. set_lhs_write_vars (write_vars e) e) (cg_effect_accum ctx1)\<rparr>)"
  by (auto simp: access_step_def same_place_def accum_step_def new_accesses_def set_lhs_write_vars_def
      split: option.splits)

lemma visit_lhs_step:
  assumes "visit_lhs visit this v t c p inputs ctx = Some (True, p', out, ctx')" "context_ok p ctx"
  shows "access_step p ctx p' ctx'"
proof -
  from assms(1) obtain p1 in1 c1 p2 in2 c2 where r:
    "(if c then visit_variable visit v t p inputs ctx else Some (True, p, inputs, ctx)) = Some (True, p1, in1, c1)"
    "visit_indices visit v p1 in1 c1 = Some (True, p2, in2)"
    "visit_target visit v t p2 in2 c1 = Some (True, p', c2)"
    "ctx' = c2\<lparr>cg_effect_accum := map_option (\<lambda>e. set_lhs_write_vars (write_vars e) e) (cg_effect_accum c2)\<rparr>"
    by (auto simp: visit_lhs_def bind_eq_Some_conv split: if_splits)
  have s: "access_step p ctx p1 c1"
    using r(1) visit_variable_step [OF _ assms(2)] by (cases c) auto
  from access_step_context [OF s assms(2)] have ok: "context_ok p1 c1" .
  note same = visit_indices_same [OF r(2) ok]
  from ok same have ok2: "context_ok p2 c1" by (simp add: context_ok_def)
  from s same have s2: "access_step p ctx p2 c1" by (simp add: access_step_other_program)
  from access_step_trans [OF s2 visit_target_step [OF r(3) ok2]]
  show ?thesis unfolding r(4) by (rule set_lhs_step)
qed

lemma param_part:
  assumes "context_ok p ctx" "effect_in (p_vars p) running" "stronger (p_vars p) (cg_effect_context ctx) running"
  shows "part_context p ctx (CGContext_param ctx running (Some empty_effect))"
  using assms by (simp add: part_context_def CGContext_param_def effect_in_def empty_effect_def)

lemma visit_params_step:
  "visit_params visit l es running p inputs ctx = Some (True, p', out, ctx') \<Longrightarrow> \<forall>e \<in> set es. call_free e \<Longrightarrow>
    context_ok p ctx \<Longrightarrow> effect_in (p_vars p) running \<Longrightarrow>
    stronger (p_vars p) (cg_effect_context ctx) running \<Longrightarrow> access_step p ctx p' ctx'"
proof (induction es arbitrary: running p inputs ctx)
  case (Cons e es)
  let ?pc = "CGContext_param ctx running (Some empty_effect)"
  from Cons.prems(1) obtain p1 in1 pc a run1 ctx1 where r: "visit p inputs ?pc e = Some (True, p1, in1, pc)"
    "cg_effect_accum pc = Some a" "add_effect (p_vars p1) False a False running = Some run1"
    "merge_param_context p1 pc l ctx = Some ctx1"
    "visit_params visit l es run1 p1 in1 ctx1 = Some (True, p', out, ctx')"
    by (auto simp: bind_eq_Some_conv split: if_splits)
  note part = param_part [OF Cons.prems(3-5)]
  have s: "access_step p ?pc p1 pc"
    by (rule visit_step [OF r(1) _ part_context_ok [OF Cons.prems(3) part]]) (use Cons.prems(2) in simp)
  note a = part_allowed [OF s part r(2)]
  have m: "access_step p ctx p1 ctx1" by (rule merge_part_step [OF s part r(4)])
  have typed: "typed_store (p_vars p)" using Cons.prems(3) by (simp add: context_ok_def)
  note g = add_effect_stronger [OF typed Cons.prems(4) allowed_in [OF a(2)] r(3) [unfolded a(3)]]
  have "cg_effect_context ctx1 = cg_effect_context ctx"
    using m by (simp add: access_step_def same_place_def)
  then have "access_step p1 ctx1 p' ctx'"
    using Cons.IH [OF r(5) _ access_step_context [OF m Cons.prems(3)]] Cons.prems(2) g(1)
      stronger_trans [OF Cons.prems(5) g(2)] by (simp add: a(3))
  with m show ?case by (rule access_step_trans)
qed simp

lemma copy_context: "context_ok p ctx \<Longrightarrow> effect_in (p_vars p) (Effect_copy (cg_effect_context ctx)) \<and>
    stronger (p_vars p) (cg_effect_context ctx) (Effect_copy (cg_effect_context ctx))"
  by (simp add: context_ok_def effect_in_def stronger_def Effect_copy_def clear_of_writes_def clear_of_reads_def)

lemma visit_invocation_step:
  assumes "visit_invocation visit body_visit fi p inputs ctx = Some (True, p', out, ctx')"
    and "\<not> is_user_call fi" "\<forall>e \<in> set (param_value fi). call_free e" "context_ok p ctx"
  shows "access_step p ctx p' ctx'"
proof -
  from assms(1,2) have "visit_params visit True (param_value fi) (Effect_copy (cg_effect_context ctx)) p inputs ctx
      = Some (True, p', out, ctx')"
    by (cases fi) (auto simp: visit_invocation_def is_user_call_def bind_eq_Some_conv split: if_splits)
  with copy_context [OF assms(4)] visit_params_step assms(3,4) show ?thesis by blast
qed

lemma left_context_stronger:
  assumes "typed_store vs" "effect_in vs C" "effect_in vs e" "left_context vs op e C = Some C'"
  shows "effect_in vs C' \<and> stronger vs C C'"
proof -
  from assms(4) obtain C1 where
    c: "(if op \<noteq> eSimpleAssign then add_effect vs False e False C else Some C) = Some C1"
    "write_var_set vs (lhs_write_vars e) C1 = Some C'"
    unfolding left_context_def by (auto simp: bind_eq_Some_conv simp del: if_split_asm)
  have "effect_in vs C1 \<and> stronger vs C C1"
    using c(1) add_effect_stronger [OF assms(1-3), of False C1] assms(2) by (cases "op \<noteq> eSimpleAssign") auto
  with write_var_set_stronger [OF assms(1) _ c(2)] stronger_trans show ?thesis by blast
qed

lemma visit_left_step:
  assumes "visit_left visit a C rc p inputs ctx = Some (True, p', out, ctx')" "call_free (sa_lhs a)"
    and "context_ok p ctx" "effect_in (p_vars p) C" "stronger (p_vars p) (cg_effect_context ctx) C"
    and "effect_in (p_vars p) (cg_effect_stm rc)"
  shows "access_step p ctx p' ctx'"
proof -
  let ?lc = "(CGContext_param ctx C (Some empty_effect))
    \<lparr>cg_effect_stm := Effect_assign empty_effect (cg_effect_stm rc), cg_curr_rhs := Some (sa_expr a)\<rparr>"
  from assms(1) obtain p2 in2 lc p3 fm where l: "visit p inputs ?lc (sa_lhs a) = Some (True, p2, in2, lc)"
    "merge_param_context p2 lc True ctx = Some ctx'" "update_fact_for_stm_assign p2 a in2 = Some (out, p3)"
    "p' = set_fact_mgr (cg_func ctx') fm p3"
    by (auto simp: visit_left_def Let_def bind_eq_Some_conv split: if_splits)
  have part: "part_context p ctx ?lc"
    using assms(4-6) by (simp add: part_context_def CGContext_param_def Effect_assign_def effect_in_def)
  have s: "access_step p ?lc p2 lc" by (rule visit_step [OF l(1) assms(2) part_context_ok [OF assms(3) part]])
  have "access_step p ctx p2 ctx'" by (rule merge_part_step [OF s part l(2)])
  then show ?thesis
    by (rule access_step_other_program) (use update_fact_for_stm_assign_same [OF l(3)] l(4) in simp_all)
qed

lemma visit_assign_step:
  assumes "visit_assign visit a p inputs ctx = Some (True, p', out, ctx')"
    and "call_free (sa_expr a)" "call_free (sa_lhs a)" "context_ok p ctx"
  shows "access_step p ctx p' ctx'"
proof -
  let ?C = "Effect_copy (cg_effect_context ctx)"
  let ?rc = "CGContext_param ctx ?C (Some empty_effect)"
  from assms(1) obtain p1 in1 rc e ctx1 C1 where r: "visit p inputs ?rc (sa_expr a) = Some (True, p1, in1, rc)"
    "cg_effect_accum rc = Some e" "merge_param_context p1 rc True ctx = Some ctx1"
    "left_context (p_vars p1) (sa_op a) e ?C = Some C1"
    "visit_left visit a C1 rc p1 in1 ctx1 = Some (True, p', out, ctx')"
    by (auto simp: visit_assign_def Let_def bind_eq_Some_conv split: if_splits)
  note C = copy_context [OF assms(4)]
  note part = param_part [OF assms(4) conjunct1 [OF C] conjunct2 [OF C]]
  have s: "access_step p ?rc p1 rc" by (rule visit_step [OF r(1) assms(2) part_context_ok [OF assms(4) part]])
  note al = part_allowed [OF s part r(2)]
  have m: "access_step p ctx p1 ctx1" by (rule merge_part_step [OF s part r(3)])
  have typed: "typed_store (p_vars p)" using assms(4) by (simp add: context_ok_def)
  have C1: "effect_in (p_vars p) C1 \<and> stronger (p_vars p) ?C C1"
    by (rule left_context_stronger [OF typed conjunct1 [OF C] allowed_in [OF al(2)] r(4) [unfolded al(3)]])
  have "effect_in (p_vars p1) (cg_effect_stm rc)"
    using access_step_context [OF s part_context_ok [OF assms(4) part]] by (simp add: context_ok_def)
  moreover have "cg_effect_context ctx1 = cg_effect_context ctx"
    using m by (simp add: access_step_def same_place_def)
  ultimately have "access_step p1 ctx1 p' ctx'"
    using visit_left_step [OF r(5) assms(3) access_step_context [OF m assms(4)]] C1 C stronger_trans
    by (metis al(3))
  with m show ?thesis by (rule access_step_trans)
qed

lemma visit_ordered_step:
  assumes "visit_ordered visit e1 e2 p inputs ctx = Some (True, p', out, ctx')"
    and "call_free e1" "call_free e2" "context_ok p ctx"
  shows "access_step p ctx p' ctx'"
proof -
  from assms(1) obtain p1 in1 c1 in2 where r: "visit p inputs ctx e1 = Some (True, p1, in1, c1)"
    "visit p1 in1 c1 e2 = Some (True, p', in2, ctx')"
    by (auto simp: visit_ordered_def Let_def bind_eq_Some_conv split: if_splits)
  from visit_step [OF r(1) assms(2,4)] have s: "access_step p ctx p1 c1" .
  from access_step_trans [OF s visit_step [OF r(2) assms(3) access_step_context [OF s assms(4)]]]
  show ?thesis .
qed

lemma visit_funcall_step:
  assumes "visit_funcall visit body_visit fi p inputs ctx = Some (True, p', out, ctx')"
    and "\<not> is_user_call fi" "\<forall>e \<in> set (param_value fi). call_free e" "context_ok p ctx"
  shows "access_step p ctx p' ctx'"
proof (cases "\<exists>i op flags params. fi = FunctionInvocationBinary i op flags params \<and> IsOrderedStandardFunc op")
  case True
  then obtain i op flags params where fi: "fi = FunctionInvocationBinary i op flags params" "IsOrderedStandardFunc op"
    by blast
  with assms(1) have l: "length params = 2"
    "visit_ordered visit (params ! 0) (params ! 1) p inputs ctx = Some (True, p', out, ctx')"
    by (simp_all add: visit_funcall_def)
  from l(1) fi(1) assms(3) have "call_free (params ! 0)" "call_free (params ! 1)" by simp_all
  from visit_ordered_step [OF l(2) this assms(4)] show ?thesis .
next
  case False
  with assms(1) have "visit_invocation visit body_visit fi p inputs ctx = Some (True, p', out, ctx')"
    by (auto simp: visit_funcall_def split: FunctionInvocation.splits if_splits)
  from visit_invocation_step [OF this assms(2-4)] show ?thesis .
qed

lemma visit_expression_sound: "sound_visitor (visit_expression visit body_visit)"
proof
  fix p facts ctx e p' facts' ctx'
  assume v: "visit_expression visit body_visit p facts ctx e = Some (True, p', facts', ctx')"
    and c: "call_free e" and ok: "context_ok p ctx"
  show "access_step p ctx p' ctx'"
  proof (cases e)
    case (ExpressionVariable i x t)
    with v visit_variable_step [OF _ ok] show ?thesis by simp
  next
    case (ExpressionFuncall i fi)
    with c have "\<not> is_user_call fi" "\<forall>e \<in> set (param_value fi). call_free e"
      by (auto simp: call_free_def split: if_splits)
    with ExpressionFuncall v visit_funcall_step [OF _ _ _ ok] show ?thesis by simp
  next
    case (ExpressionAssign i a)
    with c have "call_free (sa_expr a)" "call_free (sa_lhs a)" by (cases a; simp add: call_free_def)+
    with ExpressionAssign v visit_assign_step [OF _ _ _ ok] show ?thesis by simp
  next
    case (ExpressionComma i l r)
    with v obtain p1 f1 c1 where r: "visit p facts ctx l = Some (True, p1, f1, c1)"
      "visit p1 f1 c1 r = Some (True, p', facts', ctx')"
      by (auto simp: bind_eq_Some_conv split: if_splits)
    from ExpressionComma c have cf: "call_free l" "call_free r" by (simp_all add: call_free_def)
    from visit_step [OF r(1) cf(1) ok] have s: "access_step p ctx p1 c1" .
    from access_step_trans [OF s visit_step [OF r(2) cf(2) access_step_context [OF s ok]]] show ?thesis .
  next
    case (Lhs i x t cmp)
    with v visit_lhs_step [OF _ ok] show ?thesis by simp
  qed (use v in auto)
qed

end

end
