(* ===== verification/StmAnalysis.thy ===== *)
theory StmAnalysis
  imports ExprAnalysis
begin

text \<open>
  The analysis of statements and blocks: \<open>visit_facts\<close> of the classes under \<open>Statement\<close>, the shortcut that
  reuses an earlier result, the iteration of a block to a fixed point, and the bookkeeping around the
  visit of one statement (\<open>Statement.cpp\<close>, \<open>Block.cpp\<close>, \<open>StatementIf.cpp\<close>, \<open>StatementFor.cpp\<close>,
  \<open>StatementGoto.cpp\<close>, \<open>StatementReturn.cpp\<close>, \<open>StatementArrayOp.cpp\<close> and others).  At the end the
  visits of expressions and statements are tied together.
\<close>

section \<open>The manager of the current function\<close>

definition upd_fm :: "CGContext \<Rightarrow> (FactMgr \<Rightarrow> FactMgr) \<Rightarrow> program \<Rightarrow> program option" where
  "upd_fm ctx g p = do { fm \<leftarrow> get_fact_mgr p (cg_func ctx); Some (set_fact_mgr (cg_func ctx) (g fm) p) }"

definition save_effect :: "stm_ref \<Rightarrow> CGContext \<Rightarrow> program \<Rightarrow> program option" where
  "save_effect r ctx p = upd_fm ctx (set_stm_effect r (cg_effect_stm ctx)) p"

definition effect_after_block :: "stm_ref \<Rightarrow> nat \<Rightarrow> CGContext \<Rightarrow> Effect \<Rightarrow> program \<Rightarrow> (Effect \<times> program) option" where
  "effect_after_block r b ctx eff p =
     do {
       fm \<leftarrow> get_fact_mgr p (cg_func ctx);
       (eff, fm) \<leftarrow> set_accumulated_effect_after_block p r eff b fm;
       Some (eff, set_fact_mgr (cg_func ctx) fm p)
     }"

section \<open>Simple statements\<close>

definition visit_test :: "visitor \<Rightarrow> Expression \<Rightarrow> stm_ref \<Rightarrow> program \<Rightarrow> Fact list \<Rightarrow> CGContext \<Rightarrow> visited" where
  "visit_test visit test r p inputs ctx =
     do {
       (ok, p, inputs, ctx) \<leftarrow> visit p inputs ctx test;
       if \<not> ok then Some (False, p, inputs, ctx)
       else do { p \<leftarrow> save_effect r ctx p; Some (True, p, inputs, ctx) }
     }"

text \<open>The effect of an expression statement is saved even when it is rejected.\<close>

definition visit_expr_stm :: "visitor \<Rightarrow> Expression \<Rightarrow> stm_ref \<Rightarrow> program \<Rightarrow> Fact list \<Rightarrow> CGContext \<Rightarrow> visited" where
  "visit_expr_stm visit e r p inputs ctx =
     do {
       (ok, p, inputs, ctx) \<leftarrow> visit p inputs ctx e;
       p \<leftarrow> save_effect r ctx p;
       Some (ok, p, inputs, ctx)
     }"

definition visit_return :: "visitor \<Rightarrow> Expression \<Rightarrow> nat \<Rightarrow> program \<Rightarrow> Fact list \<Rightarrow> CGContext \<Rightarrow> visited" where
  "visit_return visit e i p inputs ctx =
     do {
       (v, t) \<leftarrow> (case e of ExpressionVariable _ v t \<Rightarrow> Some (v, t) | _ \<Rightarrow> None);
       indirection \<leftarrow> indirect_level (p_vars p) v t;
       bad \<leftarrow> (if opt_no_return_dead_ptr (p_opts p)
              then do {
                b \<leftarrow> cg_curr_blk ctx;
                is_pointing_to_locals (p_vars p) (p_funcs p) (p_blocks p) v (Some b) indirection inputs
              }
              else Some False);
       if bad then Some (False, p, inputs, ctx)
       else do {
         (ok, p, inputs, ctx) \<leftarrow> visit p inputs ctx e;
         if \<not> ok then Some (False, p, inputs, ctx)
         else do {
           (inputs, p) \<leftarrow> update_fact_for_return p i inputs;
           p \<leftarrow> save_effect (StmRef i) ctx p;
           Some (True, p, inputs, ctx)
         }
       }
     }"

text \<open>Variables that are written in turn: the declarations a jump skips, the controls of an array loop.\<close>

fun write_each :: "visitor \<Rightarrow> nat list \<Rightarrow> program \<Rightarrow> Fact list \<Rightarrow> CGContext \<Rightarrow> (bool \<times> program \<times> CGContext) option" where
  "write_each visit [] p inputs ctx = Some (True, p, ctx)"
| "write_each visit (v # vs) p inputs ctx =
     do {
       (ok, p, ctx) \<leftarrow> check_write_var visit v p inputs ctx;
       if ok then write_each visit vs p inputs ctx else Some (False, p, ctx)
     }"

text \<open>When the facts at a jump have become fewer, its target is analysed anew.\<close>

definition forget_target :: "stm_ref \<Rightarrow> stm_ref \<Rightarrow> Fact list \<Rightarrow> FactMgr \<Rightarrow> FactMgr" where
  "forget_target this dest inputs fm =
     (let out = facts_at (fm_facts_out fm) this in
      if \<not> fm_visited fm this \<and> \<not> fm_visited fm dest \<and> \<not> same_facts inputs out \<and> subset_facts inputs out
      then fm\<lparr>fm_facts_in := (fm_facts_in fm)(dest \<mapsto> []), fm_facts_out := (fm_facts_out fm)(dest \<mapsto> [])\<rparr>
      else fm)"

definition visit_goto ::
    "visitor \<Rightarrow> Expression \<Rightarrow> stm_ref \<Rightarrow> nat list \<Rightarrow> stm_ref \<Rightarrow> program \<Rightarrow> Fact list \<Rightarrow> CGContext \<Rightarrow> visited" where
  "visit_goto visit test dest skipped this p inputs ctx =
     do {
       (ok, p, inputs, ctx) \<leftarrow> visit p inputs ctx test;
       if \<not> ok then Some (False, p, inputs, ctx)
       else do {
         (ok, p, ctx) \<leftarrow> write_each visit skipped p inputs ctx;
         if \<not> ok then Some (False, p, inputs, ctx)
         else do {
           p \<leftarrow> upd_fm ctx (forget_target this dest inputs) p;
           p \<leftarrow> save_effect this ctx p;
           Some (True, p, inputs, ctx)
         }
       }
     }"

section \<open>Branches and loops\<close>

definition visit_if :: "visitor \<Rightarrow> stm_visitor \<Rightarrow> Expression \<Rightarrow> nat \<Rightarrow> nat \<Rightarrow> stm_ref \<Rightarrow> program \<Rightarrow> Fact list \<Rightarrow> CGContext \<Rightarrow> visited" where
  "visit_if visit svisit test if_true if_false this p inputs_copy ctx =
     do {
       (ok, p, inputs, ctx) \<leftarrow> visit p inputs_copy ctx test;
       if \<not> ok then Some (False, p, inputs, ctx)
       else do {
         let eff = Effect_copy (cg_effect_stm ctx);
         (ok, p, inputs_true, ctx) \<leftarrow> svisit p inputs ctx (BlockRef if_true);
         if \<not> ok then Some (False, p, inputs, ctx)
         else do {
           (ok, p, inputs_false, ctx) \<leftarrow> svisit p inputs ctx (BlockRef if_false);
           if \<not> ok then Some (False, p, inputs, ctx)
           else do {
             (eff, p) \<leftarrow> effect_after_block this if_true ctx eff p;
             (eff, p) \<leftarrow> effect_after_block this if_false ctx eff p;
             tr \<leftarrow> must_return p if_true;
             fr \<leftarrow> must_return p if_false;
             let outputs = (if tr \<and> fr then inputs_copy else if tr then inputs_false
               else if fr then inputs_true else snd (merge_facts inputs_true inputs_false));
             Some (True, p, outputs, ctx)
           }
         }
       }
     }"

text \<open>After the body of a loop: the facts at its head, or those before the loop when the body must return,
  merged with those of the jumps behind the loop.\<close>

definition loop_exit_facts :: "stm_ref \<Rightarrow> nat \<Rightarrow> Fact list \<Rightarrow> program \<Rightarrow> CGContext \<Rightarrow> Fact list option" where
  "loop_exit_facts this body facts_copy p ctx =
     do {
       fm \<leftarrow> get_fact_mgr p (cg_func ctx);
       ret \<leftarrow> must_return p body;
       let inputs = (if ret then facts_copy else facts_at (fm_facts_in fm) (BlockRef body));
       edges \<leftarrow> find_edges_in p this True False;
       fold_opt (\<lambda>e inputs. map_option snd
           (merge_jump_facts (p_vars p) inputs (facts_at (fm_facts_out fm) (edge_src e)))) edges inputs
     }"

definition visit_for ::
    "visitor \<Rightarrow> stm_visitor \<Rightarrow> Assign \<Rightarrow> nat \<Rightarrow> stm_ref \<Rightarrow> program \<Rightarrow> Fact list \<Rightarrow> CGContext \<Rightarrow> visited" where
  "visit_for visit svisit init body this p inputs ctx =
     do {
       (ok, p, inputs, ctx) \<leftarrow> visit_assign visit init p inputs ctx;
       if \<not> ok then Some (False, p, inputs, ctx)
       else do {
         let eff = Effect_copy (cg_effect_stm ctx);
         iv \<leftarrow> (case sa_lhs init of Lhs _ v _ _ \<Rightarrow> Some v | _ \<Rightarrow> None);
         t \<leftarrow> type_of (p_vars p) iv;
         assert_opt (eType t = eSimple \<and> map_of (cg_iv_bounds ctx) iv = None);
         let bounds = cg_iv_bounds ctx;
         (ok, p, out, ctx) \<leftarrow> svisit p inputs (ctx\<lparr>cg_iv_bounds := map_put iv 0 bounds\<rparr>) (BlockRef body);
         let outer = ctx\<lparr>cg_iv_bounds := filter (\<lambda>(v, n). v \<noteq> iv) (cg_iv_bounds ctx)\<rparr>;
         if \<not> ok then Some (False, p, out, outer)
         else do {
           out \<leftarrow> loop_exit_facts this body inputs p ctx;
           (eff, p) \<leftarrow> effect_after_block this body ctx eff p;
           Some (True, p, out, outer)
         }
       }
     }"

definition visit_array_init ::
    "visitor \<Rightarrow> nat \<Rightarrow> Expression \<Rightarrow> stm_ref \<Rightarrow> program \<Rightarrow> Fact list \<Rightarrow> CGContext \<Rightarrow> visited" where
  "visit_array_init visit arr e this p inputs ctx =
     do {
       (ok, p, inputs, ctx) \<leftarrow> visit p inputs ctx e;
       if \<not> ok then Some (False, p, inputs, ctx)
       else do {
         t \<leftarrow> type_of (p_vars p) arr;
         (ok, p, inputs, ctx) \<leftarrow> visit_lhs visit (Lhs 0 arr t False) arr t False p inputs ctx;
         if \<not> ok then Some (False, p, inputs, ctx)
         else do {
           (_, inputs) \<leftarrow> update_fact_for_assign p (p_meta p) (arr, t) (Some e) inputs;
           p \<leftarrow> save_effect this ctx p;
           Some (True, p, inputs, ctx)
         }
       }
     }"

definition visit_array_op ::
    "visitor \<Rightarrow> stm_visitor \<Rightarrow> nat \<Rightarrow> nat list \<Rightarrow> nat option \<Rightarrow> Expression option \<Rightarrow> stm_ref \<Rightarrow>
     program \<Rightarrow> Fact list \<Rightarrow> CGContext \<Rightarrow> visited" where
  "visit_array_op visit svisit arr ctrl_vars body init_value this p inputs ctx =
     do {
       x \<leftarrow> vec_get (p_vars p) arr;
       assert_opt (length (v_sizes x) \<le> length ctrl_vars);
       (ok, p, ctx) \<leftarrow> write_each visit (take (length (v_sizes x)) ctrl_vars) p inputs ctx;
       if \<not> ok then Some (False, p, inputs, ctx)
       else (case (body, init_value) of
           (Some b, _) \<Rightarrow> do {
             let eff = Effect_copy (cg_effect_stm ctx);
             (ok, p, out, ctx) \<leftarrow> svisit p inputs ctx (BlockRef b);
             if \<not> ok then Some (False, p, out, ctx)
             else do {
               out \<leftarrow> loop_exit_facts this b inputs p ctx;
               (eff, p) \<leftarrow> effect_after_block this b ctx eff p;
               Some (True, p, out, ctx)
             }
           }
         | (None, Some e) \<Rightarrow> visit_array_init visit arr e this p inputs ctx
         | (None, None) \<Rightarrow> Some (True, p, inputs, ctx))
     }"

section \<open>The visit of one statement\<close>

text \<open>The virtual \<open>visit_facts\<close> of the statements that are not blocks.\<close>

definition visit_kind :: "visitor \<Rightarrow> stm_visitor \<Rightarrow> nat \<Rightarrow> stm_kind \<Rightarrow> program \<Rightarrow> Fact list \<Rightarrow> CGContext \<Rightarrow> visited" where
  "visit_kind visit svisit i k p inputs ctx = (case k of
       StatementAssign a \<Rightarrow> visit_assign visit a p inputs ctx
     | StatementFor init test incr body \<Rightarrow> visit_for visit svisit init body (StmRef i) p inputs ctx
     | StatementIf test t f \<Rightarrow> visit_if visit svisit test t f (StmRef i) p inputs ctx
     | StatementExpr e \<Rightarrow> visit_expr_stm visit e (StmRef i) p inputs ctx
     | StatementReturn e \<Rightarrow> visit_return visit e i p inputs ctx
     | StatementContinue test b \<Rightarrow> visit_test visit test (StmRef i) p inputs ctx
     | StatementBreak test b \<Rightarrow> visit_test visit test (StmRef i) p inputs ctx
     | StatementGoto test dest l skipped \<Rightarrow> visit_goto visit test dest skipped (StmRef i) p inputs ctx
     | StatementArrayOp arr cvs body init \<Rightarrow> visit_array_op visit svisit arr cvs body init (StmRef i) p inputs ctx
     | StatementHIPSync \<Rightarrow> Some (True, p, inputs, ctx))"

text \<open>0: the earlier result holds again; 1: its effects conflict with this context; 2: no shortcut.\<close>

definition shortcut_analysis ::
    "stm_ref \<Rightarrow> program \<Rightarrow> Fact list \<Rightarrow> CGContext \<Rightarrow> (nat \<times> program \<times> Fact list \<times> CGContext) option" where
  "shortcut_analysis r p inputs ctx =
     do {
       f \<leftarrow> stm_func p r;
       fm \<leftarrow> get_fact_mgr p f;
       t \<leftarrow> stm_type p r;
       same \<leftarrow> (if same_facts inputs (facts_at (fm_facts_in fm) r) \<and> \<not> is_ctrl_stmt t
               then map_option Not (contains_unfixed_goto p r) else Some False);
       if \<not> same then Some (2, p, inputs, ctx)
       else do {
         conflict \<leftarrow> in_conflict p ctx (fm_stm_effect fm r);
         if conflict then Some (1, p, inputs, ctx)
         else do {
           ctx \<leftarrow> cg_add_effect p (fm_stm_effect fm r) False ctx;
           accum \<leftarrow> cg_effect_accum ctx;
           Some (0, set_fact_mgr f (set_accum_effect r accum fm) p, facts_at (fm_facts_out fm) r, ctx)
         }
       }
     }"

definition stm_visit_facts :: "stm_visitor \<Rightarrow> stm_visitor" where
  "stm_visit_facts svisit p inputs ctx r =
     do {
       parent \<leftarrow> stm_parent p r;
       t \<leftarrow> stm_type p r;
       (ok, p, inputs, ctx) \<leftarrow> svisit p inputs (ctx\<lparr>cg_effect_stm := Effect_clear (cg_effect_stm ctx), cg_curr_blk := parent\<rparr>) r;
       let p = (if \<not> ok \<and> \<not> is_compound t then p\<lparr>p_failed_stm := Some r\<rparr> else p);
       f \<leftarrow> cg_func ctx;
       inputs \<leftarrow> remove_rv_facts p f inputs;
       accum \<leftarrow> cg_effect_accum ctx;
       p \<leftarrow> upd_fm ctx (\<lambda>fm. (set_accum_effect r accum fm)\<lparr>fm_visited := (fm_visited fm)(r := True)\<rparr>) p;
       Some (ok, p, inputs, ctx)
     }"

text \<open>The jumps inside a statement that is skipped count as visited.\<close>

definition mark_gotos :: "stm_ref \<Rightarrow> program \<Rightarrow> FactMgr \<Rightarrow> FactMgr option" where
  "mark_gotos r p fm =
     fold_opt (\<lambda>e fm. do {
         t \<leftarrow> stm_type p (edge_src e);
         inside \<leftarrow> (if t = eGoto then contains_stmt p r (edge_src e) else Some False);
         Some (if inside then fm\<lparr>fm_visited := (fm_visited fm)(edge_src e := True)\<rparr> else fm)
       }) (fm_cfg_edges fm) fm"

definition validate_and_update_facts :: "stm_visitor \<Rightarrow> stm_visitor" where
  "validate_and_update_facts svisit p inputs ctx r =
     do {
       f \<leftarrow> stm_func p r;
       (shortcut, p, inputs, ctx) \<leftarrow> shortcut_analysis r p inputs ctx;
       if shortcut = 0
       then do {
         fm \<leftarrow> get_fact_mgr p f;
         fm \<leftarrow> mark_gotos r p fm;
         Some (True, set_fact_mgr f fm p, inputs, ctx)
       }
       else if shortcut = 1 then Some (False, p, inputs, ctx)
       else do {
         (ok, p, outputs, ctx) \<leftarrow> stm_visit_facts svisit p inputs ctx r;
         if \<not> ok then Some (False, p, outputs, ctx)
         else do {
           fm \<leftarrow> get_fact_mgr p f;
           fm \<leftarrow> set_fact_out p r outputs (set_fact_in r inputs fm);
           Some (True, set_fact_mgr f fm p, outputs, ctx)
         }
       }
     }"

text \<open>The facts and effects that jumps to a statement bring along.\<close>

definition merge_edges :: "CGContext \<Rightarrow> CFGEdge list \<Rightarrow> program \<Rightarrow> Fact list \<Rightarrow> (Fact list \<times> CGContext) option" where
  "merge_edges ctx edges p inputs =
     do {
       fm \<leftarrow> get_fact_mgr p (cg_func ctx);
       fold_opt (\<lambda>e (inputs, ctx).
           if fm_visited fm (edge_src e)
           then do {
             (_, inputs) \<leftarrow> merge_jump_facts (p_vars p) inputs (facts_at (fm_facts_out fm) (edge_src e));
             ctx \<leftarrow> cg_add_effect p (fm_accum_effect fm (edge_src e)) False ctx;
             Some (inputs, ctx)
           }
           else Some (inputs, ctx)) edges (inputs, ctx)
     }"

definition analyze_with_edges_in :: "stm_visitor \<Rightarrow> stm_visitor" where
  "analyze_with_edges_in svisit p inputs ctx r =
     do {
       fm \<leftarrow> get_fact_mgr p (cg_func ctx);
       back \<leftarrow> (if fm_visited fm r then find_edges_in p r False True else Some []);
       (inputs, ctx) \<leftarrow> merge_edges ctx back p inputs;
       forward \<leftarrow> find_edges_in p r False False;
       (inputs, ctx) \<leftarrow> merge_edges ctx forward p inputs;
       validate_and_update_facts svisit p inputs ctx r
     }"

section \<open>Blocks\<close>

text \<open>One pass over the statements of a block; on failure the position of the statement that failed.\<close>

fun visit_stms ::
    "stm_visitor \<Rightarrow> nat list \<Rightarrow> nat \<Rightarrow> program \<Rightarrow> Fact list \<Rightarrow> CGContext \<Rightarrow>
     (nat option \<times> program \<times> Fact list \<times> CGContext) option" where
  "visit_stms svisit [] i p outputs ctx = Some (None, p, outputs, ctx)"
| "visit_stms svisit (s # ss) i p outputs ctx =
     do {
       (ok, p, outputs, ctx) \<leftarrow> analyze_with_edges_in svisit p outputs ctx (StmRef s);
       if ok then visit_stms svisit ss (Suc i) p outputs ctx else Some (Some i, p, outputs, ctx)
     }"

text \<open>What \<open>find_fixed_point\<close> leaves: whether it converged, \<open>fail_index\<close>, \<open>post_facts\<close>.\<close>

type_synonym fixed_point_result = "(bool \<times> nat \<times> Fact list \<times> program \<times> CGContext) option"

definition merge_back_edges :: "nat \<Rightarrow> program \<Rightarrow> FactMgr \<Rightarrow> Fact list \<Rightarrow> Fact list option" where
  "merge_back_edges b p fm inputs =
     do {
       edges \<leftarrow> find_edges_in p (BlockRef b) False True;
       Some (foldl (\<lambda>inputs e. snd (merge_facts inputs (facts_at (fm_facts_out fm) (edge_src e)))) inputs edges)
     }"

text \<open>After a pass: the facts at the block, without those about its locals, and its effect.\<close>

definition finish_pass :: "nat \<Rightarrow> Fact list \<Rightarrow> Fact list \<Rightarrow> program \<Rightarrow> CGContext \<Rightarrow> program option" where
  "finish_pass b inputs outputs p ctx =
     do {
       blk \<leftarrow> vec_get (p_blocks p) b;
       fm \<leftarrow> get_fact_mgr p (cg_func ctx);
       outputs \<leftarrow> update_facts_for_oos_vars (p_vars p) (b_local_vars blk) outputs;
       fm \<leftarrow> set_fact_out p (BlockRef b) outputs (set_fact_in (BlockRef b) inputs fm);
       fm \<leftarrow> set_accumulated_effect p b (fm\<lparr>fm_visited := (fm_visited fm)(BlockRef b := True)\<rparr>);
       Some (set_fact_mgr (cg_func ctx) fm p)
     }"

text \<open>One round of the loop of \<open>find_fixed_point\<close>: it ends (\<open>Inl\<close>) by the shortcut or at a statement that
  fails, or goes on (\<open>Inr\<close>) with a new \<open>cnt\<close>, \<open>post_facts\<close>, \<open>inputs\<close> and state.\<close>

definition fixed_point_round ::
    "stm_visitor \<Rightarrow> nat \<Rightarrow> nat \<Rightarrow> bool \<Rightarrow> Fact list \<Rightarrow> nat \<Rightarrow> Fact list \<Rightarrow> program \<Rightarrow> CGContext \<Rightarrow>
     ((bool \<times> nat \<times> Fact list \<times> program \<times> CGContext) + (nat \<times> Fact list \<times> Fact list \<times> program \<times> CGContext)) option" where
  "fixed_point_round svisit b cnt visit_once post_facts fail_index inputs p ctx =
     do {
       fm \<leftarrow> get_fact_mgr p (cg_func ctx);
       let visited = fm_visited fm (BlockRef b);
       assert_opt (\<not> (visited \<and> cnt > 7));
       inputs \<leftarrow> (if visited then merge_back_edges b p fm inputs else Some inputs);
       let cnt = (if visited then cnt + 1 else cnt);
       (shortcut, p, inputs, ctx) \<leftarrow> (if visit_once then Some (2, p, inputs, ctx)
                                    else shortcut_analysis (BlockRef b) p inputs ctx);
       if shortcut = 0 then Some (Inl (True, fail_index, post_facts, p, ctx))
       else do {
         blk \<leftarrow> vec_get (p_blocks p) b;
         outputs \<leftarrow> fold_opt (add_new_var_fact p (p_meta p)) (b_local_vars blk) inputs;
         (failed, p, outputs, ctx) \<leftarrow> visit_stms svisit (b_stms blk) 0 p outputs ctx;
         (case failed of
            Some i \<Rightarrow> Some (Inl (False, i, post_facts, p, ctx))
          | None \<Rightarrow> do { p \<leftarrow> finish_pass b inputs outputs p ctx; Some (Inr (cnt, outputs, inputs, p, ctx)) })
       }
     }"

text \<open>
  Every round marks the block as visited, and the ninth round that starts with a visited block fails
  the assertion on \<open>cnt\<close>; so the ten rounds that \<open>find_fixed_point\<close> allows are never used up
  (lemma \<open>ten_rounds_suffice\<close>).
\<close>

fun fixed_point ::
    "stm_visitor \<Rightarrow> nat \<Rightarrow> nat \<Rightarrow> nat \<Rightarrow> bool \<Rightarrow> Fact list \<Rightarrow> nat \<Rightarrow> Fact list \<Rightarrow> program \<Rightarrow> CGContext \<Rightarrow> fixed_point_result" where
  "fixed_point svisit b 0 cnt visit_once post_facts fail_index inputs p ctx = None"
| "fixed_point svisit b (Suc n) cnt visit_once post_facts fail_index inputs p ctx =
     do {
       r \<leftarrow> fixed_point_round svisit b cnt visit_once post_facts fail_index inputs p ctx;
       (case r of
          Inl res \<Rightarrow> Some res
        | Inr (cnt, post_facts, inputs, p, ctx) \<Rightarrow> fixed_point svisit b n cnt False post_facts fail_index inputs p ctx)
     }"

definition find_fixed_point ::
    "stm_visitor \<Rightarrow> nat \<Rightarrow> bool \<Rightarrow> Fact list \<Rightarrow> nat \<Rightarrow> Fact list \<Rightarrow> program \<Rightarrow> CGContext \<Rightarrow> fixed_point_result" where
  "find_fixed_point svisit b visit_once post_facts fail_index inputs p ctx =
     fixed_point svisit b 10 0 visit_once post_facts fail_index inputs p ctx"

definition block_visited :: "nat \<Rightarrow> program \<Rightarrow> CGContext \<Rightarrow> bool" where
  "block_visited b p ctx \<longleftrightarrow> (\<exists>fm. get_fact_mgr p (cg_func ctx) = Some fm \<and> fm_visited fm (BlockRef b))"

lemma get_set_fact_mgr: "get_fact_mgr p f = Some fm \<Longrightarrow> get_fact_mgr (set_fact_mgr f fm1 p) f = Some fm1"
  by (auto simp: get_fact_mgr_def set_fact_mgr_def bind_eq_Some_conv)

lemma finish_pass_visits:
  assumes "finish_pass b inputs outputs p ctx = Some p'"
  shows "block_visited b p' ctx"
proof -
  from assms obtain fm0 fm1 fm where "get_fact_mgr p (cg_func ctx) = Some fm0"
    "set_accumulated_effect p b (fm1\<lparr>fm_visited := (fm_visited fm1)(BlockRef b := True)\<rparr>) = Some fm"
    "p' = set_fact_mgr (cg_func ctx) fm p"
    by (auto simp: finish_pass_def bind_eq_Some_conv)
  then show ?thesis
    using get_set_fact_mgr by (auto simp: block_visited_def set_accumulated_effect_def set_stm_effect_def)
qed

lemma fixed_point_round_progress:
  assumes "fixed_point_round svisit b cnt once post i inputs p ctx = Some (Inr (cnt', post', inputs', p', ctx'))"
  shows "block_visited b p' ctx' \<and> (if block_visited b p ctx then cnt' = cnt + 1 \<and> cnt \<le> 7 else cnt' = cnt)"
proof -
  from assms obtain fm where fm: "get_fact_mgr p (cg_func ctx) = Some fm"
    "fm_visited fm (BlockRef b) \<Longrightarrow> cnt \<le> 7" "cnt' = (if fm_visited fm (BlockRef b) then cnt + 1 else cnt)"
    "\<exists>ins outs q. finish_pass b ins outs q ctx' = Some p'"
    by (auto simp: fixed_point_round_def Let_def bind_eq_Some_conv split: if_splits option.splits)
  with finish_pass_visits show ?thesis by (auto simp: block_visited_def)
qed

text \<open>The number of rounds that can still start.\<close>

definition rounds_left :: "nat \<Rightarrow> nat \<Rightarrow> program \<Rightarrow> CGContext \<Rightarrow> nat" where
  "rounds_left b cnt p ctx = (if block_visited b p ctx then 9 - cnt else 10 - cnt)"

lemma fixed_point_fuel:
  "rounds_left b cnt p ctx \<le> n \<Longrightarrow> cnt \<le> 8 \<Longrightarrow>
     fixed_point svisit b (Suc n) cnt once post i inputs p ctx = fixed_point svisit b n cnt once post i inputs p ctx"
proof (induction n arbitrary: cnt once post inputs p ctx)
  case 0
  then show ?case by (simp add: rounds_left_def split: if_splits)
next
  case (Suc n)
  have step: "fixed_point svisit b (Suc n) cnt' False post' i inputs' p' ctx' =
      fixed_point svisit b n cnt' False post' i inputs' p' ctx'"
    if "fixed_point_round svisit b cnt once post i inputs p ctx = Some (Inr (cnt', post', inputs', p', ctx'))"
    for cnt' post' inputs' p' ctx'
    using fixed_point_round_progress [OF that] Suc.prems
    by (intro Suc.IH) (auto simp: rounds_left_def split: if_splits)
  show ?case
  proof (cases "fixed_point_round svisit b cnt once post i inputs p ctx")
    case (Some r)
    then show ?thesis
    proof (cases r)
      case (Inr y)
      obtain cnt' post' inputs' p' ctx' where y: "y = (cnt', post', inputs', p', ctx')" by (cases y) auto
      from step [OF Some [unfolded Inr y]] Some Inr y show ?thesis by (simp del: fixed_point.simps(1))
    qed simp
  qed simp
qed

lemma ten_rounds_suffice:
  assumes "10 \<le> n"
  shows "fixed_point svisit b n 0 once post i inputs p ctx = find_fixed_point svisit b once post i inputs p ctx"
  using assms
proof (induction n rule: dec_induct)
  case (step n)
  then show ?case using fixed_point_fuel [of b 0 p ctx n] by (simp add: rounds_left_def)
qed (simp add: find_fixed_point_def)

text \<open>\<open>Block::visit_facts\<close>\<close>

definition visit_block :: "stm_visitor \<Rightarrow> nat \<Rightarrow> program \<Rightarrow> Fact list \<Rightarrow> CGContext \<Rightarrow> visited" where
  "visit_block svisit b p inputs ctx =
     do {
       let pre_effect = get_accum_effect ctx;
       (ok, i, post, p, ctx) \<leftarrow> find_fixed_point svisit b False [] 0 inputs p ctx;
       if \<not> ok then Some (False, p, inputs, reset_effect_accum pre_effect ctx)
       else do {
         fm \<leftarrow> get_fact_mgr p (cg_func ctx);
         p \<leftarrow> upd_fm ctx (\<lambda>fm. fm\<lparr>fm_visited := (fm_visited fm)(BlockRef b := True)\<rparr>) p;
         Some (True, p, facts_at (fm_facts_out fm) (BlockRef b), ctx)
       }
     }"

definition visit_statement :: "visitor \<Rightarrow> stm_visitor \<Rightarrow> stm_visitor" where
  "visit_statement visit svisit p inputs ctx r = (case r of
       BlockRef b \<Rightarrow> visit_block svisit b p inputs ctx
     | StmRef i \<Rightarrow> do { s \<leftarrow> vec_get (p_stms p) i; visit_kind visit svisit i (s_kind s) p inputs ctx })"

section \<open>The analysis\<close>

text \<open>Both visits with a bound on the depth of nested visits: of expressions, statements and calls.\<close>

fun analysis :: "nat \<Rightarrow> visitor \<times> stm_visitor" where
  "analysis 0 = (\<lambda>p facts ctx e. None, \<lambda>p facts ctx r. None)"
| "analysis (Suc n) = (let (visit, svisit) = analysis n in
     (visit_expression visit svisit, visit_statement visit svisit))"

definition visit_facts :: "nat \<Rightarrow> visitor" where
  "visit_facts n = fst (analysis n)"

definition stm_visit :: "nat \<Rightarrow> stm_visitor" where
  "stm_visit n = snd (analysis n)"

lemma visit_facts_simps [simp]:
  "visit_facts 0 p facts ctx e = None"
  "visit_facts (Suc n) = visit_expression (visit_facts n) (stm_visit n)"
  "stm_visit 0 p facts ctx r = None"
  "stm_visit (Suc n) = visit_statement (visit_facts n) (stm_visit n)"
  by (simp_all add: visit_facts_def stm_visit_def split_beta)

interpretation analysis: sound_visitor "visit_facts n" for n
proof (induction n)
  case 0
  show ?case by unfold_locales simp
next
  case (Suc n)
  from sound_visitor.visit_expression_sound [OF Suc] show ?case by simp
qed

section \<open>Accepted expressions do not conflict\<close>

text \<open>Two effects of unsequenced parts: \<open>b\<close> is clear of \<open>a\<close>.\<close>

definition clear_of :: "'e vars \<Rightarrow> Effect \<Rightarrow> Effect \<Rightarrow> bool" where
  "clear_of vs a b \<longleftrightarrow> (\<forall>v \<in> set (read_vars b). clear_of_writes vs a v)
     \<and> (\<forall>v \<in> set (write_vars b). clear_of_writes vs a v \<and> clear_of_reads vs a v)"

lemma allowed_clear: "allowed p ctx e \<Longrightarrow> clear_of (p_vars p) (cg_effect_context ctx) e"
  by (simp add: allowed_def clear_of_def readable_def writable_def)

lemma clear_of_stronger: "stronger vs a C \<Longrightarrow> clear_of vs C e \<Longrightarrow> clear_of vs a e"
  by (simp add: clear_of_def stronger_def)

lemma access_step_allowed:
  assumes "access_step p ctx p' ctx'" "cg_effect_accum ctx = Some empty_effect"
  shows "\<exists>a. cg_effect_accum ctx' = Some a \<and> allowed p ctx a"
  using assms by (auto simp: access_step_def accum_step_def new_accesses_def allowed_def empty_effect_def
      split: option.splits)

lemma accepted_allowed:
  assumes "visit_facts n p inputs ctx e = Some (True, p', out, ctx')" "call_free e" "context_ok p ctx"
    and "cg_effect_accum ctx = Some empty_effect"
  shows "\<exists>a. cg_effect_accum ctx' = Some a \<and> clear_of (p_vars p) (cg_effect_context ctx) a
    \<and> (\<forall>v \<in> set (read_vars a). is_nonreadable p ctx v = Some False)
    \<and> (\<forall>v \<in> set (write_vars a). is_nonwritable p ctx v = Some False \<and> var_is_const (p_vars p) v = Some False)
    \<and> (side_effect_free (cg_effect_context ctx) \<or>
        (\<forall>v \<in> set (read_vars a) \<union> set (write_vars a). var_is_volatile (p_vars p) v = Some False))"
proof -
  from access_step_allowed [OF analysis.visit_step [OF assms(1-3)] assms(4)] obtain a where
    a: "cg_effect_accum ctx' = Some a" "allowed p ctx a" by blast
  from allowed_clear [OF a(2)] a show ?thesis
    by (intro exI [of _ a]) (auto simp: allowed_def readable_def writable_def)
qed

lemma operands_clear:
  assumes "visit_params (visit_facts n) l [e1, e2] running p inputs ctx = Some (True, p', out, ctx')"
    and "call_free e1" "call_free e2" "context_ok p ctx" "effect_in (p_vars p) running"
    and "stronger (p_vars p) (cg_effect_context ctx) running"
  shows "\<exists>p1 in1 c1 a1 ctx1 run1 c2 a2.
    visit_facts n p inputs (CGContext_param ctx running (Some empty_effect)) e1 = Some (True, p1, in1, c1)
    \<and> cg_effect_accum c1 = Some a1
    \<and> visit_facts n p1 in1 (CGContext_param ctx1 run1 (Some empty_effect)) e2 = Some (True, p', out, c2)
    \<and> cg_effect_accum c2 = Some a2 \<and> clear_of (p_vars p) a1 a2"
proof -
  let ?c = "CGContext_param ctx running (Some empty_effect)"
  from assms(1) obtain p1 in1 c1 a1 run1 ctx1 c2 a2 where r: "visit_facts n p inputs ?c e1 = Some (True, p1, in1, c1)"
    "cg_effect_accum c1 = Some a1" "add_effect (p_vars p1) False a1 False running = Some run1"
    "merge_param_context p1 c1 l ctx = Some ctx1"
    "visit_facts n p1 in1 (CGContext_param ctx1 run1 (Some empty_effect)) e2 = Some (True, p', out, c2)"
    "cg_effect_accum c2 = Some a2"
    by (auto simp: bind_eq_Some_conv split: if_splits)
  note part = analysis.param_part [OF assms(4-6)]
  note s = analysis.visit_step [OF r(1) assms(2) part_context_ok [OF assms(4) part]]
  note al = part_allowed [OF s part r(2)]
  note m = merge_part_step [OF s part r(4)]
  have typed: "typed_store (p_vars p)" using assms(4) by (simp add: context_ok_def)
  note g = add_effect_stronger [OF typed assms(5) allowed_in [OF al(2)] r(3) [unfolded al(3)]]
  have "cg_effect_context ctx1 = cg_effect_context ctx"
    using m by (simp add: access_step_def same_place_def)
  then have part2: "part_context p1 ctx1 (CGContext_param ctx1 run1 (Some empty_effect))"
    using analysis.param_part [OF access_step_context [OF m assms(4)], of run1] g(1)
      stronger_trans [OF assms(6) g(2)] by (simp add: al(3))
  note s2 = analysis.visit_step [OF r(5) assms(3) part_context_ok [OF access_step_context [OF m assms(4)] part2]]
  from allowed_clear [OF part_allowed(1) [OF s2 part2 r(6)]]
  have "clear_of (p_vars p) run1 a2" by (simp add: CGContext_param_def al(3))
  with clear_of_stronger [OF g(3)] r show ?thesis by blast
qed

lemma binary_operands_clear:
  assumes "visit_facts (Suc n) p inputs ctx (ExpressionFuncall i (FunctionInvocationBinary j op flags [e1, e2]))
      = Some (True, p', out, ctx')"
    and "\<not> IsOrderedStandardFunc op" "call_free e1" "call_free e2" "context_ok p ctx"
  shows "\<exists>C1 C2 p1 in1 c1 a1 c2 a2.
    cg_effect_accum C1 = Some empty_effect \<and> visit_facts n p inputs C1 e1 = Some (True, p1, in1, c1)
    \<and> cg_effect_accum c1 = Some a1
    \<and> cg_effect_accum C2 = Some empty_effect \<and> visit_facts n p1 in1 C2 e2 = Some (True, p', out, c2)
    \<and> cg_effect_accum c2 = Some a2 \<and> clear_of (p_vars p) a1 a2"
proof -
  from assms(1,2) have v: "visit_params (visit_facts n) True [e1, e2] (Effect_copy (cg_effect_context ctx)) p inputs ctx
      = Some (True, p', out, ctx')"
    by (auto simp: visit_funcall_def visit_invocation_def is_user_call_def bind_eq_Some_conv
        simp del: visit_params.simps split: if_splits)
  have acc: "cg_effect_accum (CGContext_param c r (Some empty_effect)) = Some empty_effect" for c r
    by (simp add: CGContext_param_def)
  from operands_clear [OF v assms(3-5) conjunct1 [OF analysis.copy_context [OF assms(5)]]
      conjunct2 [OF analysis.copy_context [OF assms(5)]]]
  show ?thesis using acc by blast
qed


text \<open>The sum \<open>g_3 + *g_4\<close>, where \<open>g_4\<close> points to \<open>g_3\<close>, next to a write of \<open>g_5\<close>.\<close>

definition sum_store :: store where
  "sum_store = map (\<lambda>s. (store_var s None)\<lparr>v_qfer := CVQualifiers_of [False] [False]\<rparr>)
       [''null'', ''garbage'', ''tbd''] @
     [(store_var ''g_3'' (Some int_type))\<lparr>v_qfer := CVQualifiers_of [False] [False]\<rparr>,
      (store_var ''g_4'' (Some int_ptr))\<lparr>v_qfer := CVQualifiers_of [False, False] [False, False]\<rparr>,
      (store_var ''g_5'' (Some int_type))\<lparr>v_qfer := CVQualifiers_of [False] [False]\<rparr>]"

definition sum_program :: program where
  "sum_program = pointer_program\<lparr>p_vars := sum_store\<rparr>"

definition sum_context :: CGContext where
  "sum_context = CGContext_of_func None (empty_effect\<lparr>read_vars := [3], write_vars := [5]\<rparr>) (Some empty_effect)"

definition sum_left :: Expression where "sum_left = ExpressionVariable 2 3 int_type"
definition sum_right :: Expression where "sum_right = ExpressionVariable 3 4 int_type"

definition sum_expression :: Expression where
  "sum_expression = ExpressionFuncall 0 (FunctionInvocationBinary 1 eAdd None [sum_left, sum_right])"

lemma sum_accepted:
  "map_option (\<lambda>(ok, p, out, ctx). (ok, map_option read_vars (cg_effect_accum ctx)))
     (visit_facts 2 sum_program [FactPointTo 4 [3]] sum_context sum_expression)
   = Some (True, Some [3, 4])"
  by code_simp

lemma sum_ok: "context_ok sum_program sum_context"
proof -
  have len: "length sum_store = 6" by (simp add: sum_store_def)
  have t: "type_ok int_type" "type_ok int_ptr" "qfer_fits int_type (CVQualifiers_of [False] [False])"
    "qfer_fits int_ptr (CVQualifiers_of [False, False] [False, False])" by code_simp+
  have "store_ok sum_store"
    by (simp add: store_ok_def var_ok_def sum_store_def store_var_def All_less_Suc numeral_eq_Suc Let_def t)
  moreover have "fields_listed sum_store" "indices_call_free sum_store"
    by (simp_all add: fields_listed_def indices_call_free_def sum_store_def store_var_def All_less_Suc numeral_eq_Suc)
  moreover have "get_collective sum_store v = Some v" if "v < 6" for v
  proof -
    have "get_collective sum_store 0 = Some 0" "get_collective sum_store 1 = Some 1"
      "get_collective sum_store 2 = Some 2" "get_collective sum_store 3 = Some 3"
      "get_collective sum_store 4 = Some 4" "get_collective sum_store 5 = Some 5" by code_simp+
    with that show ?thesis by (auto simp: less_Suc_eq numeral_eq_Suc)
  qed
  then have "collective_fixed sum_store" by (simp add: collective_fixed_def len)
  moreover have "\<forall>v \<in> set sum_store. v_type v \<noteq> None \<or> v_field_var_of v = None"
    by (simp add: sum_store_def store_var_def)
  ultimately show ?thesis
    by (simp add: context_ok_def typed_store_def sum_program_def sum_context_def CGContext_of_func_def
        effect_in_def empty_effect_def len)
qed

lemma option_pairD: "map_option (\<lambda>(ok, p, out, ctx). (ok, f ctx)) r = Some (b, x) \<Longrightarrow>
    \<exists>p out ctx. r = Some (b, p, out, ctx) \<and> f ctx = x"
  by auto




end
