(* ===== verification/AnalysisFrame.thy ===== *)
theory AnalysisFrame
  imports StmAnalysis
begin

text \<open>
  What the analysis leaves alone.  It runs on the program while the program is being built, so it must not
  change it: neither options, types, variables, blocks and statements, nor the edges of the control flow
  graphs, nor what functions are besides their effects and counters.  This holds whatever is analysed,
  calls of functions included, and whether it is accepted or rejected.
\<close>

section \<open>The part that stays\<close>

definition func_static where
  "func_static fn = (f_name fn, f_param fn, f_return_type fn, f_rv fn, f_referenced fn, f_stack fn, f_blocks fn,
     f_body fn, f_is_builtin fn)"

definition frozen where
  "frozen p = (p_opts p, p_meta p, p_types p, p_vars p, p_blocks p, p_stms p,
     map func_static (p_funcs p), map fm_cfg_edges (p_fms p))"

lemma frozen_fields:
  assumes "frozen q = frozen p"
  shows "p_opts q = p_opts p" "p_vars q = p_vars p" "p_blocks q = p_blocks p" "p_stms q = p_stms p"
    "map fm_cfg_edges (p_fms q) = map fm_cfg_edges (p_fms p)" "map func_static (p_funcs q) = map func_static (p_funcs p)"
  using assms by (simp_all add: frozen_def)

named_theorems freezes

lemma frozen_set_fact_mgr:
  assumes "get_fact_mgr p f = Some fm0" "fm_cfg_edges fm = fm_cfg_edges fm0"
  shows "frozen (set_fact_mgr f fm p) = frozen p"
  using assms
  by (auto simp: set_fact_mgr_def get_fact_mgr_def frozen_def map_update list_update_same_conv split: option.splits)

lemma frozen_upd_func:
  assumes "upd_func f g p = Some q" "\<And>fn. func_static (g fn) = func_static fn"
  shows "frozen q = frozen p"
  using assms by (auto simp: upd_func_def frozen_def map_update list_update_same_conv bind_eq_Some_conv)

lemma frozen_other [simp]:
  "frozen (p\<lparr>p_returns := r\<rparr>) = frozen p" "frozen (p\<lparr>p_failed_stm := s\<rparr>) = frozen p"
  by (simp_all add: frozen_def)

lemma upd_fm_frozen:
  assumes "upd_fm ctx g p = Some q" "\<And>fm. fm_cfg_edges (g fm) = fm_cfg_edges fm"
  shows "frozen q = frozen p"
  using assms by (auto simp: upd_fm_def bind_eq_Some_conv intro: frozen_set_fact_mgr)

lemma set_stm_effect_edges [simp]: "fm_cfg_edges (set_stm_effect r e fm) = fm_cfg_edges fm"
  by (simp add: set_stm_effect_def)

lemma set_accum_effect_edges [simp]: "fm_cfg_edges (set_accum_effect r e fm) = fm_cfg_edges fm"
  by (simp add: set_accum_effect_def)

lemma set_fact_in_edges [simp]: "fm_cfg_edges (set_fact_in r facts fm) = fm_cfg_edges fm"
  by (simp add: set_fact_in_def)

lemma set_fact_out_edges: "set_fact_out p r facts fm = Some fm' \<Longrightarrow> fm_cfg_edges fm' = fm_cfg_edges fm"
  by (auto simp: set_fact_out_def bind_eq_Some_conv)

lemma set_accumulated_effect_edges: "set_accumulated_effect p b fm = Some fm' \<Longrightarrow> fm_cfg_edges fm' = fm_cfg_edges fm"
  by (auto simp: set_accumulated_effect_def)

lemma setup_in_out_maps_edges [simp]: "fm_cfg_edges (setup_in_out_maps b fm) = fm_cfg_edges fm"
  by (simp add: setup_in_out_maps_def)

lemma clear_map_visited_edges [simp]: "fm_cfg_edges (clear_map_visited fm) = fm_cfg_edges fm"
  by (simp add: clear_map_visited_def)

lemma save_effect_frozen [freezes]: "save_effect r ctx p = Some q \<Longrightarrow> frozen q = frozen p"
  unfolding save_effect_def by (erule upd_fm_frozen) simp

lemma effect_after_block_frozen [freezes]: "effect_after_block r b ctx eff p = Some (eff', q) \<Longrightarrow> frozen q = frozen p"
  by (auto simp: effect_after_block_def set_accumulated_effect_after_block_def bind_eq_Some_conv intro: frozen_set_fact_mgr)

lemma update_fact_for_stm_assign_frozen [freezes]:
  "update_fact_for_stm_assign p a inputs = Some (out, q) \<Longrightarrow> frozen q = frozen p"
  by (auto simp: update_fact_for_stm_assign_def bind_eq_Some_conv func_static_def
      split: if_splits elim!: frozen_upd_func)

lemma update_fact_for_return_frozen [freezes]:
  assumes "update_fact_for_return p i inputs = Some (out, q)"
  shows "frozen q = frozen p"
proof -
  from assms obtain c f p1 fm fm1 where r: "(if c then upd_func f (\<lambda>fn. fn\<lparr>f_fact_changed := True\<rparr>) p else Some p) = Some p1"
    "get_fact_mgr p1 (Some f) = Some fm" "set_fact_out p1 (StmRef i) out fm = Some fm1" "q = set_fact_mgr (Some f) fm1 p1"
    unfolding update_fact_for_return_def by (auto simp: bind_eq_Some_conv)
  from r(1) have "frozen p1 = frozen p"
    by (auto simp: func_static_def split: if_splits elim!: frozen_upd_func)
  with frozen_set_fact_mgr [OF r(2) set_fact_out_edges [OF r(3)]] r(4) show ?thesis by simp
qed

lemma shortcut_analysis_frozen [freezes]:
  "shortcut_analysis r p inputs ctx = Some (n, q, out, ctx') \<Longrightarrow> frozen q = frozen p"
  by (auto simp: shortcut_analysis_def bind_eq_Some_conv split: if_splits intro: frozen_set_fact_mgr)

lemma mark_gotos_edges:
  assumes "mark_gotos r p fm = Some fm'"
  shows "fm_cfg_edges fm' = fm_cfg_edges fm"
  by (rule fold_opt_invariant [OF assms [unfolded mark_gotos_def], where I = "\<lambda>g. fm_cfg_edges g = fm_cfg_edges fm"])
    (auto simp: bind_eq_Some_conv split: if_splits)

lemma finish_pass_frozen [freezes]:
  "finish_pass b inputs outputs p ctx = Some q \<Longrightarrow> frozen q = frozen p"
  by (auto simp: finish_pass_def bind_eq_Some_conv
      dest!: set_fact_out_edges set_accumulated_effect_edges intro: frozen_set_fact_mgr)

text \<open>All results of a computation keep the frozen part of \<open>p\<close>; the rules follow its steps.\<close>

definition preserves :: "program \<Rightarrow> ('a \<Rightarrow> program) \<Rightarrow> 'a option \<Rightarrow> bool" where
  "preserves p g m \<longleftrightarrow> (\<forall>x. m = Some x \<longrightarrow> frozen (g x) = frozen p)"

lemma preservesD: "preserves p g m \<Longrightarrow> m = Some x \<Longrightarrow> frozen (g x) = frozen p"
  by (simp add: preserves_def)

named_theorems preserving

lemma preserves_bind [preserving]: "(\<And>x. m = Some x \<Longrightarrow> preserves p g (f x)) \<Longrightarrow> preserves p g (m \<bind> f)"
  by (auto simp: preserves_def bind_eq_Some_conv)

lemma preserves_if [preserving]: "(b \<Longrightarrow> preserves p g x) \<Longrightarrow> (\<not> b \<Longrightarrow> preserves p g y) \<Longrightarrow> preserves p g (if b then x else y)"
  by simp

lemma preserves_prod [preserving]: "(\<And>a b. x = (a, b) \<Longrightarrow> preserves p g (f a b)) \<Longrightarrow> preserves p g (case x of (a, b) \<Rightarrow> f a b)"
  by (cases x) simp

lemma preserves_option [preserving]:
  "(x = None \<Longrightarrow> preserves p g m) \<Longrightarrow> (\<And>y. x = Some y \<Longrightarrow> preserves p g (f y)) \<Longrightarrow> preserves p g (case x of None \<Rightarrow> m | Some y \<Rightarrow> f y)"
  by (cases x) simp_all

lemma preserves_Let [preserving]: "preserves p g (f x) \<Longrightarrow> preserves p g (Let x f)"
  by simp

lemma preserves_Some [preserving]: "frozen (g x) = frozen p \<Longrightarrow> preserves p g (Some x)"
  by (simp add: preserves_def)

lemma preserves_None [preserving]: "preserves p g None"
  by (simp add: preserves_def)

abbreviation prog_of :: "bool \<times> program \<times> 'a \<Rightarrow> program" where
  "prog_of r \<equiv> fst (snd r)"

section \<open>Every visit\<close>

locale frozen_visitor =
  fixes visit :: visitor and svisit :: stm_visitor
  assumes visit_frozen: "visit p facts ctx e = Some (ok, q, facts', ctx') \<Longrightarrow> frozen q = frozen p"
    and stm_frozen: "svisit p facts ctx r = Some (ok, q, facts', ctx') \<Longrightarrow> frozen q = frozen p"
begin

lemma visit_all_frozen: "visit_all visit es p facts ctx = Some (ok, q, ctx') \<Longrightarrow> frozen q = frozen p"
  by (induction es arbitrary: p facts ctx) (auto simp: bind_eq_Some_conv dest!: visit_frozen split: if_splits)

lemma read_indices_of_frozen: "read_indices_of visit vs p facts ctx = Some (ok, q, ctx') \<Longrightarrow> frozen q = frozen p"
  by (induction vs arbitrary: p ctx) (auto simp: bind_eq_Some_conv dest!: visit_all_frozen split: if_splits)

lemma read_indices_frozen: "read_indices visit v p facts ctx = Some (ok, q, ctx') \<Longrightarrow> frozen q = frozen p"
  by (auto simp: read_indices_def bind_eq_Some_conv dest: read_indices_of_frozen)

lemma check_read_var_frozen: "check_read_var visit v p facts ctx = Some (ok, q, ctx') \<Longrightarrow> frozen q = frozen p"
  by (auto simp: check_read_var_def bind_eq_Some_conv simp del: first_true.simps dest!: read_indices_frozen split: if_splits)

lemma check_write_var_frozen: "check_write_var visit v p facts ctx = Some (ok, q, ctx') \<Longrightarrow> frozen q = frozen p"
  by (auto simp: check_write_var_def bind_eq_Some_conv simp del: first_true.simps dest!: read_indices_frozen split: if_splits)

lemma check_pointees_frozen: "check_pointees visit wr vs p facts ctx = Some (ok, q, ctx') \<Longrightarrow> frozen q = frozen p"
  by (induction vs arbitrary: p ctx)
    (auto simp: bind_eq_Some_conv dest!: check_read_var_frozen check_write_var_frozen split: if_splits)

lemma follow_pointer_frozen: "follow_pointer visit wr n tmp p facts ctx = Some (ok, q, ctx') \<Longrightarrow> frozen q = frozen p"
  by (induction n arbitrary: tmp p ctx) (auto simp: bind_eq_Some_conv dest!: check_pointees_frozen split: if_splits)

lemma access_pointed_frozen: "access_pointed visit wr v i p facts ctx = Some (ok, q, ctx') \<Longrightarrow> frozen q = frozen p"
  by (auto simp: access_pointed_def bind_eq_Some_conv dest!: read_indices_frozen follow_pointer_frozen split: if_splits)

lemma pointed_frozen:
  "read_pointed visit v t p facts ctx = Some (ok, q, ctx') \<Longrightarrow> frozen q = frozen p"
  "write_pointed visit v t p facts ctx = Some (ok, q, ctx') \<Longrightarrow> frozen q = frozen p"
  by (auto simp: read_pointed_def write_pointed_def bind_eq_Some_conv dest: access_pointed_frozen)

lemmas access_frozen = check_read_var_frozen check_write_var_frozen pointed_frozen

lemma visit_variable_frozen: "visit_variable visit v t p inputs ctx = Some (ok, q, out, ctx') \<Longrightarrow> frozen q = frozen p"
  by (auto simp: visit_variable_def with_facts_def bind_eq_Some_conv dest!: access_frozen split: if_splits)

lemma visit_each_frozen: "visit_each visit es p inputs ctx = Some (ok, q, out, ctx') \<Longrightarrow> frozen q = frozen p"
  by (induction es arbitrary: p inputs ctx) (auto simp: bind_eq_Some_conv dest!: visit_frozen split: if_splits)

lemma visit_indices_frozen: "visit_indices visit v p inputs ctx = Some (ok, q, out) \<Longrightarrow> frozen q = frozen p"
  by (auto simp: visit_indices_def bind_eq_Some_conv dest!: visit_each_frozen split: option.splits)

lemma visit_target_frozen: "visit_target visit v t p inputs ctx = Some (ok, q, ctx') \<Longrightarrow> frozen q = frozen p"
  by (auto simp: visit_target_def bind_eq_Some_conv dest!: access_frozen split: if_splits)

lemma visit_lhs_frozen: "visit_lhs visit this v t c p inputs ctx = Some (ok, q, out, ctx') \<Longrightarrow> frozen q = frozen p"
  using preservesD [of p prog_of "visit_lhs visit this v t c p inputs ctx"] unfolding visit_lhs_def
  by (fastforce intro!: preserving dest!: visit_variable_frozen visit_indices_frozen visit_target_frozen split: if_splits)

lemma visit_left_frozen: "visit_left visit a running rc p inputs ctx = Some (ok, q, out, ctx') \<Longrightarrow> frozen q = frozen p"
  using preservesD [of p prog_of "visit_left visit a running rc p inputs ctx"] unfolding visit_left_def
  by (fastforce intro!: preserving simp: frozen_set_fact_mgr dest!: visit_frozen update_fact_for_stm_assign_frozen)

lemma visit_assign_frozen: "visit_assign visit a p inputs ctx = Some (ok, q, out, ctx') \<Longrightarrow> frozen q = frozen p"
  by (auto simp: visit_assign_def Let_def bind_eq_Some_conv dest!: visit_frozen visit_left_frozen split: if_splits)

lemma visit_params_frozen: "visit_params visit l es running p inputs ctx = Some (ok, q, out, ctx') \<Longrightarrow> frozen q = frozen p"
  by (induction es arbitrary: running p inputs ctx) (auto simp: bind_eq_Some_conv dest!: visit_frozen split: if_splits)

lemma revisit_failed_frozen: "revisit_failed f fm p = Some q \<Longrightarrow> frozen q = frozen p"
  by (auto simp: revisit_failed_def bind_eq_Some_conv intro: frozen_set_fact_mgr)

lemma revisit_done_frozen:
  assumes "revisit_done i f body copy p inputs ctx = Some (q, out, ctx')"
  shows "frozen q = frozen p"
proof -
  from assms obtain fm seen r p1 where r: "get_fact_mgr p (Some f) = Some fm"
    "p1 = set_fact_mgr (Some f) (setup_in_out_maps False fm) (p\<lparr>p_returns := r\<rparr>)"
    "upd_func f (\<lambda>fn. fn\<lparr>f_accum_eff_context := seen\<rparr>) p1 = Some q"
    unfolding revisit_done_def Let_def by (auto simp: bind_eq_Some_conv)
  from r(1) have "get_fact_mgr (p\<lparr>p_returns := r\<rparr>) (Some f) = Some fm" by (simp add: get_fact_mgr_def)
  from frozen_set_fact_mgr [OF this, of "setup_in_out_maps False fm"] r(2) have "frozen p1 = frozen p" by simp
  with frozen_upd_func [OF r(3)] show ?thesis by (simp add: func_static_def)
qed

text \<open>Before the body of the called function is visited.\<close>

lemma prepare_frozen:
  assumes "get_fact_mgr p (Some f) = Some fm" "upd_func f (\<lambda>fn. fn\<lparr>f_visited_cnt := f_visited_cnt fn + 1\<rparr>)
      (set_fact_mgr (Some f) (if b then setup_in_out_maps True (clear_map_visited fm) else clear_map_visited fm) p) = Some q"
  shows "frozen q = frozen p"
  using frozen_upd_func [OF assms(2)] frozen_set_fact_mgr [OF assms(1)] by (simp add: func_static_def)

lemma revisit_frozen:
  assumes "revisit svisit i f params p inputs ctx = Some (ok, q, out, ctx')"
  shows "frozen q = frozen p"
proof -
  have "preserves p prog_of (revisit svisit i f params p inputs ctx)"
    unfolding revisit_def Let_def
    by (intro preserving) (auto dest!: prepare_frozen stm_frozen revisit_failed_frozen revisit_done_frozen)
  with assms show ?thesis by (auto dest: preservesD)
qed

lemma upd_feffect_frozen: "upd_func f (\<lambda>fn. fn\<lparr>f_feffect := e\<rparr>) p = Some q \<Longrightarrow> frozen q = frozen p"
  by (erule frozen_upd_func) (simp add: func_static_def)

lemma visit_call_frozen: "visit_call svisit i f params p inputs ctx = Some (ok, q, out, ctx') \<Longrightarrow> frozen q = frozen p"
  using preservesD [of p prog_of "visit_call svisit i f params p inputs ctx"] unfolding visit_call_def
  by (fastforce intro!: preserving dest!: revisit_frozen upd_feffect_frozen)

lemma visit_invocation_frozen:
  "visit_invocation visit svisit fi p inputs ctx = Some (ok, q, out, ctx') \<Longrightarrow> frozen q = frozen p"
  by (auto simp: visit_invocation_def bind_eq_Some_conv dest!: visit_params_frozen visit_call_frozen
      split: if_splits FunctionInvocation.splits)

lemma visit_ordered_frozen: "visit_ordered visit e1 e2 p inputs ctx = Some (ok, q, out, ctx') \<Longrightarrow> frozen q = frozen p"
  using preservesD [of p prog_of "visit_ordered visit e1 e2 p inputs ctx"] unfolding visit_ordered_def
  by (fastforce intro!: preserving dest!: visit_frozen)

lemma visit_funcall_frozen:
  "visit_funcall visit svisit fi p inputs ctx = Some (ok, q, out, ctx') \<Longrightarrow> frozen q = frozen p"
  by (auto simp: visit_funcall_def bind_eq_Some_conv dest!: visit_ordered_frozen visit_invocation_frozen
      split: if_splits FunctionInvocation.splits)

lemma visit_expression_frozen:
  "visit_expression visit svisit p inputs ctx e = Some (ok, q, out, ctx') \<Longrightarrow> frozen q = frozen p"
  by (cases e) (auto simp: bind_eq_Some_conv split: if_splits dest!: visit_frozen
      dest: visit_variable_frozen visit_funcall_frozen visit_assign_frozen visit_lhs_frozen)

lemma visit_test_frozen: "visit_test visit t r p inputs ctx = Some (ok, q, out, ctx') \<Longrightarrow> frozen q = frozen p"
  using preservesD [of p prog_of "visit_test visit t r p inputs ctx"] unfolding visit_test_def
  by (fastforce intro!: preserving dest!: visit_frozen save_effect_frozen)

lemma visit_expr_stm_frozen: "visit_expr_stm visit t r p inputs ctx = Some (ok, q, out, ctx') \<Longrightarrow> frozen q = frozen p"
  using preservesD [of p prog_of "visit_expr_stm visit t r p inputs ctx"] unfolding visit_expr_stm_def
  by (fastforce intro!: preserving dest!: visit_frozen save_effect_frozen)

lemma visit_return_frozen: "visit_return visit e i p inputs ctx = Some (ok, q, out, ctx') \<Longrightarrow> frozen q = frozen p"
  using preservesD [of p prog_of "visit_return visit e i p inputs ctx"] unfolding visit_return_def
  by (fastforce intro!: preserving dest!: visit_frozen save_effect_frozen update_fact_for_return_frozen)

lemma write_each_frozen: "write_each visit vs p inputs ctx = Some (ok, q, ctx') \<Longrightarrow> frozen q = frozen p"
  by (induction vs arbitrary: p ctx) (auto simp: bind_eq_Some_conv dest!: check_write_var_frozen split: if_splits)

lemma forget_target_frozen: "upd_fm ctx (forget_target r d inputs) p = Some q \<Longrightarrow> frozen q = frozen p"
  by (erule upd_fm_frozen) (simp add: forget_target_def Let_def)

lemma visit_goto_frozen: "visit_goto visit t d sk r p inputs ctx = Some (ok, q, out, ctx') \<Longrightarrow> frozen q = frozen p"
  using preservesD [of p prog_of "visit_goto visit t d sk r p inputs ctx"] unfolding visit_goto_def
  by (fastforce intro!: preserving dest!: visit_frozen write_each_frozen forget_target_frozen save_effect_frozen)

lemma visit_if_frozen: "visit_if visit svisit t b1 b2 r p inputs ctx = Some (ok, q, out, ctx') \<Longrightarrow> frozen q = frozen p"
  using preservesD [of p prog_of "visit_if visit svisit t b1 b2 r p inputs ctx"] unfolding visit_if_def
  by (fastforce intro!: preserving dest!: visit_frozen stm_frozen effect_after_block_frozen)

lemma visit_for_frozen: "visit_for visit svisit a b r p inputs ctx = Some (ok, q, out, ctx') \<Longrightarrow> frozen q = frozen p"
  using preservesD [of p prog_of "visit_for visit svisit a b r p inputs ctx"] unfolding visit_for_def
  by (fastforce intro!: preserving dest!: visit_assign_frozen stm_frozen effect_after_block_frozen)

lemma visit_array_init_frozen: "visit_array_init visit v e r p inputs ctx = Some (ok, q, out, ctx') \<Longrightarrow> frozen q = frozen p"
  using preservesD [of p prog_of "visit_array_init visit v e r p inputs ctx"] unfolding visit_array_init_def
  by (fastforce intro!: preserving dest!: visit_frozen visit_lhs_frozen save_effect_frozen)

lemma visit_array_op_frozen:
  assumes "visit_array_op visit svisit v cs body e r p inputs ctx = Some (ok, q, out, ctx')"
  shows "frozen q = frozen p"
proof -
  have "preserves p prog_of (visit_array_op visit svisit v cs body e r p inputs ctx)"
    unfolding visit_array_op_def
    by (cases body; cases e; simp only: prod.case option.case; intro preserving)
      (auto simp: preserves_def dest!: write_each_frozen stm_frozen visit_array_init_frozen effect_after_block_frozen)
  with assms show ?thesis by (auto dest: preservesD)
qed

lemma visit_kind_frozen: "visit_kind visit svisit i k p inputs ctx = Some (ok, q, out, ctx') \<Longrightarrow> frozen q = frozen p"
  by (cases k) (auto simp: visit_kind_def dest: visit_assign_frozen visit_for_frozen visit_if_frozen visit_expr_stm_frozen
      visit_return_frozen visit_test_frozen visit_goto_frozen visit_array_op_frozen)

lemma visited_mark_frozen:
  "upd_fm ctx (\<lambda>fm. (set_accum_effect r a fm)\<lparr>fm_visited := (fm_visited fm)(r := True)\<rparr>) p = Some q \<Longrightarrow> frozen q = frozen p"
  by (erule upd_fm_frozen) simp

lemma stm_visit_facts_frozen: "stm_visit_facts svisit p inputs ctx r = Some (ok, q, out, ctx') \<Longrightarrow> frozen q = frozen p"
  by (auto simp: stm_visit_facts_def Let_def bind_eq_Some_conv dest!: stm_frozen visited_mark_frozen split: if_splits)

lemma mark_gotos_frozen:
  "get_fact_mgr p f = Some fm \<Longrightarrow> mark_gotos r p fm = Some fm' \<Longrightarrow> frozen (set_fact_mgr f fm' p) = frozen p"
  by (blast intro: frozen_set_fact_mgr mark_gotos_edges)

lemma facts_set_frozen:
  "get_fact_mgr p f = Some fm \<Longrightarrow> set_fact_out p r outs (set_fact_in r ins fm) = Some fm' \<Longrightarrow>
    frozen (set_fact_mgr f fm' p) = frozen p"
  by (erule frozen_set_fact_mgr) (drule set_fact_out_edges, simp)

lemma validate_frozen: "validate_and_update_facts svisit p inputs ctx r = Some (ok, q, out, ctx') \<Longrightarrow> frozen q = frozen p"
  using preservesD [of p prog_of "validate_and_update_facts svisit p inputs ctx r"] unfolding validate_and_update_facts_def
  by (fastforce intro!: preserving simp: mark_gotos_frozen facts_set_frozen dest!: shortcut_analysis_frozen stm_visit_facts_frozen)

lemma analyze_frozen: "analyze_with_edges_in svisit p inputs ctx r = Some (ok, q, out, ctx') \<Longrightarrow> frozen q = frozen p"
  by (auto simp: analyze_with_edges_in_def bind_eq_Some_conv dest!: validate_frozen split: if_splits)

lemma visit_stms_frozen: "visit_stms svisit ss i p outputs ctx = Some (failed, q, out, ctx') \<Longrightarrow> frozen q = frozen p"
  by (induction ss arbitrary: i p outputs ctx) (auto simp: bind_eq_Some_conv dest!: analyze_frozen split: if_splits)

definition round_prog where
  "round_prog res = (case res of Inl (ok, k, post, q, ctx) \<Rightarrow> q | Inr (cnt, post, inputs, q, ctx) \<Rightarrow> q)"

lemma fixed_point_round_frozen:
  assumes "fixed_point_round svisit b cnt once post j inputs p ctx = Some res"
  shows "frozen (round_prog res) = frozen p"
proof -
  have "preserves p round_prog (fixed_point_round svisit b cnt once post j inputs p ctx)"
    unfolding fixed_point_round_def Let_def
    by (intro preserving) (auto simp: round_prog_def dest!: shortcut_analysis_frozen visit_stms_frozen finish_pass_frozen split: if_splits)
  from preservesD [OF this assms] show ?thesis .
qed

lemma fixed_point_frozen:
  "fixed_point svisit b n cnt once post j inputs p ctx = Some (ok, k, post', q, ctx') \<Longrightarrow> frozen q = frozen p"
proof (induction n arbitrary: cnt once post inputs p ctx)
  case (Suc n)
  from Suc.prems obtain res where r: "fixed_point_round svisit b cnt once post j inputs p ctx = Some res"
    by (auto simp: bind_eq_Some_conv)
  show ?case
  proof (cases res)
    case (Inl x)
    with Suc.prems r fixed_point_round_frozen [OF r] show ?thesis by (simp add: round_prog_def)
  next
    case (Inr x)
    obtain cnt' post1 ins1 p1 ctx1 where "x = (cnt', post1, ins1, p1, ctx1)" by (cases x) auto
    with Inr Suc.prems r have "fixed_point svisit b n cnt' False post1 j ins1 p1 ctx1 = Some (ok, k, post', q, ctx')" by simp
    from Suc.IH [OF this] fixed_point_round_frozen [OF r] Inr \<open>x = _\<close> show ?thesis by (simp add: round_prog_def)
  qed
qed simp

lemma find_fixed_point_frozen:
  "find_fixed_point svisit b once post j inputs p ctx = Some (ok, k, post', q, ctx') \<Longrightarrow> frozen q = frozen p"
  unfolding find_fixed_point_def by (rule fixed_point_frozen)

text \<open>The analysis of a block fails at one of its statements.\<close>

lemma visit_stms_failed:
  "visit_stms svisit ss i p outputs ctx = Some (Some j, q, out, ctx') \<Longrightarrow> i \<le> j \<and> j < i + length ss"
  by (induction ss arbitrary: i p outputs ctx) (fastforce simp: bind_eq_Some_conv split: if_splits)+

lemma fixed_point_round_failed:
  assumes "fixed_point_round svisit b cnt once post j inputs p ctx = Some (Inl (False, k, post', q, ctx'))"
  shows "k < length (b_stms (p_blocks p ! b))"
proof -
  from assms obtain n p1 ins c1 outs i p2 where r: "(if once then Some (2, p, ins, ctx) else shortcut_analysis (BlockRef b) p ins ctx)
      = Some (n, p1, outs, c1)" "visit_stms svisit (b_stms (p_blocks p1 ! b)) 0 p1 i c1 = Some (Some k, p2)"
    by (auto simp: fixed_point_round_def Let_def bind_eq_Some_conv split: if_splits option.splits)
  from r(1) have "frozen p1 = frozen p" by (auto dest: shortcut_analysis_frozen split: if_splits)
  with visit_stms_failed [of _ 0 p1 i c1 k "fst p2" "fst (snd p2)" "snd (snd p2)"] r(2) frozen_fields(3) show ?thesis
    by fastforce
qed

lemma fixed_point_failed:
  "fixed_point svisit b n cnt once post j inputs p ctx = Some (False, k, post', q, ctx') \<Longrightarrow> k < length (b_stms (p_blocks p ! b))"
proof (induction n arbitrary: cnt once post inputs p ctx)
  case (Suc n)
  from Suc.prems obtain res where r: "fixed_point_round svisit b cnt once post j inputs p ctx = Some res"
    by (auto simp: bind_eq_Some_conv)
  show ?case
  proof (cases res)
    case (Inl x)
    with Suc.prems r fixed_point_round_failed show ?thesis by fastforce
  next
    case (Inr x)
    obtain cnt' post1 ins1 p1 ctx1 where x: "x = (cnt', post1, ins1, p1, ctx1)" by (cases x) auto
    with Inr Suc.prems r have "fixed_point svisit b n cnt' False post1 j ins1 p1 ctx1 = Some (False, k, post', q, ctx')" by simp
    from Suc.IH [OF this] fixed_point_round_frozen [OF r] Inr x frozen_fields(3) show ?thesis
      by (fastforce simp: round_prog_def)
  qed
qed simp

lemma find_fixed_point_failed:
  "find_fixed_point svisit b once post j inputs p ctx = Some (False, k, post', q, ctx') \<Longrightarrow> k < length (b_stms (p_blocks p ! b))"
  unfolding find_fixed_point_def by (rule fixed_point_failed)

lemma block_mark_frozen:
  "upd_fm ctx (\<lambda>fm. fm\<lparr>fm_visited := (fm_visited fm)(r := True)\<rparr>) p = Some q \<Longrightarrow> frozen q = frozen p"
  by (erule upd_fm_frozen) simp

lemma visit_block_frozen: "visit_block svisit b p inputs ctx = Some (ok, q, out, ctx') \<Longrightarrow> frozen q = frozen p"
  by (auto simp: visit_block_def Let_def bind_eq_Some_conv dest!: find_fixed_point_frozen block_mark_frozen split: if_splits)

lemma visit_statement_frozen: "visit_statement visit svisit p inputs ctx r = Some (ok, q, out, ctx') \<Longrightarrow> frozen q = frozen p"
  by (auto simp: visit_statement_def bind_eq_Some_conv dest: visit_block_frozen visit_kind_frozen split: stm_ref.splits)

end

interpretation analysis_frozen: frozen_visitor "visit_facts n" "stm_visit n" for n
proof (induction n)
  case 0
  show ?case by unfold_locales simp_all
next
  case (Suc n)
  show ?case
    using frozen_visitor.visit_expression_frozen [OF Suc] frozen_visitor.visit_statement_frozen [OF Suc]
    by unfold_locales auto
qed

section \<open>The analysis does not change the program\<close>

lemma visits_frozen:
  assumes "visit_facts n p inputs ctx e = Some (ok, q, out, ctx') \<or> stm_visit n p inputs ctx r = Some (ok, q, out, ctx')"
  shows "p_opts q = p_opts p \<and> p_types q = p_types p \<and> p_vars q = p_vars p \<and> p_blocks q = p_blocks p \<and> p_stms q = p_stms p
    \<and> map fm_cfg_edges (p_fms q) = map fm_cfg_edges (p_fms p) \<and> map func_static (p_funcs q) = map func_static (p_funcs p)"
proof -
  from assms analysis_frozen.visit_frozen analysis_frozen.stm_frozen have "frozen q = frozen p" by blast
  then show ?thesis by (simp add: frozen_def)
qed

text \<open>
  C5: The analysis does not change the program it runs on while that is being built: whatever expression or
  statement is visited, calls and loops included, and whether it is accepted or not, options, types,
  variables, blocks, statements and control flow edges are the same afterwards, and so are the functions
  but for their effects, counters and flags.
\<close>
theorem analysis_leaves_program:
  assumes "visit_facts n p inputs ctx e = Some (ok, q, out, ctx') \<or> stm_visit n p inputs ctx r = Some (ok, q, out, ctx')"
  shows "p_opts q = p_opts p \<and> p_types q = p_types p \<and> p_vars q = p_vars p \<and> p_blocks q = p_blocks p \<and> p_stms q = p_stms p
    \<and> map fm_cfg_edges (p_fms q) = map fm_cfg_edges (p_fms p) \<and> map func_static (p_funcs q) = map func_static (p_funcs p)"
  using assms by (rule visits_frozen)

text \<open>The statement \<open>g_3 + *g_4;\<close> in a function.\<close>

definition expr_program :: program where
  "expr_program = sum_program\<lparr>p_fms := [empty_fact_mgr],
     p_stms := [\<lparr>s_id = 0, s_func = Some 0, s_parent = None, s_kind = StatementExpr sum_expression\<rparr>]\<rparr>"

lemma expr_visited:
  "map_option (\<lambda>(ok, p, out, ctx). (ok, map_option (\<lambda>fm. read_vars (fm_stm_effect fm (StmRef 0))) (vec_get (p_fms p) 0)))
     (stm_visit 3 expr_program [FactPointTo 4 [3]] (sum_context\<lparr>cg_func := Some 0\<rparr>) (StmRef 0))
   = Some (True, Some [3, 4])"
  by code_simp

theorem analysis_leaves_program_witness:
  "\<exists>(q :: program) fm. vec_get (p_fms q) 0 = Some fm \<and> read_vars (fm_stm_effect fm (StmRef 0)) = [3, 4] \<and> p_stms q = p_stms expr_program"
proof -
  obtain q out ctx' fm where v: "stm_visit 3 expr_program [FactPointTo 4 [3]] (sum_context\<lparr>cg_func := Some 0\<rparr>) (StmRef 0)
      = Some (True, q, out, ctx')" and e: "vec_get (p_fms q) 0 = Some fm" "read_vars (fm_stm_effect fm (StmRef 0)) = [3, 4]"
    using expr_visited by (auto simp: map_option_eq_Some simp del: visit_facts_simps vec_get_Some)
  have "p_stms q = p_stms expr_program" using analysis_leaves_program [OF disjI2 [OF v]] by (elim conjE)
  with e show ?thesis by (intro exI [of _ q] exI [of _ fm] conjI)
qed

end
