(* ===== verification/BlockEdit.thy ===== *)
theory BlockEdit
  imports AnalysisFrame "HOL-Library.Sublist"
begin

text \<open>
  What happens after a statement or a block has been generated: its facts and effects are recorded, the
  block is analysed to a fixed point, and statements that the analysis rejects are removed again,
  together with the jumps that would lead nowhere (\<open>Statement::post_creation_analysis\<close>,
  \<open>Block::post_creation_analysis\<close> and \<open>Block::remove_stmt\<close>).

  The main property is that removing a statement leaves no edge of the control flow graph that starts
  at a jump inside it or ends inside it.
\<close>

section \<open>Removing a statement\<close>

definition upd_block :: "nat \<Rightarrow> (Block \<Rightarrow> Block) \<Rightarrow> program \<Rightarrow> program option" where
  "upd_block b g p = do { blk \<leftarrow> vec_get (p_blocks p) b; Some (p\<lparr>p_blocks := (p_blocks p)[b := g blk]\<rparr>) }"

definition upd_edges :: "nat \<Rightarrow> (CFGEdge list \<Rightarrow> CFGEdge list) \<Rightarrow> program \<Rightarrow> program option" where
  "upd_edges f g p =
     do {
       fm \<leftarrow> get_fact_mgr p (Some f);
       Some (set_fact_mgr (Some f) (fm\<lparr>fm_cfg_edges := g (fm_cfg_edges fm)\<rparr>) p)
     }"

text \<open>The jumps of the statement leave the list of breaks of the enclosing loop and the graph.\<close>

definition forget_breaks :: "stm_ref list \<Rightarrow> nat \<Rightarrow> program \<Rightarrow> program option" where
  "forget_breaks js b p =
     do {
       lb \<leftarrow> loop_block p (Some b);
       (case lb of
          None \<Rightarrow> Some p
        | Some l \<Rightarrow> upd_block l (\<lambda>blk. blk\<lparr>b_break_stms := filter (\<lambda>i. StmRef i \<notin> set js) (b_break_stms blk)\<rparr>) p)
     }"

definition drop_jumps :: "nat \<Rightarrow> nat \<Rightarrow> stm_ref \<Rightarrow> program \<Rightarrow> program option" where
  "drop_jumps f b s p =
     do {
       cfg_stms \<leftarrow> find_typed_stmts p s [eContinue, eBreak, eGoto];
       if cfg_stms = [] then Some p
       else do {
         p \<leftarrow> forget_breaks cfg_stms b p;
         upd_edges f (filter (\<lambda>e. edge_src e \<notin> set cfg_stms)) p
       }
     }"

text \<open>The first edge that ends inside the statement.\<close>

fun first_edge_into :: "program \<Rightarrow> stm_ref \<Rightarrow> CFGEdge list \<Rightarrow> nat \<Rightarrow> (nat \<times> CFGEdge) option option" where
  "first_edge_into p s [] i = Some None"
| "first_edge_into p s (e # es) i =
     do {
       b \<leftarrow> contains_stmt p s (edge_dest e);
       if b then Some (Some (i, e)) else first_edge_into p s es (Suc i)
     }"

definition fm_edges :: "program \<Rightarrow> nat \<Rightarrow> CFGEdge list option" where
  "fm_edges p f = map_option fm_cfg_edges (get_fact_mgr p (Some f))"

definition drop_blocks :: "nat \<Rightarrow> stm_ref \<Rightarrow> program \<Rightarrow> program option" where
  "drop_blocks f s p =
     do {
       fn \<leftarrow> vec_get (p_funcs p) f;
       kept \<leftarrow> fold_opt (\<lambda>c acc. do { b \<leftarrow> contains_stmt p s (BlockRef c); Some (if b then acc else acc @ [c]) })
         (f_blocks fn) [];
       upd_func f (\<lambda>fn. fn\<lparr>f_blocks := kept\<rparr>) p
     }"

text \<open>The statement itself; the result counts whether it was there.\<close>

definition erase_stm :: "nat \<Rightarrow> stm_ref \<Rightarrow> program \<Rightarrow> (nat \<times> program) option" where
  "erase_stm b s p =
     do {
       blk \<leftarrow> vec_get (p_blocks p) b;
       (case s of
          BlockRef c \<Rightarrow> Some (0, p)
        | StmRef i \<Rightarrow>
            if i \<in> set (b_stms blk)
            then map_option (\<lambda>p. (1, p)) (upd_block b (\<lambda>blk. blk\<lparr>b_stms := remove1 i (b_stms blk)\<rparr>) p)
            else Some (0, p))
     }"

text \<open>The number of edges in all graphs.\<close>

definition edge_total :: "program \<Rightarrow> nat" where
  "edge_total p = sum_list (map (\<lambda>fm. length (fm_cfg_edges fm)) (p_fms p))"

lemma upd_block_same:
  "upd_block b g p = Some p' \<Longrightarrow> p_fms p' = p_fms p \<and> p_stms p' = p_stms p \<and> p_funcs p' = p_funcs p"
  by (auto simp: upd_block_def bind_eq_Some_conv)

lemma upd_edges_total:
  assumes "upd_edges f g p = Some p'" "\<And>es. fm_edges p f = Some es \<Longrightarrow> length (g es) + d \<le> length es"
  shows "edge_total p' + d \<le> edge_total p"
proof -
  from assms(1) have f: "f < length (p_fms p)"
    "p' = p\<lparr>p_fms := (p_fms p)[f := (p_fms p ! f)\<lparr>fm_cfg_edges := g (fm_cfg_edges (p_fms p ! f))\<rparr>]\<rparr>"
    by (auto simp: upd_edges_def get_fact_mgr_def set_fact_mgr_def bind_eq_Some_conv)
  let ?len = "\<lambda>fm. length (fm_cfg_edges fm)"
  from assms(2) f(1) have "?len ((p_fms p ! f)\<lparr>fm_cfg_edges := g (fm_cfg_edges (p_fms p ! f))\<rparr>) + d \<le> ?len (p_fms p ! f)"
    by (simp add: fm_edges_def get_fact_mgr_def)
  with f show ?thesis
    by (simp add: edge_total_def map_update sum_list_update elem_le_sum_list)
      (use elem_le_sum_list [of f "map ?len (p_fms p)"] in simp)
qed

text \<open>The breaks that leave the list of the enclosing loop.\<close>

lemma forget_breaks_same: "forget_breaks js b p = Some q \<Longrightarrow> p_fms q = p_fms p \<and> p_stms q = p_stms p \<and> p_funcs q = p_funcs p"
  by (auto simp: forget_breaks_def bind_eq_Some_conv dest: upd_block_same simp del: loop_block.simps split: option.splits)

lemma drop_jumps_total: "drop_jumps f b s p = Some p' \<Longrightarrow> edge_total p' \<le> edge_total p"
  by (auto simp: drop_jumps_def bind_eq_Some_conv split: if_splits)
    (use upd_edges_total [where d = 0] forget_breaks_same in \<open>fastforce simp: edge_total_def\<close>)

text \<open>
  \<open>drop_edges\<close> is the loop over the edges that end inside the statement; when such an edge comes from a
  goto, that statement is removed from its block too, and counts when it is in the same block.  The
  code goes on with the next edge, or from the start when the graph has shrunk; edges before it cannot
  end inside the statement, so looking for the first one is the same.  Removing a statement adds no
  edge (lemma \<open>remove_stmt_total\<close>), so the test on \<open>edge_total\<close> never fails.
\<close>

function (sequential) remove_stmt :: "nat \<Rightarrow> stm_ref \<Rightarrow> program \<Rightarrow> (nat \<times> program) option"
  and drop_edges :: "nat \<Rightarrow> nat \<Rightarrow> stm_ref \<Rightarrow> nat \<Rightarrow> program \<Rightarrow> (nat \<times> program) option"
where
  "remove_stmt b s p =
     do {
       blk \<leftarrow> vec_get (p_blocks p) b;
       f \<leftarrow> b_func blk;
       p1 \<leftarrow> drop_jumps f b s p;
       (cnt, p2) \<leftarrow> drop_edges f b s 0 p1;
       p3 \<leftarrow> drop_blocks f s p2;
       (c, p4) \<leftarrow> erase_stm b s p3;
       Some (cnt + c, p4)
     }"
| "drop_edges f b s cnt p =
     do {
       es \<leftarrow> fm_edges p f;
       r \<leftarrow> first_edge_into p s es 0;
       (case r of
          None \<Rightarrow> Some (cnt, p)
        | Some (i, e) \<Rightarrow> do {
            p1 \<leftarrow> upd_edges f (erase_at i) p;
            assert_opt (edge_total p1 < edge_total p);
            t \<leftarrow> stm_type p1 (edge_src e);
            if t = eGoto
            then do {
              po \<leftarrow> stm_parent p1 (edge_src e);
              q \<leftarrow> po;
              (d, p2) \<leftarrow> remove_stmt q (edge_src e) p1;
              assert_opt (edge_total p2 < edge_total p);
              drop_edges f b s (if q = b then cnt + d else cnt) p2
            }
            else drop_edges f b s cnt p1
          })
     }"
  by pat_completeness auto
termination
  by (relation "measure (\<lambda>x. case x of Inl (b, s, p) \<Rightarrow> 2 * edge_total p + 1 | Inr (f, b, s, cnt, p) \<Rightarrow> 2 * edge_total p)")
    (auto simp: termination_simp dest!: drop_jumps_total)

declare remove_stmt.simps [simp del] drop_edges.simps [simp del]

section \<open>What is left\<close>

text \<open>Removing changes neither the statements and their places in blocks nor the parents of blocks, and
  edges only vanish.\<close>

definition same_tree :: "program \<Rightarrow> program \<Rightarrow> bool" where
  "same_tree p q \<longleftrightarrow> p_stms q = p_stms p \<and> p_opts q = p_opts p \<and> p_types q = p_types p \<and> p_vars q = p_vars p \<and>
     map b_parent (p_blocks q) = map b_parent (p_blocks p)"

definition fewer_edges :: "program \<Rightarrow> program \<Rightarrow> bool" where
  "fewer_edges p q \<longleftrightarrow> list_all2 (\<lambda>fm fm'. subseq (fm_cfg_edges fm') (fm_cfg_edges fm)) (p_fms p) (p_fms q)"

lemma same_tree_refl [simp]: "same_tree p p"
  by (simp add: same_tree_def)

lemma same_tree_trans: "same_tree p q \<Longrightarrow> same_tree q r \<Longrightarrow> same_tree p r"
  by (simp add: same_tree_def)

lemma fewer_edges_refl [simp]: "fewer_edges p p"
  by (simp add: fewer_edges_def list_all2_same)

lemma fewer_edges_trans: "fewer_edges p q \<Longrightarrow> fewer_edges q r \<Longrightarrow> fewer_edges p r"
  unfolding fewer_edges_def by (rule list_all2_trans) (auto intro: subseq_order.trans)

lemma fewer_edges_total:
  assumes "fewer_edges p q"
  shows "edge_total q \<le> edge_total p"
proof -
  have "sum_list (map (\<lambda>fm. length (fm_cfg_edges fm)) ys) \<le> sum_list (map (\<lambda>fm. length (fm_cfg_edges fm)) xs)"
    if "list_all2 (\<lambda>fm fm'. subseq (fm_cfg_edges fm') (fm_cfg_edges fm)) xs ys" for xs ys :: "FactMgr list"
    using that by (induction rule: list_all2_induct) (auto dest: list_emb_length)
  with assms show ?thesis by (simp add: fewer_edges_def edge_total_def)
qed

lemma parent_of_same:
  assumes "map b_parent bs' = map b_parent bs"
  shows "parent_of bs' b = parent_of bs b"
proof -
  from assms have "length bs' = length bs" by (rule map_eq_imp_length_eq)
  moreover from assms have "b_parent (bs' ! i) = b_parent (bs ! i)" if "i < length bs" for i
    using that \<open>length bs' = length bs\<close> by (metis nth_map)
  ultimately show ?thesis by (cases "b < length bs") (auto simp: parent_of_def vec_get_def)
qed

lemma block_within_same:
  assumes "map b_parent bs' = map b_parent bs"
  shows "block_within bs' x b = block_within bs x b"
proof (induction b rule: less_induct)
  case (less b)
  show ?case
  proof (cases "parent_of bs b")
    case None
    then show ?thesis by (simp add: block_within.simps [of bs x b] block_within.simps [of bs' x b] parent_of_same [OF assms])
  next
    case (Some po)
    with less parent_smaller [of bs b] show ?thesis
      by (cases po) (simp_all add: block_within.simps [of bs x b] block_within.simps [of bs' x b] parent_of_same [OF assms])
  qed
qed

lemma contains_block_stmt_same:
  assumes "same_tree p q"
  shows "contains_block_stmt q b r = contains_block_stmt p b r"
proof -
  from assms have m: "map b_parent (p_blocks q) = map b_parent (p_blocks p)" and "p_stms q = p_stms p"
    by (simp_all add: same_tree_def)
  then have "stm_parent q r = stm_parent p r"
    by (simp add: stm_parent_def parent_of_same [OF m] split: stm_ref.split)
  moreover have "block_within (p_blocks q) x = block_within (p_blocks p) x" for x
    by (rule ext) (rule block_within_same [OF m])
  ultimately show ?thesis by (simp add: contains_block_stmt_def)
qed

lemma contains_stmt_same:
  assumes "same_tree p q"
  shows "contains_stmt q s r = contains_stmt p s r"
proof (cases s)
  case (StmRef i)
  from assms have "p_stms q = p_stms p" by (simp add: same_tree_def)
  with StmRef show ?thesis by (simp add: contains_stmt_def contains_block_stmt_same [OF assms] get_blocks_def)
qed (simp add: contains_stmt_def contains_block_stmt_same [OF assms])

definition fewer_stms :: "program \<Rightarrow> program \<Rightarrow> bool" where
  "fewer_stms p q \<longleftrightarrow> list_all2 (\<lambda>x y. b_looping y = b_looping x \<and> b_func y = b_func x \<and> b_local_vars y = b_local_vars x \<and>
     subseq (b_stms y) (b_stms x)) (p_blocks p) (p_blocks q)"

definition shrinks :: "program \<Rightarrow> program \<Rightarrow> bool" where
  "shrinks p q \<longleftrightarrow> same_tree p q \<and> fewer_edges p q \<and> fewer_stms p q"

lemma fewer_stms_refl [simp]: "fewer_stms p p"
  by (simp add: fewer_stms_def list_all2_same)

lemma fewer_stms_trans: "fewer_stms p q \<Longrightarrow> fewer_stms q r \<Longrightarrow> fewer_stms p r"
  unfolding fewer_stms_def by (rule list_all2_trans) (auto intro: subseq_order.trans)

lemma shrinks_refl [simp]: "shrinks p p"
  by (simp add: shrinks_def)

lemma shrinks_trans: "shrinks p q \<Longrightarrow> shrinks q r \<Longrightarrow> shrinks p r"
  by (auto simp: shrinks_def intro: same_tree_trans fewer_edges_trans fewer_stms_trans)

lemma shrinks_contains: "shrinks p q \<Longrightarrow> contains_stmt q s r = contains_stmt p s r"
  by (simp add: shrinks_def contains_stmt_same)

lemma shrinks_func:
  assumes "shrinks p q" "b < length (p_blocks p)"
  shows "b < length (p_blocks q)" "b_func (p_blocks q ! b) = b_func (p_blocks p ! b)"
    "subseq (b_stms (p_blocks q ! b)) (b_stms (p_blocks p ! b))"
  using assms by (auto simp: shrinks_def fewer_stms_def list_all2_conv_all_nth)

lemma shrinks_edges:
  assumes "shrinks p q" "fm_edges q f = Some es'"
  obtains es where "fm_edges p f = Some es" "subseq es' es"
  using assms
  by (auto simp: shrinks_def fewer_edges_def fm_edges_def get_fact_mgr_def list_all2_conv_all_nth vec_get_def split: if_splits)

text \<open>The single steps.\<close>

lemma upd_edges_shrinks:
  assumes "upd_edges f g p = Some q" "\<And>es. subseq (g es) es"
  shows "shrinks p q" "fm_edges q f = map_option g (fm_edges p f)"
  using assms
  by (auto simp: upd_edges_def get_fact_mgr_def set_fact_mgr_def bind_eq_Some_conv shrinks_def same_tree_def fewer_edges_def
      fewer_stms_def list_all2_same list_all2_conv_all_nth nth_list_update fm_edges_def)

lemma upd_block_shrinks:
  assumes "upd_block b g p = Some q" "\<And>blk. b_parent (g blk) = b_parent blk" "\<And>blk. b_looping (g blk) = b_looping blk"
    "\<And>blk. b_func (g blk) = b_func blk" "\<And>blk. b_local_vars (g blk) = b_local_vars blk" "\<And>blk. subseq (b_stms (g blk)) (b_stms blk)"
  shows "shrinks p q"
proof -
  from assms(1) have q: "q = p\<lparr>p_blocks := (p_blocks p)[b := g (p_blocks p ! b)]\<rparr>" "b < length (p_blocks p)"
    by (auto simp: upd_block_def bind_eq_Some_conv)
  then have "map b_parent (p_blocks q) = map b_parent (p_blocks p)"
    using assms(2) by (simp add: map_update list_update_same_conv)
  with q assms(3-6) show ?thesis
    by (auto simp: shrinks_def same_tree_def fewer_stms_def list_all2_conv_all_nth nth_list_update fewer_edges_def)
qed

lemma forget_breaks_shrinks:
  assumes "forget_breaks js b p = Some q"
  shows "shrinks p q" "p_fms q = p_fms p"
  using assms
  by (auto simp: forget_breaks_def bind_eq_Some_conv simp del: loop_block.simps split: option.splits
      intro: upd_block_shrinks dest: upd_block_same)

lemma drop_jumps_shrinks:
  assumes "drop_jumps f b s p = Some q"
  shows "shrinks p q"
proof -
  from assms obtain js where js: "find_typed_stmts p s [eContinue, eBreak, eGoto] = Some js"
    by (auto simp: drop_jumps_def bind_eq_Some_conv)
  show ?thesis
  proof (cases "js = []")
    case False
    with assms js obtain r where "forget_breaks js b p = Some r" "upd_edges f (filter (\<lambda>e. edge_src e \<notin> set js)) r = Some q"
      by (auto simp: drop_jumps_def bind_eq_Some_conv)
    then show ?thesis
      by (blast intro: shrinks_trans forget_breaks_shrinks upd_edges_shrinks subseq_filter_left)
  qed (use assms js in \<open>simp add: drop_jumps_def\<close>)
qed

lemma drop_jumps_edges:
  assumes "drop_jumps f b s p = Some q" "find_typed_stmts p s [eContinue, eBreak, eGoto] = Some js"
    "fm_edges q f = Some es" "e \<in> set es"
  shows "edge_src e \<notin> set js"
proof (cases "js = []")
  case False
  with assms obtain r where "upd_edges f (filter (\<lambda>e. edge_src e \<notin> set js)) r = Some q"
    by (auto simp: drop_jumps_def bind_eq_Some_conv)
  from upd_edges_shrinks(2) [OF this subseq_filter_left] assms(3,4) show ?thesis by (cases "fm_edges r f") auto
qed simp

lemma drop_blocks_shrinks: "drop_blocks f s p = Some q \<Longrightarrow> shrinks p q \<and> p_fms q = p_fms p \<and> p_blocks q = p_blocks p"
  by (auto simp: drop_blocks_def upd_func_def bind_eq_Some_conv shrinks_def same_tree_def fewer_edges_def fewer_stms_def list_all2_same)

lemma subseq_remove1: "subseq (remove1 x xs) xs"
  by (induction xs) auto

lemma erase_stm_shrinks:
  assumes "erase_stm b s p = Some (n, q)"
  shows "shrinks p q \<and> p_fms q = p_fms p \<and> p_funcs q = p_funcs p"
proof -
  from assms consider "q = p" | i where "upd_block b (\<lambda>blk. blk\<lparr>b_stms := remove1 i (b_stms blk)\<rparr>) p = Some q"
    by (auto simp: erase_stm_def bind_eq_Some_conv split: stm_ref.splits if_splits)
  then show ?thesis
  proof cases
    case 2
    from upd_block_shrinks [OF 2] upd_block_same [OF 2] show ?thesis by (simp add: subseq_remove1)
  qed simp
qed

lemma subseq_erase_at: "subseq (erase_at i xs) xs"
proof (cases "i < length xs")
  case True
  have "subseq (take i xs @ drop (Suc i) xs) (take i xs @ xs ! i # drop (Suc i) xs)"
    by (intro list_emb_append_mono) auto
  with True show ?thesis by (simp add: erase_at_def id_take_nth_drop [symmetric])
qed (simp add: erase_at_def)

lemma removing_shrinks:
  "remove_stmt b s p = Some (n, q) \<Longrightarrow> shrinks p q"
  "drop_edges f b s cnt p = Some (n, q) \<Longrightarrow> shrinks p q"
proof (induction b s p and f b s cnt p arbitrary: n q and n q rule: remove_stmt_drop_edges.induct)
  case (1 b s p)
  from "1.prems" obtain blk f p1 cnt p2 p3 c where
    r: "vec_get (p_blocks p) b = Some blk" "b_func blk = Some f" "drop_jumps f b s p = Some p1"
    "drop_edges f b s 0 p1 = Some (cnt, p2)" "drop_blocks f s p2 = Some p3" "erase_stm b s p3 = Some (c, q)"
    by (auto simp: remove_stmt.simps [of b s p] bind_eq_Some_conv simp del: vec_get_Some)
  from "1.IH" [OF r(1-4)] r(3,5,6) show ?case
    by (blast intro: shrinks_trans dest: drop_jumps_shrinks drop_blocks_shrinks erase_stm_shrinks)
next
  case (2 f b s cnt p)
  from "2.prems" obtain es r where e: "fm_edges p f = Some es" "first_edge_into p s es 0 = Some r"
    by (auto simp: drop_edges.simps [of f b s cnt p] bind_eq_Some_conv)
  show ?case
  proof (cases r)
    case None
    with "2.prems" e show ?thesis by (simp add: drop_edges.simps [of f b s cnt p])
  next
    case (Some x)
    obtain i e' where x: "x = (i, e')" by (cases x)
    from "2.prems" e Some x obtain p1 t where p1: "upd_edges f (erase_at i) p = Some p1" "edge_total p1 < edge_total p"
      "stm_type p1 (edge_src e') = Some t"
      by (auto simp: drop_edges.simps [of f b s cnt p] bind_eq_Some_conv)
    have s1: "shrinks p p1" by (rule upd_edges_shrinks(1) [OF p1(1) subseq_erase_at])
    show ?thesis
    proof (cases "t = eGoto")
      case True
      with "2.prems" e Some x p1 obtain po b' d p2 where p2: "stm_parent p1 (edge_src e') = Some po" "po = Some b'"
        "remove_stmt b' (edge_src e') p1 = Some (d, p2)" "edge_total p2 < edge_total p"
        "drop_edges f b s (if b' = b then cnt + d else cnt) p2 = Some (n, q)"
        by (auto simp: drop_edges.simps [of f b s cnt p] bind_eq_Some_conv)
      from "2.IH"(1) p2 True e Some x p1 have "shrinks p1 p2" by auto
      moreover from "2.IH"(2) p2 True e Some x p1 have "shrinks p2 q" by auto
      ultimately show ?thesis using s1 by (blast intro: shrinks_trans)
    next
      case False
      with "2.prems" e Some x p1 have "drop_edges f b s cnt p1 = Some (n, q)"
        by (auto simp: drop_edges.simps [of f b s cnt p] bind_eq_Some_conv)
      with "2.IH"(3) False e Some x p1 have "shrinks p1 q" by auto
      with s1 show ?thesis by (blast intro: shrinks_trans)
    qed
  qed
qed

lemma first_edge_into_None:
  "first_edge_into p s es i = Some None \<Longrightarrow> e \<in> set es \<Longrightarrow> contains_stmt p s (edge_dest e) = Some False"
  by (induction es arbitrary: i) (auto simp: bind_eq_Some_conv split: if_splits)

lemma first_edge_into_Some:
  "first_edge_into p s es i = Some (Some (j, e)) \<Longrightarrow> i \<le> j \<and> j < i + length es"
  by (induction es arbitrary: i) (fastforce simp: bind_eq_Some_conv split: if_splits)+

text \<open>Neither test on the number of edges ever fails: the equation of the loop as the code has it.\<close>

lemma erase_edge_total:
  assumes "fm_edges p f = Some es" "first_edge_into p s es 0 = Some (Some (i, e))" "upd_edges f (erase_at i) p = Some p1"
  shows "edge_total p1 < edge_total p"
proof -
  from first_edge_into_Some [OF assms(2)] have "i < length es" by simp
  with assms(1) have "\<And>es'. fm_edges p f = Some es' \<Longrightarrow> length (erase_at i es') + 1 \<le> length es'"
    by (auto simp: length_erase_at)
  from upd_edges_total [OF assms(3) this] show ?thesis by simp
qed

lemma remove_stmt_total: "remove_stmt b s p = Some (n, q) \<Longrightarrow> edge_total q \<le> edge_total p"
  using removing_shrinks(1) fewer_edges_total by (auto simp: shrinks_def)

lemma drop_edges_unfold:
  "drop_edges f b s cnt p =
     do {
       es \<leftarrow> fm_edges p f;
       r \<leftarrow> first_edge_into p s es 0;
       (case r of
          None \<Rightarrow> Some (cnt, p)
        | Some (i, e) \<Rightarrow> do {
            p1 \<leftarrow> upd_edges f (erase_at i) p;
            t \<leftarrow> stm_type p1 (edge_src e);
            if t = eGoto
            then do {
              po \<leftarrow> stm_parent p1 (edge_src e);
              q \<leftarrow> po;
              (d, p2) \<leftarrow> remove_stmt q (edge_src e) p1;
              drop_edges f b s (if q = b then cnt + d else cnt) p2
            }
            else drop_edges f b s cnt p1
          })
     }"
  (is "?lhs = ?rhs")
proof (cases "fm_edges p f")
  case (Some es)
  show ?thesis
  proof (cases "first_edge_into p s es 0")
    case (Some r)
    note r = \<open>fm_edges p f = Some es\<close> Some
    show ?thesis
    proof (cases r)
      case (Some x)
      obtain i e where x: "x = (i, e)" by (cases x)
      show ?thesis
      proof (cases "upd_edges f (erase_at i) p")
        case p1: (Some p1)
        have l: "edge_total p1 < edge_total p" by (rule erase_edge_total [OF r(1) r(2) [unfolded Some x] p1])
        have m: "remove_stmt q (edge_src e) p1 = Some (d, p2) \<Longrightarrow> edge_total p2 < edge_total p" for q d p2
          using remove_stmt_total l by (meson le_less_trans)
        show ?thesis using r Some x p1 l
          by (auto simp: drop_edges.simps [of f b s cnt p] intro!: option.case_cong Option.bind_cong
              split: option.split prod.split) (frule m, simp)+
      qed (use r Some x in \<open>simp add: drop_edges.simps [of f b s cnt p]\<close>)
    qed (use r in \<open>simp add: drop_edges.simps [of f b s cnt p]\<close>)
  qed (use \<open>fm_edges p f = Some es\<close> in \<open>simp add: drop_edges.simps [of f b s cnt p]\<close>)
qed (simp add: drop_edges.simps [of f b s cnt p])

lemma drop_edges_done:
  assumes "drop_edges f b s cnt p = Some (n, q)"
  shows "\<exists>es. fm_edges q f = Some es \<and> (\<forall>e \<in> set es. contains_stmt q s (edge_dest e) = Some False)"
  using assms
proof (induction "edge_total p" arbitrary: cnt p rule: less_induct)
  case less
  from less.prems obtain es r where e: "fm_edges p f = Some es" "first_edge_into p s es 0 = Some r"
    by (auto simp: drop_edges_unfold [of f b s cnt p] bind_eq_Some_conv)
  show ?case
  proof (cases r)
    case None
    with less.prems e first_edge_into_None [of p s es 0] show ?thesis
      by (simp add: drop_edges_unfold [of f b s cnt p])
  next
    case (Some x)
    obtain i e' where x: "x = (i, e')" by (cases x)
    from less.prems e Some x obtain p1 cnt' p2 where p1: "upd_edges f (erase_at i) p = Some p1"
      "edge_total p2 \<le> edge_total p1" "drop_edges f b s cnt' p2 = Some (n, q)"
      by (auto simp: drop_edges_unfold [of f b s cnt p] bind_eq_Some_conv dest: remove_stmt_total split: if_splits)
    from erase_edge_total [OF e(1) e(2) [unfolded Some x] p1(1)] p1(2) have "edge_total p2 < edge_total p" by simp
    from less.hyps [OF this p1(3)] show ?thesis .
  qed
qed

text \<open>The blocks and the statement are gone.\<close>

lemma fold_keep:
  assumes "fold_opt (\<lambda>c acc. do { b \<leftarrow> g c; Some (if b then acc else acc @ [c]) }) cs acc = Some ds"
    "c \<in> set ds"
  shows "c \<in> set acc \<or> g c = Some False"
  using assms
proof (induction cs arbitrary: acc)
  case (Cons x xs)
  from Cons.prems(1) obtain b where "g x = Some b"
    "fold_opt (\<lambda>c acc. do { b \<leftarrow> g c; Some (if b then acc else acc @ [c]) }) xs (if b then acc else acc @ [x]) = Some ds"
    by (auto simp: bind_eq_Some_conv)
  with Cons.IH [OF this(2) Cons.prems(2)] show ?case by (auto split: if_splits)
qed simp

lemma drop_blocks_gone:
  assumes "drop_blocks f s p = Some q" "c \<in> set (f_blocks (p_funcs q ! f))"
  shows "contains_stmt p s (BlockRef c) = Some False"
proof -
  from assms(1) obtain fn ds where d: "f < length (p_funcs p)" "q = p\<lparr>p_funcs := (p_funcs p)[f := fn\<lparr>f_blocks := ds\<rparr>]\<rparr>"
    "fold_opt (\<lambda>c acc. do { b \<leftarrow> contains_stmt p s (BlockRef c); Some (if b then acc else acc @ [c]) }) (f_blocks fn) [] = Some ds"
    by (auto simp: drop_blocks_def upd_func_def bind_eq_Some_conv)
  with assms(2) have "c \<in> set ds" by simp
  from fold_keep [OF d(3) this] show ?thesis by simp
qed

lemma subseq_distinct: "subseq xs ys \<Longrightarrow> distinct ys \<Longrightarrow> distinct xs"
  by (induction rule: list_emb.induct) (auto dest: list_emb_set)

lemma erase_stm_gone:
  assumes "erase_stm b (StmRef i) p = Some (n, q)" "distinct (b_stms (p_blocks p ! b))"
  shows "i \<notin> set (b_stms (p_blocks q ! b))"
  using assms by (auto simp: erase_stm_def upd_block_def bind_eq_Some_conv split: if_splits)

text \<open>No edge of the function starts at a jump of the statement or ends inside it.\<close>

definition edge_clear :: "program \<Rightarrow> nat \<Rightarrow> stm_ref \<Rightarrow> program \<Rightarrow> bool" where
  "edge_clear p f s q \<longleftrightarrow>
     (\<exists>js es. find_typed_stmts p s [eContinue, eBreak, eGoto] = Some js \<and> fm_edges q f = Some es \<and>
        (\<forall>e \<in> set es. edge_src e \<notin> set js \<and> contains_stmt p s (edge_dest e) = Some False))"

definition blocks_clear :: "program \<Rightarrow> nat \<Rightarrow> stm_ref \<Rightarrow> program \<Rightarrow> bool" where
  "blocks_clear p f s q \<longleftrightarrow> (\<forall>c \<in> set (f_blocks (p_funcs q ! f)). contains_stmt p s (BlockRef c) = Some False)"

lemma remove_stmt_clears:
  assumes "remove_stmt b s p = Some (n, q)" "b_func (p_blocks p ! b) = Some f"
  shows "edge_clear p f s q" "blocks_clear p f s q" "shrinks p q"
    "s = StmRef i \<Longrightarrow> distinct (b_stms (p_blocks p ! b)) \<Longrightarrow> i \<notin> set (b_stms (p_blocks q ! b))"
proof -
  from assms obtain p1 cnt p2 p3 c where
    r: "b < length (p_blocks p)" "drop_jumps f b s p = Some p1" "drop_edges f b s 0 p1 = Some (cnt, p2)"
    "drop_blocks f s p2 = Some p3" "erase_stm b s p3 = Some (c, q)"
    by (auto simp: remove_stmt.simps [of b s p] bind_eq_Some_conv)
  have s1: "shrinks p p1" and s12: "shrinks p1 p2" and s2: "shrinks p p2" and s3: "shrinks p p3"
    using r removing_shrinks(2) drop_jumps_shrinks drop_blocks_shrinks by (blast intro: shrinks_trans)+
  from drop_edges_done [OF r(3)] obtain es where es: "fm_edges p2 f = Some es"
    "\<forall>e \<in> set es. contains_stmt p2 s (edge_dest e) = Some False" by blast
  from shrinks_edges [OF s12 es(1)] obtain es1 where es1: "fm_edges p1 f = Some es1" "subseq es es1" .
  from r(2) obtain js where js: "find_typed_stmts p s [eContinue, eBreak, eGoto] = Some js"
    by (auto simp: drop_jumps_def bind_eq_Some_conv)
  from drop_jumps_edges [OF r(2) js es1(1)] es1(2) have "\<forall>e \<in> set es. edge_src e \<notin> set js"
    by (auto dest: list_emb_set)
  moreover from es(2) have "\<forall>e \<in> set es. contains_stmt p s (edge_dest e) = Some False"
    by (simp add: shrinks_contains [OF s2])
  moreover have "fm_edges q f = Some es"
    using es(1) drop_blocks_shrinks [OF r(4)] erase_stm_shrinks [OF r(5)] by (simp add: fm_edges_def get_fact_mgr_def)
  ultimately show "edge_clear p f s q" using js by (auto simp: edge_clear_def)
  show "blocks_clear p f s q"
    using drop_blocks_gone [OF r(4)] erase_stm_shrinks [OF r(5)] by (simp add: blocks_clear_def shrinks_contains [OF s2])
  show "shrinks p q" by (rule removing_shrinks(1) [OF assms(1)])
  assume "s = StmRef i" "distinct (b_stms (p_blocks p ! b))"
  with erase_stm_gone r(5) shrinks_func(3) [OF s3 r(1)] subseq_distinct show "i \<notin> set (b_stms (p_blocks q ! b))"
    by blast
qed

section \<open>After the creation of a block\<close>

text \<open>\<open>for (i = index; i < len; i++) { remove_stmt(stms[i]); i = index - 1; len = stms.size(); }\<close>\<close>

lemma remove_stmt_shorter:
  assumes "remove_stmt b (StmRef i) p = Some (n, q)" "i \<in> set (b_stms (p_blocks p ! b))"
  shows "length (b_stms (p_blocks q ! b)) < length (b_stms (p_blocks p ! b))"
proof -
  from assms obtain f p1 cnt p2 p3 c where
    r: "b < length (p_blocks p)" "drop_jumps f b (StmRef i) p = Some p1" "drop_edges f b (StmRef i) 0 p1 = Some (cnt, p2)"
    "drop_blocks f (StmRef i) p2 = Some p3" "erase_stm b (StmRef i) p3 = Some (c, q)"
    by (auto simp: remove_stmt.simps [of b "StmRef i" p] bind_eq_Some_conv)
  have s3: "shrinks p p3"
    using r removing_shrinks(2) drop_jumps_shrinks drop_blocks_shrinks by (blast intro: shrinks_trans)
  note sub = shrinks_func(3) [OF s3 r(1)]
  show ?thesis
  proof (cases "i \<in> set (b_stms (p_blocks p3 ! b))")
    case True
    with r(5) have "b_stms (p_blocks q ! b) = remove1 i (b_stms (p_blocks p3 ! b))"
      by (auto simp: erase_stm_def upd_block_def bind_eq_Some_conv)
    moreover from True have "length (remove1 i (b_stms (p_blocks p3 ! b))) < length (b_stms (p_blocks p3 ! b))"
      using length_pos_if_in_set [OF True] by (simp add: length_remove1)
    ultimately show ?thesis using list_emb_length [OF sub] by simp
  next
    case False
    with r(5) have "q = p3" by (auto simp: erase_stm_def bind_eq_Some_conv)
    with False assms(2) sub show ?thesis
      by (metis le_neq_implies_less list_emb_length subseq_same_length)
  qed
qed

function remove_from :: "nat \<Rightarrow> nat \<Rightarrow> program \<Rightarrow> program option" where
  "remove_from b index p =
     do {
       blk \<leftarrow> vec_get (p_blocks p) b;
       if index < length (b_stms blk)
       then do { (_, p) \<leftarrow> remove_stmt b (StmRef (b_stms blk ! index)) p; remove_from b index p }
       else Some p
     }"
  by pat_completeness auto
termination
  by (relation "measure (\<lambda>(b, index, p). length (b_stms (p_blocks p ! b)))") (auto dest: remove_stmt_shorter)

declare remove_from.simps [simp del]

lemma remove_from_spec:
  assumes "remove_from b index p = Some q"
  shows "shrinks p q \<and> b < length (p_blocks p) \<and> length (b_stms (p_blocks q ! b)) \<le> index"
  using assms
proof (induction b index p rule: remove_from.induct)
  case (1 b index p)
  show ?case
  proof (cases "b < length (p_blocks p) \<and> index < length (b_stms (p_blocks p ! b))")
    case True
    with "1.prems" obtain n p1 where r: "remove_stmt b (StmRef (b_stms (p_blocks p ! b) ! index)) p = Some (n, p1)"
      "remove_from b index p1 = Some q"
      by (auto simp: remove_from.simps [of b index p] bind_eq_Some_conv)
    from removing_shrinks(1) [OF r(1)] "1.IH" [OF _ _ r(1) _ r(2)] True shrinks_trans show ?thesis by auto
  next
    case False
    with "1.prems" show ?thesis by (auto simp: remove_from.simps [of b index p] bind_eq_Some_conv split: if_splits)
  qed
qed

text \<open>After a failed analysis: the statement at \<open>index\<close> and all behind it are removed.  \<open>self_back_edge\<close> says
  whether the block already has an edge from its end to its head.\<close>

definition add_back_edge :: "nat \<Rightarrow> CGContext \<Rightarrow> bool \<Rightarrow> program \<Rightarrow> program option" where
  "add_back_edge b ctx add p =
     (if add then upd_fm ctx (create_cfg_edge (BlockRef b) (BlockRef b) False True) p else Some p)"

definition retry :: "nat \<Rightarrow> nat \<Rightarrow> bool \<Rightarrow> Effect \<Rightarrow> program \<Rightarrow> CGContext \<Rightarrow> (bool \<times> program \<times> CGContext) option" where
  "retry b index self_back_edge pre_effect p ctx =
     do {
       p \<leftarrow> remove_from b index p;
       p \<leftarrow> upd_block b (\<lambda>blk. blk\<lparr>b_need_revisit := True\<rparr>) p;
       fm \<leftarrow> get_fact_mgr p (cg_func ctx);
       fm \<leftarrow> reset_stm_fact_maps p (BlockRef b) fm;
       let p = set_fact_mgr (cg_func ctx) fm p;
       add \<leftarrow> (if self_back_edge then Some False else from_tail_to_head p b);
       p \<leftarrow> add_back_edge b ctx add p;
       Some (self_back_edge \<or> add, p, reset_effect_accum pre_effect ctx)
     }"

definition block_length :: "nat \<Rightarrow> program \<Rightarrow> nat" where
  "block_length b p = length (b_stms (p_blocks p ! b))"

lemma frozen_length: "frozen q = frozen p \<Longrightarrow> block_length b q = block_length b p"
  using frozen_fields(3) [of q p] by (simp add: block_length_def)

lemma upd_fm_blocks: "upd_fm ctx g p = Some q \<Longrightarrow> p_blocks q = p_blocks p"
  by (auto simp: upd_fm_def set_fact_mgr_def bind_eq_Some_conv split: option.splits)

lemma retry_length:
  assumes "retry b index self pre p ctx = Some (self', q, ctx')"
  shows "block_length b q \<le> index"
proof -
  from assms obtain p1 p2 fm where r: "remove_from b index p = Some p1"
    "upd_block b (\<lambda>blk. blk\<lparr>b_need_revisit := True\<rparr>) p1 = Some p2"
    "p_blocks q = p_blocks (set_fact_mgr (cg_func ctx) fm p2)"
    by (auto simp: retry_def Let_def bind_eq_Some_conv add_back_edge_def dest: upd_fm_blocks split: if_splits)
  from remove_from_spec [OF r(1)] have "block_length b p1 \<le> index" by (simp add: block_length_def)
  moreover from r(2,3) have "block_length b q = block_length b p1"
    by (auto simp: block_length_def upd_block_def set_fact_mgr_def bind_eq_Some_conv split: option.splits)
  ultimately show ?thesis by simp
qed

text \<open>The loop of \<open>post_creation_analysis\<close>, with the depth \<open>n\<close> of the analysis.  Every failed round removes
  a statement at least, so it ends.\<close>

function settle ::
    "nat \<Rightarrow> nat \<Rightarrow> bool \<Rightarrow> Effect \<Rightarrow> Fact list \<Rightarrow> Fact list \<Rightarrow> program \<Rightarrow> CGContext \<Rightarrow> (Fact list \<times> program \<times> CGContext) option" where
  "settle n b self_back_edge pre_effect facts_copy post_facts p ctx =
     do {
       blk \<leftarrow> vec_get (p_blocks p) b;
       (ok, index, post_facts, p1, ctx1) \<leftarrow> find_fixed_point (stm_visit n) b (b_need_revisit blk) post_facts 0 facts_copy p ctx;
       if ok then Some (post_facts, p1, ctx1)
       else do {
         (self_back_edge, p2, ctx2) \<leftarrow> retry b index self_back_edge pre_effect p1 ctx1;
         settle n b self_back_edge pre_effect facts_copy post_facts p2 ctx2
       }
     }"
  by pat_completeness auto
termination
proof (relation "measure (\<lambda>(n, b, self, pre, facts, post, p, ctx). block_length b p)", goal_cases)
  case (2 n b self pre facts post p ctx blk r ok s index t post1 u p1 ctx1 v self2 w p2 ctx2)
  then have f: "find_fixed_point (stm_visit n) b (b_need_revisit blk) post 0 facts p ctx = Some (False, index, post1, p1, ctx1)"
    and "retry b index self pre p1 ctx1 = Some (self2, p2, ctx2)"
    by (auto simp del: vec_get_Some)
  with retry_length have "block_length b p2 \<le> index" by blast
  with analysis_frozen.find_fixed_point_failed [OF f] show ?case by (simp add: block_length_def)
qed simp

declare settle.simps [simp del]

definition thinned :: "nat \<Rightarrow> program \<Rightarrow> program \<Rightarrow> bool" where
  "thinned b p q \<longleftrightarrow> same_tree p q \<and> subseq (b_stms (p_blocks q ! b)) (b_stms (p_blocks p ! b))"

lemma thinned_trans: "thinned b p q \<Longrightarrow> thinned b q r \<Longrightarrow> thinned b p r"
  by (auto simp: thinned_def intro: same_tree_trans subseq_order.trans)

lemma frozen_thinned: "frozen q = frozen p \<Longrightarrow> thinned b p q"
  by (simp add: thinned_def same_tree_def frozen_def)

lemma upd_fm_thinned: "upd_fm ctx g p = Some q \<Longrightarrow> thinned b p q"
  by (auto simp: upd_fm_def set_fact_mgr_def thinned_def same_tree_def bind_eq_Some_conv split: option.splits)

lemma retry_thinned:
  assumes "retry b index self pre p ctx = Some (self', q, ctx')"
  shows "thinned b p q"
proof -
  from assms obtain p1 p2 fm add where r: "remove_from b index p = Some p1"
    "upd_block b (\<lambda>blk. blk\<lparr>b_need_revisit := True\<rparr>) p1 = Some p2"
    "add_back_edge b ctx add (set_fact_mgr (cg_func ctx) fm p2) = Some q"
    by (auto simp: retry_def Let_def bind_eq_Some_conv)
  from remove_from_spec [OF r(1)] shrinks_func(3) have "thinned b p p1" by (auto simp: thinned_def shrinks_def)
  moreover from upd_block_shrinks [OF r(2)] remove_from_spec [OF r(1)] shrinks_func(3) r(2)
  have "thinned b p1 p2" by (auto simp: thinned_def shrinks_def upd_block_def bind_eq_Some_conv)
  moreover have "thinned b p2 (set_fact_mgr (cg_func ctx) fm p2)"
    by (simp add: thinned_def same_tree_def set_fact_mgr_def split: option.splits)
  moreover from r(3) have "thinned b (set_fact_mgr (cg_func ctx) fm p2) q"
    by (auto simp: add_back_edge_def thinned_def split: if_splits dest: upd_fm_thinned [of _ _ _ _ b])
  ultimately show ?thesis using thinned_trans by blast
qed

lemma settle_accepts:
  assumes "settle n b self pre facts post p ctx = Some (post', q, ctx')"
  shows "thinned b p q \<and> (\<exists>p0 ctx0 once post0 i.
    find_fixed_point (stm_visit n) b once post0 0 facts p0 ctx0 = Some (True, i, post', q, ctx')
    \<and> b_stms (p_blocks p0 ! b) = b_stms (p_blocks q ! b))"
  using assms
proof (induction n b self pre facts post p ctx rule: settle.induct)
  case (1 n b self pre facts post p ctx)
  from "1.prems" obtain blk ok index post1 p1 ctx1 where f: "vec_get (p_blocks p) b = Some blk"
    "find_fixed_point (stm_visit n) b (b_need_revisit blk) post 0 facts p ctx = Some (ok, index, post1, p1, ctx1)"
    by (auto simp: settle.simps [of n b self] bind_eq_Some_conv simp del: vec_get_Some)
  from analysis_frozen.find_fixed_point_frozen [OF f(2)] have fr: "frozen p1 = frozen p" .
  show ?case
  proof (cases ok)
    case True
    with "1.prems" f have "post' = post1" "q = p1" "ctx' = ctx1"
      by (auto simp: settle.simps [of n b self] simp del: vec_get_Some)
    moreover from fr have "b_stms (p_blocks p ! b) = b_stms (p_blocks p1 ! b)"
      using frozen_fields(3) [OF fr] by simp
    ultimately show ?thesis using f(2) True frozen_thinned [OF fr, of b]
      by (intro conjI exI [of _ p] exI [of _ ctx] exI [of _ "b_need_revisit blk"] exI [of _ post] exI [of _ index]) simp_all
  next
    case False
    with "1.prems" f obtain self2 p2 ctx2 where r: "retry b index self pre p1 ctx1 = Some (self2, p2, ctx2)"
      "settle n b self2 pre facts post1 p2 ctx2 = Some (post', q, ctx')"
      by (auto simp: settle.simps [of n b self] bind_eq_Some_conv simp del: vec_get_Some)
    from "1.IH" [OF f(1,2) refl refl refl refl False r(1) refl refl r(2)] retry_thinned [OF r(1)] frozen_thinned [OF fr, of b]
    show ?thesis using thinned_trans by blast
  qed
qed

text \<open>\<open>Block::post_creation_analysis\<close> up to the fixed point.\<close>

definition close_block :: "nat \<Rightarrow> CGContext \<Rightarrow> program \<Rightarrow> (Fact list \<times> program) option" where
  "close_block b ctx p =
     do {
       blk \<leftarrow> vec_get (p_blocks p) b;
       f \<leftarrow> cg_func ctx;
       fm \<leftarrow> get_fact_mgr p (Some f);
       fm \<leftarrow> set_accumulated_effect p b (fm\<lparr>fm_visited := (fm_visited fm)(BlockRef b := True)\<rparr>);
       let post_facts = fm_global_facts fm;
       facts \<leftarrow> update_facts_for_oos_vars (p_vars p) (b_local_vars blk) post_facts;
       facts \<leftarrow> remove_rv_facts p f facts;
       fm \<leftarrow> set_fact_out p (BlockRef b) facts (fm\<lparr>fm_global_facts := facts\<rparr>);
       Some (post_facts, set_fact_mgr (Some f) fm p)
     }"

definition post_creation_block ::
    "nat \<Rightarrow> nat \<Rightarrow> Effect \<Rightarrow> program \<Rightarrow> CGContext \<Rightarrow> (Fact list \<times> program \<times> CGContext) option" where
  "post_creation_block n b pre_effect p ctx =
     do {
       blk \<leftarrow> vec_get (p_blocks p) b;
       (post_facts, p) \<leftarrow> close_block b ctx p;
       leaves \<leftarrow> must_break_or_return p b;
       let is_loop_body = (\<not> leaves \<and> b_looping blk);
       search \<leftarrow> (if is_loop_body \<or> b_need_revisit blk then Some True else has_edge_in p (BlockRef b) False True);
       if \<not> search then Some (post_facts, p, ctx)
       else do {
         self_back_edge \<leftarrow> (if is_loop_body then from_tail_to_head p b else Some False);
         p \<leftarrow> add_back_edge b ctx self_back_edge p;
         fm \<leftarrow> get_fact_mgr p (cg_func ctx);
         (post_facts, p, ctx) \<leftarrow> settle n b self_back_edge pre_effect (facts_at (fm_facts_in fm) (BlockRef b)) post_facts p
           (reset_effect_accum pre_effect ctx);
         p \<leftarrow> upd_fm ctx (\<lambda>fm. fm\<lparr>fm_global_facts := facts_at (fm_facts_out fm) (BlockRef b)\<rparr>) p;
         Some (post_facts, p, ctx)
       }
     }"

text \<open>When this holds the code appends a new return statement to the block, starting from \<open>post_facts\<close>.\<close>

definition return_missing :: "program \<Rightarrow> nat \<Rightarrow> bool option" where
  "return_missing p b =
     do {
       blk \<leftarrow> vec_get (p_blocks p) b;
       if b_parent blk \<noteq> None then Some False
       else do {
         f \<leftarrow> b_func blk;
         fn \<leftarrow> vec_get (p_funcs p) f;
         if need_return_stmt fn then map_option Not (must_return p b) else Some False
       }
     }"

section \<open>After the creation of another statement\<close>

definition stm_has_uncertain_call :: "stm_kind \<Rightarrow> bool" where
  "stm_has_uncertain_call k = (case k of
       StatementAssign a \<Rightarrow> has_uncertain_call_recursive (sa_expr a)
     | StatementExpr e \<Rightarrow> has_uncertain_call_recursive e
     | _ \<Rightarrow> False)"

text \<open>Facts of variables that the statement has created are added to those before it.\<close>

definition facts_before :: "program \<Rightarrow> stm_kind \<Rightarrow> Fact list \<Rightarrow> FactMgr \<Rightarrow> (Fact list \<times> FactMgr) option" where
  "facts_before p k pre_facts fm = (case k of
       StatementIf _ t f \<Rightarrow> combine_branch_facts p t f pre_facts fm
     | _ \<Rightarrow> map_option (\<lambda>pre. (pre, fm)) (makeup_new_var_facts p pre_facts (fm_global_facts fm)))"

definition set_global_facts :: "nat \<Rightarrow> Fact list \<Rightarrow> program \<Rightarrow> program option" where
  "set_global_facts f facts p =
     do { fm \<leftarrow> get_fact_mgr p (Some f); Some (set_fact_mgr (Some f) (fm\<lparr>fm_global_facts := facts\<rparr>) p) }"

text \<open>A statement of \<open>func_1\<close> outside of loops is never visited again.  When it has operands that call
  functions in no fixed order it is analysed here; of the others only the assignment itself or the
  returned value is missing.\<close>

definition last_step ::
    "nat \<Rightarrow> nat \<Rightarrow> nat \<Rightarrow> stm_kind \<Rightarrow> Fact list \<Rightarrow> Effect \<Rightarrow> program \<Rightarrow> CGContext \<Rightarrow> (program \<times> CGContext) option" where
  "last_step n i f k pre_facts pre_effect p ctx =
     do {
       cf \<leftarrow> cg_func ctx;
       fn \<leftarrow> vec_get (p_funcs p) cf;
       fm \<leftarrow> get_fact_mgr p (Some f);
       if f_name fn = ''func_1'' \<and> \<not> has_flag IN_LOOP ctx \<and> stm_has_uncertain_call k
       then do {
         (ok, p, outputs, ctx) \<leftarrow> validate_and_update_facts (stm_visit n) p pre_facts (reset_effect_accum pre_effect ctx) (StmRef i);
         assert_opt ok;
         p \<leftarrow> set_global_facts f outputs p;
         Some (p, ctx)
       }
       else (case k of
           StatementAssign a \<Rightarrow> do {
             (facts, p) \<leftarrow> update_fact_for_stm_assign p a (fm_global_facts fm);
             p \<leftarrow> set_global_facts f facts p;
             Some (p, ctx)
           }
         | StatementReturn e \<Rightarrow> do {
             (facts, p) \<leftarrow> update_fact_for_return p i (fm_global_facts fm);
             p \<leftarrow> set_global_facts f facts p;
             Some (p, ctx)
           }
         | _ \<Rightarrow> Some (p, ctx))
     }"

definition post_creation_stm ::
    "nat \<Rightarrow> nat \<Rightarrow> Fact list \<Rightarrow> Effect \<Rightarrow> program \<Rightarrow> CGContext \<Rightarrow> (Fact list \<times> program \<times> CGContext) option" where
  "post_creation_stm n i pre_facts pre_effect p ctx =
     do {
       s \<leftarrow> vec_get (p_stms p) i;
       f \<leftarrow> s_func s;
       fm \<leftarrow> get_fact_mgr p (Some f);
       (pre_facts, fm) \<leftarrow> facts_before p (s_kind s) pre_facts fm;
       let fm = (if is_compound (kind_type (s_kind s)) then fm else set_stm_effect (StmRef i) (cg_effect_stm ctx) fm);
       (p, ctx) \<leftarrow> last_step n i f (s_kind s) pre_facts pre_effect (set_fact_mgr (Some f) fm p) ctx;
       fm \<leftarrow> get_fact_mgr p (Some f);
       facts \<leftarrow> remove_rv_facts p f (fm_global_facts fm);
       fm \<leftarrow> set_fact_out p (StmRef i) facts (set_fact_in (StmRef i) pre_facts (fm\<lparr>fm_global_facts := facts\<rparr>));
       accum \<leftarrow> cg_effect_accum ctx;
       let fm = set_accum_effect (StmRef i) accum fm;
       Some (pre_facts, set_fact_mgr (Some f) (fm\<lparr>fm_visited := (fm_visited fm)(StmRef i := True)\<rparr>) p, ctx)
     }"

section \<open>Properties\<close>

lemma removal:
  assumes "remove_stmt b s p = Some (n, q)" "b_func (p_blocks p ! b) = Some f"
  shows "edge_clear p f s q \<and> blocks_clear p f s q \<and> shrinks p q \<and>
    (distinct (b_stms (p_blocks p ! b)) \<longrightarrow> s \<notin> StmRef ` set (b_stms (p_blocks q ! b)))"
  using remove_stmt_clears [OF assms] by auto


text \<open>\<open>{ goto l; l: g_3; g_5; }\<close>\<close>

definition main_function :: Function where
  "main_function = \<lparr>f_name = ''func_1'', f_param = [], f_return_type = int_type, f_rv = 3, f_referenced = [],
     f_stack = [0], f_blocks = [0], f_body = Some 0, f_feffect = empty_effect, f_fact_changed = False,
     f_union_field_read = False, f_is_builtin = False, f_visited_cnt = 0, f_accum_eff_context = empty_effect,
     f_dead_globals = []\<rparr>"

definition stm_of :: "int \<Rightarrow> stm_kind \<Rightarrow> Statement" where
  "stm_of i k = \<lparr>s_id = i, s_func = Some 0, s_parent = Some 0, s_kind = k\<rparr>"

definition goto_program :: program where
  "goto_program = sum_program\<lparr>p_funcs := [main_function],
     p_blocks := [\<lparr>b_parent = None, b_func = Some 0, b_local_vars = [], b_stms = [0, 1, 2], b_stm_id = 0, b_looping = False,
       b_in_array_loop = False, b_need_revisit = False, b_break_stms = []\<rparr>],
     p_stms := [stm_of 1 (StatementGoto sum_left (StmRef 1) ''l'' []), stm_of 2 (StatementExpr sum_left),
       stm_of 3 (StatementExpr (ExpressionVariable 7 5 int_type))],
     p_fms := [empty_fact_mgr\<lparr>fm_cfg_edges := [\<lparr>edge_src = StmRef 0, edge_dest = StmRef 1, edge_post_dest = False,
       edge_back_link = False\<rparr>]\<rparr>]\<rparr>"

lemma goto_removed:
  "map_option (\<lambda>(n, q). (n, b_stms (p_blocks q ! 0), map fm_cfg_edges (p_fms q))) (remove_stmt 0 (StmRef 1) goto_program)
   = Some (2, [2], [[]])"
  by code_simp



text \<open>The reading of \<open>g_5\<close> conflicts with the context; the goto is kept.\<close>

lemma conflict_repaired:
  "map_option (\<lambda>(post, q, ctx). b_stms (p_blocks q ! 0))
     (settle 3 0 False empty_effect [FactPointTo 4 [3]] [] goto_program (sum_context\<lparr>cg_func := Some 0\<rparr>)) = Some [0, 1]"
  by code_simp


end
