(* ===== verification/Spec2Isabelle.thy ===== *)
theory Spec2Isabelle
  imports Rand48 StringUtils PartialExpander Options Tables World RandomGen DfsSearch Enumerator Enums Probs DepthSpec Types Quals Variables Scopes Effects Bookkeeping TypeGen TypeEnv SafeMath Facts CommandLine Expressions Program PointsTransfer FactManager Context ExprAnalysis StmAnalysis AnalysisFrame BlockEdit
begin

text \<open>
  HIPSmith is a random generator of C and HIP programs, derived from Csmith.  It builds a program top down,
  drawing every choice from a random source, and analyses what it has built so far (effects and
  points-to facts) so that the result is free of undefined behaviour.  This development models the parts
  that decide what is generated and that make the result safe to run; file names below are relative to
  \<open>src/src\<close>.

  \<^bold>\<open>The parts and how they interact.\<close>
  The command line sets the options, and a conflict check accepts or rejects them.  The probabilities are
  initialised from the options (or from a configuration file) and answer every later question ``how
  likely is ...''.  All draws go through one dispatcher to one of two generators: the default one
  (rejection sampling over a congruential generator) or the exhaustive one, which replays a path of a
  search tree and backtracks.  Types, qualifiers, variables, expressions and statements are built with
  these draws.  While a function is built, a fact manager holds what is known about pointers and unions
  at every statement, and a context holds which effects the next access may not conflict with.  After
  each statement and block the analysis runs over it; what it rejects is removed again.  At run time the
  programs use checked arithmetic from a header of macros.

  \<^bold>\<open>Conventions\<close> (theory \<open>Prelude\<close>).  A function that can abort (a failed assertion) or has undefined
  behaviour (an index out of range, a null dereference) has an \<open>option\<close> result whose \<open>None\<close> is exactly
  that; other error results are values.  Objects that are shared by pointer live in lists and are
  addressed by their index: types by their address \<open>ti_id\<close>, variables in the store \<open>p_vars\<close>, blocks, other
  statements, functions and fact managers in \<open>program\<close>.  State is passed explicitly.  Machine integers
  are words, or \<open>int\<close> with the wrap-around written out.  The collections \<open>aborts\<close> and \<open>defined\<close> carry the
  proofs about \<open>None\<close>.

  \<^bold>\<open>Random source.\<close>
  \<^item> \<open>Rand48\<close>: the congruential generator (\<open>rand48/\<close>), limb by limb; it is the 48-bit recurrence.
  \<^item> \<open>World\<close>, \<open>RandomGen\<close>: the shared state, \<open>LinearSequence\<close>, the filters, \<open>DefaultRndNumGenerator.cpp\<close>,
    \<open>DFSRndNumGenerator.cpp\<close>, \<open>RandomNumber.cpp\<close>, \<open>random.cpp\<close>.  The locale \<open>random_source\<close> is the contract
    of a generator (draws in range, invariant kept), \<open>total_random_source\<close> adds that no draw fails; both
    generators and the dispatcher are interpretations.
  \<^item> \<open>DfsSearch\<close>: \<open>DFSProgramGenerator.cpp\<close>; the search enumerates all choice sequences exactly once, for any
    program generator with a bounded number of choices (the generator is a parameter here).
  \<^item> \<open>Tables\<close>, \<open>Probs\<close>: \<open>ProbabilityTable.h\<close>, \<open>Probabilities.cpp\<close> with parser and dump of the configuration.
  \<^item> \<open>Enumerator\<close>, \<open>DepthSpec\<close>, \<open>PartialExpander\<close>: what else steers the exhaustive mode.

  \<^bold>\<open>Options.\<close>  \<open>Enums\<close>, \<open>Options\<close> (\<open>CGOptions.cpp\<close>), \<open>CommandLine\<close> (both \<open>main\<close> functions), \<open>StringUtils\<close>.

  \<^bold>\<open>Types, qualifiers, variables.\<close>
  \<^item> \<open>Types\<close>, \<open>TypeGen\<close>, \<open>TypeEnv\<close>: \<open>Type.cpp\<close>: queries, construction, and what construction promises.  The
    locale \<open>default_property\<close> lifts an invariant of the environment over all draws.
  \<^item> \<open>Quals\<close>: \<open>CVQualifiers.cpp\<close>.  \<open>Variables\<close>, \<open>Scopes\<close>: \<open>Variable.cpp\<close>, the queries of \<open>ArrayVariable.cpp\<close>, and
    visibility.

  \<^bold>\<open>The program and its analysis.\<close>
  \<^item> \<open>Expressions\<close>, \<open>Program\<close>: the data of expressions, statements, blocks, functions and fact managers with
    every query on them.
  \<^item> \<open>Effects\<close>: \<open>Effect.cpp\<close>.  \<open>Facts\<close>: the lattice of points-to and union facts; the locales \<open>join_domain\<close>
    and \<open>exact_domain\<close> say what a join means and are interpreted for both kinds of fact.
  \<^item> \<open>PointsTransfer\<close>, \<open>FactManager\<close>: the transfer functions and \<open>FactMgr.cpp\<close>, with soundness against
    concrete memories.
  \<^item> \<open>Context\<close>: \<open>CGContext.cpp\<close>; \<open>ExprAnalysis\<close>, \<open>StmAnalysis\<close>: every \<open>visit_facts\<close>.  The locale
    \<open>sound_visitor\<close> is the contract of a visit (accepted accesses are allowed); its interpretation is the
    analysis itself, by induction on its depth.
  \<^item> \<open>AnalysisFrame\<close>: the analysis leaves the program alone (locale \<open>frozen_visitor\<close>).
  \<^item> \<open>BlockEdit\<close>: \<open>post_creation_analysis\<close> of blocks and statements and \<open>Block::remove_stmt\<close>.

  \<^bold>\<open>Around it.\<close>  \<open>Bookkeeping\<close>: the statistics.  \<open>SafeMath\<close>: the run time arithmetic of \<open>runtime/HIPSmith.h\<close>
  and \<open>runtime/safe_math.m4\<close>.

  \<^bold>\<open>What the lemmas show.\<close>  The properties C1 to C40 stand next to the component they are about.  In short:
  accepted code does not conflict (C1, C2); editing a block leaves no dangling edge and the repair ends
  (C3, C4); the analysis does not change the program (C5); exhaustive search and enumeration are complete
  and without repetition; every table answers every draw, with the configured weights; the points-to
  analysis is sound for assignments and scope exits, its joins are unions and its iteration ends; checked
  arithmetic is total and exact; generated types are well-formed and within their limits; options that
  pass the conflict check are sane; parsing inverts printing; race detection and matching are what their
  names say.

  \<^bold>\<open>Bounds, fuel and termination.\<close>  Recursion that is not structural comes with a measure; walks along
  pointers check that addresses decrease, which \<open>store_ok\<close> and \<open>blocks_ok\<close> guarantee.  The rejection
  sampling of the default generator and the loop of the exhaustive driver need not end for every input:
  they are partial functions, and the properties prove that they return.  \<open>analysis n\<close> bounds the nesting
  of visits by \<open>n\<close>; a result with some \<open>n\<close> is the code's result, and \<open>None\<close> may also mean that \<open>n\<close> was too
  small, so the properties about it start from a result.  The fixed point of a block allows ten rounds;
  the code's own assertion stops it earlier (\<open>ten_rounds_suffice\<close>).  The tests on the number of edges in
  \<open>drop_edges\<close> never fail (\<open>drop_edges_unfold\<close>).

  \<^bold>\<open>Not modelled.\<close>  The random generation of variables, expressions, statements and functions
  (\<open>VariableSelector.cpp\<close> and the \<open>make_random\<close> functions), which draws from the modelled parts; printing of
  the program (\<open>*OutputMgr.cpp\<close>, \<open>Output\<close> methods, \<open>HIPSmith/Globals.cpp\<close>, \<open>HIPVariable.cpp\<close>), which makes no
  decision; the extensions for external tools, attributes and platform functions.  Floating point is
  left out where it only feeds reports.  HIP's own operators and atomics are parameters of \<open>SafeMath\<close>.
\<close>

end
